(* ===== verification/Wgi_Prelude.thy ===== *)
theory Wgi_Prelude
  imports Main "HOL-Library.Word" "HOL-Library.Monad_Syntax"
begin

text \<open>
  Shared vocabulary of the development: the machine integer types of the C sources, C's
  conversions to and from \<open>int\<close>, memory cells that may be read or written only inside their
  object, and the list lemmas several components need.

  Undefined behaviour is a value.  An operation that reads or writes memory returns an
  \<open>option\<close>; \<open>None\<close> stands for an access outside the object (or any other behaviour the C
  standard leaves undefined) and propagates through the \<open>do\<close> notation.  Memory safety of a
  component is then the statement that its operations return \<open>Some\<close>.
\<close>

section \<open>Collections of rewrite rules\<close>

named_theorems ub_simps \<open>unfolding guarded memory accesses\<close>
named_theorems c_conv \<open>C conversions that do not change the value\<close>

section \<open>Machine integers\<close>

type_synonym byte = "8 word"
type_synonym u16 = "16 word"
type_synonym u32 = "32 word"
type_synonym u64 = "64 word"

text \<open>The conversion of a mathematical integer to C's 32 bit \<open>int\<close> (two's complement).\<close>

definition c_int :: "int \<Rightarrow> int" where
  "c_int x = (x + 2 ^ 31) mod 2 ^ 32 - 2 ^ 31"

text \<open>The value of a plain \<open>char\<close>, which is signed on the wasm32 target.\<close>

definition schar :: "char \<Rightarrow> int" where
  "schar c = (let n = of_char c in if n < 128 then n else n - 256)"

lemma c_int_id [c_conv]: "- (2 ^ 31) \<le> x \<Longrightarrow> x < 2 ^ 31 \<Longrightarrow> c_int x = x"
  unfolding c_int_def by (subst mod_pos_pos_trivial) auto

lemma c_int_of_nat [c_conv]: "n < 2 ^ 31 \<Longrightarrow> c_int (int n) = int n"
  by (rule c_int_id) simp_all

lemma c_int_range: "- (2 ^ 31) \<le> c_int x \<and> c_int x < 2 ^ 31"
  unfolding c_int_def using pos_mod_bound [of "2 ^ 32" "x + 2 ^ 31"] pos_mod_sign [of "2 ^ 32" "x + 2 ^ 31"]
  by simp

abbreviation NUL :: char where "NUL \<equiv> CHR 0x00"

section \<open>Guarded memory accesses\<close>

declare Option.bind_cong [fundef_cong]

text \<open>
  With this congruence the simplifier evaluates a \<open>do\<close> block from left to right, without looking at
  the steps that come later.
\<close>

lemma bind_weak_cong: "x = y \<Longrightarrow> Option.bind x f = Option.bind y f"
  by simp

definition rd :: "'a list \<Rightarrow> nat \<Rightarrow> 'a option" where
  "rd xs i = (if i < length xs then Some (xs ! i) else None)"

definition wr :: "'a list \<Rightarrow> nat \<Rightarrow> 'a \<Rightarrow> 'a list option" where
  "wr xs i v = (if i < length xs then Some (xs[i := v]) else None)"

text \<open>Indexing with a C \<open>int\<close>: a negative index is outside the object.\<close>

definition rd_int :: "'a list \<Rightarrow> int \<Rightarrow> 'a option" where
  "rd_int xs i = (if 0 \<le> i then rd xs (nat i) else None)"

lemma rd_Some [simp]: "i < length xs \<Longrightarrow> rd xs i = Some (xs ! i)"
  by (simp add: rd_def)

lemma rd_eq_Some_iff [ub_simps]: "rd xs i = Some x \<longleftrightarrow> i < length xs \<and> x = xs ! i"
  by (auto simp: rd_def)

lemma wr_Some [simp]: "i < length xs \<Longrightarrow> wr xs i v = Some (xs[i := v])"
  by (simp add: wr_def)

lemma wr_eq_Some_iff [ub_simps]: "wr xs i v = Some ys \<longleftrightarrow> i < length xs \<and> ys = xs[i := v]"
  by (auto simp: wr_def)

lemma rd_int_of_nat [simp]: "rd_int xs (int i) = rd xs i"
  by (simp add: rd_int_def)

lemma rd_int_eq_Some_iff [ub_simps]:
  "rd_int xs i = Some x \<longleftrightarrow> 0 \<le> i \<and> i < int (length xs) \<and> x = xs ! nat i"
  by (auto simp: rd_int_def rd_def)

lemma rd_append_left [simp]: "i < length xs \<Longrightarrow> rd (xs @ ys) i = Some (xs ! i)"
  by (simp add: rd_def nth_append)

lemma rd_append_at [simp]: "rd (xs @ y # ys) (length xs) = Some y"
  by (simp add: rd_def nth_append)

section \<open>List lemmas\<close>

lemma drop_eq_Cons_nth: "i < length xs \<Longrightarrow> drop i xs = xs ! i # drop (Suc i) xs"
  by (simp add: Cons_nth_drop_Suc)

lemma list_update_append_at [simp]: "(xs @ y # ys)[length xs := z] = xs @ z # ys"
  by (simp add: list_update_append)

lemma takeWhile_append_stop:
  "\<forall>x \<in> set xs. P x \<Longrightarrow> \<not> P y \<Longrightarrow> takeWhile P (xs @ y # ys) = xs"
  by (simp add: takeWhile_append2)

end
