(* ===== verification/Jsmn.thy ===== *)
theory Jsmn
  imports Wgi_Prelude
begin

text \<open>
  The JSON tokenizer \<^verbatim>\<open>examples/lambda/jsmn.h\<close> in the configuration
  \<^verbatim>\<open>examples/lambda/lambda.c\<close> compiles it in: neither \<open>JSMN_STRICT\<close> nor \<open>JSMN_PARENT_LINKS\<close> is
  defined.  The parser state is the record \<open>jsmn_parser\<close>; the caller's token array is a list
  (\<open>None\<close> for the null pointer of the counting mode), and a token pointer is an index into it.

  Positions (\<open>unsigned int\<close>) are natural numbers: every increment happens under the guard
  \<open>pos < len\<close> with \<open>len\<close> a 32 bit \<open>size_t\<close>, and every decrement after an increment of the same
  call (\<open>jsmn_prim_loop_advances\<close>), so no step wraps.  Where the code stores a position in an
  \<open>int\<close>, the model converts it with \<open>c_int\<close>.
\<close>

section \<open>Data\<close>

datatype jsmntype = JSMN_UNDEFINED | JSMN_OBJECT | JSMN_ARRAY | JSMN_STRING | JSMN_PRIMITIVE

datatype jsmnerr = JSMN_ERROR_NOMEM | JSMN_ERROR_INVAL | JSMN_ERROR_PART

record jsmntok =
  tok_type :: jsmntype
  tok_start :: int
  tok_end :: int
  tok_size :: int

record jsmn_parser =
  pos :: nat
  toknext :: nat
  toksuper :: int

type_synonym jsmn_st = "jsmn_parser \<times> jsmntok list option"

definition jsmn_init :: jsmn_parser where
  "jsmn_init = \<lparr>pos = 0, toknext = 0, toksuper = -1\<rparr>"

abbreviation QUOTE :: char where "QUOTE \<equiv> CHR 0x22"
abbreviation BSLASH :: char where "BSLASH \<equiv> CHR 0x5C"

section \<open>Tokens\<close>

definition jsmn_alloc_token ::
    "jsmn_parser \<Rightarrow> jsmntok list \<Rightarrow> nat \<Rightarrow> (jsmn_parser \<times> jsmntok list \<times> nat option) option" where
  "jsmn_alloc_token p toks num_tokens =
     (if num_tokens \<le> toknext p then Some (p, toks, None)
      else do {
        t \<leftarrow> rd toks (toknext p);
        toks' \<leftarrow> wr toks (toknext p) (t\<lparr>tok_start := -1, tok_end := -1, tok_size := 0\<rparr>);
        Some (p\<lparr>toknext := Suc (toknext p)\<rparr>, toks', Some (toknext p))
      })"

definition jsmn_fill_token :: "jsmntok \<Rightarrow> jsmntype \<Rightarrow> int \<Rightarrow> int \<Rightarrow> jsmntok" where
  "jsmn_fill_token t ty s e = t\<lparr>tok_type := ty, tok_start := s, tok_end := e, tok_size := 0\<rparr>"

definition tok_open :: "jsmntok \<Rightarrow> bool" where
  "tok_open t \<longleftrightarrow> tok_start t \<noteq> -1 \<and> tok_end t = -1"

definition tok_container :: "jsmntok \<Rightarrow> bool" where
  "tok_container t \<longleftrightarrow> tok_type t = JSMN_ARRAY \<or> tok_type t = JSMN_OBJECT"

section \<open>Primitives\<close>

definition prim_stop :: "char \<Rightarrow> bool" where
  "prim_stop c \<longleftrightarrow> c \<in> {CHR '':'', CHR 0x09, CHR 0x0D, CHR 0x0A, CHR '' '', CHR '','', CHR '']'', CHR ''}''}"

text \<open>The scanning loop: \<open>Inl\<close> for an invalid character, \<open>Inr\<close> the position where it stops.\<close>

function jsmn_prim_loop :: "string \<Rightarrow> nat \<Rightarrow> nat \<Rightarrow> (jsmnerr + nat) option" where
  "jsmn_prim_loop js len i =
     (if i < len
      then do {
        c \<leftarrow> rd js i;
        if c = NUL \<or> prim_stop c then Some (Inr i)
        else if schar c < 32 \<or> 127 \<le> schar c then Some (Inl JSMN_ERROR_INVAL)
        else jsmn_prim_loop js len (Suc i)
      }
      else Some (Inr i))"
  by pat_completeness auto
termination
  by (relation "measure (\<lambda>(js, len, i). len - i)") auto

declare jsmn_prim_loop.simps [simp del]

definition jsmn_parse_primitive ::
    "string \<Rightarrow> nat \<Rightarrow> nat \<Rightarrow> jsmn_st \<Rightarrow> (jsmn_st \<times> jsmnerr option) option" where
  "jsmn_parse_primitive js len num_tokens st = (case st of (p, tokens) \<Rightarrow>
     let start = pos p in do {
       r \<leftarrow> jsmn_prim_loop js len start;
       case r of
         Inl e \<Rightarrow> Some ((p\<lparr>pos := start\<rparr>, tokens), Some e)
       | Inr i \<Rightarrow>
         (case tokens of
            None \<Rightarrow> Some ((p\<lparr>pos := i - 1\<rparr>, None), None)
          | Some toks \<Rightarrow> do {
              (p', toks', tok) \<leftarrow> jsmn_alloc_token (p\<lparr>pos := i\<rparr>) toks num_tokens;
              case tok of
                None \<Rightarrow> Some ((p'\<lparr>pos := start\<rparr>, Some toks'), Some JSMN_ERROR_NOMEM)
              | Some k \<Rightarrow> do {
                  t \<leftarrow> rd toks' k;
                  toks'' \<leftarrow> wr toks' k
                    (jsmn_fill_token t JSMN_PRIMITIVE (c_int (int start)) (c_int (int i)));
                  Some ((p'\<lparr>pos := i - 1\<rparr>, Some toks''), None)
                }
            })
     })"

section \<open>Strings\<close>

definition hex_char :: "char \<Rightarrow> bool" where
  "hex_char c \<longleftrightarrow> 48 \<le> schar c \<and> schar c \<le> 57 \<or> 65 \<le> schar c \<and> schar c \<le> 70
     \<or> 97 \<le> schar c \<and> schar c \<le> 102"

definition simple_escape :: "char \<Rightarrow> bool" where
  "simple_escape c \<longleftrightarrow> c \<in> {QUOTE, CHR ''/'', BSLASH, CHR ''b'', CHR ''f'', CHR ''r'', CHR ''n'', CHR ''t''}"

text \<open>The four digit loop of \<^verbatim>\<open>\uXXXX\<close>: \<open>None\<close> inside the option for a character that is no digit.\<close>

fun jsmn_hex_loop :: "string \<Rightarrow> nat \<Rightarrow> nat \<Rightarrow> nat \<Rightarrow> nat option option" where
  "jsmn_hex_loop js len 0 i = Some (Some i)"
| "jsmn_hex_loop js len (Suc k) i =
     (if i < len
      then do {
        c \<leftarrow> rd js i;
        if c = NUL then Some (Some i)
        else if \<not> hex_char c then Some None
        else jsmn_hex_loop js len k (Suc i)
      }
      else Some (Some i))"

lemma jsmn_hex_loop_bounds:
  "jsmn_hex_loop js len k i = Some (Some j) \<Longrightarrow> i \<le> len \<Longrightarrow> i \<le> j \<and> j \<le> len"
  by (induction k arbitrary: i)
    (auto simp: bind_eq_Some_conv split: if_splits dest: Suc_leD, (fastforce dest: Suc_leD)+)

text \<open>
  The scanning loop of \<open>jsmn_parse_string\<close>: \<open>Inr (Some i)\<close> when the closing quote is at \<open>i\<close>,
  \<open>Inr None\<close> when the text ends before it, \<open>Inl\<close> on a bad escape.
\<close>

function jsmn_str_loop :: "string \<Rightarrow> nat \<Rightarrow> nat \<Rightarrow> (jsmnerr + nat option) option" where
  "jsmn_str_loop js len i =
     (if i < len
      then do {
        c \<leftarrow> rd js i;
        if c = NUL then Some (Inr None)
        else if c = QUOTE then Some (Inr (Some i))
        else if c = BSLASH \<and> i + 1 < len
        then do {
          e \<leftarrow> rd js (i + 1);
          if simple_escape e then jsmn_str_loop js len (i + 2)
          else if e = CHR ''u''
          then do {
            r \<leftarrow> jsmn_hex_loop js len 4 (i + 2);
            case r of
              None \<Rightarrow> Some (Inl JSMN_ERROR_INVAL)
            | Some j \<Rightarrow> jsmn_str_loop js len (j - 1 + 1)
          }
          else Some (Inl JSMN_ERROR_INVAL)
        }
        else jsmn_str_loop js len (Suc i)
      }
      else Some (Inr None))"
  by pat_completeness auto
termination
  by (relation "measure (\<lambda>(js, len, i). len - i)")
    (auto dest!: jsmn_hex_loop_bounds simp: less_eq_Suc_le)

declare jsmn_str_loop.simps [simp del]

definition jsmn_parse_string ::
    "string \<Rightarrow> nat \<Rightarrow> nat \<Rightarrow> jsmn_st \<Rightarrow> (jsmn_st \<times> jsmnerr option) option" where
  "jsmn_parse_string js len num_tokens st = (case st of (p, tokens) \<Rightarrow>
     let start = pos p in do {
       r \<leftarrow> jsmn_str_loop js len (start + 1);
       case r of
         Inl e \<Rightarrow> Some ((p\<lparr>pos := start\<rparr>, tokens), Some e)
       | Inr None \<Rightarrow> Some ((p\<lparr>pos := start\<rparr>, tokens), Some JSMN_ERROR_PART)
       | Inr (Some i) \<Rightarrow>
         (case tokens of
            None \<Rightarrow> Some ((p\<lparr>pos := i\<rparr>, None), None)
          | Some toks \<Rightarrow> do {
              (p', toks', tok) \<leftarrow> jsmn_alloc_token (p\<lparr>pos := i\<rparr>) toks num_tokens;
              case tok of
                None \<Rightarrow> Some ((p'\<lparr>pos := start\<rparr>, Some toks'), Some JSMN_ERROR_NOMEM)
              | Some k \<Rightarrow> do {
                  t \<leftarrow> rd toks' k;
                  toks'' \<leftarrow> wr toks' k
                    (jsmn_fill_token t JSMN_STRING (c_int (c_int (int start) + 1)) (c_int (int i)));
                  Some ((p', Some toks''), None)
                }
            })
     })"

section \<open>The main loop\<close>

text \<open>The token \<open>i\<close> whose \<open>size\<close> is incremented; \<open>toksuper = -1\<close> means there is none.\<close>

definition bump_size :: "jsmntok list \<Rightarrow> int \<Rightarrow> jsmntok list option" where
  "bump_size toks i =
     (if i = -1 then Some toks
      else do {
        t \<leftarrow> rd_int toks i;
        wr toks (nat i) (t\<lparr>tok_size := tok_size t + 1\<rparr>)
      })"

text \<open>The opening brackets.\<close>

definition jsmn_open :: "char \<Rightarrow> nat \<Rightarrow> jsmn_st \<Rightarrow> int \<Rightarrow> (jsmn_st \<times> (jsmnerr + int)) option" where
  "jsmn_open c num_tokens st count = (case st of
     (p, None) \<Rightarrow> Some ((p, None), Inr (count + 1))
   | (p, Some toks) \<Rightarrow> do {
       (p', toks', tok) \<leftarrow> jsmn_alloc_token p toks num_tokens;
       case tok of
         None \<Rightarrow> Some ((p', Some toks'), Inl JSMN_ERROR_NOMEM)
       | Some k \<Rightarrow> do {
           toks'' \<leftarrow> bump_size toks' (toksuper p');
           t \<leftarrow> rd toks'' k;
           toks''' \<leftarrow> wr toks'' k
             (t\<lparr>tok_type := (if c = CHR ''{'' then JSMN_OBJECT else JSMN_ARRAY),
                tok_start := c_int (int (pos p'))\<rparr>);
           Some ((p'\<lparr>toksuper := c_int (int (toknext p') - 1)\<rparr>, Some toks'''), Inr (count + 1))
         }
     })"

text \<open>
  The backward searches \<^verbatim>\<open>for (i = ...; i >= 0; i--)\<close> over the tokens: the argument is one more
  than the first index looked at.
\<close>

fun jsmn_find_open :: "jsmntok list \<Rightarrow> nat \<Rightarrow> nat option option" where
  "jsmn_find_open toks 0 = Some None"
| "jsmn_find_open toks (Suc i) = do {
     t \<leftarrow> rd toks i;
     if tok_open t then Some (Some i) else jsmn_find_open toks i
   }"

fun jsmn_find_open_container :: "jsmntok list \<Rightarrow> nat \<Rightarrow> nat option option" where
  "jsmn_find_open_container toks 0 = Some None"
| "jsmn_find_open_container toks (Suc i) = do {
     t \<leftarrow> rd toks i;
     if tok_container t \<and> tok_open t then Some (Some i) else jsmn_find_open_container toks i
   }"

text \<open>The closing brackets.\<close>

definition jsmn_close :: "char \<Rightarrow> jsmn_st \<Rightarrow> int \<Rightarrow> (jsmn_st \<times> (jsmnerr + int)) option" where
  "jsmn_close c st count = (case st of
     (p, None) \<Rightarrow> Some ((p, None), Inr count)
   | (p, Some toks) \<Rightarrow>
     let ty = (if c = CHR ''}'' then JSMN_OBJECT else JSMN_ARRAY) in do {
       found \<leftarrow> jsmn_find_open toks (toknext p);
       case found of
         None \<Rightarrow> Some ((p, Some toks), Inl JSMN_ERROR_INVAL)
       | Some i \<Rightarrow> do {
           t \<leftarrow> rd toks i;
           if tok_type t \<noteq> ty then Some ((p, Some toks), Inl JSMN_ERROR_INVAL)
           else do {
             toks' \<leftarrow> wr toks i (t\<lparr>tok_end := c_int (int (pos p) + 1)\<rparr>);
             next_open \<leftarrow> jsmn_find_open toks' (Suc i);
             Some ((p\<lparr>toksuper := (case next_open of None \<Rightarrow> -1 | Some j \<Rightarrow> int j)\<rparr>, Some toks'),
                   Inr count)
           }
         }
     })"

definition jsmn_comma :: "jsmn_st \<Rightarrow> int \<Rightarrow> (jsmn_st \<times> (jsmnerr + int)) option" where
  "jsmn_comma st count = (case st of
     (p, None) \<Rightarrow> Some ((p, None), Inr count)
   | (p, Some toks) \<Rightarrow>
     (if toksuper p = -1 then Some ((p, Some toks), Inr count)
      else do {
        t \<leftarrow> rd_int toks (toksuper p);
        if tok_container t then Some ((p, Some toks), Inr count)
        else do {
          found \<leftarrow> jsmn_find_open_container toks (toknext p);
          Some ((case found of None \<Rightarrow> p | Some i \<Rightarrow> p\<lparr>toksuper := int i\<rparr>, Some toks), Inr count)
        }
      }))"

text \<open>What follows a string or a primitive: an error is passed on, a new token is counted.\<close>

definition jsmn_scalar ::
    "(jsmn_st \<times> jsmnerr option) option \<Rightarrow> int \<Rightarrow> (jsmn_st \<times> (jsmnerr + int)) option" where
  "jsmn_scalar res count = do {
     (st, r) \<leftarrow> res;
     case r of
       Some e \<Rightarrow> Some (st, Inl e)
     | None \<Rightarrow>
       (case st of
          (p, None) \<Rightarrow> Some ((p, None), Inr (count + 1))
        | (p, Some toks) \<Rightarrow> do {
            toks' \<leftarrow> bump_size toks (toksuper p);
            Some ((p, Some toks'), Inr (count + 1))
          })
   }"

text \<open>One iteration of the loop body, on the character \<open>c\<close> at the current position.\<close>

definition jsmn_step ::
    "string \<Rightarrow> nat \<Rightarrow> nat \<Rightarrow> char \<Rightarrow> jsmn_st \<Rightarrow> int \<Rightarrow> (jsmn_st \<times> (jsmnerr + int)) option" where
  "jsmn_step js len num_tokens c st count =
     (if c = CHR ''{'' \<or> c = CHR ''['' then jsmn_open c num_tokens st count
      else if c = CHR ''}'' \<or> c = CHR '']'' then jsmn_close c st count
      else if c = QUOTE then jsmn_scalar (jsmn_parse_string js len num_tokens st) count
      else if c = CHR 0x09 \<or> c = CHR 0x0D \<or> c = CHR 0x0A \<or> c = CHR '' '' then Some (st, Inr count)
      else if c = CHR '':'' then
        Some (((fst st)\<lparr>toksuper := c_int (int (toknext (fst st)) - 1)\<rparr>, snd st), Inr count)
      else if c = CHR '','' then jsmn_comma st count
      else jsmn_scalar (jsmn_parse_primitive js len num_tokens st) count)"

text \<open>Progress of one iteration: the position never moves back, and stays inside the text.\<close>

lemma jsmn_prim_loop_bounds:
  "jsmn_prim_loop js len i = Some (Inr j) \<Longrightarrow> i \<le> len \<Longrightarrow> i \<le> j \<and> j \<le> len"
proof (induction js len i rule: jsmn_prim_loop.induct)
  case (1 js len i)
  have IH: "i \<le> j \<and> j \<le> len"
    if "i < len" "rd js i = Some c" "c \<noteq> NUL" "\<not> prim_stop c" "\<not> schar c < 32" "\<not> 127 \<le> schar c"
      "jsmn_prim_loop js len (Suc i) = Some (Inr j)" for c
    using "1.IH" [OF that(1,2) _ _ that(7)] that by simp
  from "1.prems" show ?case
    by (subst (asm) jsmn_prim_loop.simps)
      (auto simp: bind_eq_Some_conv split: if_splits dest: IH)
qed

lemma jsmn_prim_loop_advances:
  assumes "jsmn_prim_loop js len i = Some (Inr j)" and "i < len"
    and "js ! i \<noteq> NUL" and "\<not> prim_stop (js ! i)"
  shows "i < j \<and> j \<le> len"
  using assms
  by (subst (asm) jsmn_prim_loop.simps)
    (auto simp: bind_eq_Some_conv ub_simps split: if_splits dest!: jsmn_prim_loop_bounds)

text \<open>One unfolding of the string loop, as an elimination rule.\<close>

lemma jsmn_str_loopE:
  assumes "jsmn_str_loop js len i = Some r"
  obtains (stop) "r = Inr None" | (quote) "r = Inr (Some i)" "i < len"
    | (bad) "r = Inl JSMN_ERROR_INVAL" | (next_char) j where "i < len" "i < j" "jsmn_str_loop js len j = Some r"
proof (cases "i < len")
  case False
  with assms stop show ?thesis by (subst (asm) jsmn_str_loop.simps) simp
next
  case True
  with assms obtain c where c: "rd js i = Some c"
    by (subst (asm) jsmn_str_loop.simps) (auto simp: bind_eq_Some_conv)
  consider "c = NUL \<or> c = QUOTE" | (esc) "c = BSLASH" "i + 1 < len" "c \<noteq> NUL" "c \<noteq> QUOTE"
    | (plain) "c \<noteq> NUL" "c \<noteq> QUOTE" "\<not> (c = BSLASH \<and> i + 1 < len)" by blast
  then show ?thesis
  proof cases
    case 1
    with assms True c stop quote show ?thesis by (subst (asm) jsmn_str_loop.simps) auto
  next
    case plain
    with assms True c next_char [of "Suc i"] show ?thesis
      by (subst (asm) jsmn_str_loop.simps) auto
  next
    case esc
    with assms True c obtain e where e: "rd js (i + 1) = Some e"
      by (subst (asm) jsmn_str_loop.simps) (auto simp: bind_eq_Some_conv)
    obtain h where h: "jsmn_hex_loop js len 4 (i + 2) = Some h \<or> simple_escape e \<or> e \<noteq> CHR ''u''"
      using assms True c esc e
      by (subst (asm) jsmn_str_loop.simps) (auto simp: bind_eq_Some_conv split: if_splits)
    show ?thesis
    proof (cases "simple_escape e \<or> e \<noteq> CHR ''u''")
      case True
      with assms \<open>i < len\<close> c esc e bad next_char [of "i + 2"] show ?thesis
        by (subst (asm) jsmn_str_loop.simps) (auto split: if_splits)
    next
      case False
      with h have h: "jsmn_hex_loop js len 4 (i + 2) = Some h" by simp
      have "i < j" if "h = Some j" for j
        using jsmn_hex_loop_bounds [of js len 4 "i + 2" j] h that esc(2) by auto
      with False h assms True c esc e bad next_char show ?thesis
        by (subst (asm) jsmn_str_loop.simps) (auto split: option.splits)
    qed
  qed
qed

lemma jsmn_str_loop_bounds:
  "jsmn_str_loop js len i = Some (Inr (Some j)) \<Longrightarrow> i \<le> j \<and> j < len"
proof (induction "len - i" arbitrary: i rule: less_induct)
  case less
  from less.prems show ?case
    by (cases rule: jsmn_str_loopE) (auto dest: less.hyps [rotated])
qed

lemma jsmn_alloc_token_pos:
  "jsmn_alloc_token p toks n = Some (p', toks', tok) \<Longrightarrow> pos p' = pos p"
  by (auto simp: jsmn_alloc_token_def bind_eq_Some_conv split: if_splits)

lemma jsmn_open_pos: "jsmn_open c n st k = Some (st', r) \<Longrightarrow> pos (fst st') = pos (fst st)"
  by (auto simp: jsmn_open_def bind_eq_Some_conv split: option.splits prod.splits
      dest!: jsmn_alloc_token_pos)

lemma jsmn_close_pos: "jsmn_close c st k = Some (st', r) \<Longrightarrow> pos (fst st') = pos (fst st)"
  by (auto simp: jsmn_close_def Let_def bind_eq_Some_conv split: option.splits prod.splits if_splits)

lemma jsmn_comma_pos: "jsmn_comma st k = Some (st', r) \<Longrightarrow> pos (fst st') = pos (fst st)"
  by (auto simp: jsmn_comma_def bind_eq_Some_conv split: option.splits prod.splits if_splits)

lemma jsmn_scalar_pos:
  "jsmn_scalar res k = Some (st', Inr k') \<Longrightarrow> \<exists>st. res = Some (st, None) \<and> pos (fst st') = pos (fst st)"
  by (cases res) (auto simp: jsmn_scalar_def bind_eq_Some_conv split: option.splits prod.splits)

lemma jsmn_parse_string_pos:
  assumes "jsmn_parse_string js len n st = Some (st', None)"
  shows "pos (fst st) < pos (fst st') \<and> pos (fst st') < len"
proof (cases "jsmn_str_loop js len (pos (fst st) + 1)")
  case None
  with assms show ?thesis by (cases st) (simp add: jsmn_parse_string_def)
next
  case (Some r)
  with assms obtain i where r: "r = Inr (Some i)"
    by (cases st) (auto simp: jsmn_parse_string_def Let_def split: sum.splits option.splits)
  from Some r have "pos (fst st) < i \<and> i < len"
    by (auto dest!: jsmn_str_loop_bounds)
  moreover from assms Some r have "pos (fst st') = i"
    by (cases st; cases "snd st")
      (auto simp: jsmn_parse_string_def Let_def bind_eq_Some_conv split: option.splits
        dest!: jsmn_alloc_token_pos)
  ultimately show ?thesis by simp
qed

lemma jsmn_parse_primitive_pos:
  assumes "jsmn_parse_primitive js len n st = Some (st', None)" and "pos (fst st) < len"
    and "js ! pos (fst st) \<noteq> NUL" and "\<not> prim_stop (js ! pos (fst st))"
  shows "pos (fst st) \<le> pos (fst st') \<and> pos (fst st') < len"
proof (cases "jsmn_prim_loop js len (pos (fst st))")
  case None
  with assms show ?thesis by (cases st) (simp add: jsmn_parse_primitive_def)
next
  case (Some r)
  with assms(1) obtain i where r: "r = Inr i"
    by (cases st) (auto simp: jsmn_parse_primitive_def Let_def split: sum.splits option.splits)
  with assms(1) Some have "pos (fst st') = i - 1"
    by (cases st; cases "snd st")
      (auto simp: jsmn_parse_primitive_def Let_def bind_eq_Some_conv split: option.splits)
  moreover have "pos (fst st) < i \<and> i \<le> len"
    using Some r assms(2-4) by (auto dest: jsmn_prim_loop_advances)
  ultimately show ?thesis by auto
qed

lemma jsmn_step_pos:
  assumes "jsmn_step js len n c st k = Some (st', Inr k')"
    and "pos (fst st) < len" and "c = js ! pos (fst st)" and "c \<noteq> NUL"
  shows "pos (fst st) \<le> pos (fst st') \<and> pos (fst st') < len"
  using assms
  by (auto simp: jsmn_step_def prim_stop_def split: if_splits
      dest!: jsmn_open_pos jsmn_close_pos jsmn_comma_pos jsmn_scalar_pos jsmn_parse_string_pos
        jsmn_parse_primitive_pos)

function jsmn_loop ::
    "string \<Rightarrow> nat \<Rightarrow> nat \<Rightarrow> jsmn_st \<Rightarrow> int \<Rightarrow> (jsmn_st \<times> (jsmnerr + int)) option" where
  "jsmn_loop js len n st k =
     (if pos (fst st) < len
      then do {
        c \<leftarrow> rd js (pos (fst st));
        if c = NUL then Some (st, Inr k)
        else do {
          (st', r) \<leftarrow> jsmn_step js len n c st k;
          case r of
            Inl e \<Rightarrow> Some (st', Inl e)
          | Inr k' \<Rightarrow> jsmn_loop js len n ((fst st')\<lparr>pos := Suc (pos (fst st'))\<rparr>, snd st') k'
        }
      }
      else Some (st, Inr k))"
  by pat_completeness auto
termination
  by (relation "measure (\<lambda>(js, len, n, st, k). len - pos (fst st))")
    (auto simp: ub_simps dest!: jsmn_step_pos)

declare jsmn_loop.simps [simp del]

lemma jsmn_loop_unfold:
  assumes "pos (fst st) < len" "rd js (pos (fst st)) = Some c" "c \<noteq> NUL"
  shows "jsmn_loop js len n st k = (case jsmn_step js len n c st k of
      None \<Rightarrow> None
    | Some (st', Inl e) \<Rightarrow> Some (st', Inl e)
    | Some (st', Inr k') \<Rightarrow> jsmn_loop js len n ((fst st')\<lparr>pos := Suc (pos (fst st'))\<rparr>, snd st') k')"
  using assms by (subst jsmn_loop.simps) (auto split: option.splits sum.splits)

definition jsmn_parse :: "string \<Rightarrow> nat \<Rightarrow> nat \<Rightarrow> jsmn_st \<Rightarrow> (jsmn_st \<times> (jsmnerr + int)) option" where
  "jsmn_parse js len num_tokens st = do {
     (st', r) \<leftarrow> jsmn_loop js len num_tokens st (c_int (int (toknext (fst st))));
     case r of
       Inl e \<Rightarrow> Some (st', Inl e)
     | Inr k \<Rightarrow>
       (case snd st' of
          None \<Rightarrow> Some (st', Inr k)
        | Some toks \<Rightarrow> do {
            unmatched \<leftarrow> jsmn_find_open toks (toknext (fst st'));
            Some (st', case unmatched of None \<Rightarrow> Inr k | Some _ \<Rightarrow> Inl JSMN_ERROR_PART)
          })
   }"

end
