(* ===== verification/Jsmn_Safe.thy ===== *)
theory Jsmn_Safe
  imports Jsmn
begin

text \<open>
  Memory safety and the token invariant of the tokenizer, for any input text: no access leaves
  the text or the token array, and every token handed out has a type and a range inside the text.
\<close>

section \<open>The invariant\<close>

text \<open>
  A token in use has a type.  It is either closed, with a range inside the text, or an open
  container that starts before the current position.
\<close>

definition tok_ok :: "nat \<Rightarrow> nat \<Rightarrow> jsmntok \<Rightarrow> bool" where
  "tok_ok len q t \<longleftrightarrow> tok_type t \<noteq> JSMN_UNDEFINED \<and> 0 \<le> tok_start t \<and> 0 \<le> tok_size t \<and>
     (if tok_end t = -1 then tok_container t \<and> tok_start t \<le> int q
      else tok_start t \<le> tok_end t \<and> tok_end t \<le> int len)"

definition jsmn_inv :: "nat \<Rightarrow> nat \<Rightarrow> nat \<Rightarrow> jsmn_st \<Rightarrow> int \<Rightarrow> bool" where
  "jsmn_inv len n q st k \<longleftrightarrow> (case st of
     (p, None) \<Rightarrow> True
   | (p, Some toks) \<Rightarrow> toknext p \<le> n \<and> n \<le> length toks \<and> -1 \<le> toksuper p \<and>
       toksuper p < int (toknext p) \<and> k = int (toknext p) \<and>
       (\<forall>i < toknext p. tok_ok len q (toks ! i)))"

lemma jsmn_inv_NoneI [simp]: "jsmn_inv len n q (p, None) k"
  by (simp add: jsmn_inv_def)

lemma tok_ok_mono: "tok_ok len q t \<Longrightarrow> q \<le> q' \<Longrightarrow> tok_ok len q' t"
  by (auto simp: tok_ok_def split: if_splits)

lemma jsmn_inv_mono: "jsmn_inv len n q st k \<Longrightarrow> q \<le> q' \<Longrightarrow> jsmn_inv len n q' st k"
  by (auto simp: jsmn_inv_def split: prod.splits option.splits intro: tok_ok_mono)

lemma jsmn_inv_pos [simp]: "jsmn_inv len n q (p\<lparr>pos := i\<rparr>, toks) k = jsmn_inv len n q (p, toks) k"
  by (simp add: jsmn_inv_def split: option.splits)

lemma jsmn_inv_init: "n \<le> length toks \<Longrightarrow> jsmn_inv len n q (jsmn_init, Some toks) 0"
  by (simp add: jsmn_inv_def jsmn_init_def)

section \<open>The backward searches\<close>

lemma jsmn_find_open_safe:
  "m \<le> length toks \<Longrightarrow> \<exists>r. jsmn_find_open toks m = Some r"
  by (induction m) auto

lemma jsmn_find_open_Some:
  "jsmn_find_open toks m = Some (Some i) \<Longrightarrow> m \<le> length toks \<Longrightarrow>
     i < m \<and> tok_open (toks ! i) \<and> (\<forall>j. i < j \<longrightarrow> j < m \<longrightarrow> \<not> tok_open (toks ! j))"
  by (induction m) (auto split: if_splits simp: less_Suc_eq)

lemma jsmn_find_open_None:
  "jsmn_find_open toks m = Some None \<Longrightarrow> m \<le> length toks \<Longrightarrow> \<forall>j < m. \<not> tok_open (toks ! j)"
  by (induction m) (auto split: if_splits simp: less_Suc_eq)

lemma jsmn_find_open_container_safe:
  "m \<le> length toks \<Longrightarrow> \<exists>r. jsmn_find_open_container toks m = Some r"
  by (induction m) auto

lemma jsmn_find_open_container_Some:
  "jsmn_find_open_container toks m = Some (Some i) \<Longrightarrow> m \<le> length toks \<Longrightarrow> i < m"
  by (induction m) (auto split: if_splits)

section \<open>Scanning loops\<close>

lemma jsmn_prim_loop_safe: "len \<le> length js \<Longrightarrow> \<exists>r. jsmn_prim_loop js len i = Some r"
proof (induction js len i rule: jsmn_prim_loop.induct)
  case (1 js len i)
  then show ?case by (subst jsmn_prim_loop.simps) auto
qed

lemma jsmn_hex_loop_safe: "len \<le> length js \<Longrightarrow> \<exists>r. jsmn_hex_loop js len k i = Some r"
  by (induction k arbitrary: i) auto

lemma jsmn_str_loop_safe: "len \<le> length js \<Longrightarrow> \<exists>r. jsmn_str_loop js len i = Some r"
proof (induction js len i rule: jsmn_str_loop.induct)
  case (1 js len i)
  obtain h where h: "jsmn_hex_loop js len 4 (i + 2) = Some h"
    using jsmn_hex_loop_safe [OF "1.prems"] by blast
  show ?case
    by (subst jsmn_str_loop.simps)
      (use "1" h in \<open>auto split: option.splits simp del: One_nat_def\<close>)
qed

section \<open>One iteration keeps the invariant\<close>

definition safe_step ::
    "nat \<Rightarrow> nat \<Rightarrow> nat \<Rightarrow> jsmntok list option \<Rightarrow> (jsmn_st \<times> (jsmnerr + int)) option \<Rightarrow> bool" where
  "safe_step len n q tokens res \<longleftrightarrow> (\<exists>st r. res = Some (st, r) \<and>
     (\<forall>k. r = Inr k \<longrightarrow> jsmn_inv len n q st k \<and> (snd st = None \<longleftrightarrow> tokens = None)))"

lemma bump_size_safe:
  assumes "-1 \<le> i" "i < int m" "m \<le> length toks" "\<forall>j < m. tok_ok len q (toks ! j)"
  shows "\<exists>toks'. bump_size toks i = Some toks' \<and> length toks' = length toks \<and>
    (\<forall>j < m. tok_ok len q (toks' ! j)) \<and> (\<forall>j \<ge> m. toks' ! j = toks ! j)"
proof (cases "i = -1")
  case True
  with assms show ?thesis by (simp add: bump_size_def)
next
  case False
  with assms have i: "0 \<le> i" "nat i < m" by auto
  have "tok_ok len q (t\<lparr>tok_size := tok_size t + 1\<rparr>)" if "tok_ok len q t" for t
    using that by (auto simp: tok_ok_def tok_container_def split: if_splits)
  with i assms show ?thesis
    by (auto simp: bump_size_def rd_int_def nth_list_update)
qed

lemma jsmn_open_safe:
  assumes "jsmn_inv len n q (p, tokens) k" and "pos p = q" and "q < 2 ^ 31" and "n < 2 ^ 31"
  shows "safe_step len n q tokens (jsmn_open c n (p, tokens) k)"
proof (cases tokens)
  case None
  then show ?thesis by (simp add: safe_step_def jsmn_open_def)
next
  case (Some toks)
  let ?m = "toknext p"
  from assms(1) Some have inv: "?m \<le> n" "n \<le> length toks" "-1 \<le> toksuper p" "toksuper p < int ?m"
    "\<forall>i < ?m. tok_ok len q (toks ! i)" "k = int ?m"
    by (auto simp: jsmn_inv_def)
  show ?thesis
  proof (cases "n \<le> ?m")
    case True
    with Some show ?thesis by (simp add: safe_step_def jsmn_open_def jsmn_alloc_token_def)
  next
    case False
    let ?toks = "toks[?m := (toks ! ?m)\<lparr>tok_start := -1, tok_end := -1, tok_size := 0\<rparr>]"
    from inv False bump_size_safe [of "toksuper p" ?m ?toks len q]
    obtain ts where ts: "bump_size ?toks (toksuper p) = Some ts" "length ts = length toks"
      "\<forall>j < ?m. tok_ok len q (ts ! j)" "ts ! ?m = ?toks ! ?m"
      by auto
    from False inv assms(2-4) Some ts show ?thesis
      by (auto simp: safe_step_def jsmn_open_def jsmn_alloc_token_def jsmn_inv_def tok_ok_def
          tok_container_def nth_list_update c_conv less_Suc_eq)
  qed
qed

lemma jsmn_close_safe:
  assumes "jsmn_inv len n q (p, tokens) k" and "pos p = q" and "q < len" and "len < 2 ^ 31"
  shows "safe_step len n q tokens (jsmn_close c (p, tokens) k)"
proof (cases tokens)
  case None
  then show ?thesis by (simp add: safe_step_def jsmn_close_def)
next
  case (Some toks)
  let ?m = "toknext p"
  from assms(1) Some have inv: "?m \<le> n" "n \<le> length toks" "-1 \<le> toksuper p" "toksuper p < int ?m"
    "\<forall>i < ?m. tok_ok len q (toks ! i)" "k = int ?m"
    by (auto simp: jsmn_inv_def)
  from inv obtain found where found: "jsmn_find_open toks ?m = Some found"
    using jsmn_find_open_safe [of ?m toks] by auto
  show ?thesis
  proof (cases found)
    case None
    with found Some show ?thesis by (simp add: safe_step_def jsmn_close_def Let_def)
  next
    case (Some i)
    from jsmn_find_open_Some [of toks ?m i] found Some inv
    have i: "i < ?m" "tok_open (toks ! i)" by auto
    let ?t = "(toks ! i)\<lparr>tok_end := c_int (int q + 1)\<rparr>"
    have end_q: "c_int (int q + 1) = int q + 1" using assms(3,4) by (intro c_int_id) auto
    from i inv have "tok_ok len q ?t"
      using assms(3) by (auto simp: tok_ok_def tok_open_def end_q tok_container_def split: if_splits)
    with inv i have ok: "\<forall>j < ?m. tok_ok len q (toks[i := ?t] ! j)"
      by (auto simp: nth_list_update)
    obtain nx where nx: "jsmn_find_open (toks[i := ?t]) (Suc i) = Some nx"
      using jsmn_find_open_safe [of "Suc i" "toks[i := ?t]"] i inv by auto
    have "j < Suc i" if "nx = Some j" for j
      using jsmn_find_open_Some [of "toks[i := ?t]" "Suc i" j] nx that i inv by auto
    then show ?thesis
      using found Some \<open>tokens = Some toks\<close> i inv ok nx assms(2)
      by (auto simp: safe_step_def jsmn_close_def Let_def jsmn_inv_def split: option.splits)
  qed
qed

lemma jsmn_comma_safe:
  assumes "jsmn_inv len n q (p, tokens) k"
  shows "safe_step len n q tokens (jsmn_comma (p, tokens) k)"
proof (cases tokens)
  case None
  then show ?thesis by (simp add: safe_step_def jsmn_comma_def)
next
  case (Some toks)
  with assms have inv: "toknext p \<le> length toks" "-1 \<le> toksuper p" "toksuper p < int (toknext p)"
    by (auto simp: jsmn_inv_def)
  obtain f where f: "jsmn_find_open_container toks (toknext p) = Some f"
    using jsmn_find_open_container_safe [OF inv(1)] by blast
  have "i < toknext p" if "f = Some i" for i
    using jsmn_find_open_container_Some [of toks "toknext p" i] f that inv by simp
  moreover have "rd_int toks (toksuper p) = Some (toks ! nat (toksuper p))" if "toksuper p \<noteq> -1"
    using inv that by (auto simp: rd_int_def)
  ultimately show ?thesis
    using assms Some f inv
    by (auto simp: safe_step_def jsmn_comma_def jsmn_inv_def split: option.splits)
qed

text \<open>
  A scalar parser either reports an error or, in token mode, adds one closed token whose range is
  inside the text.
\<close>

definition scalar_res :: "nat \<Rightarrow> nat \<Rightarrow> jsmn_st \<Rightarrow> (jsmn_st \<times> jsmnerr option) option \<Rightarrow> bool" where
  "scalar_res len n st res \<longleftrightarrow> (case res of
     None \<Rightarrow> False
   | Some (st', Some e) \<Rightarrow> True
   | Some (st', None) \<Rightarrow>
     (case snd st of
        None \<Rightarrow> snd st' = None
      | Some toks \<Rightarrow> toknext (fst st) < n \<and> toknext (fst st') = Suc (toknext (fst st)) \<and>
          toksuper (fst st') = toksuper (fst st) \<and>
          (\<exists>t. tok_ok len 0 t \<and> snd st' = Some (toks[toknext (fst st) := t]))))"

lemma tok_ok_fill:
  assumes "s \<le> e" "e \<le> len" "len < 2 ^ 31" "ty \<noteq> JSMN_UNDEFINED"
  shows "tok_ok len q (jsmn_fill_token t ty (c_int (int s)) (c_int (int e)))"
proof -
  from assms have "c_int (int s) = int s" "c_int (int e) = int e"
    by (auto intro: c_int_of_nat)
  with assms show ?thesis by (auto simp: tok_ok_def jsmn_fill_token_def)
qed

lemma jsmn_alloc_token_cases:
  assumes "n \<le> length toks"
  shows "jsmn_alloc_token p toks n =
    (if n \<le> toknext p then Some (p, toks, None)
     else Some (p\<lparr>toknext := Suc (toknext p)\<rparr>,
       toks[toknext p := (toks ! toknext p)\<lparr>tok_start := -1, tok_end := -1, tok_size := 0\<rparr>],
       Some (toknext p)))"
  using assms by (simp add: jsmn_alloc_token_def)

lemma jsmn_parse_primitive_res:
  assumes "len \<le> length js" "len < 2 ^ 31" "pos p \<le> len"
    and "\<forall>toks. tokens = Some toks \<longrightarrow> n \<le> length toks"
  shows "scalar_res len n (p, tokens) (jsmn_parse_primitive js len n (p, tokens))"
proof -
  obtain r where r: "jsmn_prim_loop js len (pos p) = Some r"
    using jsmn_prim_loop_safe [OF assms(1)] by blast
  show ?thesis
  proof (cases r)
    case (Inl e)
    with r show ?thesis by (simp add: scalar_res_def jsmn_parse_primitive_def Let_def)
  next
    case (Inr i)
    with r assms(3) have "pos p \<le> i" "i \<le> len" by (auto dest!: jsmn_prim_loop_bounds)
    then have "tok_ok len 0 (jsmn_fill_token t JSMN_PRIMITIVE (c_int (int (pos p))) (c_int (int i)))" for t
      using assms(2) by (intro tok_ok_fill) auto
    with r Inr assms(4) show ?thesis
      by (cases tokens)
        (auto simp: scalar_res_def jsmn_parse_primitive_def Let_def jsmn_alloc_token_cases)
  qed
qed

lemma jsmn_parse_string_res:
  assumes "len \<le> length js" "len < 2 ^ 31" "pos p < len"
    and "\<forall>toks. tokens = Some toks \<longrightarrow> n \<le> length toks"
  shows "scalar_res len n (p, tokens) (jsmn_parse_string js len n (p, tokens))"
proof -
  obtain r where r: "jsmn_str_loop js len (pos p + 1) = Some r"
    using jsmn_str_loop_safe [OF assms(1)] by blast
  consider (err) e where "r = Inl e" | (part) "r = Inr None" | (ok) i where "r = Inr (Some i)"
    by (cases r) (auto simp: not_None_eq [symmetric])
  then show ?thesis
  proof cases
    case ok
    with r have i: "pos p + 1 \<le> i" "i < len" by (auto dest!: jsmn_str_loop_bounds)
    have "c_int (c_int (int (pos p)) + 1) = c_int (int (pos p + 1))"
      using assms(2,3) by (simp add: c_conv)
    with i have "tok_ok len 0 (jsmn_fill_token t JSMN_STRING (c_int (c_int (int (pos p)) + 1)) (c_int (int i)))" for t
      using tok_ok_fill [of "pos p + 1" i len JSMN_STRING 0 t] assms(2) by simp
    with r ok assms(4) show ?thesis
      by (cases tokens)
        (auto simp: scalar_res_def jsmn_parse_string_def Let_def jsmn_alloc_token_cases)
  qed (use r in \<open>simp_all add: scalar_res_def jsmn_parse_string_def Let_def\<close>)
qed

lemma jsmn_scalar_safe:
  assumes "jsmn_inv len n q (p, tokens) k" and "scalar_res len n (p, tokens) res"
  shows "safe_step len n q tokens (jsmn_scalar res k)"
proof -
  from assms(2) obtain st r where res: "res = Some (st, r)"
    by (auto simp: scalar_res_def split: option.splits)
  show ?thesis
  proof (cases r)
    case (Some e)
    with res show ?thesis by (simp add: safe_step_def jsmn_scalar_def)
  next
    case None
    show ?thesis
    proof (cases tokens)
      case None
      with assms(2) res \<open>r = None\<close> show ?thesis
        by (cases st) (simp add: safe_step_def jsmn_scalar_def scalar_res_def)
    next
      case (Some toks)
      let ?m = "toknext p"
      from assms(2) res None Some obtain p' t where st: "st = (p', Some (toks[?m := t]))"
        and p': "?m < n" "toknext p' = Suc ?m" "toksuper p' = toksuper p" and t: "tok_ok len 0 t"
        by (cases st) (auto simp: scalar_res_def)
      from assms(1) Some have inv: "n \<le> length toks" "-1 \<le> toksuper p" "toksuper p < int ?m" "k = int ?m"
        "\<forall>i < ?m. tok_ok len q (toks ! i)"
        by (auto simp: jsmn_inv_def)
      have "\<forall>j < Suc ?m. tok_ok len q (toks[?m := t] ! j)"
        using inv t p' tok_ok_mono [OF t] by (auto simp: nth_list_update less_Suc_eq)
      then obtain ts where "bump_size (toks[?m := t]) (toksuper p') = Some ts" "length ts = length toks"
        "\<forall>j < Suc ?m. tok_ok len q (ts ! j)"
        using bump_size_safe [of "toksuper p'" "Suc ?m" "toks[?m := t]" len q] inv p' by auto
      with inv p' res None st Some show ?thesis
        by (auto simp: safe_step_def jsmn_scalar_def jsmn_inv_def)
    qed
  qed
qed

lemma jsmn_step_safe:
  assumes inv: "jsmn_inv len n (pos p) (p, tokens) k"
    and bnd: "len \<le> length js" "len < 2 ^ 31" "n < 2 ^ 31" "pos p < len"
  shows "safe_step len n (pos p) tokens (jsmn_step js len n c (p, tokens) k)"
proof -
  have len: "\<forall>toks. tokens = Some toks \<longrightarrow> n \<le> length toks"
    using inv by (auto simp: jsmn_inv_def)
  note str = jsmn_scalar_safe [OF inv jsmn_parse_string_res [OF bnd(1,2,4) len]]
  note prim = jsmn_scalar_safe [OF inv jsmn_parse_primitive_res [OF bnd(1,2) _ len]]
  have colon: "safe_step len n (pos p) tokens (Some ((p\<lparr>toksuper := c_int (int (toknext p) - 1)\<rparr>, tokens), Inr k))"
  proof (cases tokens)
    case None
    then show ?thesis by (simp add: safe_step_def)
  next
    case (Some toks)
    with inv have "toknext p \<le> n" by (simp add: jsmn_inv_def)
    with bnd(3) have "c_int (int (toknext p) - 1) = int (toknext p) - 1"
      by (intro c_int_id) auto
    with Some inv show ?thesis by (auto simp: safe_step_def jsmn_inv_def)
  qed
  have blank: "safe_step len n (pos p) tokens (Some ((p, tokens), Inr k))"
    using inv by (simp add: safe_step_def)
  show ?thesis
    unfolding jsmn_step_def
    using jsmn_open_safe [OF inv refl _ bnd(3)] jsmn_close_safe [OF inv refl bnd(4,2)]
      jsmn_comma_safe [OF inv] str prim colon blank bnd
    by (simp split: if_split)
qed

lemma jsmn_loop_safe:
  assumes "jsmn_inv len n (pos (fst st)) st k"
    and "len \<le> length js" "len < 2 ^ 31" "n < 2 ^ 31"
  shows "\<exists>st' r. jsmn_loop js len n st k = Some (st', r) \<and>
    (\<forall>k'. r = Inr k' \<longrightarrow> (\<exists>q. jsmn_inv len n q st' k') \<and> (snd st' = None \<longleftrightarrow> snd st = None))"
  using assms
proof (induction js len n st k rule: jsmn_loop.induct)
  case (1 js len n st k)
  show ?case
  proof (cases "pos (fst st) < len \<and> js ! pos (fst st) \<noteq> NUL")
    case False
    with "1.prems" show ?thesis by (cases st) (subst jsmn_loop.simps, auto)
  next
    case True
    let ?c = "js ! pos (fst st)"
    from True "1.prems"(2) have c: "rd js (pos (fst st)) = Some ?c" by simp
    have "safe_step len n (pos (fst st)) (snd st) (jsmn_step js len n ?c st k)"
      using jsmn_step_safe [of len n "fst st" "snd st" k js ?c] "1.prems" True by simp
    then obtain st' r where step: "jsmn_step js len n ?c st k = Some (st', r)"
      and inv: "\<And>k'. r = Inr k' \<Longrightarrow> jsmn_inv len n (pos (fst st)) st' k'"
      and mode: "\<And>k'. r = Inr k' \<Longrightarrow> snd st' = None \<longleftrightarrow> snd st = None"
      by (auto simp: safe_step_def)
    show ?thesis
    proof (cases r)
      case (Inl e)
      with True c step show ?thesis by (subst jsmn_loop.simps) simp
    next
      case (Inr k')
      let ?st = "((fst st')\<lparr>pos := Suc (pos (fst st'))\<rparr>, snd st')"
      have "pos (fst st) \<le> Suc (pos (fst st'))"
        using jsmn_step_pos [OF step [unfolded Inr]] True by simp
      then have "jsmn_inv len n (pos (fst ?st)) ?st k'"
        using jsmn_inv_mono [OF inv [OF Inr]] by simp
      from "1.IH" [OF _ c _ step refl Inr this "1.prems"(2-4)] True c step Inr mode [OF Inr]
      show ?thesis by (subst jsmn_loop.simps) auto
    qed
  qed
qed

section \<open>Properties of the tokenizer on arbitrary input\<close>

text \<open>
  C1.  On any text, \<open>jsmn_parse\<close> returns: no access leaves the text or the token array.  When it
  returns a count, the count is the number of tokens used, it does not exceed the size of the
  array, and each of these tokens is closed, has a type and a range \<open>start \<le> end\<close> inside the text.
\<close>

theorem jsmn_parse_safe:
  assumes "len \<le> length js" "len < 2 ^ 31" "n < 2 ^ 31" "n \<le> length toks"
  shows "\<exists>p' toks' r. jsmn_parse js len n (jsmn_init, Some toks) = Some ((p', toks'), r) \<and>
    (\<forall>k. r = Inr k \<longrightarrow> k = int (toknext p') \<and> toknext p' \<le> n \<and>
       (\<exists>ts. toks' = Some ts \<and> (\<forall>i < toknext p'.
          tok_type (ts ! i) \<noteq> JSMN_UNDEFINED \<and> 0 \<le> tok_start (ts ! i) \<and>
          tok_start (ts ! i) \<le> tok_end (ts ! i) \<and> tok_end (ts ! i) \<le> int len)))"
proof -
  from jsmn_loop_safe [OF _ assms(1-3), of "(jsmn_init, Some toks)" 0] jsmn_inv_init [OF assms(4)]
  obtain p' toks' r where loop: "jsmn_loop js len n (jsmn_init, Some toks) 0 = Some ((p', toks'), r)"
    and inv: "\<And>k. r = Inr k \<Longrightarrow> (\<exists>q. jsmn_inv len n q (p', toks') k) \<and> toks' \<noteq> None"
    by force
  have c0: "c_int (int (toknext (fst (jsmn_init, Some toks)))) = 0"
    by (simp add: jsmn_init_def c_conv)
  show ?thesis
  proof (cases r)
    case (Inl e)
    with loop c0 show ?thesis by (auto simp: jsmn_parse_def)
  next
    case (Inr k)
    with inv obtain q where q: "jsmn_inv len n q (p', toks') k" by blast
    show ?thesis
    proof (cases toks')
      case None
      with inv Inr show ?thesis by simp
    next
      case (Some ts)
      with q have t: "toknext p' \<le> n" "n \<le> length ts" "k = int (toknext p')"
        "\<forall>i < toknext p'. tok_ok len q (ts ! i)"
        by (auto simp: jsmn_inv_def)
      then obtain u where u: "jsmn_find_open ts (toknext p') = Some u"
        using jsmn_find_open_safe [of "toknext p'" ts] by auto
      have "tok_end (ts ! i) \<noteq> -1" if "u = None" "i < toknext p'" for i
      proof -
        from jsmn_find_open_None [of ts "toknext p'"] u that t have "\<not> tok_open (ts ! i)" by simp
        moreover from t that have "tok_ok len q (ts ! i)" by simp
        ultimately show ?thesis by (auto simp: tok_open_def tok_ok_def)
      qed
      with t u loop c0 Inr Some show ?thesis
        by (auto simp: jsmn_parse_def tok_ok_def split: option.splits if_splits)
    qed
  qed
qed

text \<open>The witness: \<open>[1,2]\<close> with an array of three tokens.\<close>

abbreviation tok0 :: jsmntok where
  "tok0 \<equiv> \<lparr>tok_type = JSMN_UNDEFINED, tok_start = 0, tok_end = 0, tok_size = 0\<rparr>"

theorem jsmn_parse_safe_witness:
  "\<exists>p' toks' r. jsmn_parse ''[1,2]'' 5 3 (jsmn_init, Some (replicate 3 tok0)) = Some ((p', toks'), r) \<and>
    (\<forall>k. r = Inr k \<longrightarrow> k = int (toknext p') \<and> toknext p' \<le> 3 \<and>
       (\<exists>ts. toks' = Some ts \<and> (\<forall>i < toknext p'.
          tok_type (ts ! i) \<noteq> JSMN_UNDEFINED \<and> 0 \<le> tok_start (ts ! i) \<and>
          tok_start (ts ! i) \<le> tok_end (ts ! i) \<and> tok_end (ts ! i) \<le> int 5)))"
  by (rule jsmn_parse_safe) simp_all

end
