(* ===== verification/Jsmn_Prefix.thy ===== *)
theory Jsmn_Prefix
  imports Jsmn
begin

text \<open>
  The tokenizer looks only at the first \<open>len\<close> characters it is given: whatever follows them in the
  buffer is irrelevant.
\<close>

lemma rd_prefix: "i < len \<Longrightarrow> len \<le> length js \<Longrightarrow> rd (js @ rest) i = Some (js ! i) \<and> rd js i = Some (js ! i)"
  by (simp add: nth_append)

lemma jsmn_prim_loop_prefix:
  "len \<le> length js \<Longrightarrow> jsmn_prim_loop (js @ rest) len i = jsmn_prim_loop js len i"
proof (induction js len i rule: jsmn_prim_loop.induct)
  case (1 js len i)
  show ?case
  proof (cases "i < len")
    case True
    from rd_prefix [OF True "1.prems"] "1.IH" [OF True, of "js ! i"] "1.prems" True show ?thesis
      by (subst (1 2) jsmn_prim_loop.simps) simp
  qed (simp add: jsmn_prim_loop.simps)
qed

lemma jsmn_hex_loop_prefix:
  "len \<le> length js \<Longrightarrow> jsmn_hex_loop (js @ rest) len k i = jsmn_hex_loop js len k i"
proof (induction k arbitrary: i)
  case (Suc k)
  then show ?case
    using rd_prefix [of i len js rest] by (cases "i < len") simp_all
qed simp

lemma jsmn_str_loop_prefix:
  "len \<le> length js \<Longrightarrow> jsmn_str_loop (js @ rest) len i = jsmn_str_loop js len i"
proof (induction js len i rule: jsmn_str_loop.induct)
  case (1 js len i)
  show ?case
  proof (cases "i < len")
    case True
    note r = rd_prefix [OF True "1.prems"] and IH = "1.IH" [OF True conjunct2 [OF r]]
    show ?thesis
    proof (cases "js ! i = BSLASH \<and> i + 1 < len")
      case esc: True
      note r' = rd_prefix [OF conjunct2 [OF esc] "1.prems"]
      have "jsmn_str_loop (js @ rest) len (i + 2) = jsmn_str_loop js len (i + 2)" if "simple_escape (js ! (i + 1))"
        using IH(1) esc r' that "1.prems" by simp
      moreover have "jsmn_str_loop (js @ rest) len (j - 1 + 1) = jsmn_str_loop js len (j - 1 + 1)"
        if "\<not> simple_escape (js ! (i + 1))" "js ! (i + 1) = CHR ''u''" "jsmn_hex_loop js len 4 (i + 2) = Some (Some j)" for j
        using IH(2) esc r' that "1.prems" by simp
      ultimately show ?thesis
        using r r' esc True jsmn_hex_loop_prefix [OF "1.prems", of rest 4 "i + 2"]
        by (subst (1 2) jsmn_str_loop.simps)
          (cases "jsmn_hex_loop js len 4 (i + 2)", simp_all split: option.splits)
    next
      case False
      with IH(3) r True "1.prems" show ?thesis
        by (subst (1 2) jsmn_str_loop.simps) auto
    qed
  qed (simp add: jsmn_str_loop.simps)
qed

lemma jsmn_step_prefix:
  "len \<le> length js \<Longrightarrow> jsmn_step (js @ rest) len n c st k = jsmn_step js len n c st k"
  by (simp add: jsmn_step_def jsmn_parse_string_def jsmn_parse_primitive_def jsmn_str_loop_prefix
      jsmn_prim_loop_prefix)

lemma jsmn_loop_prefix:
  "len \<le> length js \<Longrightarrow> jsmn_loop (js @ rest) len n st k = jsmn_loop js len n st k"
proof (induction js len n st k rule: jsmn_loop.induct)
  case (1 js len n st k)
  show ?case
  proof (cases "pos (fst st) < len")
    case True
    note r = rd_prefix [OF True "1.prems"]
    show ?thesis
    proof (cases "js ! pos (fst st) = NUL")
      case False
      from "1.IH" [OF True conjunct2 [OF r] False] "1.prems" show ?thesis
        using jsmn_loop_unfold [OF True conjunct1 [OF r] False] jsmn_loop_unfold [OF True conjunct2 [OF r] False]
        by (auto simp: jsmn_step_prefix split: option.splits sum.splits)
    qed (use r True in \<open>simp add: jsmn_loop.simps\<close>)
  qed (simp add: jsmn_loop.simps)
qed

lemma jsmn_parse_prefix:
  "len \<le> length js \<Longrightarrow> jsmn_parse (js @ rest) len n st = jsmn_parse js len n st"
  by (simp add: jsmn_parse_def jsmn_loop_prefix)

end
