(* ===== verification/Jsmn_Print.thy ===== *)
theory Jsmn_Print
  imports Jsmn_Safe Jsmn_Prefix
begin

text \<open>
  Functional correctness of the tokenizer: an abstract syntax of JSON values, the text of a value
  and the token list that describes it.  \<open>jsmn_parse\<close> applied to the text of a well-formed value
  returns exactly that token list.
\<close>

section \<open>JSON values, their text and their tokens\<close>

datatype json =
    JPrim string
  | JStr string
  | JArr "json list"
  | JObj "(string \<times> json) list"

text \<open>The characters of an unquoted value, and the bodies of string literals.\<close>

definition prim_char :: "char \<Rightarrow> bool" where
  "prim_char c \<longleftrightarrow> 32 \<le> schar c \<and> schar c < 127 \<and> \<not> prim_stop c"

fun str_body :: "string \<Rightarrow> bool" where
  "str_body [] = True"
| "str_body (c # s) =
     (if c = BSLASH then
        (case s of
           [] \<Rightarrow> False
         | e # s' \<Rightarrow> simple_escape e \<and> str_body s' \<or>
             e = CHR ''u'' \<and> 4 \<le> length s' \<and> list_all hex_char (take 4 s') \<and> str_body (drop 4 s'))
      else c \<noteq> NUL \<and> c \<noteq> QUOTE \<and> str_body s)"

fun wf_json :: "json \<Rightarrow> bool" where
  "wf_json (JPrim s) \<longleftrightarrow> s \<noteq> [] \<and> list_all prim_char s \<and> hd s \<notin> {QUOTE, CHR ''{'', CHR ''[''}"
| "wf_json (JStr s) \<longleftrightarrow> str_body s"
| "wf_json (JArr vs) \<longleftrightarrow> list_all wf_json vs"
| "wf_json (JObj kvs) \<longleftrightarrow> list_all (\<lambda>(k, v). str_body k \<and> wf_json v) kvs"

text \<open>The flag says whether the element is the first one, which no comma precedes.\<close>

fun print_json :: "json \<Rightarrow> string"
  and print_elems :: "bool \<Rightarrow> json list \<Rightarrow> string"
  and print_members :: "bool \<Rightarrow> (string \<times> json) list \<Rightarrow> string" where
  "print_json (JPrim s) = s"
| "print_json (JStr s) = QUOTE # s @ [QUOTE]"
| "print_json (JArr vs) = CHR ''['' # print_elems True vs @ [CHR '']'']"
| "print_json (JObj kvs) = CHR ''{'' # print_members True kvs @ [CHR ''}'']"
| "print_elems b [] = []"
| "print_elems b (v # vs) = (if b then [] else [CHR '','']) @ print_json v @ print_elems False vs"
| "print_members b [] = []"
| "print_members b ((k, v) # kvs) =
     (if b then [] else [CHR '','']) @ QUOTE # k @ QUOTE # CHR '':'' # print_json v @ print_members False kvs"

definition mk_tok :: "jsmntype \<Rightarrow> nat \<Rightarrow> nat \<Rightarrow> nat \<Rightarrow> jsmntok" where
  "mk_tok ty s e sz = \<lparr>tok_type = ty, tok_start = int s, tok_end = int e, tok_size = int sz\<rparr>"

fun toks_of :: "nat \<Rightarrow> json \<Rightarrow> jsmntok list"
  and toks_elems :: "nat \<Rightarrow> bool \<Rightarrow> json list \<Rightarrow> jsmntok list"
  and toks_members :: "nat \<Rightarrow> bool \<Rightarrow> (string \<times> json) list \<Rightarrow> jsmntok list" where
  "toks_of i (JPrim s) = [mk_tok JSMN_PRIMITIVE i (i + length s) 0]"
| "toks_of i (JStr s) = [mk_tok JSMN_STRING (i + 1) (i + 1 + length s) 0]"
| "toks_of i (JArr vs) = mk_tok JSMN_ARRAY i (i + length (print_json (JArr vs))) (length vs)
     # toks_elems (i + 1) True vs"
| "toks_of i (JObj kvs) = mk_tok JSMN_OBJECT i (i + length (print_json (JObj kvs))) (length kvs)
     # toks_members (i + 1) True kvs"
| "toks_elems i b [] = []"
| "toks_elems i b (v # vs) =
     (let j = (if b then i else i + 1) in
      toks_of j v @ toks_elems (j + length (print_json v)) False vs)"
| "toks_members i b [] = []"
| "toks_members i b ((k, v) # kvs) =
     (let j = (if b then i else i + 1) in
      mk_tok JSMN_STRING (j + 1) (j + 1 + length k) 1
        # toks_of (j + length k + 3) v
        @ toks_members (j + length k + 3 + length (print_json v)) False kvs)"

section \<open>The scanning loops on printed text\<close>

lemma schar_NUL [simp]: "schar NUL = 0"
  by (simp add: schar_def)

lemma hex_char_not_NUL: "hex_char c \<Longrightarrow> c \<noteq> NUL"
  by (auto simp: hex_char_def)

lemma jsmn_hex_loop_digits:
  "js = pre @ h @ post \<Longrightarrow> list_all hex_char h \<Longrightarrow> len = length js \<Longrightarrow>
     jsmn_hex_loop js len (length h) (length pre) = Some (Some (length pre + length h))"
proof (induction h arbitrary: pre)
  case Nil
  then show ?case by simp
next
  case (Cons c h)
  from Cons.IH [of "pre @ [c]"] Cons.prems show ?case
    by (auto simp: hex_char_not_NUL dest: hex_char_not_NUL)
qed

lemma jsmn_str_loop_body:
  "js = pre @ s @ QUOTE # post \<Longrightarrow> str_body s \<Longrightarrow>
     jsmn_str_loop js (length js) (length pre) = Some (Inr (Some (length pre + length s)))"
proof (induction s arbitrary: pre rule: str_body.induct)
  case 1
  then show ?case by (subst jsmn_str_loop.simps) simp
next
  case (2 c s)
  show ?case
  proof (cases "c = BSLASH")
    case False
    with 2 show ?thesis
      by (subst jsmn_str_loop.simps) (use "2.IH"(3) [OF False, of "pre @ [c]"] in auto)
  next
    case True
    with "2.prems" obtain e s' where s: "s = e # s'" by (auto split: list.splits)
    have e: "rd js (Suc (length pre)) = Some e"
      using "2.prems"(1) s by (simp add: rd_def nth_append)
    show ?thesis
    proof (cases "simple_escape e \<and> str_body s'")
      case esc: True
      have "jsmn_str_loop js (length js) (length (pre @ [c, e])) = Some (Inr (Some (length (pre @ [c, e]) + length s')))"
        using esc s True "2.prems" by (intro "2.IH"(1)) auto
      with True s esc e "2.prems" show ?thesis
        by (subst jsmn_str_loop.simps) auto
    next
      case uni: False
      with True s "2.prems" have u: "e = CHR ''u''" "4 \<le> length s'" "list_all hex_char (take 4 s')" "str_body (drop 4 s')"
        by auto
      have l4: "length (take 4 s') = 4" using u by simp
      have h: "jsmn_hex_loop js (length js) 4 (length pre + 2) = Some (Some (length pre + 6))"
        using jsmn_hex_loop_digits [of js "pre @ [c, e]" "take 4 s'" "drop 4 s' @ QUOTE # post"]
          u s "2.prems"(1) by (simp add: l4 add.commute del: length_take)
      have rec: "jsmn_str_loop js (length js) (length pre + 6) = Some (Inr (Some (length pre + length (c # s))))"
        using "2.IH"(2) [OF True s, of "pre @ [c, e] @ take 4 s'"] u s True "2.prems"
        by (simp add: l4 add.commute del: length_take)
      have "\<not> simple_escape e" using u by (simp add: simple_escape_def)
      with h rec True s u e "2.prems" show ?thesis
        by (subst jsmn_str_loop.simps) (simp add: add.commute [of 6])
    qed
  qed
qed

lemma jsmn_prim_loop_body:
  "js = pre @ s @ post \<Longrightarrow> list_all prim_char s \<Longrightarrow> post = [] \<or> prim_stop (hd post) \<Longrightarrow>
     jsmn_prim_loop js (length js) (length pre) = Some (Inr (length pre + length s))"
proof (induction s arbitrary: pre)
  case Nil
  then show ?case by (subst jsmn_prim_loop.simps) (cases post, auto)
next
  case (Cons c s)
  from Cons.prems have "c \<noteq> NUL" by (auto simp: prim_char_def)
  with Cons.IH [of "pre @ [c]"] Cons.prems show ?case
    by (subst jsmn_prim_loop.simps) (auto simp: prim_char_def)
qed

section \<open>The loop on structured states\<close>

definition mk_parser :: "nat \<Rightarrow> nat \<Rightarrow> int \<Rightarrow> jsmn_parser" where
  "mk_parser i m s = \<lparr>pos = i, toknext = m, toksuper = s\<rparr>"

text \<open>The total version of \<open>bump_size\<close> and the innermost open token, on a list of tokens.\<close>

definition bump :: "jsmntok list \<Rightarrow> int \<Rightarrow> jsmntok list" where
  "bump ts s = (if s = -1 then ts else ts[nat s := (ts ! nat s)\<lparr>tok_size := tok_size (ts ! nat s) + 1\<rparr>])"

definition super_ok :: "jsmntok list \<Rightarrow> int \<Rightarrow> bool" where
  "super_ok ts s \<longleftrightarrow> -1 \<le> s \<and> s < int (length ts)"

fun last_open :: "jsmntok list \<Rightarrow> nat \<Rightarrow> int" where
  "last_open ts 0 = -1"
| "last_open ts (Suc i) = (if tok_open (ts ! i) then int i else last_open ts i)"

lemma length_bump [simp]: "length (bump ts s) = length ts"
  by (simp add: bump_def)

lemma bump_size_append:
  "super_ok ts s \<Longrightarrow> bump_size (ts @ fr) s = Some (bump ts s @ fr)"
  by (auto simp: bump_size_def bump_def super_ok_def rd_int_def nth_append list_update_append)

lemma tok_open_bump [simp]: "super_ok ts s \<Longrightarrow> i < length ts \<Longrightarrow> tok_open (bump ts s ! i) = tok_open (ts ! i)"
  by (cases "nat s = i") (auto simp: bump_def super_ok_def tok_open_def)

lemma jsmn_find_open_last:
  "m \<le> length ts \<Longrightarrow> jsmn_find_open (ts @ fr) m = Some (if last_open ts m = -1 then None else Some (nat (last_open ts m)))"
  by (induction m) (auto simp: rd_def nth_append)

lemma last_open_ge: "-1 \<le> last_open ts m"
  by (induction m) auto

lemma last_open_less: "last_open ts m < int m"
  by (induction m) auto

lemma last_open_cong: "\<forall>i < m. tok_open (ts ! i) = tok_open (us ! i) \<Longrightarrow> last_open ts m = last_open us m"
  by (induction m) auto

lemma last_open_bump: "super_ok ts s \<Longrightarrow> m \<le> length ts \<Longrightarrow> last_open (bump ts s) m = last_open ts m"
  by (rule last_open_cong) simp

lemma last_open_closed_suffix:
  "list_all (\<lambda>t. \<not> tok_open t) ds \<Longrightarrow> last_open (ts @ ds) (length ts + length ds) = last_open ts (length ts)"
proof (induction ds rule: rev_induct)
  case Nil
  then show ?case by simp
next
  case (snoc d ds)
  have "last_open (ts @ ds @ [d]) (length ts + length ds) = last_open (ts @ ds) (length ts + length ds)"
    by (rule last_open_cong) (auto simp: nth_append)
  with snoc show ?case by (simp add: nth_append)
qed

lemma tok_open_mk_tok [simp]: "\<not> tok_open (mk_tok ty s e sz)"
  by (simp add: tok_open_def mk_tok_def)

lemma toks_closed:
  "list_all (\<lambda>t. \<not> tok_open t) (toks_of i v)"
  "list_all (\<lambda>t. \<not> tok_open t) (toks_elems i b vs)"
  "list_all (\<lambda>t. \<not> tok_open t) (toks_members i b kvs)"
  by (induction i v and i b vs and i b kvs rule: toks_of_toks_elems_toks_members.induct)
    (auto simp: Let_def)

lemma tok_upd_all [simp]:
  "t\<lparr>tok_type := a, tok_start := b, tok_end := c, tok_size := d\<rparr> =
     \<lparr>tok_type = a, tok_start = b, tok_end = c, tok_size = d\<rparr>"
  by (cases t) simp

lemma super_ok_snoc: "super_ok ts u \<Longrightarrow> super_ok (ts @ [x]) u"
  by (auto simp: super_ok_def)

lemma bump_snoc: "super_ok ts u \<Longrightarrow> bump (ts @ [x]) u = bump ts u @ [x]"
  by (auto simp: bump_def super_ok_def list_update_append nth_append)

lemma bump_size_snoc:
  "super_ok ts u \<Longrightarrow> bump_size (ts @ x # fr) u = Some (bump ts u @ x # fr)"
  using bump_size_append [of "ts @ [x]" u fr] by (simp add: super_ok_snoc bump_snoc)

lemma jsmn_alloc_token_append:
  "length ts < n \<Longrightarrow> jsmn_alloc_token (mk_parser i (length ts) u) (ts @ f # fr) n =
     Some (mk_parser i (Suc (length ts)) u, ts @ f\<lparr>tok_start := -1, tok_end := -1, tok_size := 0\<rparr> # fr,
       Some (length ts))"
  by (simp add: jsmn_alloc_token_def mk_parser_def rd_def wr_def)

lemma mk_parser_simps [simp]:
  "pos (mk_parser i m u) = i" "toknext (mk_parser i m u) = m" "toksuper (mk_parser i m u) = u"
  "(mk_parser i m u)\<lparr>pos := j\<rparr> = mk_parser j m u"
  "(mk_parser i m u)\<lparr>toksuper := v\<rparr> = mk_parser i m v"
  by (simp_all add: mk_parser_def)

text \<open>The loop state with tokens \<open>ts\<close> in use and \<open>fr\<close> free.\<close>

abbreviation mk_st :: "nat \<Rightarrow> int \<Rightarrow> jsmntok list \<Rightarrow> jsmntok list \<Rightarrow> jsmn_st" where
  "mk_st i u ts fr \<equiv> (mk_parser i (length ts) u, Some (ts @ fr))"

lemma jsmn_loop_step:
  assumes "i < length js" "js ! i = c" "c \<noteq> NUL"
    and "jsmn_step js (length js) n c (mk_parser i m u, toks) k = Some ((mk_parser j m' u', toks'), Inr k')"
  shows "jsmn_loop js (length js) n (mk_parser i m u, toks) k =
    jsmn_loop js (length js) n (mk_parser (Suc j) m' u', toks') k'"
  using assms by (subst jsmn_loop.simps) simp

lemma loop_prim:
  assumes js: "js = pre @ s @ post" and s: "wf_json (JPrim s)" and post: "post = [] \<or> prim_stop (hd post)"
    and n: "length ts < n" and sup: "super_ok ts u" and len: "length js < 2 ^ 31"
  shows "jsmn_loop js (length js) n (mk_st (length pre) u ts (f # fr)) k =
    jsmn_loop js (length js) n (mk_st (length pre + length s) u
      (bump ts u @ [mk_tok JSMN_PRIMITIVE (length pre) (length pre + length s) 0]) fr) (k + 1)"
proof -
  from s obtain c s' where sc: "s = c # s'" by (cases s) auto
  with s have c: "c \<noteq> NUL" "c \<notin> {QUOTE, CHR ''{'', CHR ''[''}" "\<not> prim_stop c"
    by (auto simp: prim_char_def)
  let ?e = "length pre + length s"
  have loop: "jsmn_prim_loop js (length js) (length pre) = Some (Inr ?e)"
    using jsmn_prim_loop_body [OF js _ post] s by simp
  have bounds: "length pre < 2 ^ 31" "?e < 2 ^ 31"
    using js len by simp_all
  have "jsmn_step js (length js) n c (mk_st (length pre) u ts (f # fr)) k =
    Some ((mk_parser (?e - 1) (Suc (length ts)) u,
      Some (bump ts u @ mk_tok JSMN_PRIMITIVE (length pre) ?e 0 # fr)), Inr (k + 1))"
    using c n loop sup c_int_of_nat [OF bounds(1)] c_int_of_nat [OF bounds(2)]
    by (simp add: jsmn_step_def jsmn_scalar_def jsmn_parse_primitive_def prim_stop_def Let_def
        jsmn_alloc_token_append rd_def wr_def jsmn_fill_token_def mk_tok_def bump_size_snoc)
  from jsmn_loop_step [OF _ _ c(1) this] js sc show ?thesis by simp
qed

lemma loop_str:
  assumes js: "js = pre @ QUOTE # s @ QUOTE # post" and s: "str_body s"
    and n: "length ts < n" and sup: "super_ok ts u" and len: "length js < 2 ^ 31"
  shows "jsmn_loop js (length js) n (mk_st (length pre) u ts (f # fr)) k =
    jsmn_loop js (length js) n (mk_st (length pre + length s + 2) u
      (bump ts u @ [mk_tok JSMN_STRING (length pre + 1) (length pre + 1 + length s) 0]) fr) (k + 1)"
proof -
  let ?e = "length pre + 1 + length s"
  have loop: "jsmn_str_loop js (length js) (length pre + 1) = Some (Inr (Some ?e))"
    using jsmn_str_loop_body [of js "pre @ [QUOTE]" s post] js s by simp
  have bounds: "length pre < 2 ^ 31" "length pre + 1 < 2 ^ 31" "?e < 2 ^ 31"
    using js len by simp_all
  have conv: "c_int (c_int (int (length pre)) + 1) = int (length pre + 1)"
    using c_int_of_nat [OF bounds(1)] c_int_of_nat [OF bounds(2)] by (simp add: add.commute)
  have "jsmn_step js (length js) n QUOTE (mk_st (length pre) u ts (f # fr)) k =
    Some ((mk_parser ?e (Suc (length ts)) u,
      Some (bump ts u @ mk_tok JSMN_STRING (length pre + 1) ?e 0 # fr)), Inr (k + 1))"
    using n sup loop conv c_int_of_nat [OF bounds(3)]
    by (simp add: jsmn_step_def jsmn_scalar_def jsmn_parse_string_def Let_def
        jsmn_alloc_token_append rd_def wr_def jsmn_fill_token_def mk_tok_def bump_size_snoc)
  from jsmn_loop_step [OF _ _ _ this] js show ?thesis by simp
qed

text \<open>An open container, as \<open>jsmn_open\<close> leaves it.\<close>

definition open_tok :: "jsmntype \<Rightarrow> nat \<Rightarrow> nat \<Rightarrow> jsmntok" where
  "open_tok ty s sz = \<lparr>tok_type = ty, tok_start = int s, tok_end = -1, tok_size = int sz\<rparr>"

lemma loop_open:
  assumes js: "js = pre @ c # post" and c: "c = (if ty = JSMN_OBJECT then CHR ''{'' else CHR ''['')"
    and ty: "ty = JSMN_OBJECT \<or> ty = JSMN_ARRAY"
    and n: "length ts < n" "n < 2 ^ 31" and sup: "super_ok ts u" and len: "length js < 2 ^ 31"
  shows "jsmn_loop js (length js) n (mk_st (length pre) u ts (f # fr)) k =
    jsmn_loop js (length js) n (mk_st (Suc (length pre)) (int (length ts))
      (bump ts u @ [open_tok ty (length pre) 0]) fr) (k + 1)"
proof -
  have bounds: "length pre < 2 ^ 31" "length ts < 2 ^ 31"
    using js len n by simp_all
  have "jsmn_step js (length js) n c (mk_st (length pre) u ts (f # fr)) k =
    Some ((mk_parser (length pre) (Suc (length ts)) (int (length ts)),
      Some (bump ts u @ open_tok ty (length pre) 0 # fr)), Inr (k + 1))"
    using c ty n sup c_int_of_nat [OF bounds(1)] c_int_of_nat [OF bounds(2)]
      rd_append_at [of "bump ts u"] list_update_append_at [of "bump ts u"]
    by (auto simp: jsmn_step_def jsmn_open_def jsmn_alloc_token_append bump_size_snoc open_tok_def rd_def wr_def)
  from jsmn_loop_step [OF _ _ _ this] js c show ?thesis by simp
qed

lemma loop_close:
  assumes js: "js = pre @ c # post" and c: "c = (if ty = JSMN_OBJECT then CHR ''}'' else CHR '']'')"
    and ty: "ty = JSMN_OBJECT \<or> ty = JSMN_ARRAY"
    and ds: "list_all (\<lambda>t. \<not> tok_open t) ds" and len: "length js < 2 ^ 31"
  shows "jsmn_loop js (length js) n (mk_st (length pre) u (ts @ open_tok ty s sz # ds) fr) k =
    jsmn_loop js (length js) n (mk_st (Suc (length pre)) (last_open ts (length ts))
      (ts @ mk_tok ty s (Suc (length pre)) sz # ds) fr) k"
proof -
  let ?toks = "ts @ open_tok ty s sz # ds"
  have o: "tok_open (open_tok ty s sz)" by (simp add: open_tok_def tok_open_def)
  have "last_open ?toks (length ?toks) = int (length ts)"
    using last_open_closed_suffix [OF ds, of "ts @ [open_tok ty s sz]"] o by simp
  then have found: "jsmn_find_open (?toks @ fr) (length ?toks) = Some (Some (length ts))"
    using jsmn_find_open_last [of "length ?toks" ?toks fr] by simp
  have conv: "c_int (int (length pre) + 1) = int (Suc (length pre))"
    using js len by (subst c_int_id) auto
  let ?t = "mk_tok ty s (Suc (length pre)) sz"
  have "last_open (ts @ ?t # ds @ fr) (Suc (length ts)) = last_open ts (length ts)"
    using last_open_cong [of "length ts" "ts @ ?t # ds @ fr" ts] by (simp add: nth_append)
  then have nx: "jsmn_find_open (ts @ ?t # ds @ fr) (Suc (length ts)) =
      Some (if last_open ts (length ts) = -1 then None else Some (nat (last_open ts (length ts))))"
    using jsmn_find_open_last [of "Suc (length ts)" "ts @ ?t # ds @ fr" "[]"] by simp
  have sup: "(case if last_open ts (length ts) = -1 then None else Some (nat (last_open ts (length ts))) of
      None \<Rightarrow> -1 | Some j \<Rightarrow> int j) = last_open ts (length ts)"
    using last_open_ge [of ts "length ts"] by auto
  have upd: "(open_tok ty s sz)\<lparr>tok_end := int (Suc (length pre))\<rparr> = ?t"
    by (simp add: open_tok_def mk_tok_def)
  have "jsmn_step js (length js) n c (mk_st (length pre) u ?toks fr) k =
    Some ((mk_parser (length pre) (length ?toks) (last_open ts (length ts)),
      Some ((ts @ ?t # ds) @ fr)), Inr k)"
    using c ty found nx sup conv upd
    by (auto simp: jsmn_step_def jsmn_close_def Let_def open_tok_def)
  from jsmn_loop_step [OF _ _ _ this] js c show ?thesis by simp
qed

lemma loop_colon:
  assumes js: "js = pre @ CHR '':'' # post" and ts: "ts \<noteq> []" and n: "length ts < 2 ^ 31"
  shows "jsmn_loop js (length js) n (mk_st (length pre) u ts fr) k =
    jsmn_loop js (length js) n (mk_st (Suc (length pre)) (int (length ts) - 1) ts fr) k"
proof -
  have "c_int (int (length ts) - 1) = int (length ts) - 1"
    using ts n by (intro c_int_id) auto
  then have "jsmn_step js (length js) n CHR '':'' (mk_st (length pre) u ts fr) k =
    Some ((mk_parser (length pre) (length ts) (int (length ts) - 1), Some (ts @ fr)), Inr k)"
    by (simp add: jsmn_step_def)
  from jsmn_loop_step [OF _ _ _ this] js show ?thesis by simp
qed

lemma jsmn_find_open_container_at:
  "i < m \<Longrightarrow> m \<le> length toks \<Longrightarrow> tok_open (toks ! i) \<Longrightarrow> tok_container (toks ! i) \<Longrightarrow>
     \<forall>j. i < j \<longrightarrow> j < m \<longrightarrow> \<not> tok_open (toks ! j) \<Longrightarrow>
     jsmn_find_open_container toks m = Some (Some i)"
  by (induction m) (auto simp: less_Suc_eq)

text \<open>The superior token before a comma: the container itself, or one of its keys or values.\<close>

definition in_container :: "jsmntok list \<Rightarrow> nat \<Rightarrow> int \<Rightarrow> bool" where
  "in_container ts m u \<longleftrightarrow> 0 \<le> u \<and> u < int (length ts) \<and> (tok_container (ts ! nat u) \<longrightarrow> u = int m)"

lemma in_container_nat:
  "in_container ts m (int i) \<longleftrightarrow> i < length ts \<and> (tok_container (ts ! i) \<longrightarrow> i = m)"
  by (simp add: in_container_def)

lemma loop_comma:
  assumes js: "js = pre @ CHR '','' # post" and ty: "ty = JSMN_OBJECT \<or> ty = JSMN_ARRAY"
    and ds: "list_all (\<lambda>t. \<not> tok_open t) ds"
    and u: "in_container (ts @ open_tok ty s sz # ds) (length ts) u"
  shows "jsmn_loop js (length js) n (mk_st (length pre) u (ts @ open_tok ty s sz # ds) fr) k =
    jsmn_loop js (length js) n (mk_st (Suc (length pre)) (int (length ts)) (ts @ open_tok ty s sz # ds) fr) k"
proof -
  let ?toks = "ts @ open_tok ty s sz # ds"
  have sup: "u \<noteq> -1" "rd_int (?toks @ fr) u = Some (?toks ! nat u)"
    using u rd_append_left [of "nat u" ?toks fr]
    by (auto simp: in_container_def rd_int_def simp del: append_assoc)
  have "jsmn_find_open_container (?toks @ fr) (length ?toks) = Some (Some (length ts))"
    using ds ty
    by (intro jsmn_find_open_container_at)
      (auto simp: nth_append nth_Cons' open_tok_def tok_open_def tok_container_def list_all_length)
  with u sup have "jsmn_step js (length js) n CHR '','' (mk_st (length pre) u ?toks fr) k =
    Some ((mk_parser (length pre) (length ?toks) (int (length ts)), Some (?toks @ fr)), Inr k)"
    by (auto simp: jsmn_step_def jsmn_comma_def in_container_def)
  from jsmn_loop_step [OF _ _ _ this] js show ?thesis by simp
qed

section \<open>The token list of a printed value\<close>

definition after :: "json \<Rightarrow> int \<Rightarrow> jsmntok list \<Rightarrow> int" where
  "after v u ts = (case v of JPrim _ \<Rightarrow> u | JStr _ \<Rightarrow> u | _ \<Rightarrow> last_open ts (length ts))"

lemma bump_container:
  "bump (ts @ open_tok ty s sz # ds) (int (length ts)) = ts @ open_tok ty s (Suc sz) # ds"
  by (simp add: bump_def open_tok_def nth_append)

lemma bump_last: "bump (ts @ [mk_tok ty s e sz]) (int (length ts)) = ts @ [mk_tok ty s e (Suc sz)]"
  by (simp add: bump_def mk_tok_def nth_append)

lemma last_open_container:
  "list_all (\<lambda>t. \<not> tok_open t) ds \<Longrightarrow>
     last_open (ts @ open_tok ty s sz # ds) (Suc (length ts + length ds)) = int (length ts)"
  using last_open_closed_suffix [of ds "ts @ [open_tok ty s sz]"]
  by (simp add: open_tok_def tok_open_def nth_append)

lemma prim_stops [simp]: "prim_stop CHR '',''" "prim_stop CHR '']''" "prim_stop CHR ''}''"
  by (simp_all add: prim_stop_def)

definition printed_run :: "nat \<Rightarrow> json \<Rightarrow> bool" where
  "printed_run i v \<longleftrightarrow> (\<forall>js pre post ts fr u k n.
     js = pre @ print_json v @ post \<longrightarrow> i = length pre \<longrightarrow> wf_json v \<longrightarrow>
     post = [] \<or> prim_stop (hd post) \<longrightarrow> length ts + length (toks_of i v) \<le> n \<longrightarrow> n < 2 ^ 31 \<longrightarrow>
     n \<le> length ts + length fr \<longrightarrow> super_ok ts u \<longrightarrow> length js < 2 ^ 31 \<longrightarrow>
     jsmn_loop js (length js) n (mk_st i u ts fr) k =
     jsmn_loop js (length js) n (mk_st (i + length (print_json v)) (after v u ts)
       (bump ts u @ toks_of i v) (drop (length (toks_of i v)) fr)) (k + int (length (toks_of i v))))"

definition elems_run :: "nat \<Rightarrow> bool \<Rightarrow> json list \<Rightarrow> bool" where
  "elems_run i b vs \<longleftrightarrow> (\<forall>js pre post ts s sz ds fr k n.
     js = pre @ print_elems b vs @ post \<longrightarrow> i = length pre \<longrightarrow> list_all wf_json vs \<longrightarrow>
     post \<noteq> [] \<and> prim_stop (hd post) \<longrightarrow>
     Suc (length ts + length ds) + length (toks_elems i b vs) \<le> n \<longrightarrow> n < 2 ^ 31 \<longrightarrow>
     n \<le> Suc (length ts + length ds) + length fr \<longrightarrow> list_all (\<lambda>t. \<not> tok_open t) ds \<longrightarrow> length js < 2 ^ 31 \<longrightarrow>
     jsmn_loop js (length js) n (mk_st i (int (length ts)) (ts @ open_tok JSMN_ARRAY s sz # ds) fr) k =
     jsmn_loop js (length js) n (mk_st (i + length (print_elems b vs)) (int (length ts))
       (ts @ open_tok JSMN_ARRAY s (sz + length vs) # ds @ toks_elems i b vs)
       (drop (length (toks_elems i b vs)) fr)) (k + int (length (toks_elems i b vs))))"

definition members_run :: "nat \<Rightarrow> bool \<Rightarrow> (string \<times> json) list \<Rightarrow> bool" where
  "members_run i b kvs \<longleftrightarrow> (\<forall>js pre post ts s sz ds fr u k n.
     js = pre @ print_members b kvs @ post \<longrightarrow> i = length pre \<longrightarrow>
     list_all (\<lambda>(k, v). str_body k \<and> wf_json v) kvs \<longrightarrow> post \<noteq> [] \<and> prim_stop (hd post) \<longrightarrow>
     Suc (length ts + length ds) + length (toks_members i b kvs) \<le> n \<longrightarrow> n < 2 ^ 31 \<longrightarrow>
     n \<le> Suc (length ts + length ds) + length fr \<longrightarrow> list_all (\<lambda>t. \<not> tok_open t) ds \<longrightarrow> length js < 2 ^ 31 \<longrightarrow>
     (if b then u = int (length ts) else in_container (ts @ open_tok JSMN_OBJECT s sz # ds) (length ts) u) \<longrightarrow>
     (\<exists>u'. jsmn_loop js (length js) n (mk_st i u (ts @ open_tok JSMN_OBJECT s sz # ds) fr) k =
     jsmn_loop js (length js) n (mk_st (i + length (print_members b kvs)) u'
       (ts @ open_tok JSMN_OBJECT s (sz + length kvs) # ds @ toks_members i b kvs)
       (drop (length (toks_members i b kvs)) fr)) (k + int (length (toks_members i b kvs)))))"

lemma printed_run_scalar:
  "printed_run i (JPrim s)" "printed_run i (JStr s)"
proof -
  show "printed_run i (JPrim s)"
    unfolding printed_run_def
  proof (intro allI impI)
    fix js pre post :: string and ts fr :: "jsmntok list" and u k :: int and n :: nat
    assume A: "js = pre @ print_json (JPrim s) @ post" "i = length pre" "wf_json (JPrim s)"
      "post = [] \<or> prim_stop (hd post)" "length ts + length (toks_of i (JPrim s)) \<le> n"
      "n \<le> length ts + length fr" "super_ok ts u" "length js < 2 ^ 31"
    then obtain f fr' where "fr = f # fr'" by (cases fr) auto
    with loop_prim [of js pre s post ts n u f fr' k] A
    show "jsmn_loop js (length js) n (mk_st i u ts fr) k =
      jsmn_loop js (length js) n (mk_st (i + length (print_json (JPrim s))) (after (JPrim s) u ts)
        (bump ts u @ toks_of i (JPrim s)) (drop (length (toks_of i (JPrim s))) fr))
        (k + int (length (toks_of i (JPrim s))))"
      by (simp add: after_def)
  qed
  show "printed_run i (JStr s)"
    unfolding printed_run_def
  proof (intro allI impI)
    fix js pre post :: string and ts fr :: "jsmntok list" and u k :: int and n :: nat
    assume A: "js = pre @ print_json (JStr s) @ post" "i = length pre" "wf_json (JStr s)"
      "length ts + length (toks_of i (JStr s)) \<le> n"
      "n \<le> length ts + length fr" "super_ok ts u" "length js < 2 ^ 31"
    then obtain f fr' where "fr = f # fr'" by (cases fr) auto
    with loop_str [of js pre s post ts n u f fr' k] A
    show "jsmn_loop js (length js) n (mk_st i u ts fr) k =
      jsmn_loop js (length js) n (mk_st (i + length (print_json (JStr s))) (after (JStr s) u ts)
        (bump ts u @ toks_of i (JStr s)) (drop (length (toks_of i (JStr s))) fr))
        (k + int (length (toks_of i (JStr s))))"
      by (simp add: after_def)
  qed
qed

lemma elems_runD:
  assumes "elems_run i b vs" and "js = pre @ print_elems b vs @ post" "i = length pre" "list_all wf_json vs"
    "post \<noteq> []" "prim_stop (hd post)"
    "Suc (length ts + length ds) + length (toks_elems i b vs) \<le> n" "n < 2 ^ 31"
    "n \<le> Suc (length ts + length ds) + length fr" "list_all (\<lambda>t. \<not> tok_open t) ds" "length js < 2 ^ 31"
  shows "jsmn_loop js (length js) n (mk_st i (int (length ts)) (ts @ open_tok JSMN_ARRAY s sz # ds) fr) k =
     jsmn_loop js (length js) n (mk_st (i + length (print_elems b vs)) (int (length ts))
       (ts @ open_tok JSMN_ARRAY s (sz + length vs) # ds @ toks_elems i b vs)
       (drop (length (toks_elems i b vs)) fr)) (k + int (length (toks_elems i b vs)))"
  using assms(1) unfolding elems_run_def using assms(2-) by blast

lemma members_runD:
  assumes "members_run i b kvs" and "js = pre @ print_members b kvs @ post" "i = length pre"
    "list_all (\<lambda>(k, v). str_body k \<and> wf_json v) kvs" "post \<noteq> []" "prim_stop (hd post)"
    "Suc (length ts + length ds) + length (toks_members i b kvs) \<le> n" "n < 2 ^ 31"
    "n \<le> Suc (length ts + length ds) + length fr" "list_all (\<lambda>t. \<not> tok_open t) ds" "length js < 2 ^ 31"
    "if b then u = int (length ts) else in_container (ts @ open_tok JSMN_OBJECT s sz # ds) (length ts) u"
  obtains u' where "jsmn_loop js (length js) n (mk_st i u (ts @ open_tok JSMN_OBJECT s sz # ds) fr) k =
     jsmn_loop js (length js) n (mk_st (i + length (print_members b kvs)) u'
       (ts @ open_tok JSMN_OBJECT s (sz + length kvs) # ds @ toks_members i b kvs)
       (drop (length (toks_members i b kvs)) fr)) (k + int (length (toks_members i b kvs)))"
  using assms(1) unfolding members_run_def using assms(2-) by blast

lemma printed_runD:
  assumes "printed_run i v" and "js = pre @ print_json v @ post" "i = length pre" "wf_json v"
    "post = [] \<or> prim_stop (hd post)" "length ts + length (toks_of i v) \<le> n" "n < 2 ^ 31"
    "n \<le> length ts + length fr" "super_ok ts u" "length js < 2 ^ 31"
  shows "jsmn_loop js (length js) n (mk_st i u ts fr) k =
     jsmn_loop js (length js) n (mk_st (i + length (print_json v)) (after v u ts)
       (bump ts u @ toks_of i v) (drop (length (toks_of i v)) fr)) (k + int (length (toks_of i v)))"
  using assms(1) unfolding printed_run_def using assms(2-) by blast

lemma printed_run_arr:
  assumes "elems_run (Suc i) True vs"
  shows "printed_run i (JArr vs)"
  unfolding printed_run_def
proof (intro allI impI)
  fix js pre post :: string and ts fr :: "jsmntok list" and u k :: int and n :: nat
  let ?es = "print_elems True vs" and ?tk = "toks_elems (Suc i) True vs"
  assume js: "js = pre @ print_json (JArr vs) @ post" and i: "i = length pre" and wf: "wf_json (JArr vs)"
    and n: "length ts + length (toks_of i (JArr vs)) \<le> n" "n < 2 ^ 31" "n \<le> length ts + length fr"
    and u: "super_ok ts u" and len: "length js < 2 ^ 31"
  from n obtain f fr' where fr: "fr = f # fr'" by (cases fr) auto
  have "jsmn_loop js (length js) n (mk_st i u ts fr) k =
      jsmn_loop js (length js) n (mk_st (Suc i) (int (length ts)) (bump ts u @ [open_tok JSMN_ARRAY i 0]) fr') (k + 1)"
    using loop_open [of js pre "CHR ''[''" "?es @ CHR '']'' # post" JSMN_ARRAY ts n u f fr' k] js i n u len fr by simp
  also have "\<dots> = jsmn_loop js (length js) n (mk_st (Suc i + length ?es) (int (length ts))
      (bump ts u @ open_tok JSMN_ARRAY i (length vs) # ?tk) (drop (length ?tk) fr')) (k + 1 + int (length ?tk))"
    using elems_runD [OF assms, where js = js and pre = "pre @ [CHR ''['']" and post = "CHR '']'' # post"
        and ts = "bump ts u" and ds = "[]" and fr = fr' and s = i and sz = 0 and n = n and k = "k + 1"]
      js i wf n len fr by simp
  also have "\<dots> = jsmn_loop js (length js) n (mk_st (Suc (Suc i + length ?es)) (last_open ts (length ts))
      (bump ts u @ mk_tok JSMN_ARRAY i (Suc (Suc i + length ?es)) (length vs) # ?tk) (drop (length ?tk) fr')) (k + 1 + int (length ?tk))"
    using loop_close [where js = js and pre = "pre @ CHR ''['' # ?es" and c = "CHR '']''" and post = post
        and ty = JSMN_ARRAY and ds = ?tk and ts = "bump ts u"] js i len u toks_closed
    by (simp add: last_open_bump)
  finally show "jsmn_loop js (length js) n (mk_st i u ts fr) k =
      jsmn_loop js (length js) n (mk_st (i + length (print_json (JArr vs))) (after (JArr vs) u ts)
        (bump ts u @ toks_of i (JArr vs)) (drop (length (toks_of i (JArr vs))) fr))
        (k + int (length (toks_of i (JArr vs))))"
    using fr by (simp add: after_def add.assoc)
qed

lemma printed_run_obj:
  assumes "members_run (Suc i) True kvs"
  shows "printed_run i (JObj kvs)"
  unfolding printed_run_def
proof (intro allI impI)
  fix js pre post :: string and ts fr :: "jsmntok list" and u k :: int and n :: nat
  let ?es = "print_members True kvs" and ?tk = "toks_members (Suc i) True kvs"
  assume js: "js = pre @ print_json (JObj kvs) @ post" and i: "i = length pre" and wf: "wf_json (JObj kvs)"
    and n: "length ts + length (toks_of i (JObj kvs)) \<le> n" "n < 2 ^ 31" "n \<le> length ts + length fr"
    and u: "super_ok ts u" and len: "length js < 2 ^ 31"
  from n obtain f fr' where fr: "fr = f # fr'" by (cases fr) auto
  have "jsmn_loop js (length js) n (mk_st i u ts fr) k =
      jsmn_loop js (length js) n (mk_st (Suc i) (int (length ts)) (bump ts u @ [open_tok JSMN_OBJECT i 0]) fr') (k + 1)"
    using loop_open [of js pre "CHR ''{''" "?es @ CHR ''}'' # post" JSMN_OBJECT ts n u f fr' k] js i n u len fr by simp
  also obtain u' where "\<dots> = jsmn_loop js (length js) n (mk_st (Suc i + length ?es) u'
      (bump ts u @ open_tok JSMN_OBJECT i (length kvs) # ?tk) (drop (length ?tk) fr')) (k + 1 + int (length ?tk))"
    using members_runD [OF assms, where js = js and pre = "pre @ [CHR ''{'']" and post = "CHR ''}'' # post"
        and ts = "bump ts u" and ds = "[]" and fr = fr' and s = i and sz = 0 and n = n and k = "k + 1"
        and u = "int (length ts)"]
      js i wf n len fr by auto
  also have "jsmn_loop js (length js) n (mk_st (Suc i + length ?es) u'
      (bump ts u @ open_tok JSMN_OBJECT i (length kvs) # ?tk) (drop (length ?tk) fr')) (k + 1 + int (length ?tk)) =
      jsmn_loop js (length js) n (mk_st (Suc (Suc i + length ?es)) (last_open ts (length ts))
      (bump ts u @ mk_tok JSMN_OBJECT i (Suc (Suc i + length ?es)) (length kvs) # ?tk) (drop (length ?tk) fr')) (k + 1 + int (length ?tk))"
    using loop_close [where js = js and pre = "pre @ CHR ''{'' # ?es" and c = "CHR ''}''" and post = post
        and ty = JSMN_OBJECT and ds = ?tk and ts = "bump ts u"] js i len u toks_closed
    by (simp add: last_open_bump)
  finally show "jsmn_loop js (length js) n (mk_st i u ts fr) k =
      jsmn_loop js (length js) n (mk_st (i + length (print_json (JObj kvs))) (after (JObj kvs) u ts)
        (bump ts u @ toks_of i (JObj kvs)) (drop (length (toks_of i (JObj kvs))) fr))
        (k + int (length (toks_of i (JObj kvs))))"
    using fr by (simp add: after_def add.assoc)
qed

lemma after_in_container:
  assumes "list_all (\<lambda>t. \<not> tok_open t) ds"
  shows "after v (int (length ts)) (ts @ open_tok ty s sz # ds) = int (length ts)"
  using last_open_container [OF assms] by (simp add: after_def split: json.splits)

lemma elems_run_Cons:
  assumes v: "\<And>j. j = (if b then i else i + 1) \<Longrightarrow> printed_run j v"
    and vs: "\<And>j. j = (if b then i else i + 1) \<Longrightarrow> elems_run (j + length (print_json v)) False vs"
  shows "elems_run i b (v # vs)"
  unfolding elems_run_def
proof (intro allI impI)
  fix js pre post :: string and ts fr ds :: "jsmntok list" and k :: int and n s sz :: nat
  let ?j = "if b then i else i + 1" and ?c = "if b then [] else [CHR '','']"
  let ?tv = "toks_of ?j v" and ?i' = "?j + length (print_json v)"
  let ?tk = "toks_elems ?i' False vs"
  assume js: "js = pre @ print_elems b (v # vs) @ post" and i: "i = length pre" and wf: "list_all wf_json (v # vs)"
    and post: "post \<noteq> [] \<and> prim_stop (hd post)"
    and n: "Suc (length ts + length ds) + length (toks_elems i b (v # vs)) \<le> n" "n < 2 ^ 31"
      "n \<le> Suc (length ts + length ds) + length fr"
    and ds: "list_all (\<lambda>t. \<not> tok_open t) ds" and len: "length js < 2 ^ 31"
  let ?T = "\<lambda>sz ds. ts @ open_tok JSMN_ARRAY s sz # ds"
  have hd: "prim_stop (hd (print_elems False vs @ post))" "print_elems False vs @ post \<noteq> []"
    using post by (cases vs; simp)+
  have "jsmn_loop js (length js) n (mk_st i (int (length ts)) (?T sz ds) fr) k =
      jsmn_loop js (length js) n (mk_st ?j (int (length ts)) (?T sz ds) fr) k"
    using loop_comma [where js = js and pre = pre and ty = JSMN_ARRAY and ds = ds and ts = ts and s = s and sz = sz
        and u = "int (length ts)" and post = "print_json v @ print_elems False vs @ post"] js i ds
    by (simp add: in_container_def)
  also have "\<dots> = jsmn_loop js (length js) n (mk_st ?i' (int (length ts)) (?T (Suc sz) (ds @ ?tv))
      (drop (length ?tv) fr)) (k + int (length ?tv))"
    using printed_runD [OF v [OF refl], where js = js and pre = "pre @ ?c" and post = "print_elems False vs @ post"
        and ts = "?T sz ds" and fr = fr and u = "int (length ts)" and n = n and k = k]
      js i wf hd n len ds
    by (simp add: bump_container after_in_container super_ok_def Let_def split: if_splits)
  also have "\<dots> = jsmn_loop js (length js) n (mk_st (?i' + length (print_elems False vs)) (int (length ts))
      (?T (Suc sz + length vs) ((ds @ ?tv) @ ?tk))
      (drop (length ?tk) (drop (length ?tv) fr))) (k + int (length ?tv) + int (length ?tk))"
    by (rule elems_runD [OF vs [OF refl], where pre = "pre @ ?c @ print_json v" and post = post])
      (use js i wf post n len ds toks_closed in \<open>simp_all add: Let_def split: if_splits\<close>)
  finally show "jsmn_loop js (length js) n (mk_st i (int (length ts)) (?T sz ds) fr) k =
     jsmn_loop js (length js) n (mk_st (i + length (print_elems b (v # vs))) (int (length ts))
       (ts @ open_tok JSMN_ARRAY s (sz + length (v # vs)) # ds @ toks_elems i b (v # vs))
       (drop (length (toks_elems i b (v # vs))) fr)) (k + int (length (toks_elems i b (v # vs))))"
    by (simp add: Let_def ac_simps split: if_splits)
qed

lemma in_container_after:
  assumes "list_all (\<lambda>t. \<not> tok_open t) ds" and "ty = JSMN_OBJECT \<or> ty = JSMN_ARRAY"
  shows "in_container (ts @ open_tok ty s sz # (ds @ mk_tok JSMN_STRING a b c # es)) (length ts)
    (after v (int (Suc (length ts + length ds))) (ts @ open_tok ty s sz' # ds @ [mk_tok JSMN_STRING a b d]))"
proof -
  have "after v (int (Suc (length ts + length ds))) (ts @ open_tok ty s sz' # ds @ [mk_tok JSMN_STRING a b d])
      \<in> {int (Suc (length ts + length ds)), int (length ts)}"
    using last_open_container [of "ds @ [mk_tok JSMN_STRING a b d]" ts ty s sz'] assms(1)
    by (auto simp: after_def split: json.splits)
  moreover have "in_container (ts @ open_tok ty s sz # (ds @ mk_tok JSMN_STRING a b c # es)) (length ts)
      (int (Suc (length ts + length ds)))"
    unfolding in_container_nat by (simp add: nth_append mk_tok_def tok_container_def)
  moreover have "in_container (ts @ open_tok ty s sz # (ds @ mk_tok JSMN_STRING a b c # es)) (length ts)
      (int (length ts))"
    by (simp add: in_container_def)
  ultimately show ?thesis by auto
qed

lemma members_run_Cons:
  assumes v: "\<And>j. j = (if b then i else i + 1) \<Longrightarrow> printed_run (j + length k + 3) v"
    and kvs: "\<And>j. j = (if b then i else i + 1) \<Longrightarrow> members_run (j + length k + 3 + length (print_json v)) False kvs"
  shows "members_run i b ((k, v) # kvs)"
  unfolding members_run_def
proof (intro allI impI)
  fix js pre post :: string and ts fr ds :: "jsmntok list" and u q :: int and n s sz :: nat
  let ?j = "if b then i else i + 1" and ?c = "if b then [] else [CHR '','']"
  let ?tv = "toks_of (?j + length k + 3) v" and ?i' = "?j + length k + 3 + length (print_json v)"
  let ?tk = "toks_members ?i' False kvs"
  let ?key = "mk_tok JSMN_STRING (?j + 1) (?j + 1 + length k)"
  let ?T = "\<lambda>sz ds. ts @ open_tok JSMN_OBJECT s sz # ds"
  let ?L = "jsmn_loop js (length js) n"
  assume js: "js = pre @ print_members b ((k, v) # kvs) @ post" and i: "i = length pre"
    and wf: "list_all (\<lambda>(k, v). str_body k \<and> wf_json v) ((k, v) # kvs)"
    and post: "post \<noteq> [] \<and> prim_stop (hd post)"
    and n: "Suc (length ts + length ds) + length (toks_members i b ((k, v) # kvs)) \<le> n" "n < 2 ^ 31"
      "n \<le> Suc (length ts + length ds) + length fr"
    and ds: "list_all (\<lambda>t. \<not> tok_open t) ds" and len: "length js < 2 ^ 31"
    and u: "if b then u = int (length ts) else in_container (?T sz ds) (length ts) u"
  have n': "length ts + length ds + length ?tv + length ?tk + 2 \<le> n" using n(1) by (simp add: Let_def)
  have js': "js = (pre @ ?c) @ QUOTE # k @ QUOTE # CHR '':'' # print_json v @ print_members False kvs @ post"
    and jl: "?j = length (pre @ ?c)"
    using js i by simp_all
  from n' n(3) obtain f fr' where fr: "fr = f # fr'" by (cases fr) auto
  have hd: "prim_stop (hd (print_members False kvs @ post))"
    using post by (cases kvs; auto)
  have "?L (mk_st i u (?T sz ds) fr) q = ?L (mk_st ?j (int (length ts)) (?T sz ds) fr) q"
  proof (cases b)
    case True
    with u show ?thesis by simp
  next
    case False
    then show ?thesis
      using loop_comma [where js = js and pre = pre and ty = JSMN_OBJECT and ds = ds and ts = ts and s = s and sz = sz
          and u = u and post = "QUOTE # k @ QUOTE # CHR '':'' # print_json v @ print_members False kvs @ post"] js i ds u
      by simp
  qed
  also have "\<dots> = ?L (mk_st (?j + length k + 2) (int (length ts)) (?T (Suc sz) (ds @ [?key 0])) fr') (q + 1)"
    using loop_str [where js = js and pre = "pre @ ?c" and s = k and ts = "?T sz ds" and u = "int (length ts)"
        and n = n and f = f and fr = fr' and k = q
        and post = "CHR '':'' # print_json v @ print_members False kvs @ post", OF js'] wf n' len
    by (simp only: jl [symmetric]) (simp add: bump_container super_ok_def fr)
  also have "\<dots> = ?L (mk_st (?j + length k + 3) (int (Suc (length ts + length ds))) (?T (Suc sz) (ds @ [?key 0])) fr') (q + 1)"
    using loop_colon [where js = js and pre = "pre @ ?c @ QUOTE # k @ [QUOTE]" and n = n and k = "q + 1"
        and ts = "?T (Suc sz) (ds @ [?key 0])" and fr = fr' and u = "int (length ts)"
        and post = "print_json v @ print_members False kvs @ post"] js' jl n(2) n'
    by (simp add: numeral_3_eq_3 split: if_splits)
  also have "\<dots> = ?L (mk_st ?i' (after v (int (Suc (length ts + length ds))) (?T (Suc sz) (ds @ [?key 0])))
      (?T (Suc sz) (ds @ ?key 1 # ?tv)) (drop (length ?tv) fr')) (q + 1 + int (length ?tv))"
  proof -
    let ?U = "int (Suc (length ts + length ds))" and ?TS = "?T (Suc sz) (ds @ [?key 0])"
    have "?L (mk_st (?j + length k + 3) ?U ?TS fr') (q + 1) =
        ?L (mk_st (?j + length k + 3 + length (print_json v)) (after v ?U ?TS) (bump ?TS ?U @ ?tv)
          (drop (length ?tv) fr')) (q + 1 + int (length ?tv))"
      by (rule printed_runD [OF v [OF refl], where pre = "pre @ ?c @ QUOTE # k @ [QUOTE, CHR '':'']"
            and post = "print_members False kvs @ post"])
        (use js' jl wf hd n' n(2,3) len fr in \<open>auto simp: super_ok_def split: if_splits\<close>)
    moreover have "bump ?TS ?U = ?T (Suc sz) (ds @ [?key 1])"
      using bump_last [of "?T (Suc sz) ds"] by simp
    ultimately show ?thesis by (simp add: add.assoc split del: if_split)
  qed
  also obtain u' where "\<dots> = ?L (mk_st (?i' + length (print_members False kvs)) u'
      (?T (Suc sz + length kvs) ((ds @ ?key 1 # ?tv) @ ?tk))
      (drop (length ?tk) (drop (length ?tv) fr'))) (q + 1 + int (length ?tv) + int (length ?tk))"
  proof (rule members_runD [OF kvs [OF refl], where js = js and post = post and ts = ts and s = s
        and pre = "pre @ ?c @ QUOTE # k @ QUOTE # CHR '':'' # print_json v" and ds = "ds @ ?key 1 # ?tv"
        and sz = "Suc sz" and n = n and fr = "drop (length ?tv) fr'" and k = "q + 1 + int (length ?tv)"
        and u = "after v (int (Suc (length ts + length ds))) (?T (Suc sz) (ds @ [?key 0]))"])
    show "list_all (\<lambda>t. \<not> tok_open t) (ds @ ?key 1 # ?tv)"
      using ds toks_closed by simp
    show "if False then after v (int (Suc (length ts + length ds))) (?T (Suc sz) (ds @ [?key 0])) = int (length ts)
        else in_container (?T (Suc sz) (ds @ ?key 1 # ?tv)) (length ts)
          (after v (int (Suc (length ts + length ds))) (?T (Suc sz) (ds @ [?key 0])))"
      using in_container_after [OF ds] by simp
    show "Suc (length ts + length (ds @ ?key 1 # ?tv)) + length ?tk \<le> n" using n' by simp
    show "n \<le> Suc (length ts + length (ds @ ?key 1 # ?tv)) + length (drop (length ?tv) fr')"
      using n(3) n' fr by simp
  qed (use js' jl wf post n(2) len in \<open>auto split: if_splits\<close>)
  finally show "\<exists>u'. ?L (mk_st i u (?T sz ds) fr) q =
     ?L (mk_st (i + length (print_members b ((k, v) # kvs))) u'
       (ts @ open_tok JSMN_OBJECT s (sz + length ((k, v) # kvs)) # ds @ toks_members i b ((k, v) # kvs))
       (drop (length (toks_members i b ((k, v) # kvs))) fr)) (q + int (length (toks_members i b ((k, v) # kvs))))"
    using fr by (intro exI [of _ u']) (simp add: Let_def ac_simps numeral_3_eq_3 split: if_splits)
qed

lemma printed_run_all:
  "printed_run i v" "elems_run i b vs" "members_run i b kvs"
proof (induction i v and i b vs and i b kvs rule: toks_of_toks_elems_toks_members.induct)
  case (3 i vs)
  then show ?case by (simp add: printed_run_arr)
next
  case (4 i kvs)
  then show ?case by (simp add: printed_run_obj)
next
  case (5 i b)
  show ?case by (simp add: elems_run_def)
next
  case (6 i b v vs)
  then show ?case by (intro elems_run_Cons) auto
next
  case (7 i b)
  show ?case unfolding members_run_def by auto
next
  case (8 i b k v kvs)
  then show ?case by (intro members_run_Cons) auto
qed (auto simp: printed_run_scalar)

lemma jsmn_parse_printed:
  assumes "wf_json v" and "length (toks_of 0 v) \<le> n" and "n \<le> length toks" and "n < 2 ^ 31"
    and "length (print_json v) < 2 ^ 31"
  shows "jsmn_parse (print_json v) (length (print_json v)) n (jsmn_init, Some toks) =
    Some ((\<lparr>pos = length (print_json v), toknext = length (toks_of 0 v), toksuper = -1\<rparr>,
           Some (toks_of 0 v @ drop (length (toks_of 0 v)) toks)),
          Inr (int (length (toks_of 0 v))))"
proof -
  let ?js = "print_json v" and ?ts = "toks_of 0 v"
  let ?st = "mk_st (length ?js) (-1) ?ts (drop (length ?ts) toks)"
  have "jsmn_loop ?js (length ?js) n (mk_st 0 (-1) [] toks) 0 = jsmn_loop ?js (length ?js) n ?st (int (length ?ts))"
    using printed_runD [OF printed_run_all(1) [of 0 v], where js = ?js and pre = "[]" and post = "[]"
        and ts = "[]" and fr = toks and u = "-1" and n = n and k = 0] assms
    by (simp add: super_ok_def after_def bump_def split: json.splits)
  also have "\<dots> = Some (?st, Inr (int (length ?ts)))"
    by (subst jsmn_loop.simps) simp
  finally have loop: "jsmn_loop ?js (length ?js) n (jsmn_init, Some toks) 0 = Some (?st, Inr (int (length ?ts)))"
    by (simp add: jsmn_init_def mk_parser_def)
  have "last_open ?ts (length ?ts) = -1"
    using last_open_closed_suffix [OF toks_closed(1), of "[]" 0 v] by simp
  then have "jsmn_find_open (?ts @ drop (length ?ts) toks) (length ?ts) = Some None"
    using jsmn_find_open_last [of "length ?ts" ?ts] by simp
  with loop show ?thesis
    by (simp add: jsmn_parse_def jsmn_init_def mk_parser_def c_conv)
qed

lemma jsmn_parse_printed_buf:
  assumes "wf_json v" and "length (toks_of 0 v) \<le> n" and "n \<le> length toks" and "n < 2 ^ 31"
    and "length (print_json v) < 2 ^ 31"
  shows "jsmn_parse (print_json v @ rest) (length (print_json v)) n (jsmn_init, Some toks) =
    Some ((\<lparr>pos = length (print_json v), toknext = length (toks_of 0 v), toksuper = -1\<rparr>,
           Some (toks_of 0 v @ drop (length (toks_of 0 v)) toks)),
          Inr (int (length (toks_of 0 v))))"
  using jsmn_parse_printed [OF assms] by (simp add: jsmn_parse_prefix)

text \<open>
  C2.  Parsing the text of a well-formed JSON value at the start of a buffer, with at least as many
  free tokens as the value has nodes and keys, succeeds: it consumes the whole text and nothing
  after it, returns the number of tokens, and the tokens are those of the value in preorder, with
  their types, exact source ranges and child counts; the unused part of the array is left alone.
\<close>

theorem jsmn_parse_print:
  assumes "wf_json v" and "length (toks_of 0 v) \<le> n" and "n \<le> length toks" and "n < 2 ^ 31"
    and "length (print_json v) < 2 ^ 31"
  shows "jsmn_parse (print_json v @ rest) (length (print_json v)) n (jsmn_init, Some toks) =
    Some ((\<lparr>pos = length (print_json v), toknext = length (toks_of 0 v), toksuper = -1\<rparr>,
           Some (toks_of 0 v @ drop (length (toks_of 0 v)) toks)),
          Inr (int (length (toks_of 0 v))))"
  by (rule jsmn_parse_printed_buf [OF assms])

text \<open>The witness is a value with nesting, an escape and a \<^verbatim>\<open>\u\<close> escape.\<close>

definition sample_json :: json where
  "sample_json = JObj [(''k'', JArr [JPrim ''1'', JStr (''x'' @ [BSLASH] @ ''n'')]),
     ([BSLASH] @ ''u00e9'', JPrim ''true'')]"

theorem jsmn_parse_print_witness:
  "jsmn_parse (print_json sample_json @ ''}x'') (length (print_json sample_json)) 8 (jsmn_init, Some (replicate 8 tok0)) =
    Some ((\<lparr>pos = length (print_json sample_json), toknext = length (toks_of 0 sample_json), toksuper = -1\<rparr>,
           Some (toks_of 0 sample_json @ drop (length (toks_of 0 sample_json)) (replicate 8 tok0))),
          Inr (int (length (toks_of 0 sample_json))))"
proof (rule jsmn_parse_print)
  show "wf_json sample_json" by code_simp
  show "length (toks_of 0 sample_json) \<le> 8" by code_simp
  show "length (print_json sample_json) < 2 ^ 31" by (simp add: sample_json_def)
qed simp_all

end
