(* ===== verification/Jsmn_Count.thy ===== *)
theory Jsmn_Count
  imports Jsmn_Safe
begin

text \<open>
  The counting mode of the tokenizer (a null token array) predicts how many tokens a text needs:
  it agrees with the token mode on every text the token mode accepts, and an array of that size is
  never reported as too small.
\<close>

section \<open>One iteration in both modes\<close>

text \<open>
  \<open>counted res res0 m n k\<close>: the result \<open>res\<close> of an operation in token mode, with \<open>m\<close> tokens in use
  out of \<open>n\<close> and the counter at \<open>k\<close>, is matched by the result \<open>res0\<close> of the same operation in
  counting mode.
\<close>

definition counted ::
    "(jsmn_st \<times> (jsmnerr + int)) option \<Rightarrow> (jsmn_st \<times> (jsmnerr + int)) option \<Rightarrow> nat \<Rightarrow> nat \<Rightarrow> int \<Rightarrow> bool" where
  "counted res res0 m n k \<longleftrightarrow> (\<forall>st r. res = Some (st, r) \<longrightarrow>
     (\<forall>k'. r = Inr k' \<longrightarrow> (\<exists>p0. res0 = Some ((p0, None), Inr k') \<and> pos p0 = pos (fst st))) \<and>
     (r = Inl JSMN_ERROR_NOMEM \<longrightarrow> n \<le> m \<and> (\<exists>p0. res0 = Some ((p0, None), Inr (k + 1)))))"

lemma counted_if:
  "(b \<Longrightarrow> counted x x0 m n k) \<Longrightarrow> (\<not> b \<Longrightarrow> counted y y0 m n k) \<Longrightarrow>
     counted (if b then x else y) (if b then x0 else y0) m n k"
  by simp

lemma jsmn_open_counted:
  "pos p0 = pos p \<Longrightarrow>
     counted (jsmn_open c n (p, Some toks) k) (jsmn_open c n0 (p0, None) k) (toknext p) n k"
  by (cases "n \<le> toknext p")
    (auto simp: counted_def jsmn_open_def jsmn_alloc_token_def bind_eq_Some_conv split: option.splits)

lemma jsmn_close_counted:
  "pos p0 = pos p \<Longrightarrow> counted (jsmn_close c (p, Some toks) k) (jsmn_close c (p0, None) k) m n k"
  by (auto simp: counted_def jsmn_close_def Let_def bind_eq_Some_conv split: option.splits if_splits)

lemma jsmn_comma_counted:
  "pos p0 = pos p \<Longrightarrow> counted (jsmn_comma (p, Some toks) k) (jsmn_comma (p0, None) k) m n k"
  by (auto simp: counted_def jsmn_comma_def bind_eq_Some_conv split: option.splits if_splits)

lemma jsmn_alloc_token_result:
  "jsmn_alloc_token p toks n = Some (p', toks', tok) \<Longrightarrow>
     pos p' = pos p \<and> (tok = None \<longrightarrow> n \<le> toknext p)"
  by (auto simp: jsmn_alloc_token_def bind_eq_Some_conv split: if_splits)

lemma jsmn_prim_loop_err: "jsmn_prim_loop js len i = Some (Inl e) \<Longrightarrow> e = JSMN_ERROR_INVAL"
proof (induction js len i rule: jsmn_prim_loop.induct)
  case (1 js len i)
  show ?case
  proof (cases "\<exists>c. i < len \<and> rd js i = Some c \<and> \<not> (c = NUL \<or> prim_stop c) \<and> \<not> (schar c < 32 \<or> 127 \<le> schar c)")
    case True
    then obtain c where c: "i < len" "rd js i = Some c" "\<not> (c = NUL \<or> prim_stop c)" "\<not> (schar c < 32 \<or> 127 \<le> schar c)"
      by blast
    with "1.prems" have "jsmn_prim_loop js len (Suc i) = Some (Inl e)"
      by (subst (asm) jsmn_prim_loop.simps) simp
    with "1.IH" [OF c] show ?thesis by simp
  next
    case False
    with "1.prems" show ?thesis
      by (subst (asm) jsmn_prim_loop.simps) (auto simp: bind_eq_Some_conv split: if_splits)
  qed
qed

lemma jsmn_str_loop_err: "jsmn_str_loop js len i = Some (Inl e) \<Longrightarrow> e = JSMN_ERROR_INVAL"
proof (induction "len - i" arbitrary: i rule: less_induct)
  case less
  from less.prems show ?case
    by (cases rule: jsmn_str_loopE) (auto dest: less.hyps [rotated])
qed

lemma jsmn_string_counted:
  assumes "pos p0 = pos p"
  shows "counted (jsmn_scalar (jsmn_parse_string js len n (p, Some toks)) k)
    (jsmn_scalar (jsmn_parse_string js len n0 (p0, None)) k) (toknext p) n k"
proof (cases "jsmn_str_loop js len (pos p + 1)")
  case None
  then show ?thesis by (simp add: counted_def jsmn_scalar_def jsmn_parse_string_def Let_def)
next
  case (Some r)
  show ?thesis
  proof (cases "\<exists>i. r = Inr (Some i)")
    case True
    then obtain i where r: "r = Inr (Some i)" by blast
    show ?thesis
      using Some r assms
      by (auto simp: counted_def jsmn_scalar_def jsmn_parse_string_def Let_def bind_eq_Some_conv
          split: option.splits dest!: jsmn_alloc_token_result)
  next
    case False
    with Some show ?thesis
      by (cases r) (auto simp: counted_def jsmn_scalar_def jsmn_parse_string_def Let_def
          split: option.splits dest!: jsmn_str_loop_err)
  qed
qed

lemma jsmn_primitive_counted:
  assumes "pos p0 = pos p"
  shows "counted (jsmn_scalar (jsmn_parse_primitive js len n (p, Some toks)) k)
    (jsmn_scalar (jsmn_parse_primitive js len n0 (p0, None)) k) (toknext p) n k"
proof (cases "jsmn_prim_loop js len (pos p)")
  case None
  then show ?thesis by (simp add: counted_def jsmn_scalar_def jsmn_parse_primitive_def Let_def)
next
  case (Some r)
  show ?thesis
  proof (cases r)
    case (Inr i)
    with Some assms show ?thesis
      by (auto simp: counted_def jsmn_scalar_def jsmn_parse_primitive_def Let_def bind_eq_Some_conv
          split: option.splits dest!: jsmn_alloc_token_result)
  next
    case (Inl e)
    with Some show ?thesis
      by (auto simp: counted_def jsmn_scalar_def jsmn_parse_primitive_def Let_def dest!: jsmn_prim_loop_err)
  qed
qed

lemma jsmn_step_counted:
  assumes "pos p0 = pos p"
  shows "counted (jsmn_step js len n c (p, Some toks) k) (jsmn_step js len n0 c (p0, None) k) (toknext p) n k"
  unfolding jsmn_step_def
  by (intro counted_if jsmn_open_counted jsmn_close_counted jsmn_comma_counted jsmn_string_counted
      jsmn_primitive_counted assms) (simp_all add: counted_def assms)

section \<open>The loop in both modes\<close>

text \<open>The counter never decreases.\<close>

lemma jsmn_scalar_count: "jsmn_scalar res k = Some (st', Inr k') \<Longrightarrow> k' = k + 1"
  by (cases res) (auto simp: jsmn_scalar_def bind_eq_Some_conv split: option.splits prod.splits)

lemma jsmn_open_count: "jsmn_open c n st k = Some (st', Inr k') \<Longrightarrow> k' = k + 1"
  by (auto simp: jsmn_open_def bind_eq_Some_conv split: option.splits prod.splits)

lemma jsmn_close_count: "jsmn_close c st k = Some (st', Inr k') \<Longrightarrow> k' = k"
  by (auto simp: jsmn_close_def Let_def bind_eq_Some_conv split: option.splits prod.splits if_splits)

lemma jsmn_comma_count: "jsmn_comma st k = Some (st', Inr k') \<Longrightarrow> k' = k"
  by (auto simp: jsmn_comma_def bind_eq_Some_conv split: option.splits prod.splits if_splits)

lemma jsmn_step_count_mono: "jsmn_step js len n c st k = Some (st', Inr k') \<Longrightarrow> k \<le> k'"
  by (auto simp: jsmn_step_def split: if_splits
      dest: jsmn_scalar_count jsmn_open_count jsmn_close_count jsmn_comma_count)

lemma jsmn_loop_count_mono:
  "jsmn_loop js len n st k = Some (st', Inr k') \<Longrightarrow> k \<le> k'"
proof (induction js len n st k rule: jsmn_loop.induct)
  case (1 js len n st k)
  show ?case
  proof (cases "\<exists>c. pos (fst st) < len \<and> rd js (pos (fst st)) = Some c \<and> c \<noteq> NUL")
    case False
    with "1.prems" show ?thesis
      by (subst (asm) jsmn_loop.simps)
        (cases "pos (fst st) < len"; cases "rd js (pos (fst st))"; auto)
  next
    case True
    then obtain c where c: "pos (fst st) < len" "rd js (pos (fst st)) = Some c" "c \<noteq> NUL" by blast
    with "1.prems" obtain st1 k1 where step: "jsmn_step js len n c st k = Some (st1, Inr k1)"
      and rest: "jsmn_loop js len n ((fst st1)\<lparr>pos := Suc (pos (fst st1))\<rparr>, snd st1) k1 = Some (st', Inr k')"
      by (auto simp: jsmn_loop_unfold [OF c] split: option.splits sum.splits)
    from "1.IH" [OF c step refl refl rest] jsmn_step_count_mono [OF step] show ?thesis by simp
  qed
qed

lemma jsmn_loop_counted:
  assumes "jsmn_loop js len n st k = Some (st', r)" and "snd st \<noteq> None" and "pos p0 = pos (fst st)"
    and "jsmn_inv len n (pos (fst st)) st k" and "len \<le> length js" "len < 2 ^ 31" "n < 2 ^ 31"
  shows "(\<forall>k'. r = Inr k' \<longrightarrow> (\<exists>p0'. jsmn_loop js len n0 (p0, None) k = Some ((p0', None), Inr k'))) \<and>
    (\<forall>k0 st0. jsmn_loop js len n0 (p0, None) k = Some (st0, Inr k0) \<longrightarrow> k0 \<le> int n \<longrightarrow> r \<noteq> Inl JSMN_ERROR_NOMEM)"
  using assms
proof (induction js len n st k arbitrary: p0 rule: jsmn_loop.induct)
  case (1 js len n st k)
  obtain p toks where st: "st = (p, Some toks)" using "1.prems"(2) by (cases st) auto
  show ?case
  proof (cases "pos p < len \<and> js ! pos p \<noteq> NUL")
    case False
    with "1.prems" st have "r = Inr k"
      by (subst (asm) jsmn_loop.simps) (auto split: if_splits)
    moreover from False "1.prems" st have "jsmn_loop js len n0 (p0, None) k = Some ((p0, None), Inr k)"
      by (subst jsmn_loop.simps) auto
    ultimately show ?thesis by auto
  next
    case True
    let ?c = "js ! pos p"
    have c: "pos (fst st) < len" "rd js (pos (fst st)) = Some ?c" "?c \<noteq> NUL"
      using True "1.prems"(5) st by simp_all
    have "safe_step len n (pos p) (Some toks) (jsmn_step js len n ?c st k)"
      using jsmn_step_safe [of len n p "Some toks" k js ?c] "1.prems" True st by simp
    then obtain st1 r1 where step: "jsmn_step js len n ?c st k = Some (st1, r1)"
      and inv: "\<And>k'. r1 = Inr k' \<Longrightarrow> jsmn_inv len n (pos p) st1 k' \<and> snd st1 \<noteq> None"
      by (auto simp: safe_step_def)
    have cnt: "counted (jsmn_step js len n ?c st k) (jsmn_step js len n0 ?c (p0, None) k) (toknext p) n k"
      using jsmn_step_counted "1.prems"(3) st by simp
    have c0: "pos (fst (p0, None :: jsmntok list option)) < len"
      "rd js (pos (fst (p0, None :: jsmntok list option))) = Some ?c"
      using c "1.prems"(3) st by simp_all
    note loop0 = jsmn_loop_unfold [OF c0 c(3)]
    show ?thesis
    proof (cases r1)
      case (Inl e)
      with "1.prems"(1) step have r: "r = Inl e"
        by (simp add: jsmn_loop_unfold [OF c])
      have "k0 > int n" if "e = JSMN_ERROR_NOMEM" "jsmn_loop js len n0 (p0, None) k = Some (st0, Inr k0)" for st0 k0
      proof -
        from cnt step Inl that(1) obtain p1 where p1: "n \<le> toknext p"
          "jsmn_step js len n0 ?c (p0, None) k = Some ((p1, None), Inr (k + 1))"
          by (auto simp: counted_def)
        with that(2) loop0 have "k + 1 \<le> k0" by (auto dest: jsmn_loop_count_mono)
        moreover from "1.prems"(4) st have "k = int (toknext p)" by (simp add: jsmn_inv_def)
        ultimately show ?thesis using p1(1) by simp
      qed
      with r show ?thesis by force
    next
      case (Inr k1)
      with cnt step obtain p1 where p1: "jsmn_step js len n0 ?c (p0, None) k = Some ((p1, None), Inr k1)"
        "pos p1 = pos (fst st1)" by (auto simp: counted_def)
      let ?st = "((fst st1)\<lparr>pos := Suc (pos (fst st1))\<rparr>, snd st1)"
      from "1.prems"(1) step Inr have rest: "jsmn_loop js len n ?st k1 = Some (st', r)"
        by (simp add: jsmn_loop_unfold [OF c])
      have "pos p \<le> pos (fst st1)" using jsmn_step_pos [OF step [unfolded Inr]] True st by simp
      then have "jsmn_inv len n (pos (fst ?st)) ?st k1"
        using inv [OF Inr] jsmn_inv_mono [of len n "pos p" ?st k1] by simp
      from "1.IH" [OF c step refl Inr rest _ _ this "1.prems"(5-7), of "p1\<lparr>pos := Suc (pos p1)\<rparr>"]
        inv [OF Inr] p1 loop0
      show ?thesis by simp
    qed
  qed
qed

text \<open>
  C3.  The two pass idiom is sound.  If the counting pass (null token array) returns \<open>k\<close>, then a
  parse with an array of at least \<open>k\<close> tokens does not fail for lack of tokens; and whenever a parse
  with tokens returns a count, the counting pass returns the same count.
\<close>

theorem jsmn_count_predicts:
  assumes "len \<le> length js" "len < 2 ^ 31" "n < 2 ^ 31" "n \<le> length toks"
    and parse: "jsmn_parse js len n (jsmn_init, Some toks) = Some (st, r)"
  shows "(\<forall>k. r = Inr k \<longrightarrow> (\<exists>st0. jsmn_parse js len n0 (jsmn_init, None) = Some (st0, Inr k))) \<and>
    (\<forall>k st0. jsmn_parse js len n0 (jsmn_init, None) = Some (st0, Inr k) \<longrightarrow> k \<le> int n \<longrightarrow>
       r \<noteq> Inl JSMN_ERROR_NOMEM)"
proof -
  have c0: "c_int (int (toknext jsmn_init)) = 0" by (simp add: jsmn_init_def c_conv)
  from parse obtain st1 r1 where loop: "jsmn_loop js len n (jsmn_init, Some toks) 0 = Some (st1, r1)"
    by (cases "jsmn_loop js len n (jsmn_init, Some toks) 0") (auto simp: jsmn_parse_def c0)
  with parse have r: "r = Inr k \<Longrightarrow> r1 = Inr k" "r = Inl JSMN_ERROR_NOMEM \<Longrightarrow> r1 = Inl JSMN_ERROR_NOMEM" for k
    by (cases r1; auto simp: jsmn_parse_def c0 bind_eq_Some_conv split: option.splits)+
  have none: "jsmn_loop js len n0 (jsmn_init, None) 0 = Some (st0, Inr k)"
    if "jsmn_parse js len n0 (jsmn_init, None) = Some (st0, Inr k)" for st0 k
    using that
    by (cases "jsmn_loop js len n0 (jsmn_init, None) 0")
      (auto simp: jsmn_parse_def c0 bind_eq_Some_conv split: sum.splits option.splits)
  have some: "jsmn_parse js len n0 (jsmn_init, None) = Some ((p0, None), Inr k)"
    if "jsmn_loop js len n0 (jsmn_init, None) 0 = Some ((p0, None), Inr k)" for p0 k
    using that by (simp add: jsmn_parse_def c0)
  have cnt: "(\<forall>k. r1 = Inr k \<longrightarrow> (\<exists>p0. jsmn_loop js len n0 (jsmn_init, None) 0 = Some ((p0, None), Inr k))) \<and>
    (\<forall>k st0. jsmn_loop js len n0 (jsmn_init, None) 0 = Some (st0, Inr k) \<longrightarrow> k \<le> int n \<longrightarrow> r1 \<noteq> Inl JSMN_ERROR_NOMEM)"
    using jsmn_loop_counted [OF loop] jsmn_inv_init [OF assms(4)] assms(1-3) by simp
  show ?thesis
    using cnt r none some by blast
qed

text \<open>The witness: the text \<open>[1,2]\<close> needs three tokens.\<close>

theorem jsmn_count_predicts_witness:
  "\<exists>st r. jsmn_parse ''[1,2]'' 5 3 (jsmn_init, Some (replicate 3 tok0)) = Some (st, r) \<and>
    (\<forall>k. r = Inr k \<longrightarrow> (\<exists>st0. jsmn_parse ''[1,2]'' 5 0 (jsmn_init, None) = Some (st0, Inr k))) \<and>
    (\<forall>k st0. jsmn_parse ''[1,2]'' 5 0 (jsmn_init, None) = Some (st0, Inr k) \<longrightarrow> k \<le> int 3 \<longrightarrow>
       r \<noteq> Inl JSMN_ERROR_NOMEM)"
proof -
  have "jsmn_parse ''[1,2]'' 5 3 (jsmn_init, Some (replicate 3 tok0)) \<noteq> None" by code_simp
  then obtain st r where *: "jsmn_parse ''[1,2]'' 5 3 (jsmn_init, Some (replicate 3 tok0)) = Some (st, r)"
    by auto
  from jsmn_count_predicts [OF _ _ _ _ *, of 0] * show ?thesis by auto
qed

end
