(* ===== verification/Log_Forwarder.thy ===== *)
theory Log_Forwarder
  imports Wgi_Prelude
begin

text \<open>
  The line-buffering log sink of the server, \<^verbatim>\<open>LogForwarder\<close> in \<^verbatim>\<open>src/wasm.rs\<close>: the guest's
  standard error (and, for lambdas, its standard output) is cut into lines, and each complete line
  is handed to the logger.  The logger's calls are recorded in the field \<open>logged\<close>, oldest first.
\<close>

section \<open>State and operations\<close>

abbreviation LF :: byte where "LF \<equiv> 10"

record log_forwarder =
  logged :: "byte list list"
  incomplete :: "byte list"

definition lf_new :: log_forwarder where
  "lf_new = \<lparr>logged = [], incomplete = []\<rparr>"

definition lf_log :: "log_forwarder \<Rightarrow> byte list \<Rightarrow> log_forwarder" where
  "lf_log f line = f\<lparr>logged := logged f @ [line]\<rparr>"

text \<open>\<open>buf.iter().position(|&c| c == b'\n')\<close>\<close>

fun position_lf :: "byte list \<Rightarrow> nat option" where
  "position_lf [] = None"
| "position_lf (b # bs) = (if b = LF then Some 0 else map_option Suc (position_lf bs))"

lemma position_lf_Some: "position_lf bs = Some i \<Longrightarrow> i < length bs"
  by (induction bs arbitrary: i) (auto split: if_splits)

text \<open>The \<open>while let\<close> loop over the rest of the buffer; it returns what follows the last newline.\<close>

function lf_drain :: "log_forwarder \<Rightarrow> byte list \<Rightarrow> log_forwarder \<times> byte list" where
  "lf_drain f rest =
     (case position_lf rest of
        None \<Rightarrow> (f, rest)
      | Some i \<Rightarrow> lf_drain (lf_log f (take i rest)) (drop (i + 1) rest))"
  by pat_completeness auto
termination
  by (relation "measure (\<lambda>(f, rest). length rest)") (auto dest: position_lf_Some)

declare lf_drain.simps [simp del]

text \<open>\<open>Write::write\<close>: the new state and the number of bytes accepted.\<close>

definition lf_write :: "log_forwarder \<Rightarrow> byte list \<Rightarrow> log_forwarder \<times> nat" where
  "lf_write f buf =
     ((case position_lf buf of
         Some i \<Rightarrow>
           let line = take i buf;
               f1 = (if incomplete f = [] then lf_log f line
                     else (lf_log f (incomplete f @ line))\<lparr>incomplete := []\<rparr>);
               (f2, rest) = lf_drain f1 (drop (i + 1) buf)
           in f2\<lparr>incomplete := incomplete f2 @ rest\<rparr>
       | None \<Rightarrow> f\<lparr>incomplete := incomplete f @ buf\<rparr>),
      length buf)"

text \<open>\<open>Drop::drop\<close> flushes what is left.\<close>

definition lf_drop :: "log_forwarder \<Rightarrow> log_forwarder" where
  "lf_drop f = (if incomplete f \<noteq> [] then lf_log f (incomplete f) else f)"

text \<open>The remaining methods of \<open>VirtualFile\<close> that touch the state.\<close>

definition lf_size :: "log_forwarder \<Rightarrow> nat" where
  "lf_size f = length (incomplete f)"

definition lf_set_len :: "log_forwarder \<Rightarrow> nat \<Rightarrow> log_forwarder" where
  "lf_set_len f n = f\<lparr>incomplete := take n (incomplete f) @ replicate (n - length (incomplete f)) 0\<rparr>"

fun lf_writes :: "log_forwarder \<Rightarrow> byte list list \<Rightarrow> log_forwarder" where
  "lf_writes f [] = f"
| "lf_writes f (b # bs) = lf_writes (fst (lf_write f b)) bs"

section \<open>The specification: lines of a byte sequence\<close>

text \<open>
  \<open>cut bs\<close> is the list of complete lines of \<open>bs\<close> and the unterminated rest.
\<close>

fun cut :: "byte list \<Rightarrow> byte list list \<times> byte list" where
  "cut [] = ([], [])"
| "cut (b # bs) = (case cut bs of
     (ls, r) \<Rightarrow> if b = LF then ([] # ls, r)
       else (case ls of [] \<Rightarrow> ([], b # r) | l # ls' \<Rightarrow> ((b # l) # ls', r)))"

definition lines_of :: "byte list \<Rightarrow> byte list list" where
  "lines_of bs = (case cut bs of (ls, r) \<Rightarrow> if r = [] then ls else ls @ [r])"

text \<open>The abstraction: every byte ever received, with the line ends put back.\<close>

definition received :: "log_forwarder \<Rightarrow> byte list" where
  "received f = concat (map (\<lambda>l. l @ [LF]) (logged f)) @ incomplete f"

definition lf_inv :: "log_forwarder \<Rightarrow> bool" where
  "lf_inv f \<longleftrightarrow> LF \<notin> set (incomplete f) \<and> (\<forall>l \<in> set (logged f). LF \<notin> set l)"

lemma cut_no_lf: "LF \<notin> set bs \<Longrightarrow> cut bs = ([], bs)"
  by (induction bs) auto

lemma cut_line: "LF \<notin> set l \<Longrightarrow> cut (l @ LF # bs) = (l # fst (cut bs), snd (cut bs))"
  by (induction l) (auto split: prod.splits)

lemma cut_lines:
  "\<forall>l \<in> set ls. LF \<notin> set l \<Longrightarrow> LF \<notin> set r \<Longrightarrow> cut (concat (map (\<lambda>l. l @ [LF]) ls) @ r) = (ls, r)"
  by (induction ls) (auto simp: cut_no_lf cut_line)

lemma cut_received: "lf_inv f \<Longrightarrow> cut (received f) = (logged f, incomplete f)"
  by (simp add: lf_inv_def received_def cut_lines)

section \<open>Every operation appends to what was received\<close>

lemma position_lf_None: "position_lf bs = None \<longleftrightarrow> LF \<notin> set bs"
  by (induction bs) auto

lemma position_lf_split:
  "position_lf bs = Some i \<Longrightarrow> bs = take i bs @ LF # drop (i + 1) bs \<and> LF \<notin> set (take i bs)"
  by (induction bs arbitrary: i) (auto split: if_splits)

lemma lf_log_inv [simp]:
  "lf_inv (lf_log f l) \<longleftrightarrow> lf_inv f \<and> LF \<notin> set l" "incomplete (lf_log f l) = incomplete f"
  by (auto simp: lf_inv_def lf_log_def)

lemma received_lf_log: "incomplete f = [] \<Longrightarrow> received (lf_log f l) = received f @ l @ [LF]"
  by (simp add: received_def lf_log_def)

lemma lf_drain_None: "position_lf bs = None \<Longrightarrow> lf_drain f bs = (f, bs)"
  by (simp add: lf_drain.simps)

lemma lf_drain_Some:
  "position_lf bs = Some i \<Longrightarrow> lf_drain f bs = lf_drain (lf_log f (take i bs)) (drop (i + 1) bs)"
  by (simp add: lf_drain.simps [of f bs])

lemma lf_drain_spec:
  "lf_inv f \<Longrightarrow> incomplete f = [] \<Longrightarrow> lf_drain f bs = (f', r) \<Longrightarrow>
     lf_inv f' \<and> incomplete f' = [] \<and> LF \<notin> set r \<and> received f' @ r = received f @ bs"
proof (induction f bs rule: lf_drain.induct)
  case (1 f bs)
  show ?case
  proof (cases "position_lf bs")
    case None
    with "1.prems" lf_drain_None [OF None] have "f' = f" "r = bs" by simp_all
    with "1.prems" None show ?thesis by (simp add: position_lf_None)
  next
    case (Some i)
    let ?g = "lf_log f (take i bs)"
    note split = position_lf_split [OF Some]
    from Some "1.prems"(3) have "lf_drain ?g (drop (i + 1) bs) = (f', r)"
      by (simp only: lf_drain_Some)
    with "1.IH" [OF Some] "1.prems"(1,2) split
    have "lf_inv f' \<and> incomplete f' = [] \<and> LF \<notin> set r \<and> received f' @ r = received ?g @ drop (i + 1) bs"
      by simp
    with split "1.prems"(2) show ?thesis by (metis append.assoc append_Cons append_Nil received_lf_log)
  qed
qed

lemma lf_write_spec:
  assumes "lf_inv f"
  shows "lf_inv (fst (lf_write f bs)) \<and> received (fst (lf_write f bs)) = received f @ bs"
proof (cases "position_lf bs")
  case None
  then have "fst (lf_write f bs) = f\<lparr>incomplete := incomplete f @ bs\<rparr>" "LF \<notin> set bs"
    by (simp add: lf_write_def, simp add: position_lf_None)
  with assms show ?thesis by (simp add: received_def lf_inv_def)
next
  case (Some i)
  note split = position_lf_split [OF Some]
  let ?f1 = "if incomplete f = [] then lf_log f (take i bs)
             else (lf_log f (incomplete f @ take i bs))\<lparr>incomplete := []\<rparr>"
  have f1: "lf_inv ?f1" "incomplete ?f1 = []" "received ?f1 = received f @ take i bs @ [LF]"
    using assms split by (auto simp: lf_inv_def lf_log_def received_def)
  obtain f2 r where f2: "lf_drain ?f1 (drop (i + 1) bs) = (f2, r)" by force
  from lf_drain_spec [OF f1(1,2) f2] have "lf_inv f2" "incomplete f2 = []" "LF \<notin> set r"
    "received f2 @ r = received ?f1 @ drop (i + 1) bs" by auto
  moreover from Some f2 have "fst (lf_write f bs) = f2\<lparr>incomplete := incomplete f2 @ r\<rparr>"
    by (simp add: lf_write_def Let_def)
  ultimately show ?thesis
    using f1(3) split by (auto simp: lf_inv_def received_def)
qed

lemma lf_writes_spec:
  "lf_inv f \<Longrightarrow> lf_inv (lf_writes f bs) \<and> received (lf_writes f bs) = received f @ concat bs"
  by (induction bs arbitrary: f) (auto simp: lf_write_spec)

lemma lf_set_len_inv: "lf_inv f \<Longrightarrow> lf_inv (lf_set_len f n)"
  by (auto simp: lf_inv_def lf_set_len_def dest: in_set_takeD)

text \<open>
  C4.  However the guest's output is cut into writes, the logger sees the lines of the whole
  output: writing the chunks one after the other into a fresh forwarder and dropping it logs
  exactly the newline-separated lines of their concatenation, an unterminated last line included.
\<close>

theorem log_forwarder_lines: "logged (lf_drop (lf_writes lf_new chunks)) = lines_of (concat chunks)"
proof -
  have "lf_inv lf_new" "received lf_new = []" by (simp_all add: lf_inv_def lf_new_def received_def)
  with lf_writes_spec [of lf_new chunks] have inv: "lf_inv (lf_writes lf_new chunks)"
    and rec: "received (lf_writes lf_new chunks) = concat chunks" by simp_all
  from cut_received [OF inv] rec show ?thesis
    by (simp add: lf_drop_def lf_log_def lines_of_def)
qed

end
