(* ===== verification/Cgi_Host.thy ===== *)
theory Cgi_Host
  imports Wgi_Prelude
begin

text \<open>
  The CGI side of the server, \<^verbatim>\<open>src/cgi.rs\<close>: finding the script behind a request path, building the
  CGI meta-variables, and parsing what the script wrote into a response.

  A Rust \<open>str\<close> is the list of its UTF-8 bytes.  A panic (\<open>unwrap\<close> of an error) is \<open>None\<close>.  What the
  code takes from other crates is a parameter: the record \<open>http_api\<close> holds the functions of the
  \<^verbatim>\<open>http\<close> crate the parser calls, and \<open>cgi_handler\<close> takes the file system, the current directory,
  \<open>HeaderValue::to_str\<close> and the WebAssembly run as arguments.
\<close>

section \<open>String functions of the Rust library\<close>

abbreviation NL :: char where "NL \<equiv> CHR 0x0A"
abbreviation CR :: char where "CR \<equiv> CHR 0x0D"
abbreviation SLASH :: char where "SLASH \<equiv> CHR 0x2F"

text \<open>\<open>str::split_once\<close> with a one byte and with the two byte separator of the header section.\<close>

fun split_once :: "char \<Rightarrow> string \<Rightarrow> (string \<times> string) option" where
  "split_once c [] = None"
| "split_once c (x # xs) =
     (if x = c then Some ([], xs) else map_option (\<lambda>(a, b). (x # a, b)) (split_once c xs))"

fun split_once_blank :: "string \<Rightarrow> (string \<times> string) option" where
  "split_once_blank (x # y # xs) =
     (if x = NL \<and> y = NL then Some ([], xs)
      else map_option (\<lambda>(a, b). (x # a, b)) (split_once_blank (y # xs)))"
| "split_once_blank xs = None"

text \<open>
  \<open>str::lines\<close>: pieces ended by a line feed, each without the line feed and without one carriage
  return before it; the last piece counts only when it is not empty, and keeps its carriage return.
\<close>

definition strip_cr :: "string \<Rightarrow> string" where
  "strip_cr l = (if l \<noteq> [] \<and> last l = CR then butlast l else l)"

fun str_lines_from :: "string \<Rightarrow> string \<Rightarrow> string list" where
  "str_lines_from acc [] = (if acc = [] then [] else [acc])"
| "str_lines_from acc (x # xs) =
     (if x = NL then strip_cr acc # str_lines_from [] xs else str_lines_from (acc @ [x]) xs)"

definition str_lines :: "string \<Rightarrow> string list" where
  "str_lines s = str_lines_from [] s"

text \<open>\<open>str::trim_start\<close>: the UTF-8 encodings of the characters with the property White\_Space.\<close>

definition ascii_space :: "char \<Rightarrow> bool" where
  "ascii_space c \<longleftrightarrow> c \<in> {CHR 0x09, CHR 0x0A, CHR 0x0B, CHR 0x0C, CHR 0x0D, CHR 0x20}"

definition space2 :: "char \<Rightarrow> char \<Rightarrow> bool" where
  "space2 a b \<longleftrightarrow> a = CHR 0xC2 \<and> (b = CHR 0x85 \<or> b = CHR 0xA0)"

definition space3 :: "char \<Rightarrow> char \<Rightarrow> char \<Rightarrow> bool" where
  "space3 a b c \<longleftrightarrow>
     a = CHR 0xE1 \<and> b = CHR 0x9A \<and> c = CHR 0x80 \<or>
     a = CHR 0xE2 \<and> b = CHR 0x80 \<and>
       (128 \<le> (of_char c :: nat) \<and> (of_char c :: nat) \<le> 138 \<or> c = CHR 0xA8 \<or> c = CHR 0xA9 \<or> c = CHR 0xAF) \<or>
     a = CHR 0xE2 \<and> b = CHR 0x81 \<and> c = CHR 0x9F \<or>
     a = CHR 0xE3 \<and> b = CHR 0x80 \<and> c = CHR 0x80"

fun trim_start :: "string \<Rightarrow> string" where
  "trim_start (a # b # c # s) =
     (if ascii_space a then trim_start (b # c # s)
      else if space2 a b then trim_start (c # s)
      else if space3 a b c then trim_start s
      else a # b # c # s)"
| "trim_start [a, b] = (if ascii_space a then trim_start [b] else if space2 a b then [] else [a, b])"
| "trim_start [a] = (if ascii_space a then [] else [a])"
| "trim_start [] = []"

text \<open>
  ASCII case folding.  For the comparison with \<open>status\<close> it agrees with \<open>str::to_lowercase\<close>: no
  character outside ASCII has a lower case form that contains one of the letters a, s, t, u.
\<close>

definition ascii_lower :: "char \<Rightarrow> char" where
  "ascii_lower c = (if 65 \<le> (of_char c :: nat) \<and> (of_char c :: nat) \<le> 90 then char_of (of_char c + 32 :: nat) else c)"

definition ascii_upper :: "char \<Rightarrow> char" where
  "ascii_upper c = (if 97 \<le> (of_char c :: nat) \<and> (of_char c :: nat) \<le> 122 then char_of (of_char c - 32 :: nat) else c)"

section \<open>Parsing the response of a script\<close>

record ('s, 'n, 'v, 'h) http_api =
  status_ok :: 's
  status_from_str :: "string \<Rightarrow> 's option"
  name_from_str :: "string \<Rightarrow> 'n option"
  value_from_str :: "string \<Rightarrow> 'v option"
  headers_new :: 'h
  headers_insert :: "'h \<Rightarrow> 'n \<Rightarrow> 'v \<Rightarrow> 'h"

record ('s, 'h) CgiResponse =
  status :: 's
  headers :: 'h
  body :: string

definition parse_header_line ::
    "('s, 'n, 'v, 'h) http_api \<Rightarrow> string \<Rightarrow> 's \<times> 'h \<Rightarrow> ('s \<times> 'h) option" where
  "parse_header_line api line sh = (case split_once (CHR '':'') line of
     None \<Rightarrow> Some sh
   | Some (key, val0) \<Rightarrow>
     let val = trim_start val0 in
     if map ascii_lower key = ''status''
     then do {
       s \<leftarrow> status_from_str api val;
       Some (s, snd sh)
     }
     else do {
       n \<leftarrow> name_from_str api key;
       v \<leftarrow> value_from_str api val;
       Some (fst sh, headers_insert api (snd sh) n v)
     })"

fun parse_header_lines ::
    "('s, 'n, 'v, 'h) http_api \<Rightarrow> string list \<Rightarrow> 's \<times> 'h \<Rightarrow> ('s \<times> 'h) option" where
  "parse_header_lines api [] sh = Some sh"
| "parse_header_lines api (l # ls) sh = do {
     sh' \<leftarrow> parse_header_line api l sh;
     parse_header_lines api ls sh'
   }"

definition cgi_from_str :: "('s, 'n, 'v, 'h) http_api \<Rightarrow> string \<Rightarrow> ('s, 'h) CgiResponse option" where
  "cgi_from_str api payload = (case split_once_blank payload of
     Some (header, b) \<Rightarrow> do {
       (s, h) \<leftarrow> parse_header_lines api (str_lines header) (status_ok api, headers_new api);
       Some \<lparr>status = s, headers = h, body = b\<rparr>
     }
   | None \<Rightarrow> Some \<lparr>status = status_ok api, headers = headers_new api, body = payload\<rparr>)"

section \<open>Finding the script\<close>

definition strip_slash :: "string \<Rightarrow> string" where
  "strip_slash path = (case path of [] \<Rightarrow> [] | c # cs \<Rightarrow> if c = SLASH then cs else path)"

definition iter_path_splits :: "string \<Rightarrow> (string \<times> string) list" where
  "iter_path_splits path0 =
     (let path = strip_slash path0 in
      map (\<lambda>i. (take i path, drop i path)) (filter (\<lambda>i. path ! i = SLASH) [0..<length path]) @ [(path, [])])"

text \<open>
  A file system answers \<open>File::open\<close> followed by \<open>read_to_end\<close>: \<open>None\<close> when the open fails,
  otherwise the bytes appended to the buffer and whether the read succeeded.
\<close>

type_synonym fs_read = "string \<Rightarrow> (byte list \<times> bool) option"

fun find_script :: "fs_read \<Rightarrow> (string \<times> string) list \<Rightarrow> byte list \<Rightarrow> byte list \<times> (string \<times> string) option" where
  "find_script fs [] wasm = (wasm, None)"
| "find_script fs ((path, rest) # splits) wasm = (case fs path of
     None \<Rightarrow> find_script fs splits wasm
   | Some (bytes, ok) \<Rightarrow>
     if ok then (wasm @ bytes, Some (path, rest)) else find_script fs splits (wasm @ bytes))"

section \<open>The meta-variables\<close>

datatype version = HTTP_09 | HTTP_10 | HTTP_11 | HTTP_2 | HTTP_3 | HTTP_other

fun server_protocol :: "version \<Rightarrow> string option" where
  "server_protocol HTTP_09 = Some ''HTTP/0.9''"
| "server_protocol HTTP_10 = Some ''HTTP/1.0''"
| "server_protocol HTTP_11 = Some ''HTTP/1.1''"
| "server_protocol HTTP_2 = Some ''HTTP/2.0''"
| "server_protocol HTTP_3 = Some ''HTTP/3.0''"
| "server_protocol HTTP_other = None"

definition to_cgi_http_header :: "string \<Rightarrow> string" where
  "to_cgi_http_header header =
     ''HTTP_'' @ map (\<lambda>c. if c = CHR ''-'' then CHR ''_'' else c) (map ascii_upper header)"

text \<open>A header name is its lower case form, as \<open>HeaderName::as_str\<close> gives it.\<close>

definition header_var :: "('v \<Rightarrow> string option) \<Rightarrow> string \<times> 'v \<Rightarrow> (string \<times> string) option" where
  "header_var to_str hv = (case hv of (header, value) \<Rightarrow> do {
     v \<leftarrow> to_str value;
     Some (if header = ''content-type'' then (''CONTENT_TYPE'', v)
           else if header = ''content-length'' then (''CONTENT_LENGTH'', v)
           else (to_cgi_http_header header, v))
   })"

fun header_vars :: "('v \<Rightarrow> string option) \<Rightarrow> (string \<times> 'v) list \<Rightarrow> (string \<times> string) list option" where
  "header_vars to_str [] = Some []"
| "header_vars to_str (h # hs) = do {
     v \<leftarrow> header_var to_str h;
     vs \<leftarrow> header_vars to_str hs;
     Some (v # vs)
   }"

text \<open>A request; its body is the sequence of frames, \<open>None\<close> for a frame that fails.\<close>

record 'v cgi_request =
  rq_path :: string
  rq_query :: "string option"
  rq_method :: string
  rq_version :: version
  rq_headers :: "(string \<times> 'v) list"
  rq_body :: "byte list option list"

definition base_vars :: "'v cgi_request \<Rightarrow> (string \<times> string) list option" where
  "base_vars rq = do {
     proto \<leftarrow> server_protocol (rq_version rq);
     Some [(''GATEWAY_INTERFACE'', ''CGI/1.1''), (''SERVER_SOFTWARE'', ''wgi''),
           (''SERVER_NAME'', ''127.0.0.1''), (''SERVER_PORT'', ''9000''),
           (''SERVER_PROTOCOL'', proto), (''REQUEST_METHOD'', rq_method rq),
           (''QUERY_STRING'', (case rq_query rq of None \<Rightarrow> [] | Some q \<Rightarrow> q))]
   }"

definition script_vars :: "string option \<Rightarrow> (string \<times> string) option \<Rightarrow> (string \<times> string) list option" where
  "script_vars cwd found = (case found of
     None \<Rightarrow> Some []
   | Some (script, info) \<Rightarrow> do {
       dir \<leftarrow> cwd;
       Some [(''PATH_INFO'', info), (''PATH_TRANSLATED'', dir @ info), (''SCRIPT_NAME'', SLASH # script)]
     })"

definition first_frame :: "byte list option list \<Rightarrow> byte list option" where
  "first_frame frames = (case frames of [] \<Rightarrow> Some [] | f # _ \<Rightarrow> f)"

text \<open>The handler; \<open>run\<close> stands for \<open>App::run_cgi\<close> on the script's bytes, the body and the variables.\<close>

definition cgi_handler ::
    "(byte list \<Rightarrow> byte list \<Rightarrow> (string \<times> string) list \<Rightarrow> 'r option) \<Rightarrow> ('v \<Rightarrow> string option) \<Rightarrow>
     fs_read \<Rightarrow> string option \<Rightarrow> 'v cgi_request \<Rightarrow> 'r option" where
  "cgi_handler run to_str fs cwd rq =
     (let (wasm, found) = find_script fs (iter_path_splits (rq_path rq)) [] in do {
       vars0 \<leftarrow> base_vars rq;
       vars1 \<leftarrow> script_vars cwd found;
       vars2 \<leftarrow> header_vars to_str (rq_headers rq);
       b \<leftarrow> first_frame (rq_body rq);
       run wasm b (vars0 @ vars1 @ vars2)
     })"

text \<open>
  The check of \<open>read_to_string\<close>: the well-formed UTF-8 byte sequences (no overlong form, no surrogate,
  nothing above U+10FFFF).
\<close>

definition cont :: "byte \<Rightarrow> bool" where
  "cont b \<longleftrightarrow> 0x80 \<le> b \<and> b \<le> 0xBF"

fun utf8_valid :: "byte list \<Rightarrow> bool" where
  "utf8_valid [] = True"
| "utf8_valid (a # s) =
     (if a < 0x80 then utf8_valid s
      else if 0xC2 \<le> a \<and> a \<le> 0xDF then
        (case s of b # s' \<Rightarrow> cont b \<and> utf8_valid s' | _ \<Rightarrow> False)
      else if 0xE0 \<le> a \<and> a \<le> 0xEF then
        (case s of b # c # s' \<Rightarrow>
           (if a = 0xE0 then 0xA0 \<le> b \<and> b \<le> 0xBF else if a = 0xED then 0x80 \<le> b \<and> b \<le> 0x9F else cont b)
           \<and> cont c \<and> utf8_valid s' | _ \<Rightarrow> False)
      else if 0xF0 \<le> a \<and> a \<le> 0xF4 then
        (case s of b # c # d # s' \<Rightarrow>
           (if a = 0xF0 then 0x90 \<le> b \<and> b \<le> 0xBF else if a = 0xF4 then 0x80 \<le> b \<and> b \<le> 0x8F else cont b)
           \<and> cont c \<and> cont d \<and> utf8_valid s' | _ \<Rightarrow> False)
      else False)"

definition is_utf8 :: "string \<Rightarrow> bool" where
  "is_utf8 s \<longleftrightarrow> utf8_valid (map of_char s)"

text \<open>
  \<open>App::run_cgi\<close>: the WebAssembly run is the parameter \<open>exec\<close>, from the module, the standard input
  and the environment to the bytes the guest wrote on its standard output (\<open>None\<close> for a trap).  Output
  that is not UTF-8 is an error of \<open>read_to_string\<close>, on which the handler panics.
\<close>

definition run_cgi ::
    "('s, 'n, 'v, 'h) http_api \<Rightarrow> (byte list \<Rightarrow> byte list \<Rightarrow> (string \<times> string) list \<Rightarrow> string option) \<Rightarrow>
     byte list \<Rightarrow> byte list \<Rightarrow> (string \<times> string) list \<Rightarrow> ('s, 'h) CgiResponse option" where
  "run_cgi api exec wasm input vars = do {
     out \<leftarrow> exec wasm input vars;
     if is_utf8 out then cgi_from_str api out else None
   }"

section \<open>Parsing a rendered response\<close>

text \<open>
  The specification side: the lines a script may print before the blank line, how they look on
  the wire, and what each does to status and headers.
\<close>

datatype resp_line = RStatus string | RHeader string string

fun render_line :: "resp_line \<Rightarrow> string" where
  "render_line (RStatus code) = ''Status: '' @ code"
| "render_line (RHeader key val) = key @ '': '' @ val"

definition wf_value :: "string \<Rightarrow> bool" where
  "wf_value v \<longleftrightarrow> NL \<notin> set v \<and> trim_start v = v \<and> (v = [] \<or> last v \<noteq> CR)"

fun wf_line :: "resp_line \<Rightarrow> bool" where
  "wf_line (RStatus code) \<longleftrightarrow> wf_value code"
| "wf_line (RHeader key val) \<longleftrightarrow>
     wf_value val \<and> CHR '':'' \<notin> set key \<and> NL \<notin> set key \<and> map ascii_lower key \<noteq> ''status''"

fun apply_line :: "('s, 'n, 'v, 'h) http_api \<Rightarrow> resp_line \<Rightarrow> 's \<times> 'h \<Rightarrow> ('s \<times> 'h) option" where
  "apply_line api (RStatus code) sh = map_option (\<lambda>s. (s, snd sh)) (status_from_str api code)"
| "apply_line api (RHeader key val) sh = (case (name_from_str api key, value_from_str api val) of
     (Some n, Some v) \<Rightarrow> Some (fst sh, headers_insert api (snd sh) n v)
   | _ \<Rightarrow> None)"

fun apply_lines :: "('s, 'n, 'v, 'h) http_api \<Rightarrow> resp_line list \<Rightarrow> 's \<times> 'h \<Rightarrow> ('s \<times> 'h) option" where
  "apply_lines api [] sh = Some sh"
| "apply_lines api (l # ls) sh = Option.bind (apply_line api l sh) (apply_lines api ls)"

fun join_nl :: "string list \<Rightarrow> string" where
  "join_nl [] = []"
| "join_nl [l] = l"
| "join_nl (l # ls) = l @ NL # join_nl ls"

lemma split_once_at: "c \<notin> set a \<Longrightarrow> split_once c (a @ c # b) = Some (a, b)"
  by (induction a) auto

lemma split_once_blank_line:
  "NL \<notin> set l \<Longrightarrow> l \<noteq> [] \<Longrightarrow> rest \<noteq> [] \<Longrightarrow>
     split_once_blank (l @ NL # rest) =
       (if hd rest = NL then Some (l, tl rest)
        else map_option (\<lambda>(a, b). (l @ NL # a, b)) (split_once_blank rest))"
proof (induction l)
  case (Cons x l)
  then show ?case
    by (cases l; cases rest) (auto simp: option.map_comp comp_def case_prod_beta intro!: option.map_cong)
qed simp

lemma split_once_blank_join:
  "ls \<noteq> [] \<Longrightarrow> \<forall>l \<in> set ls. l \<noteq> [] \<and> NL \<notin> set l \<Longrightarrow>
     split_once_blank (join_nl ls @ NL # NL # b) = Some (join_nl ls, b)"
proof (induction ls rule: join_nl.induct)
  case (3 l l' ls)
  then have "hd (join_nl (l' # ls) @ NL # NL # b) \<noteq> NL"
    by (cases ls; cases l') auto
  with 3 show ?case by (simp add: split_once_blank_line)
qed (simp_all add: split_once_blank_line)

lemma str_lines_from_append:
  "NL \<notin> set l \<Longrightarrow> str_lines_from acc (l @ rest) = str_lines_from (acc @ l) rest"
  by (induction l arbitrary: acc) auto

lemma str_lines_join:
  "\<forall>l \<in> set ls. l \<noteq> [] \<and> NL \<notin> set l \<and> last l \<noteq> CR \<Longrightarrow> str_lines (join_nl ls) = ls"
proof (induction ls rule: join_nl.induct)
  case (2 l)
  with str_lines_from_append [of l "[]" "[]"] show ?case by (simp add: str_lines_def)
next
  case (3 l l' ls)
  with str_lines_from_append [of l "[]" "NL # join_nl (l' # ls)"] show ?case
    by (simp add: str_lines_def strip_cr_def)
qed (simp add: str_lines_def)

lemma trim_start_space: "trim_start (CHR '' '' # v) = trim_start v"
  by (cases v rule: trim_start.cases) (simp_all add: ascii_space_def)

lemma wf_line_nl: "wf_line l \<Longrightarrow> render_line l \<noteq> [] \<and> NL \<notin> set (render_line l) \<and> last (render_line l) \<noteq> CR"
  by (cases l) (auto simp: wf_value_def)

lemma parse_render_line: "wf_line l \<Longrightarrow> parse_header_line api (render_line l) sh = apply_line api l sh"
proof (cases l)
  case (RStatus code)
  assume "wf_line l"
  moreover have "split_once (CHR '':'') (''Status: '' @ code) = Some (''Status'', CHR '' '' # code)" by simp
  moreover have "map ascii_lower ''Status'' = ''status''" by code_simp
  ultimately show ?thesis
    using RStatus by (simp add: parse_header_line_def trim_start_space wf_value_def map_conv_bind_option comp_def)
next
  case (RHeader key val)
  assume "wf_line l"
  with RHeader show ?thesis
    by (simp add: parse_header_line_def split_once_at trim_start_space wf_value_def split: option.splits)
qed

lemma parse_render_lines:
  "\<forall>l \<in> set ls. wf_line l \<Longrightarrow> parse_header_lines api (map render_line ls) sh = apply_lines api ls sh"
  by (induction ls arbitrary: sh) (simp_all add: parse_render_line cong: Option.bind_cong)

text \<open>
  C9.  A script's output made of well-formed status and header lines, a blank line and a body is
  read back exactly: the parser's status and headers are those the lines denote, in order, with the
  last status winning, and the body is everything after the first blank line, unchanged (a body
  with blank lines of its own included).  The parser panics exactly when one of the lines carries a
  status, name or value the \<^verbatim>\<open>http\<close> crate rejects.
\<close>

theorem cgi_from_str_rendered:
  assumes "ls \<noteq> []" and "\<forall>l \<in> set ls. wf_line l"
  shows "cgi_from_str api (join_nl (map render_line ls) @ NL # NL # b) =
    map_option (\<lambda>(s, h). \<lparr>status = s, headers = h, body = b\<rparr>)
      (apply_lines api ls (status_ok api, headers_new api))"
proof -
  have "\<forall>l \<in> set (map render_line ls). l \<noteq> [] \<and> NL \<notin> set l \<and> last l \<noteq> CR"
    using assms(2) wf_line_nl by auto
  with assms show ?thesis
    by (cases "apply_lines api ls (status_ok api, headers_new api)")
      (simp_all add: cgi_from_str_def split_once_blank_join str_lines_join parse_render_lines case_prod_beta)
qed

text \<open>The witness: a status line, a header and a body with a blank line, over a toy header map.\<close>

definition toy_api :: "(string, string, string, (string \<times> string) list) http_api" where
  "toy_api = \<lparr>status_ok = ''200'', status_from_str = Some, name_from_str = Some, value_from_str = Some,
     headers_new = [], headers_insert = (\<lambda>h n v. (n, v) # h)\<rparr>"

theorem cgi_from_str_rendered_witness:
  "cgi_from_str toy_api (''Status: 404'' @ NL # ''A: b'' @ NL # NL # ''x'' @ NL # NL # ''y'') =
     Some \<lparr>status = ''404'', headers = [(''A'', ''b'')], body = ''x'' @ NL # NL # ''y''\<rparr>"
proof -
  have "\<forall>l \<in> set [RStatus ''404'', RHeader ''A'' ''b'']. wf_line l" by code_simp
  from cgi_from_str_rendered [OF _ this, of toy_api "''x'' @ NL # NL # ''y''"] show ?thesis
    by (simp add: toy_api_def)
qed

section \<open>The handler finds the script and splits the path\<close>

text \<open>
  The prefixes of a path that end before one of its first \<open>n\<close> characters that is a slash, shortest
  first; whether a file can be opened and read to its end; and the bytes a read that failed left behind.
\<close>

definition slash_prefixes :: "string \<Rightarrow> nat \<Rightarrow> string list" where
  "slash_prefixes path n = map (\<lambda>j. take j path) (filter (\<lambda>j. path ! j = SLASH) [0..<n])"

definition readable :: "fs_read \<Rightarrow> string \<Rightarrow> bool" where
  "readable fs p \<longleftrightarrow> (case fs p of Some (_, ok) \<Rightarrow> ok | None \<Rightarrow> False)"

definition failed_read :: "fs_read \<Rightarrow> string \<Rightarrow> byte list" where
  "failed_read fs p = (case fs p of Some (bytes, _) \<Rightarrow> bytes | None \<Rightarrow> [])"

lemma find_script_first:
  "list_all (\<lambda>p. \<not> readable fs p) (map fst pre) \<Longrightarrow> fs s = Some (bytes, True) \<Longrightarrow>
     find_script fs (pre @ (s, i) # post) wasm = (wasm @ concat (map (failed_read fs) (map fst pre)) @ bytes, Some (s, i))"
  by (induction pre arbitrary: wasm) (auto simp: readable_def failed_read_def split: option.splits)

lemma upt_filter_split:
  "n < m \<Longrightarrow> P n \<Longrightarrow> filter P [0..<m] = filter P [0..<n] @ n # filter P [Suc n..<m]"
  by (metis filter.simps(2) filter_append less_imp_add_positive less_imp_le_nat upt_add_eq_append
      upt_conv_Cons zero_le)

lemma iter_path_splits_at:
  assumes "strip_slash path = s @ i" and "i = [] \<or> hd i = SLASH"
  obtains pre post where "iter_path_splits path = pre @ (s, i) # post" and "map fst pre = slash_prefixes (s @ i) (length s)"
proof -
  let ?P = "s @ i"
  let ?cut = "\<lambda>j. (take j ?P, drop j ?P)" and ?is = "\<lambda>j. ?P ! j = SLASH"
  let ?pre = "map ?cut (filter ?is [0..<length s])"
  have pre: "map fst ?pre = slash_prefixes ?P (length s)" by (simp add: slash_prefixes_def)
  have it: "iter_path_splits path = map ?cut (filter ?is [0..<length ?P]) @ [(?P, [])]"
    by (simp only: iter_path_splits_def assms(1) Let_def)
  show ?thesis
  proof (cases i)
    case Nil
    then have "iter_path_splits path = ?pre @ (s, i) # []" using it by simp
    then show ?thesis using that pre by blast
  next
    case (Cons c cs)
    with assms(2) have "filter ?is [0..<length ?P] = filter ?is [0..<length s] @ length s # filter ?is [Suc (length s)..<length ?P]"
      by (intro upt_filter_split) (auto simp: nth_append)
    then have "iter_path_splits path = ?pre @ (s, i) # (map ?cut (filter ?is [Suc (length s)..<length ?P]) @ [(?P, [])])"
      using it by simp
    then show ?thesis using that pre by blast
  qed
qed

text \<open>The variables the handler sets itself come first, so no request header can replace them.\<close>

lemma map_of_handler_vars:
  assumes "base_vars rq = Some v0" and "script_vars (Some dir) (Some (s, i)) = Some v1"
  shows "map_of (v0 @ v1 @ v2) ''SCRIPT_NAME'' = Some (SLASH # s)"
    "map_of (v0 @ v1 @ v2) ''PATH_INFO'' = Some i"
    "map_of (v0 @ v1 @ v2) ''PATH_TRANSLATED'' = Some (dir @ i)"
    "map_of (v0 @ v1 @ v2) ''REQUEST_METHOD'' = Some (rq_method rq)"
    "map_of (v0 @ v1 @ v2) ''QUERY_STRING'' = Some (case rq_query rq of None \<Rightarrow> [] | Some q \<Rightarrow> q)"
  using assms by (auto simp: base_vars_def script_vars_def bind_eq_Some_conv)

text \<open>
  The requests on which the handler panics: an unknown HTTP version (\<open>expect\<close>), a header value that
  \<open>to_str\<close> refuses, and a body whose first frame is an error (\<open>unwrap\<close>).
\<close>

definition request_panics :: "('v \<Rightarrow> string option) \<Rightarrow> 'v cgi_request \<Rightarrow> bool" where
  "request_panics to_str rq \<longleftrightarrow> rq_version rq = HTTP_other \<or> list_ex (\<lambda>(h, v). to_str v = None) (rq_headers rq) \<or>
     first_frame (rq_body rq) = None"

lemma header_vars_None: "header_vars to_str hs = None \<longleftrightarrow> list_ex (\<lambda>(h, v). to_str v = None) hs"
  by (induction hs) (auto simp: header_var_def bind_eq_None_conv split: bind_splits)

lemma base_vars_None: "base_vars rq = None \<longleftrightarrow> rq_version rq = HTTP_other"
  by (cases "rq_version rq") (auto simp: base_vars_def)

lemma cgi_handler_panics: "request_panics to_str rq \<Longrightarrow> cgi_handler run to_str fs cwd rq = None"
  unfolding request_panics_def header_vars_None [symmetric] base_vars_None [symmetric]
  by (auto simp: cgi_handler_def Let_def split: prod.splits bind_splits)

lemma cgi_handler_found:
  assumes "strip_slash (rq_path rq) = s @ i" and "i = [] \<or> hd i = SLASH"
    and "fs s = Some (wasm, True)" and "list_all (\<lambda>p. \<not> readable fs p) (slash_prefixes (s @ i) (length s))"
    and "\<not> request_panics to_str rq"
  shows "\<exists>v0 v1 v2 b. base_vars rq = Some v0 \<and> script_vars (Some dir) (Some (s, i)) = Some v1 \<and>
    header_vars to_str (rq_headers rq) = Some v2 \<and> first_frame (rq_body rq) = Some b \<and>
    cgi_handler run to_str fs (Some dir) rq =
      run (concat (map (failed_read fs) (slash_prefixes (s @ i) (length s))) @ wasm) b (v0 @ v1 @ v2)"
proof -
  obtain pre post where it: "iter_path_splits (rq_path rq) = pre @ (s, i) # post"
    and pre: "map fst pre = slash_prefixes (s @ i) (length s)"
    using iter_path_splits_at [OF assms(1,2)] by blast
  from find_script_first [of fs pre s wasm i post "[]"] assms(3,4) it pre
  have "find_script fs (iter_path_splits (rq_path rq)) [] =
    (concat (map (failed_read fs) (slash_prefixes (s @ i) (length s))) @ wasm, Some (s, i))" by simp
  moreover obtain v0 v2 b where "base_vars rq = Some v0" "header_vars to_str (rq_headers rq) = Some v2" "first_frame (rq_body rq) = Some b"
    using assms(5) unfolding request_panics_def header_vars_None [symmetric] base_vars_None [symmetric] by auto
  ultimately show ?thesis by (simp add: cgi_handler_def script_vars_def)
qed

text \<open>
  C8.  The handler, where the current directory is known.  It panics on a request with an unknown
  version, a header value that is not a visible string or a failing first body frame.  On every other
  request it runs the file of the shortest prefix of the request path that ends before a slash (or is the
  whole path) and can be opened and read, and the meta-variables recombine: \<open>SCRIPT_NAME\<close> is
  that prefix, \<open>PATH_INFO\<close> the rest, \<open>PATH_TRANSLATED\<close> the rest under the current directory, and neither these nor
  \<open>REQUEST_METHOD\<close> and \<open>QUERY_STRING\<close> can be replaced by a request header.  Shorter prefixes that can be
  opened but not read (directories) are passed over; bytes such a read left in the buffer
  stand before the module.
\<close>

theorem cgi_handler_meta_variables:
  assumes "strip_slash (rq_path rq) = s @ i" and "i = [] \<or> hd i = SLASH"
    and "fs s = Some (wasm, True)" and "list_all (\<lambda>p. \<not> readable fs p) (slash_prefixes (s @ i) (length s))"
  shows "if request_panics to_str rq then cgi_handler run to_str fs (Some dir) rq = None
    else \<exists>b vars. first_frame (rq_body rq) = Some b \<and>
      cgi_handler run to_str fs (Some dir) rq = run (concat (map (failed_read fs) (slash_prefixes (s @ i) (length s))) @ wasm) b vars \<and>
      map_of vars ''SCRIPT_NAME'' = Some (SLASH # s) \<and> map_of vars ''PATH_INFO'' = Some i \<and>
      map_of vars ''PATH_TRANSLATED'' = Some (dir @ i) \<and>
      map_of vars ''REQUEST_METHOD'' = Some (rq_method rq) \<and>
      map_of vars ''QUERY_STRING'' = Some (case rq_query rq of None \<Rightarrow> [] | Some q \<Rightarrow> q)"
proof (cases "request_panics to_str rq")
  case True
  then show ?thesis by (simp add: cgi_handler_panics)
next
  case False
  obtain v0 v1 v2 b where h: "base_vars rq = Some v0" "script_vars (Some dir) (Some (s, i)) = Some v1" "first_frame (rq_body rq) = Some b"
    "cgi_handler run to_str fs (Some dir) rq = run (concat (map (failed_read fs) (slash_prefixes (s @ i) (length s))) @ wasm) b (v0 @ v1 @ v2)"
    using cgi_handler_found [OF assms False] by blast
  show ?thesis unfolding if_not_P [OF False]
    by (intro exI [of _ b] exI [of _ "v0 @ v1 @ v2"] conjI) (fact h(3,4) map_of_handler_vars [OF h(1,2)])+
qed

text \<open>
  The witness: \<^verbatim>\<open>/cgi/hello.wasm/hello\<close> with one header; \<^verbatim>\<open>cgi\<close> is a directory, which opens and fails to be read.
\<close>

definition sample_rq :: "string cgi_request" where
  "sample_rq = \<lparr>rq_path = ''/cgi/hello.wasm/hello'', rq_query = None, rq_method = ''GET'', rq_version = HTTP_11,
     rq_headers = [(''user-agent'', ''curl'')], rq_body = []\<rparr>"

definition sample_fs :: fs_read where
  "sample_fs p = (if p = ''cgi/hello.wasm'' then Some ([0, 97, 115, 109], True) else if p = ''cgi'' then Some ([], False) else None)"

lemma sample_prefixes: "slash_prefixes (''cgi/hello.wasm'' @ ''/hello'') (length ''cgi/hello.wasm'') = [''cgi'']"
  by code_simp

theorem cgi_handler_meta_variables_witness:
  "\<exists>vars. cgi_handler (\<lambda>w b vs. Some (w, b, vs)) Some sample_fs (Some ''/srv'') sample_rq = Some ([0, 97, 115, 109], [], vars) \<and>
    map_of vars ''SCRIPT_NAME'' = Some ''/cgi/hello.wasm'' \<and> map_of vars ''PATH_INFO'' = Some ''/hello'' \<and>
    map_of vars ''PATH_TRANSLATED'' = Some ''/srv/hello'' \<and>
    map_of vars ''REQUEST_METHOD'' = Some ''GET'' \<and> map_of vars ''QUERY_STRING'' = Some []"
proof -
  have "strip_slash (rq_path sample_rq) = ''cgi/hello.wasm'' @ ''/hello''"
    by (simp add: strip_slash_def sample_rq_def)
  moreover have "sample_fs ''cgi/hello.wasm'' = Some ([0, 97, 115, 109], True)" "sample_fs ''cgi'' = Some ([], False)" by (simp_all add: sample_fs_def)
  moreover have "\<not> request_panics Some sample_rq" "first_frame (rq_body sample_rq) = Some []"
    "rq_method sample_rq = ''GET''" "rq_query sample_rq = None"
    by (simp_all add: sample_rq_def first_frame_def request_panics_def)
  ultimately show ?thesis
    using cgi_handler_meta_variables [of sample_rq "''cgi/hello.wasm''" "''/hello''" sample_fs "[0, 97, 115, 109]" Some "\<lambda>w b vs. Some (w, b, vs)" "''/srv''"]
    unfolding sample_prefixes by (simp add: readable_def failed_read_def)
qed

end
