(* ===== verification/Hello_World.thy ===== *)
theory Hello_World
  imports Cgi_Host
begin

text \<open>
  The example CGI script \<^verbatim>\<open>examples/hello_world/hello_world.c\<close>, and what a client of the server
  sees when it requests that script: the program's output is parsed back by the server.

  The environment is a map from names to values (\<open>getenv\<close> returns the null pointer where it is
  \<open>None\<close>).  Passing the null pointer to \<open>strcmp\<close> or to a \<^verbatim>\<open>%s\<close> conversion is undefined: the result
  is \<open>None\<close>.
\<close>

section \<open>The program\<close>

record process_output =
  out_stdout :: string
  out_stderr :: string
  out_exit :: int

definition hello_main :: "(string \<Rightarrow> string option) \<Rightarrow> process_output option" where
  "hello_main getenv = do {
     method \<leftarrow> getenv ''REQUEST_METHOD'';
     let err = ''method: '' @ method @ [NL];
     if method \<noteq> ''GET''
     then Some \<lparr>out_stdout = ''Status: 405'' @ [NL, NL] @ ''Method Not Allowed'' @ [NL], out_stderr = err, out_exit = 0\<rparr>
     else do {
       path \<leftarrow> getenv ''PATH_INFO'';
       let greeting = (if path = ''/hello'' then Some ''Hello'' else if path = ''/goodbye'' then Some ''Goodbye'' else None);
       case greeting of
         None \<Rightarrow> Some \<lparr>out_stdout = ''Status: 404'' @ [NL, NL] @ ''Not Found'' @ [NL], out_stderr = err, out_exit = 0\<rparr>
       | Some g \<Rightarrow>
         let user_agent = (case getenv ''HTTP_USER_AGENT'' of None \<Rightarrow> ''User'' | Some ua \<Rightarrow> ua) in
         Some \<lparr>out_stdout = g @ '' '' @ user_agent @ ''!'' @ [NL], out_stderr = err, out_exit = 0\<rparr>
     }
   }"

section \<open>The response a client gets\<close>

text \<open>The characters \<open>HeaderValue::to_str\<close> accepts: visible ASCII, the space and the tab.\<close>

definition visible :: "char \<Rightarrow> bool" where
  "visible c \<longleftrightarrow> (32 \<le> (of_char c :: nat) \<and> (of_char c :: nat) < 127) \<or> c = CHR 0x09"

lemma ascii_byte: "of_char c < (128 :: nat) \<Longrightarrow> of_char c < (128 :: byte)"
proof -
  assume "of_char c < (128 :: nat)"
  then have "of_nat (of_char c) < (128 :: byte)" by (simp add: word_less_nat_alt unsigned_of_nat take_bit_nat_eq_self)
  then show ?thesis by (simp add: of_nat_of_char)
qed

lemma ascii_is_utf8: "list_all (\<lambda>c. of_char c < (128 :: nat)) s \<Longrightarrow> is_utf8 s"
  unfolding is_utf8_def by (induction s) (auto dest: ascii_byte)

lemma split_once_blank_None: "NL \<notin> set (butlast xs) \<Longrightarrow> split_once_blank xs = None"
  by (induction xs rule: split_once_blank.induct) (auto split: if_splits)

lemma cgi_from_str_no_header:
  "NL \<notin> set xs \<Longrightarrow>
     cgi_from_str api (xs @ [NL]) = Some \<lparr>status = status_ok api, headers = headers_new api, body = xs @ [NL]\<rparr>"
  using split_once_blank_None [of "xs @ [NL]"] by (simp add: cgi_from_str_def)

lemma cgi_from_str_status:
  assumes "status_from_str api code = Some s" and "wf_value code"
  shows "cgi_from_str api (''Status: '' @ code @ NL # NL # rest) =
    Some \<lparr>status = s, headers = headers_new api, body = rest\<rparr>"
proof -
  let ?l = "render_line (RStatus code)"
  have wf: "wf_line (RStatus code)" using assms(2) by simp
  have "split_once_blank (?l @ NL # NL # rest) = Some (?l, rest)"
    using split_once_blank_join [of "[?l]" rest] wf_line_nl [OF wf] by simp
  moreover have "str_lines ?l = [?l]"
    using str_lines_join [of "[?l]"] wf_line_nl [OF wf] by simp
  moreover have "parse_header_line api ?l (status_ok api, headers_new api) = Some (s, headers_new api)"
    using assms(1) by (simp add: parse_render_line [OF wf] del: render_line.simps)
  ultimately have "cgi_from_str api (?l @ NL # NL # rest) = Some \<lparr>status = s, headers = headers_new api, body = rest\<rparr>"
    by (simp add: cgi_from_str_def del: render_line.simps)
  then show ?thesis by simp
qed

lemma header_vars_user_agent:
  assumes "header_vars to_str hs = Some vs"
    and "\<forall>(h, v) \<in> set hs. to_cgi_http_header h = ''HTTP_USER_AGENT'' \<longrightarrow> h = ''user-agent''"
  shows "map_of vs ''HTTP_USER_AGENT'' = Option.bind (map_of hs ''user-agent'') to_str"
  using assms
proof (induction hs arbitrary: vs)
  case (Cons hv hs)
  obtain h v where hv: "hv = (h, v)" by force
  from Cons.prems obtain x xs where x: "to_str v = Some x" "header_vars to_str hs = Some xs"
    "vs = (if h = ''content-type'' then (''CONTENT_TYPE'', x) else if h = ''content-length''
       then (''CONTENT_LENGTH'', x) else (to_cgi_http_header h, x)) # xs"
    by (auto simp: hv header_var_def bind_eq_Some_conv)
  have "to_cgi_http_header ''user-agent'' = ''HTTP_USER_AGENT''" by code_simp
  moreover have "map_of xs ''HTTP_USER_AGENT'' = Option.bind (map_of hs ''user-agent'') to_str"
    using Cons.IH [OF x(2)] Cons.prems(2) by simp
  ultimately show ?case
    using Cons.prems(2) x by (cases "h = ''user-agent''") (auto simp: hv)
qed simp

text \<open>What the page promises, as a function of the request.\<close>

definition hello_page ::
    "('s, 'n, 'v, 'h) http_api \<Rightarrow> 's \<Rightarrow> 's \<Rightarrow> string \<Rightarrow> string \<Rightarrow> string \<Rightarrow> ('s, 'h) CgiResponse" where
  "hello_page api s405 s404 method info ua =
     (if method \<noteq> ''GET'' then \<lparr>status = s405, headers = headers_new api, body = ''Method Not Allowed'' @ [NL]\<rparr>
      else if info \<in> {''/hello'', ''/goodbye''}
      then \<lparr>status = status_ok api, headers = headers_new api,
             body = (if info = ''/hello'' then ''Hello'' else ''Goodbye'') @ '' '' @ ua @ ''!'' @ [NL]\<rparr>
      else \<lparr>status = s404, headers = headers_new api, body = ''Not Found'' @ [NL]\<rparr>)"

lemma hello_response:
  assumes "status_from_str api ''405'' = Some s405" and "status_from_str api ''404'' = Some s404"
    and "getenv ''REQUEST_METHOD'' = Some method" and "getenv ''PATH_INFO'' = Some info"
    and "ua = (case getenv ''HTTP_USER_AGENT'' of None \<Rightarrow> ''User'' | Some u \<Rightarrow> u)" and "list_all visible ua"
  shows "Option.bind (hello_main getenv) (\<lambda>o'. if is_utf8 (out_stdout o') then cgi_from_str api (out_stdout o') else None) =
    Some (hello_page api s405 s404 method info ua)"
proof -
  have utf8: "is_utf8 (xs @ ua @ ys)" if "list_all (\<lambda>c. of_char c < (128 :: nat)) (xs @ ys)" for xs ys
    using that assms(6) by (intro ascii_is_utf8) (auto simp: list_all_iff visible_def)
  have nl: "NL \<notin> set ua" using assms(6) by (auto simp: list_all_iff visible_def)
  have t: "wf_value ''405''" "wf_value ''404''" by code_simp+
  have "cgi_from_str api (g @ '' '' @ ua @ ''!'' @ [NL]) =
      Some \<lparr>status = status_ok api, headers = headers_new api, body = g @ '' '' @ ua @ ''!'' @ [NL]\<rparr>"
    if "NL \<notin> set g" for g
    using cgi_from_str_no_header [of "g @ '' '' @ ua @ ''!''" api] nl that by simp
  from this [of "''Hello''"] this [of "''Goodbye''"] show ?thesis
    using assms(3-5) cgi_from_str_status [OF assms(1) t(1)] cgi_from_str_status [OF assms(2) t(2)]
      utf8 [of "''Hello ''" "''!'' @ [NL]"] utf8 [of "''Goodbye ''" "''!'' @ [NL]"]
      ascii_is_utf8 [of "''Status: 405'' @ [NL, NL] @ ''Method Not Allowed'' @ [NL]"] ascii_is_utf8 [of "''Status: 404'' @ [NL, NL] @ ''Not Found'' @ [NL]"]
    by (simp add: hello_main_def hello_page_def)
qed

text \<open>
  C5.  A request for the example script, through the whole server: the handler splits the path,
  sets the environment, the script runs in it and its output is parsed.  The handler panics exactly on the
  requests with an unknown HTTP version, a header value that \<open>to_str\<close> refuses or a failing first body
  frame.  On every other request the client gets the greeting with its own user agent for \<^verbatim>\<open>/hello\<close> and
  \<^verbatim>\<open>/goodbye\<close>, 404 for other paths below the script and 405 for every method but GET, and neither the script
  nor the parsing of its output panics or hits undefined behaviour.  The hypotheses: the \<^verbatim>\<open>http\<close> crate
  parses the two status codes and \<open>to_str\<close> yields only visible ASCII; running the compiled module means running
  \<open>hello_main\<close> in the environment given; the prefixes of the path before the script cannot be opened or are
  directories, whose read fails with no bytes; the current directory is known; and no other header is turned into
  \<^verbatim>\<open>HTTP_USER_AGENT\<close>.
\<close>

theorem hello_world_end_to_end:
  assumes "status_from_str api ''405'' = Some s405" and "status_from_str api ''404'' = Some s404"
    and "\<And>v u. to_str v = Some u \<Longrightarrow> list_all visible u"
    and "\<And>input vars. exec wasm input vars = map_option out_stdout (hello_main (map_of vars))"
    and "strip_slash (rq_path rq) = s @ i" and "i = [] \<or> hd i = SLASH"
    and "fs s = Some (wasm, True)"
    and "list_all (\<lambda>p. fs p = None \<or> fs p = Some ([], False)) (slash_prefixes (s @ i) (length s))"
    and "\<forall>(h, v) \<in> set (rq_headers rq). to_cgi_http_header h = ''HTTP_USER_AGENT'' \<longrightarrow> h = ''user-agent''"
  shows "cgi_handler (run_cgi api exec) to_str fs (Some dir) rq =
    (if request_panics to_str rq then None
     else Some (hello_page api s405 s404 (rq_method rq) i
       (case Option.bind (map_of (rq_headers rq) ''user-agent'') to_str of None \<Rightarrow> ''User'' | Some u \<Rightarrow> u)))"
proof (cases "request_panics to_str rq")
  case True
  then show ?thesis by (simp add: cgi_handler_panics)
next
  case False
  let ?ua = "case Option.bind (map_of (rq_headers rq) ''user-agent'') to_str of None \<Rightarrow> ''User'' | Some u \<Rightarrow> u"
  have nr: "list_all (\<lambda>p. \<not> readable fs p) (slash_prefixes (s @ i) (length s))"
    and left: "concat (map (failed_read fs) (slash_prefixes (s @ i) (length s))) = []"
    using assms(8) by (auto simp: list_all_iff readable_def failed_read_def)
  from cgi_handler_found [OF assms(5-7) nr False, of dir "run_cgi api exec"] left obtain v0 v1 v2 b where
    v0: "base_vars rq = Some v0" and v1: "script_vars (Some dir) (Some (s, i)) = Some v1" and v2: "header_vars to_str (rq_headers rq) = Some v2"
    and run: "cgi_handler (run_cgi api exec) to_str fs (Some dir) rq = run_cgi api exec wasm b (v0 @ v1 @ v2)" by auto
  let ?env = "map_of (v0 @ v1 @ v2)"
  have "?env ''HTTP_USER_AGENT'' = map_of v2 ''HTTP_USER_AGENT''"
    using v0 v1 by (auto simp: base_vars_def script_vars_def bind_eq_Some_conv)
  with header_vars_user_agent [OF v2 assms(9)]
  have ua: "?ua = (case ?env ''HTTP_USER_AGENT'' of None \<Rightarrow> ''User'' | Some u \<Rightarrow> u)" by simp
  have "list_all visible ''User''" by code_simp
  then have vis: "list_all visible ?ua" using assms(3) by (auto simp: bind_eq_Some_conv split: option.split)
  from hello_response [OF assms(1,2) map_of_handler_vars(4,2) [OF v0 v1] ua vis] run False
  show ?thesis
    by (cases "hello_main ?env") (simp_all add: run_cgi_def assms(4))
qed

text \<open>The witness: \<^verbatim>\<open>GET /cgi/hello.wasm/hello\<close> from curl, with a \<open>to_str\<close> that accepts visible strings.\<close>

definition visible_str :: "string \<Rightarrow> string option" where
  "visible_str v = (if list_all visible v then Some v else None)"

theorem hello_world_end_to_end_witness:
  "cgi_handler (run_cgi toy_api (\<lambda>w b vs. map_option out_stdout (hello_main (map_of vs)))) visible_str sample_fs
     (Some ''/srv'') sample_rq =
   Some \<lparr>status = ''200'', headers = [], body = ''Hello curl!'' @ [NL]\<rparr>"
proof -
  have curl: "visible_str ''curl'' = Some ''curl''" by code_simp
  then have "\<not> request_panics visible_str sample_rq" by (simp add: request_panics_def sample_rq_def first_frame_def)
  moreover have "Option.bind (map_of (rq_headers sample_rq) ''user-agent'') visible_str = Some ''curl''" using curl by (simp add: sample_rq_def)
  moreover have "cgi_handler (run_cgi toy_api (\<lambda>w b vs. map_option out_stdout (hello_main (map_of vs)))) visible_str sample_fs
     (Some ''/srv'') sample_rq =
   (if request_panics visible_str sample_rq then None
    else Some (hello_page toy_api ''405'' ''404'' (rq_method sample_rq) ''/hello''
       (case Option.bind (map_of (rq_headers sample_rq) ''user-agent'') visible_str of None \<Rightarrow> ''User'' | Some u \<Rightarrow> u)))"
  proof (rule hello_world_end_to_end [where s = "''cgi/hello.wasm''" and wasm = "[0, 97, 115, 109]"])
    show "list_all (\<lambda>p. sample_fs p = None \<or> sample_fs p = Some ([], False)) (slash_prefixes (''cgi/hello.wasm'' @ ''/hello'') (length ''cgi/hello.wasm''))"
      unfolding sample_prefixes by (simp add: sample_fs_def)
    show "\<forall>(h, v) \<in> set (rq_headers sample_rq). to_cgi_http_header h = ''HTTP_USER_AGENT'' \<longrightarrow> h = ''user-agent''"
      by (simp add: sample_rq_def)
  qed (auto simp: sample_rq_def toy_api_def strip_slash_def sample_fs_def visible_str_def split: if_splits)
  ultimately show ?thesis by (simp add: hello_page_def toy_api_def sample_rq_def)
qed

end
