(* ===== verification/C_Stdio.thy ===== *)
theory C_Stdio
  imports Wgi_Prelude
begin

text \<open>
  The C library functions on strings the sources call: null-terminated strings in a buffer and the
  \<open>printf\<close> conversions \<^verbatim>\<open>%d\<close>, \<^verbatim>\<open>%s\<close> and \<^verbatim>\<open>%.*s\<close>.
\<close>

section \<open>Decimal numbers\<close>

definition digit_char :: "nat \<Rightarrow> char" where
  "digit_char d = char_of (48 + d)"

fun fmt_nat :: "nat \<Rightarrow> string" where
  "fmt_nat n = (if n < 10 then [digit_char n] else fmt_nat (n div 10) @ [digit_char (n mod 10)])"

declare fmt_nat.simps [simp del]

definition fmt_d :: "int \<Rightarrow> string" where
  "fmt_d i = (if i < 0 then CHR ''-'' # fmt_nat (nat (- i)) else fmt_nat (nat i))"

definition val_digit :: "char \<Rightarrow> nat" where
  "val_digit c = of_char c - 48"

lemma val_digit_char [simp]: "d < 10 \<Longrightarrow> val_digit (digit_char d) = d"
  by (simp add: val_digit_def digit_char_def)

lemma fmt_nat_value: "foldl (\<lambda>v c. 10 * v + val_digit c) 0 (fmt_nat n) = n"
proof (induction n rule: fmt_nat.induct)
  case (1 n)
  then show ?case by (subst fmt_nat.simps) simp
qed

lemma fmt_nat_inj: "fmt_nat m = fmt_nat n \<Longrightarrow> m = n"
  using fmt_nat_value by metis

section \<open>Strings in a buffer\<close>

text \<open>
  \<open>c_str buf i\<close> is the string that starts at \<open>i\<close>: the characters up to the first null character.
  Where there is none before the end of the buffer, reading on is undefined.
\<close>

definition c_str :: "string \<Rightarrow> nat \<Rightarrow> string option" where
  "c_str buf i =
     (if i \<le> length buf \<and> NUL \<in> set (drop i buf) then Some (takeWhile (\<lambda>c. c \<noteq> NUL) (drop i buf)) else None)"

text \<open>
  \<^verbatim>\<open>%.*s\<close> with precision \<open>prec\<close>: at most \<open>prec\<close> characters, fewer when a null character comes
  first; only with a negative precision is the null character needed.
\<close>

definition fmt_prec_s :: "string \<Rightarrow> int \<Rightarrow> int \<Rightarrow> string option" where
  "fmt_prec_s buf i prec =
     (if i < 0 \<or> int (length buf) < i then None
      else if prec < 0 then c_str buf (nat i)
      else let s = take (nat prec) (drop (nat i) buf) in
        if length s = nat prec \<or> NUL \<in> set s then Some (takeWhile (\<lambda>c. c \<noteq> NUL) s) else None)"

lemma c_str_None: "NUL \<notin> set buf \<Longrightarrow> c_str buf i = None"
  by (auto simp: c_str_def dest: in_set_dropD)

lemma c_str_append:
  "NUL \<notin> set s \<Longrightarrow> c_str (s @ NUL # rest) 0 = Some s"
  by (auto simp: c_str_def intro!: takeWhile_append_stop)

lemma fmt_prec_s_inside:
  "buf = pre @ s @ post \<Longrightarrow> NUL \<notin> set s \<Longrightarrow> fmt_prec_s buf (int (length pre)) (int (length s)) = Some s"
  by (auto simp: fmt_prec_s_def takeWhile_eq_all_conv)

end
