(* ===== verification/Lambda_Host.thy ===== *)
theory Lambda_Host
  imports Cgi_Host
begin

text \<open>
  The lambda side of the server, \<^verbatim>\<open>src/lambda.rs\<close>: the request record handed to the guest, the host
  functions \<open>lambda_event\<close>, \<open>lambda_event_size\<close> and \<open>lambda_send_response\<close> the guest imports, and
  the handler.

  The guest's linear memory is a list of bytes.  \<open>WasmPtr::deref\<close> (crate \<^verbatim>\<open>wasmer\<close>) is the parameter
  \<open>deref\<close>, which gives the cells of a region or \<open>None\<close> when it does not lie inside the memory;
  setting a cell of the region sets the byte of the memory.  The JSON serializer and parser
  (\<^verbatim>\<open>serde_json\<close>), \<^verbatim>\<open>base64\<close> and \<^verbatim>\<open>serde_urlencoded\<close> are parameters as well.
\<close>

section \<open>The request\<close>

record LambdaRequest =
  lr_resource :: string
  lr_path :: string
  lr_http_method :: string
  lr_headers :: "string \<rightharpoonup> string list"
  lr_query_string_parameters :: "string \<rightharpoonup> string list"
  lr_path_parameters :: "string option"
  lr_stage_variables :: "string option"
  lr_body :: "byte list option"
  lr_is_base64_encoded :: bool

text \<open>The header map lists each key once, with its values in order.\<close>

fun collect_values :: "('v \<Rightarrow> string option) \<Rightarrow> 'v list \<Rightarrow> string list option" where
  "collect_values to_str [] = Some []"
| "collect_values to_str (v # vs) = do {
     s \<leftarrow> to_str v;
     ss \<leftarrow> collect_values to_str vs;
     Some (s # ss)
   }"

fun collect_headers ::
    "('v \<Rightarrow> string option) \<Rightarrow> (string \<times> 'v list) list \<Rightarrow> (string \<rightharpoonup> string list) \<Rightarrow> (string \<rightharpoonup> string list) option" where
  "collect_headers to_str [] m = Some m"
| "collect_headers to_str ((key, vs) # rest) m = do {
     ss \<leftarrow> collect_values to_str vs;
     collect_headers to_str rest (m(key \<mapsto> ss))
   }"

text \<open>\<open>entry(key).or_insert_with(|| vec![value])\<close> leaves a key that is present as it is.\<close>

fun collect_query :: "(string \<times> string) list \<Rightarrow> (string \<rightharpoonup> string list) \<Rightarrow> (string \<rightharpoonup> string list)" where
  "collect_query [] m = m"
| "collect_query ((key, value) # rest) m =
     collect_query rest (case m key of None \<Rightarrow> m(key \<mapsto> [value]) | Some _ \<Rightarrow> m)"

record 'v lambda_http =
  lh_method :: string
  lh_path :: string
  lh_query :: "string option"
  lh_headers :: "(string \<times> 'v list) list"
  lh_body :: "byte list"

definition LambdaRequest_from ::
    "('v \<Rightarrow> string option) \<Rightarrow> (string \<Rightarrow> (string \<times> string) list option) \<Rightarrow> (byte list \<Rightarrow> byte list) \<Rightarrow>
     'v lambda_http \<Rightarrow> LambdaRequest option" where
  "LambdaRequest_from to_str urldecode base64_encode rq = do {
     hs \<leftarrow> collect_headers to_str (lh_headers rq) (\<lambda>_. None);
     qs \<leftarrow> (case lh_query rq of
        None \<Rightarrow> Some (\<lambda>_. None)
      | Some query \<Rightarrow> map_option (\<lambda>qs. collect_query qs (\<lambda>_. None)) (urldecode query));
     let (b, is64) = (if utf8_valid (lh_body rq) then (lh_body rq, False) else (base64_encode (lh_body rq), True));
     Some \<lparr>lr_resource = lh_path rq, lr_path = lh_path rq, lr_http_method = lh_method rq, lr_headers = hs,
       lr_query_string_parameters = qs, lr_path_parameters = None, lr_stage_variables = None,
       lr_body = Some b, lr_is_base64_encoded = is64\<rparr>
   }"

section \<open>The functions the guest imports\<close>

record ('b, 'r) LambdaState =
  request :: "'b list"
  response :: "'r option"

definition lambda_env_new :: "'b list \<Rightarrow> ('b, 'r) LambdaState" where
  "lambda_env_new serialized = \<lparr>request = serialized, response = None\<rparr>"

text \<open>The loop over \<open>data.iter().zip(wasm.iter())\<close>: the cells afterwards and the number set.\<close>

fun copy_to_wasm :: "'b list \<Rightarrow> 'b list \<Rightarrow> 'b list \<times> nat" where
  "copy_to_wasm (cell # wasm) (byte # data) = (case copy_to_wasm wasm data of (cells, n) \<Rightarrow> (byte # cells, n + 1))"
| "copy_to_wasm wasm data = (wasm, 0)"

fun copy_from_wasm :: "'b list \<Rightarrow> 'b list" where
  "copy_from_wasm [] = []"
| "copy_from_wasm (cell # wasm) = cell # copy_from_wasm wasm"

type_synonym 'b deref = "'b list \<Rightarrow> nat \<Rightarrow> nat \<Rightarrow> 'b list option"

definition set_region :: "'b list \<Rightarrow> nat \<Rightarrow> 'b list \<Rightarrow> 'b list" where
  "set_region mem p cells = take p mem @ cells @ drop (p + length cells) mem"

definition event :: "'b deref \<Rightarrow> ('b, 'r) LambdaState \<Rightarrow> 'b list \<Rightarrow> nat \<Rightarrow> nat \<Rightarrow> ('b list \<times> nat) option" where
  "event deref st mem buf buf_len = do {
     cells \<leftarrow> deref mem buf buf_len;
     let (cells', n) = copy_to_wasm cells (request st);
     Some (set_region mem buf cells', n)
   }"

definition event_size :: "('b, 'r) LambdaState \<Rightarrow> nat option" where
  "event_size st = (if length (request st) < 2 ^ 32 then Some (length (request st)) else None)"

definition send_response ::
    "'b deref \<Rightarrow> ('b list \<Rightarrow> 'r option) \<Rightarrow> ('b, 'r) LambdaState \<Rightarrow> 'b list \<Rightarrow> nat \<Rightarrow> nat \<Rightarrow> (('b, 'r) LambdaState \<times> int) option" where
  "send_response deref from_slice st mem buf buf_len = do {
     cells \<leftarrow> deref mem buf buf_len;
     Some (case from_slice (copy_from_wasm cells) of
        Some v \<Rightarrow> (st\<lparr>response := Some v\<rparr>, 0)
      | None \<Rightarrow> (st, -1))
   }"

section \<open>The run and the handler\<close>

text \<open>
  \<open>App::run_lamba\<close>: the guest's run is the parameter \<open>exec\<close>, which takes the module and the state
  to the state its calls of the imported functions leave (\<open>None\<close> for a trap).
\<close>

definition run_lamba ::
    "(LambdaRequest \<Rightarrow> 'b list) \<Rightarrow> (byte list \<Rightarrow> ('b, 'r) LambdaState \<Rightarrow> ('b, 'r) LambdaState option) \<Rightarrow>
     byte list \<Rightarrow> LambdaRequest \<Rightarrow> 'r option option" where
  "run_lamba to_vec exec wasm rq = do {
     st \<leftarrow> exec wasm (lambda_env_new (to_vec rq));
     Some (response st)
   }"

text \<open>The search loop keeps the last error; a script that is read resets it.\<close>

fun lambda_find :: "fs_read \<Rightarrow> (string \<times> string) list \<Rightarrow> byte list \<Rightarrow> bool \<Rightarrow> byte list \<times> bool" where
  "lambda_find fs [] wasm err = (wasm, err)"
| "lambda_find fs ((path, rest) # splits) wasm err = (case fs path of
     None \<Rightarrow> lambda_find fs splits wasm True
   | Some (bytes, ok) \<Rightarrow> if ok then (wasm @ bytes, False) else lambda_find fs splits (wasm @ bytes) True)"

definition lambda_handler ::
    "(byte list \<Rightarrow> LambdaRequest \<Rightarrow> 'r option option) \<Rightarrow> ('v \<Rightarrow> string option) \<Rightarrow>
     (string \<Rightarrow> (string \<times> string) list option) \<Rightarrow> (byte list \<Rightarrow> byte list) \<Rightarrow> fs_read \<Rightarrow> 'v lambda_http \<Rightarrow> 'r option" where
  "lambda_handler run to_str urldecode base64_encode fs rq =
     (case lambda_find fs (iter_path_splits (lh_path rq)) [] False of (wasm, err) \<Rightarrow>
       if err then None
       else do {
         lr \<leftarrow> LambdaRequest_from to_str urldecode base64_encode rq;
         res \<leftarrow> run wasm lr;
         res
       })"

section \<open>Copying in and out of the guest's memory\<close>

lemma copy_to_wasm_eq:
  "copy_to_wasm wasm data = (take (length wasm) data @ drop (length data) wasm, min (length wasm) (length data))"
  by (induction wasm data rule: copy_to_wasm.induct) simp_all

lemma copy_from_wasm_eq [simp]: "copy_from_wasm wasm = wasm"
  by (induction wasm) simp_all

text \<open>The documented behaviour of \<open>deref\<close> on a region inside the memory.\<close>

definition deref_law :: "'b deref \<Rightarrow> bool" where
  "deref_law deref \<longleftrightarrow> (\<forall>mem p n. p + n \<le> length mem \<longrightarrow> deref mem p n = Some (take n (drop p mem)))"

lemma deref_lawD: "deref_law deref \<Longrightarrow> p + n \<le> length mem \<Longrightarrow> deref mem p n = Some (take n (drop p mem))"
  by (simp add: deref_law_def)

definition deref_cells :: "'b deref" where
  "deref_cells mem p n = (if p + n \<le> length mem then Some (take n (drop p mem)) else None)"

lemma deref_law_cells [simp]: "deref_law deref_cells"
  by (simp add: deref_law_def deref_cells_def)

text \<open>
  C10.  \<open>lambda_event\<close> with a buffer inside the guest's memory writes the longest prefix of the
  serialized request that fits, returns its length, and leaves every byte of memory outside that
  prefix (before the buffer, behind it and in its unused end) as it was.  The hypothesis on
  \<open>deref\<close> is its documented behaviour.
\<close>

theorem event_copies_prefix:
  assumes "deref_law deref"
    and "buf + buf_len \<le> length mem"
  shows "\<exists>mem' n. event deref st mem buf buf_len = Some (mem', n) \<and>
    n = min buf_len (length (request st)) \<and> length mem' = length mem \<and>
    take n (drop buf mem') = take n (request st) \<and>
    (\<forall>i. i < buf \<or> buf + n \<le> i \<longrightarrow> i < length mem \<longrightarrow> mem' ! i = mem ! i)"
proof -
  let ?n = "min buf_len (length (request st))"
  let ?cells = "take ?n (request st) @ drop ?n (take buf_len (drop buf mem))"
  have "length (take buf_len (drop buf mem)) = buf_len" using assms(2) by simp
  then have "copy_to_wasm (take buf_len (drop buf mem)) (request st) = (?cells, ?n)"
    by (simp only: copy_to_wasm_eq) (auto simp: min_def)
  then have cells: "deref mem buf buf_len = Some (take buf_len (drop buf mem))"
    "copy_to_wasm (take buf_len (drop buf mem)) (request st) = (?cells, ?n)"
    using deref_lawD [OF assms] by simp_all
  have len: "length ?cells = buf_len" using assms(2) by simp
  then have "event deref st mem buf buf_len = Some (set_region mem buf ?cells, ?n)"
    using cells by (simp add: event_def)
  moreover have "length (set_region mem buf ?cells) = length mem"
    using assms(2) len by (simp add: set_region_def del: length_append)  (simp add: len [simplified])
  moreover have "take ?n (drop buf (set_region mem buf ?cells)) = take ?n (request st)"
    using assms(2) by (simp add: set_region_def)
  moreover have "set_region mem buf ?cells ! i = mem ! i" if "i < buf \<or> buf + ?n \<le> i" "i < length mem" for i
    using that assms(2) len by (auto simp: set_region_def nth_append min_def)
  ultimately show ?thesis by blast
qed

text \<open>The witness: a three byte request copied into a two byte buffer of a five byte memory.\<close>

theorem event_copies_prefix_witness:
  "\<exists>mem' n. event deref_cells \<lparr>request = ''abc'', response = None :: nat option\<rparr> ''vwxyz'' 1 2 = Some (mem', n) \<and>
    n = 2 \<and> length mem' = 5 \<and> take n (drop 1 mem') = ''ab'' \<and> mem' ! 0 = CHR ''v'' \<and> mem' ! 4 = CHR ''z''"
proof -
  let ?st = "\<lparr>request = ''abc'', response = None :: nat option\<rparr>"
  have "1 + 2 \<le> length ''vwxyz''" by simp
  from event_copies_prefix [OF deref_law_cells this, of ?st]
  obtain mem' n where m: "event deref_cells ?st ''vwxyz'' 1 2 = Some (mem', n)" "n = min 2 (length (request ?st))"
    "length mem' = length ''vwxyz''" "take n (drop 1 mem') = take n (request ?st)"
    and out: "\<forall>i. i < 1 \<or> 1 + n \<le> i \<longrightarrow> i < length ''vwxyz'' \<longrightarrow> mem' ! i = ''vwxyz'' ! i"
    by (elim exE conjE) (rule that)
  from out m(2) have "mem' ! 0 = CHR ''v''" "mem' ! 4 = CHR ''z''" by simp_all
  with m show ?thesis by (intro exI [of _ mem'] exI [of _ n]) (simp add: numeral_2_eq_2)
qed

section \<open>The response the server sends\<close>

text \<open>A guest that calls \<open>lambda_send_response\<close> several times, each time on some region of its memory.\<close>

fun send_responses ::
    "'b deref \<Rightarrow> ('b list \<Rightarrow> 'r option) \<Rightarrow> ('b, 'r) LambdaState \<Rightarrow> ('b list \<times> nat \<times> nat) list \<Rightarrow> (('b, 'r) LambdaState \<times> int list) option" where
  "send_responses deref from_slice st [] = Some (st, [])"
| "send_responses deref from_slice st ((mem, buf, n) # calls) = do {
     (st', r) \<leftarrow> send_response deref from_slice st mem buf n;
     (st'', rs) \<leftarrow> send_responses deref from_slice st' calls;
     Some (st'', r # rs)
   }"

definition region :: "'b list \<times> nat \<times> nat \<Rightarrow> 'b list" where
  "region c = (case c of (mem, buf, n) \<Rightarrow> take n (drop buf mem))"

text \<open>
  After any sequence of \<open>lambda_send_response\<close> calls on regions inside the guest's memory, the
  response the server returns is the last one that parsed, whatever the malformed calls around it;
  each call returns 0 when its region parsed and -1 otherwise, and the request is untouched.
\<close>

theorem send_responses_last:
  assumes "deref_law deref"
    and "\<forall>(mem, buf, n) \<in> set calls. buf + n \<le> length mem"
  shows "\<exists>st'. send_responses deref from_slice st calls =
      Some (st', map (\<lambda>c. if from_slice (region c) = None then -1 else 0) calls) \<and>
    request st' = request st \<and>
    response st' = (case filter (\<lambda>c. from_slice (region c) \<noteq> None) (rev calls) of
      [] \<Rightarrow> response st | c # _ \<Rightarrow> from_slice (region c))"
  using assms(2)
proof (induction calls arbitrary: st)
  case (Cons c calls)
  obtain mem buf n where c: "c = (mem, buf, n)" by (cases c)
  let ?st = "case from_slice (region c) of None \<Rightarrow> st | Some v \<Rightarrow> st\<lparr>response := Some v\<rparr>"
  have step: "send_response deref from_slice st mem buf n =
      Some (?st, if from_slice (region c) = None then -1 else 0)"
    using deref_lawD [OF assms(1)] Cons.prems c by (auto simp: send_response_def region_def split: option.splits)
  obtain st' where st': "send_responses deref from_slice ?st calls =
      Some (st', map (\<lambda>c. if from_slice (region c) = None then -1 else 0) calls)"
    "request st' = request ?st"
    "response st' = (case filter (\<lambda>c. from_slice (region c) \<noteq> None) (rev calls) of
      [] \<Rightarrow> response ?st | c # _ \<Rightarrow> from_slice (region c))"
    using Cons.IH [of ?st] Cons.prems by auto
  have "response st' = (case filter (\<lambda>c. from_slice (region c) \<noteq> None) (rev (c # calls)) of
      [] \<Rightarrow> response st | c # _ \<Rightarrow> from_slice (region c))"
    using st'(3) by (auto split: list.splits option.splits)
  moreover have "request st' = request st" using st'(2) by (simp split: option.splits)
  ultimately show ?case using step st'(1) c by simp
qed simp

text \<open>The witness: a valid response followed by a malformed one.\<close>

theorem send_responses_last_witness:
  "\<exists>st'. send_responses deref_cells (\<lambda>s. if s = ''ok'' then Some (200 :: nat) else None) (lambda_env_new ''{}'')
      [(''.ok.'', 1, 2), (''.ko.'', 1, 2)] = Some (st', [0, -1]) \<and> request st' = ''{}'' \<and> response st' = Some 200"
proof -
  from send_responses_last [OF deref_law_cells, of "[(''.ok.'', 1, 2), (''.ko.'', 1, 2)]"
      "\<lambda>s. if s = ''ok'' then Some (200 :: nat) else None" "lambda_env_new ''{}''"]
  show ?thesis by (simp add: region_def lambda_env_new_def numeral_2_eq_2)
qed

end
