(* ===== verification/Lambda_Main.thy ===== *)
theory Lambda_Main
  imports Jsmn_Print C_Stdio Lambda_Host
begin

text \<open>
  The example lambda \<^verbatim>\<open>examples/lambda/lambda.c\<close>: it fetches the event from the server into a buffer
  of 2048 bytes, tokenizes it with at most 128 tokens and prints the strings and primitives.

  The host functions are arguments: the size of the event, and what \<open>lambda_event\<close> leaves in the
  buffer with the count it returns.  The buffer and the token array are not initialised by the
  program; their first contents are arguments too.  The result is the program's standard output,
  or \<open>None\<close> for undefined behaviour.
\<close>

section \<open>The program\<close>

definition print_token :: "string \<Rightarrow> jsmntok \<Rightarrow> string option" where
  "print_token buf t = do {
     s \<leftarrow> (if tok_type t = JSMN_STRING
           then map_option (\<lambda>s. s @ '' '') (fmt_prec_s buf (tok_start t) (tok_end t - tok_start t)) else Some []);
     p \<leftarrow> (if tok_type t = JSMN_PRIMITIVE
           then map_option (\<lambda>s. s @ '' '') (fmt_prec_s buf (tok_start t) (tok_end t - tok_start t)) else Some []);
     Some (s @ p)
   }"

function print_loop :: "string \<Rightarrow> jsmntok list \<Rightarrow> int \<Rightarrow> nat \<Rightarrow> string option" where
  "print_loop buf t r i =
     (if int i < r
      then do {
        tok \<leftarrow> rd t i;
        s \<leftarrow> print_token buf tok;
        rest \<leftarrow> print_loop buf t r (Suc i);
        Some (s @ rest)
      }
      else Some [])"
  by pat_completeness auto
termination
  by (relation "measure (\<lambda>(buf, t, r, i). nat r - i)") auto

declare print_loop.simps [simp del]

definition lambda_main :: "nat \<Rightarrow> (string \<Rightarrow> string \<times> nat) \<Rightarrow> string \<Rightarrow> jsmntok list \<Rightarrow> string option" where
  "lambda_main ev_size lambda_event buf0 t0 =
     (let out1 = ''bufsize: '' @ fmt_d (c_int (int ev_size)) @ [NL];
          (buf, len) = lambda_event buf0 in do {
        s \<leftarrow> c_str buf 0;
        let out2 = out1 @ ''event: '' @ s @ ''!'' @ [NL];
        ((p, toks), r) \<leftarrow> jsmn_parse buf len 128 (jsmn_init, Some t0);
        t \<leftarrow> toks;
        case r of
          Inl JSMN_ERROR_NOMEM \<Rightarrow> Some (out2 @ ''No memory'' @ [NL])
        | Inl e \<Rightarrow> Some (out2 @ ''Object expected'' @ [NL])
        | Inr k \<Rightarrow>
          (if k < 1 then Some (out2 @ ''Object expected'' @ [NL])
           else do {
             t0 \<leftarrow> rd t 0;
             if tok_type t0 \<noteq> JSMN_OBJECT then Some (out2 @ ''Object expected'' @ [NL])
             else do {
               rest \<leftarrow> print_loop buf t k 1;
               Some (out2 @ rest)
             }
           })
      })"

section \<open>The texts of the tokens\<close>

fun scalars_of :: "json \<Rightarrow> string list" where
  "scalars_of (JPrim s) = [s]"
| "scalars_of (JStr s) = [s]"
| "scalars_of (JArr vs) = concat (map scalars_of vs)"
| "scalars_of (JObj kvs) = concat (map (\<lambda>(k, v). k # scalars_of v) kvs)"

definition spaced :: "string list \<Rightarrow> string" where
  "spaced ss = concat (map (\<lambda>s. s @ '' '') ss)"

lemma spaced_simps [simp]:
  "spaced [] = []" "spaced (s # ss) = s @ '' '' @ spaced ss" "spaced (xs @ ys) = spaced xs @ spaced ys"
  by (simp_all add: spaced_def)

lemma str_body_no_NUL: "str_body s \<Longrightarrow> NUL \<notin> set s"
proof (induction s rule: str_body.induct)
  case (2 c s)
  show ?case
  proof (cases "c = BSLASH")
    case True
    with "2.prems" obtain e s' where s: "s = e # s'" by (auto split: list.splits)
    from True s "2.prems" consider "simple_escape e" "str_body s'"
      | "e = CHR ''u''" "4 \<le> length s'" "list_all hex_char (take 4 s')" "str_body (drop 4 s')" by auto
    then show ?thesis
    proof cases
      case 1
      with "2.IH"(1) [OF True s] True s show ?thesis by (auto simp: simple_escape_def)
    next
      case 2
      have "NUL \<notin> set (take 4 s')" using 2 hex_char_not_NUL by (auto simp: list_all_iff)
      moreover have "NUL \<notin> set (drop 4 s')" using 2 "2.IH"(2) [OF True s] by simp
      ultimately have "NUL \<notin> set (take 4 s' @ drop 4 s')" by (simp only: set_append Un_iff) simp
      with True s 2 show ?thesis by simp
    qed
  next
    case False
    with 2 show ?thesis by auto
  qed
qed simp

lemma prim_no_NUL: "list_all prim_char s \<Longrightarrow> NUL \<notin> set s"
  by (auto simp: list_all_iff prim_char_def)

lemma print_json_no_NUL:
  "wf_json v \<Longrightarrow> NUL \<notin> set (print_json v)"
  "list_all wf_json vs \<Longrightarrow> NUL \<notin> set (print_elems b vs)"
  "list_all (\<lambda>(k, v). str_body k \<and> wf_json v) kvs \<Longrightarrow> NUL \<notin> set (print_members b kvs)"
  by (induction v and b vs and b kvs rule: print_json_print_elems_print_members.induct)
    (auto simp: prim_no_NUL str_body_no_NUL)

fun print_list :: "string \<Rightarrow> jsmntok list \<Rightarrow> string option" where
  "print_list buf [] = Some []"
| "print_list buf (t # ts) = do { s \<leftarrow> print_token buf t; rest \<leftarrow> print_list buf ts; Some (s @ rest) }"

lemma print_list_append:
  "print_list buf xs = Some a \<Longrightarrow> print_list buf ys = Some b \<Longrightarrow> print_list buf (xs @ ys) = Some (a @ b)"
  by (induction xs arbitrary: a) (auto simp: bind_eq_Some_conv)

lemma print_loop_list:
  "k \<le> length t \<Longrightarrow> print_loop buf t (int k) i = print_list buf (drop i (take k t))"
proof (induction "k - i" arbitrary: i)
  case 0
  then show ?case by (subst print_loop.simps) simp
next
  case (Suc d)
  then have "i < k" "print_loop buf t (int k) (Suc i) = print_list buf (drop (Suc i) (take k t))" by simp_all
  moreover from this Suc.prems have "drop i (take k t) = t ! i # drop (Suc i) (take k t)"
    using drop_eq_Cons_nth [of i "take k t"] by simp
  ultimately show ?case using Suc.prems by (subst print_loop.simps) simp
qed

lemma print_token_scalar:
  "buf = pre @ s @ post \<Longrightarrow> NUL \<notin> set s \<Longrightarrow> ty = JSMN_STRING \<or> ty = JSMN_PRIMITIVE \<Longrightarrow>
     print_token buf (mk_tok ty (length pre) (length pre + length s) sz) = Some (s @ '' '')"
  using fmt_prec_s_inside [of buf pre s post] by (auto simp: print_token_def mk_tok_def)

lemma print_token_container:
  "ty = JSMN_ARRAY \<or> ty = JSMN_OBJECT \<Longrightarrow> print_token buf (mk_tok ty a b sz) = Some []"
  by (auto simp: print_token_def mk_tok_def)

lemma print_list_toks:
  "buf = pre @ print_json v @ post \<Longrightarrow> wf_json v \<Longrightarrow>
     print_list buf (toks_of (length pre) v) = Some (spaced (scalars_of v))"
  "buf = pre @ print_elems b vs @ post \<Longrightarrow> list_all wf_json vs \<Longrightarrow>
     print_list buf (toks_elems (length pre) b vs) = Some (spaced (concat (map scalars_of vs)))"
  "buf = pre @ print_members b kvs @ post \<Longrightarrow> list_all (\<lambda>(k, v). str_body k \<and> wf_json v) kvs \<Longrightarrow>
     print_list buf (toks_members (length pre) b kvs) =
       Some (spaced (concat (map (\<lambda>(k, v). k # scalars_of v) kvs)))"
proof (induction v and b vs and b kvs arbitrary: pre post and pre post and pre post
    rule: print_json_print_elems_print_members.induct)
  case (1 s)
  then show ?case by (simp add: print_token_scalar prim_no_NUL)
next
  case (2 s)
  then show ?case
    using print_token_scalar [of buf "pre @ [QUOTE]" s "QUOTE # post" JSMN_STRING 0] by (simp add: str_body_no_NUL)
next
  case (3 vs)
  from "3.IH" [of "pre @ ''[''" "'']'' @ post"] "3.prems" show ?case by (simp add: print_token_container)
next
  case (4 kvs)
  from "4.IH" [of "pre @ ''{''" "''}'' @ post"] "4.prems" show ?case by (simp add: print_token_container)
next
  case (6 b v vs)
  let ?pre = "pre @ (if b then [] else '','')"
  have "print_list buf (toks_of (length ?pre) v) = Some (spaced (scalars_of v))"
    using "6.prems" by (intro "6.IH"(1)) auto
  moreover have "print_list buf (toks_elems (length (?pre @ print_json v)) False vs) =
      Some (spaced (concat (map scalars_of vs)))"
    using "6.prems" by (intro "6.IH"(2)) auto
  ultimately show ?case
    by (auto simp: Let_def print_list_append)
next
  case (8 b k v kvs)
  let ?pre = "pre @ (if b then [] else '','')"
  let ?prek = "?pre @ QUOTE # k @ [QUOTE, CHR '':'']"
  have key: "print_token buf (mk_tok JSMN_STRING (length (?pre @ [QUOTE])) (length (?pre @ [QUOTE]) + length k) 1) =
      Some (k @ '' '')"
    by (rule print_token_scalar [where post = "QUOTE # CHR '':'' # print_json v @ print_members False kvs @ post"])
      (use "8.prems" in \<open>auto simp: str_body_no_NUL\<close>)
  have "print_list buf (toks_of (length ?prek) v) = Some (spaced (scalars_of v))"
    using "8.prems" by (intro "8.IH"(1)) auto
  moreover have "print_list buf (toks_members (length (?prek @ print_json v)) False kvs) =
      Some (spaced (concat (map (\<lambda>(k, v). k # scalars_of v) kvs)))"
    using "8.prems" by (intro "8.IH"(2)) auto
  ultimately have "print_list buf (toks_of (length ?prek) v @ toks_members (length (?prek @ print_json v)) False kvs) =
      Some (spaced (scalars_of v) @ spaced (concat (map (\<lambda>(k, v). k # scalars_of v) kvs)))"
    by (rule print_list_append)
  with key show ?case
    by (cases b) (simp_all add: Let_def ac_simps numeral_3_eq_3)
qed simp_all

section \<open>The run\<close>

lemma c_str_text:
  assumes "NUL \<notin> set s" and "NUL \<in> set rest"
  shows "c_str (s @ rest) 0 = Some (s @ takeWhile (\<lambda>c. c \<noteq> NUL) rest)"
proof -
  have "takeWhile (\<lambda>c. c \<noteq> NUL) (s @ rest) = s @ takeWhile (\<lambda>c. c \<noteq> NUL) rest"
    using assms(1) by (intro takeWhile_append2) auto
  with assms(2) show ?thesis by (simp add: c_str_def)
qed

text \<open>
  C6.  An event that is the text of a JSON object with at most 128 nodes and keys, and short enough
  that a null character is left behind it in the buffer: the server copies it in, the program
  tokenizes it and prints, after the event itself, every key, string and primitive of the object in
  document order, each followed by a space; it does not run into undefined behaviour.
\<close>

theorem lambda_main_prints_scalars:
  assumes "wf_json (JObj kvs)" and "length (toks_of 0 (JObj kvs)) \<le> 128"
    and "text = print_json (JObj kvs)" and "length buf0 = 2048" and "length t0 = 128"
    and "NUL \<in> set (drop (length text) buf0)"
  shows "lambda_main (length text) (\<lambda>buf. copy_to_wasm buf text) buf0 t0 =
    Some (''bufsize: '' @ fmt_nat (length text) @ [NL] @ ''event: '' @ text
      @ takeWhile (\<lambda>c. c \<noteq> NUL) (drop (length text) buf0) @ ''!'' @ [NL] @ spaced (scalars_of (JObj kvs)))"
proof -
  let ?v = "JObj kvs"
  let ?ts = "toks_of 0 ?v" and ?buf = "text @ drop (length text) buf0"
  have len: "length text < 2048"
    using assms(4,6) by (metis drop_all empty_iff list.set(1) not_less)
  then have ev: "copy_to_wasm buf0 text = (?buf, length text)"
    using assms(4) by (simp add: copy_to_wasm_eq)
  have str: "c_str ?buf 0 = Some (text @ takeWhile (\<lambda>c. c \<noteq> NUL) (drop (length text) buf0))"
    using assms(3,6) print_json_no_NUL(1) [OF assms(1)] by (intro c_str_text) auto
  have parse: "jsmn_parse ?buf (length text) 128 (jsmn_init, Some t0) =
    Some ((\<lparr>pos = length text, toknext = length ?ts, toksuper = -1\<rparr>, Some (?ts @ drop (length ?ts) t0)),
          Inr (int (length ?ts)))"
    using jsmn_parse_printed_buf [OF assms(1,2)] assms(3,5) len by simp
  have "print_loop ?buf (?ts @ drop (length ?ts) t0) (int (length ?ts)) 1 = print_list ?buf (drop 1 ?ts)"
    using print_loop_list [of "length ?ts" "?ts @ drop (length ?ts) t0"] by simp
  also have "\<dots> = Some (spaced (scalars_of ?v))"
    using print_list_toks(1) [of ?buf "[]" ?v "drop (length text) buf0"] assms(1,3)
    by (simp add: print_token_container)
  finally have loop: "print_loop ?buf (?ts @ drop (length ?ts) t0) (int (length ?ts)) 1 = Some (spaced (scalars_of ?v))" .
  have "?ts \<noteq> []" "rd (?ts @ drop (length ?ts) t0) 0 = Some (?ts ! 0)" "tok_type (?ts ! 0) = JSMN_OBJECT"
    by (simp_all add: mk_tok_def)
  then show ?thesis
    using ev str parse loop len
    by (simp add: lambda_main_def fmt_d_def c_conv Let_def del: toks_of.simps scalars_of.simps)
qed

text \<open>The witness: a small object in a zeroed buffer.\<close>

theorem lambda_main_prints_scalars_witness:
  "lambda_main 13 (\<lambda>buf. copy_to_wasm buf (print_json (JObj [(''a'', JArr [JPrim ''1'', JStr ''x''])])))
     (replicate 2048 NUL) (replicate 128 tok0) =
   Some (''bufsize: 13'' @ [NL] @ ''event: '' @ print_json (JObj [(''a'', JArr [JPrim ''1'', JStr ''x''])])
     @ ''!'' @ [NL] @ ''a 1 x '')"
proof -
  let ?v = "JObj [(''a'', JArr [JPrim ''1'', JStr ''x''])]"
  have "wf_json ?v" "length (toks_of 0 ?v) \<le> 128" by code_simp+
  moreover have eqs: "length (print_json ?v) = 13" "fmt_nat 13 = ''13''" "spaced (scalars_of ?v) = ''a 1 x ''"
    by code_simp+
  moreover have "NUL \<in> set (drop 13 (replicate 2048 NUL))" "takeWhile (\<lambda>c. c \<noteq> NUL) (drop 13 (replicate 2048 NUL)) = []"
    by simp_all
  ultimately show ?thesis
    using lambda_main_prints_scalars [OF _ _ refl, of "[(''a'', JArr [JPrim ''1'', JStr ''x''])]" "replicate 2048 NUL" "replicate 128 tok0"]
    by (simp only: length_replicate) simp
qed

text \<open>
  C7.  An event of 2048 bytes or more that contains no null character fills the whole buffer, and
  printing the buffer as a string reads past its end: the run is undefined.
\<close>

theorem lambda_main_long_event:
  assumes "2048 \<le> length text" and "NUL \<notin> set text" and "length buf0 = 2048"
  shows "lambda_main (length text) (\<lambda>buf. copy_to_wasm buf text) buf0 t0 = None"
proof -
  have "copy_to_wasm buf0 text = (take 2048 text, 2048)"
    using assms by (simp add: copy_to_wasm_eq)
  moreover have "c_str (take 2048 text) 0 = None"
    using assms(2) by (intro c_str_None) (auto dest: in_set_takeD)
  ultimately show ?thesis by (simp add: lambda_main_def)
qed

text \<open>The witness: 2048 spaces.\<close>

theorem lambda_main_long_event_witness:
  "lambda_main 2048 (\<lambda>buf. copy_to_wasm buf (replicate 2048 (CHR '' ''))) (replicate 2048 NUL) (replicate 128 tok0) = None"
  using lambda_main_long_event [of "replicate 2048 (CHR '' '')" "replicate 2048 NUL"] by simp

end
