(* ===== verification/Cutils_Str.thy ===== *)
theory Cutils_Str
  imports C_Stdio "HOL-Library.Sublist"
begin

text \<open>
  The string helpers of \<^verbatim>\<open>cutils.c\<close>: bounded copy and concatenation, prefix and suffix tests.
  A \<open>char *\<close> argument is the rest of its object from the pointer on, a list of characters.
\<close>

section \<open>Bounded copy\<close>

text \<open>The loop of \<open>pstrcpy\<close>; \<open>i\<close> counts the characters copied, so \<open>q = buf + i\<close>.\<close>

function pstrcpy_loop :: "string \<Rightarrow> int \<Rightarrow> string \<Rightarrow> nat \<Rightarrow> string option" where
  "pstrcpy_loop buf buf_size str i = do {
     c \<leftarrow> rd str i;
     if c = NUL \<or> buf_size - 1 \<le> int i then wr buf i NUL
     else do {
       buf' \<leftarrow> wr buf i c;
       pstrcpy_loop buf' buf_size str (Suc i)
     }
   }"
  by pat_completeness auto
termination
  by (relation "measure (\<lambda>(buf, n, str, i). nat (n - 1) - i)") auto

declare pstrcpy_loop.simps [simp del]

definition pstrcpy :: "string \<Rightarrow> int \<Rightarrow> string \<Rightarrow> string option" where
  "pstrcpy buf buf_size str = (if buf_size \<le> 0 then Some buf else pstrcpy_loop buf buf_size str 0)"

definition pstrcat :: "string \<Rightarrow> int \<Rightarrow> string \<Rightarrow> string option" where
  "pstrcat buf buf_size s = do {
     b \<leftarrow> c_str buf 0;
     let len = length b;
     if int len < buf_size
     then do {
       tail' \<leftarrow> pstrcpy (drop len buf) (buf_size - int len) s;
       Some (take len buf @ tail')
     }
     else Some buf
   }"

section \<open>Prefix and suffix tests\<close>

text \<open>\<open>Some (Some i)\<close>: the test succeeds and \<open>*ptr = str + i\<close>.\<close>

function strstart_loop :: "string \<Rightarrow> string \<Rightarrow> nat \<Rightarrow> nat option option" where
  "strstart_loop str val i = do {
     q \<leftarrow> rd val i;
     if q = NUL then Some (Some i)
     else do {
       p \<leftarrow> rd str i;
       if p \<noteq> q then Some None else strstart_loop str val (Suc i)
     }
   }"
  by pat_completeness auto
termination
  by (relation "measure (\<lambda>(str, val, i). length val - i)") (auto simp: ub_simps)

declare strstart_loop.simps [simp del]

definition strstart :: "string \<Rightarrow> string \<Rightarrow> nat option option" where
  "strstart str val = strstart_loop str val 0"

fun memcmp_eq :: "string \<Rightarrow> string \<Rightarrow> nat \<Rightarrow> bool option" where
  "memcmp_eq a b 0 = Some True"
| "memcmp_eq a b (Suc n) = do {
     x \<leftarrow> rd a 0;
     y \<leftarrow> rd b 0;
     r \<leftarrow> memcmp_eq (drop 1 a) (drop 1 b) n;
     Some (x = y \<and> r)
   }"

definition has_suffix :: "string \<Rightarrow> string \<Rightarrow> bool option" where
  "has_suffix str sfx = do {
     s \<leftarrow> c_str str 0;
     t \<leftarrow> c_str sfx 0;
     if length t \<le> length s then memcmp_eq (drop (length s - length t) str) sfx (length t) else Some False
   }"

section \<open>Correctness\<close>

lemma c_str_0: "c_str buf 0 = Some s \<longleftrightarrow> (\<exists>rest. buf = s @ NUL # rest) \<and> NUL \<notin> set s"
proof
  assume "c_str buf 0 = Some s"
  then have s: "NUL \<in> set buf" "s = takeWhile (\<lambda>c. c \<noteq> NUL) buf" by (auto simp: c_str_def split: if_splits)
  then have "dropWhile (\<lambda>c. c \<noteq> NUL) buf \<noteq> []" "hd (dropWhile (\<lambda>c. c \<noteq> NUL) buf) = NUL"
    using hd_dropWhile [of "\<lambda>c. c \<noteq> NUL" buf] by (auto simp: dropWhile_eq_Nil_conv)
  then have "buf = s @ NUL # tl (dropWhile (\<lambda>c. c \<noteq> NUL) buf)"
    using s(2) by (metis list.collapse takeWhile_dropWhile_id)
  moreover have "NUL \<notin> set s" using s(2) by (auto dest: set_takeWhileD)
  ultimately show "(\<exists>rest. buf = s @ NUL # rest) \<and> NUL \<notin> set s" by blast
next
  assume "(\<exists>rest. buf = s @ NUL # rest) \<and> NUL \<notin> set s"
  then show "c_str buf 0 = Some s" using c_str_append by auto
qed

lemma pstrcpy_loop_spec:
  "NUL \<notin> set s \<Longrightarrow> int (length pre) < n \<Longrightarrow> n \<le> int (length (pre @ cs)) \<Longrightarrow>
   m = min (length s) (nat (n - 1) - length pre) \<Longrightarrow>
   pstrcpy_loop (pre @ cs) n (pre @ s @ NUL # rest) (length pre) = Some (pre @ take m s @ NUL # drop (Suc m) cs)"
proof (induction s arbitrary: pre cs m)
  case Nil
  then obtain x cs' where "cs = x # cs'" by (cases cs) auto
  with Nil show ?case by (subst pstrcpy_loop.simps) simp
next
  case (Cons c s)
  then obtain x cs' where cs: "cs = x # cs'" by (cases cs) auto
  show ?case
  proof (cases "n - 1 \<le> int (length pre)")
    case True
    with Cons.prems cs show ?thesis by (subst pstrcpy_loop.simps) simp
  next
    case False
    define m' where "m' = m - 1"
    from Cons.prems False have m: "m = Suc m'" "m' = min (length s) (nat (n - 1) - length (pre @ [c]))"
      by (auto simp: m'_def min_def)
    have "pstrcpy_loop ((pre @ [c]) @ cs') n ((pre @ [c]) @ s @ NUL # rest) (length (pre @ [c])) =
        Some ((pre @ [c]) @ take m' s @ NUL # drop (Suc m') cs')"
      using Cons.prems False cs m by (intro Cons.IH) auto
    moreover have "m = Suc m'" "c \<noteq> NUL" "\<not> n - 1 \<le> int (length pre)" "cs = x # cs'"
      using m(1) Cons.prems(1) False cs by auto
    ultimately show ?thesis by (subst pstrcpy_loop.simps) simp
  qed
qed

lemma pstrcpy_spec:
  assumes "c_str str 0 = Some s" and "0 < n" and "n \<le> int (length buf)"
  shows "\<exists>buf'. pstrcpy buf n str = Some buf' \<and> c_str buf' 0 = Some (take (nat n - 1) s) \<and>
      length buf' = length buf \<and> drop (nat n) buf' = drop (nat n) buf"
proof -
  from assms(1) obtain rest where s: "str = s @ NUL # rest" "NUL \<notin> set s" by (auto simp: c_str_0)
  define m where "m = min (length s) (nat n - 1)"
  have "pstrcpy buf n str = Some (take m s @ NUL # drop (Suc m) buf)"
    using pstrcpy_loop_spec [of s "[]" n buf m rest] s assms(2,3) by (simp add: pstrcpy_def m_def nat_diff_distrib)
  moreover have "take m s = take (nat n - 1) s" by (simp add: m_def min_def)
  moreover have "NUL \<notin> set (take m s)" using s(2) by (auto dest: in_set_takeD)
  moreover have "m < length buf" "m < nat n" "length (take m s) = m" using assms(2,3) by (auto simp: m_def)
  ultimately show ?thesis
    by (intro exI [of _ "take m s @ NUL # drop (Suc m) buf"]) (auto simp: c_str_append drop_Cons' Suc_diff_Suc)
qed

text \<open>
  C16.  \<open>pstrcpy\<close> and \<open>pstrcat\<close> never write outside the first \<open>buf_size\<close> characters of the buffer
  and always leave a terminated string: the source, or the old string followed by the source,
  truncated to \<open>buf_size - 1\<close> characters.
\<close>

theorem pstrcpy_pstrcat_truncate:
  assumes "c_str str 0 = Some s" and "0 < n" and "n \<le> int (length buf)"
  shows "(\<exists>buf'. pstrcpy buf n str = Some buf' \<and> c_str buf' 0 = Some (take (nat n - 1) s) \<and>
      length buf' = length buf \<and> drop (nat n) buf' = drop (nat n) buf) \<and>
    (\<forall>b. c_str buf 0 = Some b \<longrightarrow> int (length b) < n \<longrightarrow>
      (\<exists>buf'. pstrcat buf n str = Some buf' \<and> c_str buf' 0 = Some (take (nat n - 1) (b @ s)) \<and>
        length buf' = length buf \<and> drop (nat n) buf' = drop (nat n) buf))"
proof (intro conjI allI impI)
  show "\<exists>buf'. pstrcpy buf n str = Some buf' \<and> c_str buf' 0 = Some (take (nat n - 1) s) \<and>
      length buf' = length buf \<and> drop (nat n) buf' = drop (nat n) buf"
    by (rule pstrcpy_spec [OF assms])
next
  fix b
  assume b: "c_str buf 0 = Some b" "int (length b) < n"
  then obtain rest where buf: "buf = b @ NUL # rest" "NUL \<notin> set b" by (auto simp: c_str_0)
  let ?n = "n - int (length b)"
  obtain t where t: "pstrcpy (drop (length b) buf) ?n str = Some t" "c_str t 0 = Some (take (nat ?n - 1) s)"
    "length t = length (drop (length b) buf)" "drop (nat ?n) t = drop (nat ?n) (drop (length b) buf)"
    using pstrcpy_spec [OF assms(1), of ?n "drop (length b) buf"] b(2) assms(3) by auto
  from t(2) buf(2) have "c_str (b @ t) 0 = Some (b @ take (nat ?n - 1) s)" by (auto simp: c_str_0)
  moreover have "pstrcat buf n str = Some (b @ t)" using b t(1) buf by (simp add: pstrcat_def)
  moreover have n: "nat n = length b + nat ?n" "0 < nat ?n" using b(2) by simp_all
  moreover have "drop (nat n) (b @ t) = drop (nat n) buf" using t(4) n(1) by (simp add: add.commute)
  moreover have "length (b @ t) = length buf" using t(3) buf by simp
  ultimately show "\<exists>buf'. pstrcat buf n str = Some buf' \<and> c_str buf' 0 = Some (take (nat n - 1) (b @ s)) \<and>
      length buf' = length buf \<and> drop (nat n) buf' = drop (nat n) buf"
    by (intro exI [of _ "b @ t"]) simp
qed

text \<open>The witness: \<^verbatim>\<open>lib\<close> and \<^verbatim>\<open>std.js\<close> in a buffer of eight.\<close>

theorem pstrcpy_pstrcat_truncate_witness:
  "\<exists>buf'. pstrcat (''lib'' @ [NUL, CHR ''x'', CHR ''x'', CHR ''x'', CHR ''x'']) 8 (''std.js'' @ [NUL]) = Some buf' \<and>
     c_str buf' 0 = Some ''libstd.''"
proof -
  have "c_str (''std.js'' @ [NUL]) 0 = Some ''std.js''"
    "c_str (''lib'' @ [NUL, CHR ''x'', CHR ''x'', CHR ''x'', CHR ''x'']) 0 = Some ''lib''" by code_simp+
  with pstrcpy_pstrcat_truncate [of "''std.js'' @ [NUL]" "''std.js''" 8
      "''lib'' @ [NUL, CHR ''x'', CHR ''x'', CHR ''x'', CHR ''x'']"]
  show ?thesis by auto
qed

lemma strstart_loop_spec:
  "NUL \<notin> set v \<Longrightarrow> NUL \<notin> set s \<Longrightarrow>
   strstart_loop (pre @ s @ NUL # r1) (pre @ v @ NUL # r2) (length pre) =
     Some (if prefix v s then Some (length pre + length v) else None)"
proof (induction v arbitrary: pre s)
  case Nil
  then show ?case by (subst strstart_loop.simps) simp
next
  case (Cons c v)
  show ?case
  proof (cases s)
    case Nil
    with Cons.prems show ?thesis by (subst strstart_loop.simps) auto
  next
    case (Cons d s')
    with Cons.IH [of s' "pre @ [c]"] Cons.prems show ?thesis
      by (subst strstart_loop.simps) auto
  qed
qed

lemma memcmp_eq_spec:
  "n \<le> length a \<Longrightarrow> n \<le> length b \<Longrightarrow> memcmp_eq a b n = Some (take n a = take n b)"
proof (induction n arbitrary: a b)
  case (Suc n)
  then show ?case by (cases a; cases b) auto
qed simp

text \<open>
  On null-terminated strings, \<open>strstart\<close> succeeds exactly when the second is a prefix of the
  first, and then points just behind it; \<open>has_suffix\<close> holds exactly when the second is a suffix.
  Neither reads past a terminator.
\<close>

theorem strstart_has_suffix_correct:
  assumes "c_str str 0 = Some s" and "c_str val 0 = Some v"
  shows "strstart str val = Some (if prefix v s then Some (length v) else None) \<and>
    has_suffix str val = Some (suffix v s)"
proof -
  from assms obtain r1 r2 where eqs: "str = s @ NUL # r1" "val = v @ NUL # r2" "NUL \<notin> set s" "NUL \<notin> set v"
    by (auto simp: c_str_0)
  have "has_suffix str val = Some (suffix v s)"
  proof (cases "length v \<le> length s")
    case True
    let ?k = "length s - length v"
    have "take (length v) (drop ?k str) = drop ?k s" using True eqs(1) by simp
    moreover have "suffix v s \<longleftrightarrow> drop ?k s = v"
      using suffix_drop [of ?k s] by (auto simp: suffix_def)
    ultimately show ?thesis
      using True assms eqs(1,2) memcmp_eq_spec [of "length v" "drop ?k str" val] by (simp add: has_suffix_def)
  next
    case False
    then show ?thesis using assms by (auto simp: has_suffix_def dest: suffix_length_le)
  qed
  with strstart_loop_spec [of v s "[]" r1 r2] eqs show ?thesis by (simp add: strstart_def)
qed

text \<open>The witness: \<^verbatim>\<open>file:\<close> and \<^verbatim>\<open>.js\<close> style tests on \<^verbatim>\<open>a.js\<close>.\<close>

theorem strstart_has_suffix_correct_witness:
  "strstart (''a.js'' @ [NUL]) (''.js'' @ [NUL]) = Some None \<and> has_suffix (''a.js'' @ [NUL]) (''.js'' @ [NUL]) = Some True"
proof -
  have "c_str (''a.js'' @ [NUL]) 0 = Some ''a.js''" "c_str (''.js'' @ [NUL]) 0 = Some ''.js''" by code_simp+
  from strstart_has_suffix_correct [OF this] show ?thesis by (simp add: suffix_def)
qed

end
