(* ===== verification/Dyn_Buf.thy ===== *)
theory Dyn_Buf
  imports C_Stdio
begin

text \<open>
  The growing byte buffer \<open>DynBuf\<close> of \<^verbatim>\<open>cutils.c\<close> and \<^verbatim>\<open>cutils.h\<close>.  The storage is the list \<open>dbuf_mem\<close>,
  whose length is \<open>allocated_size\<close> (the null pointer is the empty list); \<open>size_t\<close> has 32 bits, and
  sums and products wrap where the code computes them.  The callback \<open>realloc_func\<close> is a field, as in
  the source; calling it when it is the null pointer is undefined.

  An operation returns \<open>None\<close> for undefined behaviour, otherwise the new buffer and whether it
  returned -1.
\<close>

section \<open>Data\<close>

definition szt :: "nat \<Rightarrow> nat" where
  "szt n = n mod 2 ^ 32"

type_synonym realloc_func = "byte list \<Rightarrow> nat \<Rightarrow> byte list option"

record DynBuf =
  dbuf_mem :: "byte list"
  dbuf_size :: nat
  dbuf_allocated :: nat
  dbuf_error :: bool
  dbuf_realloc_func :: "realloc_func option"

type_synonym dbuf_result = "(DynBuf \<times> bool) option"

text \<open>\<open>libc_realloc\<close> stands for the \<open>realloc\<close> that \<open>dbuf_default_realloc\<close> calls.\<close>

definition dbuf_default_realloc :: "realloc_func \<Rightarrow> realloc_func" where
  "dbuf_default_realloc libc_realloc p n = libc_realloc p n"

definition dbuf_init2 :: "realloc_func \<Rightarrow> realloc_func option \<Rightarrow> DynBuf" where
  "dbuf_init2 libc_realloc realloc_func =
     \<lparr>dbuf_mem = [], dbuf_size = 0, dbuf_allocated = 0, dbuf_error = False,
       dbuf_realloc_func = Some (case realloc_func of None \<Rightarrow> dbuf_default_realloc libc_realloc | Some f \<Rightarrow> f)\<rparr>"

definition dbuf_init :: "realloc_func \<Rightarrow> DynBuf" where
  "dbuf_init libc_realloc = dbuf_init2 libc_realloc None"

section \<open>Copying into a buffer\<close>

text \<open>\<open>memcpy\<close> from another object, and inside one object, where the regions must not overlap.\<close>

definition mem_copy :: "byte list \<Rightarrow> nat \<Rightarrow> byte list \<Rightarrow> nat \<Rightarrow> byte list option" where
  "mem_copy mem dst data len =
     (if dst + len \<le> length mem \<and> len \<le> length data
      then Some (take dst mem @ take len data @ drop (dst + len) mem) else None)"

definition mem_copy_self :: "byte list \<Rightarrow> nat \<Rightarrow> nat \<Rightarrow> nat \<Rightarrow> byte list option" where
  "mem_copy_self mem dst src len =
     (if src + len \<le> length mem \<and> (len = 0 \<or> dst + len \<le> src \<or> src + len \<le> dst)
      then mem_copy mem dst (take len (drop src mem)) len else None)"

section \<open>Operations\<close>

definition dbuf_realloc :: "DynBuf \<Rightarrow> nat \<Rightarrow> dbuf_result" where
  "dbuf_realloc s new_size =
     (if dbuf_allocated s < new_size
      then if dbuf_error s then Some (s, True)
        else let size1 = szt (dbuf_allocated s * 3) div 2;
                 new_size = (if new_size < size1 then size1 else new_size) in do {
          realloc \<leftarrow> dbuf_realloc_func s;
          Some (case realloc (dbuf_mem s) new_size of
             None \<Rightarrow> (s\<lparr>dbuf_error := True\<rparr>, True)
           | Some new_buf \<Rightarrow> (s\<lparr>dbuf_mem := new_buf, dbuf_allocated := new_size\<rparr>, False))
        }
      else Some (s, False))"

definition dbuf_write :: "DynBuf \<Rightarrow> nat \<Rightarrow> byte list \<Rightarrow> nat \<Rightarrow> dbuf_result" where
  "dbuf_write s offset data len =
     (let end' = szt (offset + len) in do {
        (s', err) \<leftarrow> dbuf_realloc s end';
        if err then Some (s', True)
        else do {
          mem \<leftarrow> mem_copy (dbuf_mem s') offset data len;
          let s'' = s'\<lparr>dbuf_mem := mem\<rparr>;
          Some (if dbuf_size s'' < end' then s''\<lparr>dbuf_size := end'\<rparr> else s'', False)
        }
      })"

text \<open>The growth test shared by \<open>dbuf_put\<close> and \<open>dbuf_put_self\<close>.\<close>

definition dbuf_grow :: "DynBuf \<Rightarrow> nat \<Rightarrow> dbuf_result" where
  "dbuf_grow s len =
     (if dbuf_allocated s < szt (dbuf_size s + len) then dbuf_realloc s (szt (dbuf_size s + len)) else Some (s, False))"

definition dbuf_put :: "DynBuf \<Rightarrow> byte list \<Rightarrow> nat \<Rightarrow> dbuf_result" where
  "dbuf_put s data len = do {
     (s', err) \<leftarrow> dbuf_grow s len;
     if err then Some (s', True)
     else do {
       mem \<leftarrow> mem_copy (dbuf_mem s') (dbuf_size s') data len;
       Some (s'\<lparr>dbuf_mem := mem, dbuf_size := szt (dbuf_size s' + len)\<rparr>, False)
     }
   }"

definition dbuf_put_self :: "DynBuf \<Rightarrow> nat \<Rightarrow> nat \<Rightarrow> dbuf_result" where
  "dbuf_put_self s offset len = do {
     (s', err) \<leftarrow> dbuf_grow s len;
     if err then Some (s', True)
     else do {
       mem \<leftarrow> mem_copy_self (dbuf_mem s') (dbuf_size s') offset len;
       Some (s'\<lparr>dbuf_mem := mem, dbuf_size := szt (dbuf_size s' + len)\<rparr>, False)
     }
   }"

definition dbuf_putc :: "DynBuf \<Rightarrow> byte \<Rightarrow> dbuf_result" where
  "dbuf_putc s c = dbuf_put s [c] 1"

definition dbuf_putstr :: "DynBuf \<Rightarrow> string \<Rightarrow> dbuf_result" where
  "dbuf_putstr s str = do {
     t \<leftarrow> c_str str 0;
     dbuf_put s (map of_char str) (length t)
   }"

text \<open>The object representation of an integer of \<open>n\<close> bytes on the little-endian target.\<close>

fun le_bytes :: "nat \<Rightarrow> nat \<Rightarrow> byte list" where
  "le_bytes 0 v = []"
| "le_bytes (Suc n) v = of_nat v # le_bytes n (v div 256)"

definition dbuf_put_u16 :: "DynBuf \<Rightarrow> u16 \<Rightarrow> dbuf_result" where
  "dbuf_put_u16 s v = dbuf_put s (le_bytes 2 (unat v)) 2"

definition dbuf_put_u32 :: "DynBuf \<Rightarrow> u32 \<Rightarrow> dbuf_result" where
  "dbuf_put_u32 s v = dbuf_put s (le_bytes 4 (unat v)) 4"

definition dbuf_put_u64 :: "DynBuf \<Rightarrow> u64 \<Rightarrow> dbuf_result" where
  "dbuf_put_u64 s v = dbuf_put s (le_bytes 8 (unat v)) 8"

text \<open>
  \<open>dbuf_printf\<close>: the argument is the text \<open>vsnprintf\<close> formats.  The long case lets \<open>vsnprintf\<close> write
  into the buffer: as much as fits before a terminating null byte.
\<close>

definition dbuf_printf :: "DynBuf \<Rightarrow> byte list \<Rightarrow> dbuf_result" where
  "dbuf_printf s text =
     (let len = length text in
      if len < 128 then dbuf_put s (text @ [0]) len
      else do {
        (s', err) \<leftarrow> dbuf_realloc s (szt (dbuf_size s + len + 1));
        if err then Some (s', True)
        else do {
          let avail = dbuf_allocated s' - dbuf_size s';
          let out = (if avail = 0 then [] else take (avail - 1) text @ [0]);
          mem \<leftarrow> mem_copy (dbuf_mem s') (dbuf_size s') out (length out);
          Some (s'\<lparr>dbuf_mem := mem, dbuf_size := szt (dbuf_size s' + len)\<rparr>, False)
        }
      })"

text \<open>\<open>memset\<close> clears every field, the callback included.\<close>

definition dbuf_free :: "DynBuf \<Rightarrow> DynBuf option" where
  "dbuf_free s = do {
     _ \<leftarrow> (if dbuf_mem s = [] then Some None else map_option (\<lambda>f. f (dbuf_mem s) 0) (dbuf_realloc_func s));
     Some \<lparr>dbuf_mem = [], dbuf_size = 0, dbuf_allocated = 0, dbuf_error = False, dbuf_realloc_func = None\<rparr>
   }"

definition dbuf_set_error :: "DynBuf \<Rightarrow> DynBuf" where
  "dbuf_set_error s = s\<lparr>dbuf_error := True\<rparr>"

section \<open>The contract\<close>

text \<open>
  An append-only byte sink with a sticky error flag: what every client of \<open>DynBuf\<close> relies on.  An
  append either adds its bytes or sets the flag and changes nothing, and the flag is never cleared.
  A client may therefore append without looking at the results and test the flag once.
\<close>

fun append_all :: "('s \<Rightarrow> byte list \<Rightarrow> ('s \<times> bool) option) \<Rightarrow> 's \<Rightarrow> byte list list \<Rightarrow> 's option" where
  "append_all app s [] = Some s"
| "append_all app s (d # ds) = Option.bind (app s d) (\<lambda>(s', e). append_all app s' ds)"

locale byte_sink =
  fixes ok :: "'s \<Rightarrow> bool"
    and contents :: "'s \<Rightarrow> byte list"
    and failed :: "'s \<Rightarrow> bool"
    and append_to :: "'s \<Rightarrow> byte list \<Rightarrow> ('s \<times> bool) option"
    and room :: nat
  assumes append_defined: "ok s \<Longrightarrow> length (contents s) + length d < room \<Longrightarrow> append_to s d \<noteq> None"
    and append_ok: "ok s \<Longrightarrow> length (contents s) + length d < room \<Longrightarrow> append_to s d = Some (s', e) \<Longrightarrow> ok s'"
    and append_done: "ok s \<Longrightarrow> length (contents s) + length d < room \<Longrightarrow> append_to s d = Some (s', False) \<Longrightarrow>
      contents s' = contents s @ d \<and> failed s' = failed s"
    and append_failed: "ok s \<Longrightarrow> length (contents s) + length d < room \<Longrightarrow> append_to s d = Some (s', True) \<Longrightarrow>
      contents s' = contents s \<and> failed s'"
begin

lemma append_all_sticky:
  "ok s \<Longrightarrow> length (contents s) + length (concat ds) < room \<Longrightarrow>
     \<exists>s'. append_all append_to s ds = Some s' \<and> ok s' \<and> (failed s \<longrightarrow> failed s') \<and>
       (\<not> failed s' \<longrightarrow> contents s' = contents s @ concat ds)"
proof (induction ds arbitrary: s)
  case (Cons d ds)
  then have room: "length (contents s) + length d < room" by simp
  with append_defined [OF Cons.prems(1)] obtain s1 e where s1: "append_to s d = Some (s1, e)" by fastforce
  have ok: "ok s1" using append_ok [OF Cons.prems(1) room s1] .
  show ?case
  proof (cases e)
    case True
    with append_failed [OF Cons.prems(1) room] s1 have c: "contents s1 = contents s" "failed s1" by auto
    from Cons.IH [OF ok] Cons.prems(2) c obtain s' where "append_all append_to s1 ds = Some s'" "ok s'" "failed s'" by auto
    with s1 show ?thesis by auto
  next
    case False
    with append_done [OF Cons.prems(1) room] s1 have c: "contents s1 = contents s @ d" "failed s1 = failed s" by auto
    from Cons.IH [OF ok] Cons.prems(2) c s1 show ?thesis by auto
  qed
qed simp

end

section \<open>The buffer is a byte sink\<close>

text \<open>What a \<open>realloc\<close> callback promises: the new block has the size asked for and keeps the bytes.\<close>

definition realloc_law :: "realloc_func \<Rightarrow> bool" where
  "realloc_law f \<longleftrightarrow> (\<forall>p n p'. f p n = Some p' \<longrightarrow>
     length p' = n \<and> take (min n (length p)) p' = take (min n (length p)) p)"

definition dbuf_ok :: "DynBuf \<Rightarrow> bool" where
  "dbuf_ok s \<longleftrightarrow> dbuf_size s \<le> dbuf_allocated s \<and> dbuf_allocated s = length (dbuf_mem s) \<and>
     dbuf_allocated s < 2 ^ 32 \<and> (\<exists>f. dbuf_realloc_func s = Some f \<and> realloc_law f)"

definition dbuf_contents :: "DynBuf \<Rightarrow> byte list" where
  "dbuf_contents s = take (dbuf_size s) (dbuf_mem s)"

lemma szt_id [simp]: "n < 2 ^ 32 \<Longrightarrow> szt n = n"
  by (simp add: szt_def)

lemma szt_less: "szt n < 2 ^ 32"
  by (simp add: szt_def)

lemma length_dbuf_contents [simp]: "dbuf_ok s \<Longrightarrow> length (dbuf_contents s) = dbuf_size s"
  by (auto simp: dbuf_ok_def dbuf_contents_def)

lemma dbuf_realloc_ok:
  assumes "dbuf_ok s" and "n < 2 ^ 32"
  obtains s' e where "dbuf_realloc s n = Some (s', e)" and "dbuf_ok s'"
    and "dbuf_contents s' = dbuf_contents s" and "dbuf_size s' = dbuf_size s"
    and "e \<longrightarrow> dbuf_error s'" and "\<not> e \<longrightarrow> n \<le> length (dbuf_mem s') \<and> dbuf_error s' = dbuf_error s"
proof (cases "dbuf_allocated s < n")
  case False
  with assms(1) that [of s False] show thesis by (auto simp: dbuf_realloc_def dbuf_ok_def)
next
  case grow: True
  obtain f where f: "dbuf_realloc_func s = Some f" "realloc_law f" using assms(1) by (auto simp: dbuf_ok_def)
  show thesis
  proof (cases "dbuf_error s")
    case True
    with grow assms(1) that [of s True] show thesis by (simp add: dbuf_realloc_def)
  next
    case False
    let ?m = "if n < szt (dbuf_allocated s * 3) div 2 then szt (dbuf_allocated s * 3) div 2 else n"
    have m: "n \<le> ?m" "?m < 2 ^ 32" using assms(2) szt_less [of "dbuf_allocated s * 3"] by auto
    show thesis
    proof (cases "f (dbuf_mem s) ?m")
      case None
      then have "dbuf_realloc s n = Some (s\<lparr>dbuf_error := True\<rparr>, True)"
        using grow False f(1) by (simp add: dbuf_realloc_def Let_def)
      moreover have "dbuf_ok (s\<lparr>dbuf_error := True\<rparr>)" using assms(1) by (simp add: dbuf_ok_def)
      ultimately show thesis using that [of "s\<lparr>dbuf_error := True\<rparr>" True] by (simp add: dbuf_contents_def)
    next
      case (Some p)
      let ?s = "s\<lparr>dbuf_mem := p, dbuf_allocated := ?m\<rparr>"
      have p: "length p = ?m" "take (min ?m (length (dbuf_mem s))) p = take (min ?m (length (dbuf_mem s))) (dbuf_mem s)"
        using f(2) Some unfolding realloc_law_def by blast+
      have le: "dbuf_size s \<le> length (dbuf_mem s)" "length (dbuf_mem s) < ?m"
        using assms(1) grow m(1) by (auto simp: dbuf_ok_def)
      have "take (length (dbuf_mem s)) p = dbuf_mem s" using p(2) le(2) by (simp add: min_absorb2)
      with le(1) have "take (dbuf_size s) p = take (dbuf_size s) (dbuf_mem s)"
        by (metis min.absorb1 take_take)
      then have "dbuf_contents ?s = dbuf_contents s" by (simp add: dbuf_contents_def)
      moreover have "dbuf_ok ?s" using assms(1) p(1) m le by (auto simp: dbuf_ok_def)
      moreover have "dbuf_realloc s n = Some (?s, False)"
        using grow False f Some by (simp add: dbuf_realloc_def Let_def)
      ultimately show thesis using that [of ?s False] p(1) m(1) by simp
    qed
  qed
qed

lemma dbuf_grow_ok:
  assumes "dbuf_ok s" and "dbuf_size s + len < 2 ^ 32"
  obtains s' e where "dbuf_grow s len = Some (s', e)" and "dbuf_ok s'"
    and "dbuf_contents s' = dbuf_contents s" and "dbuf_size s' = dbuf_size s"
    and "e \<longrightarrow> dbuf_error s'" and "\<not> e \<longrightarrow> dbuf_size s + len \<le> length (dbuf_mem s') \<and> dbuf_error s' = dbuf_error s"
proof (cases "dbuf_allocated s < dbuf_size s + len")
  case True
  then have eq: "dbuf_grow s len = dbuf_realloc s (dbuf_size s + len)" using assms(2) by (simp add: dbuf_grow_def)
  show thesis by (rule dbuf_realloc_ok [OF assms], rule that) (simp_all add: eq)
next
  case False
  with assms that [of s False] show thesis by (simp add: dbuf_grow_def dbuf_ok_def)
qed

text \<open>A block copied to the end of the contents.\<close>

lemma append_at_end:
  assumes "dbuf_ok s" and "length d = len" and "dbuf_size s + len \<le> length (dbuf_mem s)" and "dbuf_size s + len < 2 ^ 32"
    and "s' = s\<lparr>dbuf_mem := take (dbuf_size s) (dbuf_mem s) @ d @ drop (dbuf_size s + len) (dbuf_mem s),
      dbuf_size := szt (dbuf_size s + len)\<rparr>"
  shows "dbuf_ok s' \<and> dbuf_contents s' = dbuf_contents s @ d \<and> dbuf_error s' = dbuf_error s"
  using assms by (auto simp: dbuf_ok_def dbuf_contents_def)

lemma dbuf_put_spec:
  assumes "dbuf_ok s" and "dbuf_size s + len < 2 ^ 32" and "len \<le> length d"
  obtains s' e where "dbuf_put s d len = Some (s', e)" and "dbuf_ok s'"
    and "e \<longrightarrow> dbuf_contents s' = dbuf_contents s \<and> dbuf_error s'"
    and "\<not> e \<longrightarrow> dbuf_contents s' = dbuf_contents s @ take len d \<and> dbuf_error s' = dbuf_error s"
proof -
  obtain s1 e where s1: "dbuf_grow s len = Some (s1, e)" "dbuf_ok s1" "dbuf_contents s1 = dbuf_contents s"
    "dbuf_size s1 = dbuf_size s" "e \<longrightarrow> dbuf_error s1"
    "\<not> e \<longrightarrow> dbuf_size s + len \<le> length (dbuf_mem s1) \<and> dbuf_error s1 = dbuf_error s"
    using dbuf_grow_ok [OF assms(1,2)] .
  show thesis
  proof (cases e)
    case True
    with s1 that [of s1 True] show thesis by (simp add: dbuf_put_def)
  next
    case False
    let ?s = "s1\<lparr>dbuf_mem := take (dbuf_size s1) (dbuf_mem s1) @ take len d @ drop (dbuf_size s1 + len) (dbuf_mem s1),
      dbuf_size := szt (dbuf_size s1 + len)\<rparr>"
    have "dbuf_put s d len = Some (?s, False)"
      using s1 False assms(3) by (simp add: dbuf_put_def mem_copy_def)
    moreover have "dbuf_ok ?s \<and> dbuf_contents ?s = dbuf_contents s1 @ take len d \<and> dbuf_error ?s = dbuf_error s1"
      using s1 False assms(2,3) by (intro append_at_end [OF s1(2), where len = len]) auto
    ultimately show thesis using that [of ?s False] s1 False by simp
  qed
qed

interpretation dbuf: byte_sink dbuf_ok dbuf_contents dbuf_error "\<lambda>s d. dbuf_put s d (length d)" "2 ^ 32"
proof
  fix s :: DynBuf and d :: "byte list"
  assume *: "dbuf_ok s" "length (dbuf_contents s) + length d < 2 ^ 32"
  then have room: "dbuf_size s + length d < 2 ^ 32" by simp
  obtain s1 e1 where s1: "dbuf_put s d (length d) = Some (s1, e1)" "dbuf_ok s1"
    "e1 \<longrightarrow> dbuf_contents s1 = dbuf_contents s \<and> dbuf_error s1"
    "\<not> e1 \<longrightarrow> dbuf_contents s1 = dbuf_contents s @ take (length d) d \<and> dbuf_error s1 = dbuf_error s"
    using dbuf_put_spec [OF *(1) room order_refl] .
  then show "dbuf_put s d (length d) \<noteq> None" by simp
  fix s' e
  show "dbuf_put s d (length d) = Some (s', e) \<Longrightarrow> dbuf_ok s'" using s1 by simp
  show "dbuf_put s d (length d) = Some (s', False) \<Longrightarrow>
      dbuf_contents s' = dbuf_contents s @ d \<and> dbuf_error s' = dbuf_error s" using s1 by simp
  show "dbuf_put s d (length d) = Some (s', True) \<Longrightarrow> dbuf_contents s' = dbuf_contents s \<and> dbuf_error s'"
    using s1 by simp
qed

definition dbuf_puts :: "DynBuf \<Rightarrow> byte list list \<Rightarrow> DynBuf option" where
  "dbuf_puts s ds = append_all (\<lambda>s d. dbuf_put s d (length d)) s ds"

text \<open>
  C12.  The error flag is sticky, so a client may append a whole sequence of blocks without looking
  at any result and test the flag once: the sequence runs without undefined behaviour whatever the
  allocator does, and if the flag is clear at the end the contents are the blocks in order.
\<close>

theorem dbuf_error_sticky:
  assumes "dbuf_ok s" and "length (dbuf_contents s) + length (concat ds) < 2 ^ 32"
  shows "\<exists>s'. dbuf_puts s ds = Some s' \<and> dbuf_ok s' \<and> (dbuf_error s \<longrightarrow> dbuf_error s') \<and>
    (\<not> dbuf_error s' \<longrightarrow> dbuf_contents s' = dbuf_contents s @ concat ds)"
  unfolding dbuf_puts_def by (rule dbuf.append_all_sticky [OF assms])

text \<open>The witness: a buffer whose allocator fails beyond eight bytes.\<close>

definition small_realloc :: realloc_func where
  "small_realloc p n = (if n \<le> 8 then Some (take n p @ replicate (n - length p) 0) else None)"

lemma dbuf_ok_init: "realloc_law f \<Longrightarrow> dbuf_ok (dbuf_init f)"
  by (auto simp: dbuf_ok_def dbuf_init_def dbuf_init2_def realloc_law_def dbuf_default_realloc_def)

lemma realloc_law_small: "realloc_law small_realloc"
  by (auto simp: realloc_law_def small_realloc_def min_def)

theorem dbuf_error_sticky_witness:
  "\<exists>s'. dbuf_puts (dbuf_init small_realloc) [[1, 2, 3], [4, 5, 6, 7, 8, 9], [10]] = Some s' \<and> dbuf_ok s' \<and> dbuf_error s'"
proof -
  let ?s = "dbuf_init small_realloc" and ?ds = "[[1, 2, 3], [4, 5, 6, 7, 8, 9], [10]] :: byte list list"
  have "length (dbuf_contents ?s) + length (concat ?ds) < 2 ^ 32"
    by (simp add: dbuf_contents_def dbuf_init_def dbuf_init2_def)
  from dbuf_error_sticky [OF dbuf_ok_init [OF realloc_law_small] this]
  obtain s' where s': "dbuf_puts ?s ?ds = Some s'" "dbuf_ok s'" by auto
  have "map_option dbuf_error (dbuf_puts ?s ?ds) = Some True"
    by (simp add: dbuf_puts_def dbuf_put_def dbuf_grow_def dbuf_realloc_def mem_copy_def dbuf_init_def
        dbuf_init2_def dbuf_default_realloc_def small_realloc_def Let_def)
  with s' show ?thesis by auto
qed

section \<open>All operations\<close>

text \<open>
  A sequence of buffer operations, and its meaning on the byte string the buffer stands for.
\<close>

datatype dbuf_op =
    Put "byte list"
  | Putc byte
  | Putstr string
  | Put_u16 u16
  | Put_u32 u32
  | Put_u64 u64
  | Printf "byte list"
  | Put_self nat nat
  | Write nat "byte list"

fun dbuf_exec :: "dbuf_op \<Rightarrow> DynBuf \<Rightarrow> dbuf_result" where
  "dbuf_exec (Put d) s = dbuf_put s d (length d)"
| "dbuf_exec (Putc c) s = dbuf_putc s c"
| "dbuf_exec (Putstr str) s = dbuf_putstr s (str @ [NUL])"
| "dbuf_exec (Put_u16 v) s = dbuf_put_u16 s v"
| "dbuf_exec (Put_u32 v) s = dbuf_put_u32 s v"
| "dbuf_exec (Put_u64 v) s = dbuf_put_u64 s v"
| "dbuf_exec (Printf t) s = dbuf_printf s t"
| "dbuf_exec (Put_self off len) s = dbuf_put_self s off len"
| "dbuf_exec (Write off d) s = dbuf_write s off d (length d)"

fun op_bytes :: "dbuf_op \<Rightarrow> byte list \<Rightarrow> byte list" where
  "op_bytes (Put d) xs = xs @ d"
| "op_bytes (Putc c) xs = xs @ [c]"
| "op_bytes (Putstr str) xs = xs @ map of_char str"
| "op_bytes (Put_u16 v) xs = xs @ le_bytes 2 (unat v)"
| "op_bytes (Put_u32 v) xs = xs @ le_bytes 4 (unat v)"
| "op_bytes (Put_u64 v) xs = xs @ le_bytes 8 (unat v)"
| "op_bytes (Printf t) xs = xs @ t"
| "op_bytes (Put_self off len) xs = xs @ take len (drop off xs)"
| "op_bytes (Write off d) xs = take off xs @ d @ drop (off + length d) xs"

text \<open>The obligations of the caller: regions inside the contents, and sizes that do not wrap.\<close>

fun op_pre :: "dbuf_op \<Rightarrow> byte list \<Rightarrow> bool" where
  "op_pre (Putstr str) xs \<longleftrightarrow> NUL \<notin> set str \<and> length xs + length str < 2 ^ 32"
| "op_pre (Printf t) xs \<longleftrightarrow> length xs + length t + 1 < 2 ^ 32"
| "op_pre (Put_self off len) xs \<longleftrightarrow> off + len \<le> length xs \<and> length xs + len < 2 ^ 32"
| "op_pre (Write off d) xs \<longleftrightarrow> off \<le> length xs \<and> off + length d < 2 ^ 32"
| "op_pre op xs \<longleftrightarrow> length (op_bytes op xs) < 2 ^ 32"

text \<open>An operation that returned 0 has the meaning \<open>xs\<close>; one that returned -1 left the bytes alone.\<close>

definition dbuf_outcome :: "DynBuf \<Rightarrow> byte list \<Rightarrow> dbuf_result \<Rightarrow> bool" where
  "dbuf_outcome s xs r \<longleftrightarrow> (\<exists>s' e. r = Some (s', e) \<and> dbuf_ok s' \<and>
     (e \<longrightarrow> dbuf_contents s' = dbuf_contents s \<and> dbuf_error s') \<and>
     (\<not> e \<longrightarrow> dbuf_contents s' = xs \<and> dbuf_error s' = dbuf_error s))"

lemma dbuf_outcome_failed:
  "dbuf_ok s' \<Longrightarrow> dbuf_contents s' = dbuf_contents s \<Longrightarrow> dbuf_error s' \<Longrightarrow> dbuf_outcome s xs (Some (s', True))"
  by (auto simp: dbuf_outcome_def)

lemma dbuf_outcome_done:
  "dbuf_ok s' \<Longrightarrow> dbuf_contents s' = xs \<Longrightarrow> dbuf_error s' = dbuf_error s \<Longrightarrow> dbuf_outcome s xs (Some (s', False))"
  by (auto simp: dbuf_outcome_def)

lemma dbuf_put_outcome:
  assumes "dbuf_ok s" and "dbuf_size s + len < 2 ^ 32" and "len \<le> length d"
  shows "dbuf_outcome s (dbuf_contents s @ take len d) (dbuf_put s d len)"
  by (rule dbuf_put_spec [OF assms]) (auto simp: dbuf_outcome_def)

lemma length_le_bytes [simp]: "length (le_bytes n v) = n"
  by (induction n arbitrary: v) simp_all

lemma dbuf_putstr_outcome:
  assumes "dbuf_ok s" and "dbuf_size s + length str < 2 ^ 32" and "NUL \<notin> set str"
  shows "dbuf_outcome s (dbuf_contents s @ map of_char str) (dbuf_putstr s (str @ [NUL]))"
  using dbuf_put_outcome [OF assms(1,2), of "map of_char (str @ [NUL])"] c_str_append [OF assms(3), of "[]"]
  by (simp add: dbuf_putstr_def)

lemma dbuf_put_self_outcome:
  assumes "dbuf_ok s" and "dbuf_size s + len < 2 ^ 32" and "off + len \<le> dbuf_size s"
  shows "dbuf_outcome s (dbuf_contents s @ take len (drop off (dbuf_contents s))) (dbuf_put_self s off len)"
proof -
  obtain s1 e where s1: "dbuf_grow s len = Some (s1, e)" "dbuf_ok s1" "dbuf_contents s1 = dbuf_contents s"
    "dbuf_size s1 = dbuf_size s" "e \<longrightarrow> dbuf_error s1"
    "\<not> e \<longrightarrow> dbuf_size s + len \<le> length (dbuf_mem s1) \<and> dbuf_error s1 = dbuf_error s"
    using dbuf_grow_ok [OF assms(1,2)] .
  show ?thesis
  proof (cases e)
    case True
    with s1 show ?thesis by (simp add: dbuf_put_self_def dbuf_outcome_failed)
  next
    case False
    let ?d = "take len (drop off (dbuf_mem s1))"
    let ?s = "s1\<lparr>dbuf_mem := take (dbuf_size s1) (dbuf_mem s1) @ ?d @ drop (dbuf_size s1 + len) (dbuf_mem s1),
      dbuf_size := szt (dbuf_size s1 + len)\<rparr>"
    have len: "length ?d = len" using False s1 assms(3) by auto
    have "dbuf_put_self s off len = Some (?s, False)"
      using s1 False assms(3) len by (simp add: dbuf_put_self_def mem_copy_self_def mem_copy_def)
    moreover have "dbuf_ok ?s \<and> dbuf_contents ?s = dbuf_contents s1 @ ?d \<and> dbuf_error ?s = dbuf_error s1"
      using s1 False assms(2) by (intro append_at_end [OF s1(2) len]) auto
    moreover have "take len (drop off (dbuf_contents s1)) = ?d"
      using assms(3) s1(4) by (auto simp: dbuf_contents_def drop_take min_def)
    ultimately show ?thesis using s1 False by (simp add: dbuf_outcome_done)
  qed
qed

lemma dbuf_printf_outcome:
  assumes "dbuf_ok s" and "dbuf_size s + length t + 1 < 2 ^ 32"
  shows "dbuf_outcome s (dbuf_contents s @ t) (dbuf_printf s t)"
proof (cases "length t < 128")
  case True
  with dbuf_put_outcome [OF assms(1), of "length t" "t @ [0]"] assms(2) show ?thesis
    by (simp add: dbuf_printf_def)
next
  case False
  obtain s1 e where s1: "dbuf_realloc s (dbuf_size s + length t + 1) = Some (s1, e)" "dbuf_ok s1"
    "dbuf_contents s1 = dbuf_contents s" "dbuf_size s1 = dbuf_size s" "e \<longrightarrow> dbuf_error s1"
    "\<not> e \<longrightarrow> dbuf_size s + length t + 1 \<le> length (dbuf_mem s1) \<and> dbuf_error s1 = dbuf_error s"
    using dbuf_realloc_ok [OF assms] .
  show ?thesis
  proof (cases e)
    case True
    with False s1 assms(2) show ?thesis by (simp add: dbuf_printf_def dbuf_outcome_failed)
  next
    case ne: False
    let ?mem = "take (dbuf_size s1) (dbuf_mem s1) @ t @ 0 # drop (dbuf_size s1 + length t + 1) (dbuf_mem s1)"
    let ?s = "s1\<lparr>dbuf_mem := ?mem, dbuf_size := dbuf_size s1 + length t\<rparr>"
    have al: "dbuf_allocated s1 = length (dbuf_mem s1)" using s1(2) by (simp add: dbuf_ok_def)
    have "take (dbuf_allocated s1 - dbuf_size s1 - 1) t = t" "dbuf_allocated s1 - dbuf_size s1 \<noteq> 0"
      using s1 ne al by auto
    then have "dbuf_printf s t = Some (?s, False)"
      using False s1 ne assms(2) by (simp add: dbuf_printf_def mem_copy_def Let_def)
    moreover have "dbuf_ok ?s" "dbuf_contents ?s = dbuf_contents s1 @ t"
      using s1(2,4,6) ne assms(2) by (auto simp: dbuf_ok_def dbuf_contents_def)
    ultimately show ?thesis using s1 ne by (simp add: dbuf_outcome_done)
  qed
qed

lemma dbuf_write_outcome:
  assumes "dbuf_ok s" and "off + length d < 2 ^ 32" and "off \<le> dbuf_size s"
  shows "dbuf_outcome s (take off (dbuf_contents s) @ d @ drop (off + length d) (dbuf_contents s)) (dbuf_write s off d (length d))"
proof -
  obtain s1 e where s1: "dbuf_realloc s (off + length d) = Some (s1, e)" "dbuf_ok s1"
    "dbuf_contents s1 = dbuf_contents s" "dbuf_size s1 = dbuf_size s" "e \<longrightarrow> dbuf_error s1"
    "\<not> e \<longrightarrow> off + length d \<le> length (dbuf_mem s1) \<and> dbuf_error s1 = dbuf_error s"
    using dbuf_realloc_ok [OF assms(1,2)] .
  show ?thesis
  proof (cases e)
    case True
    with s1 assms(2) show ?thesis by (simp add: dbuf_write_def dbuf_outcome_failed)
  next
    case False
    let ?mem = "take off (dbuf_mem s1) @ d @ drop (off + length d) (dbuf_mem s1)"
    let ?s = "s1\<lparr>dbuf_mem := ?mem, dbuf_size := max (dbuf_size s1) (off + length d)\<rparr>"
    have "dbuf_write s off d (length d) = Some (?s, False)"
      using s1 False assms(2) by (auto simp: dbuf_write_def mem_copy_def Let_def max_def)
    moreover have "dbuf_ok ?s" using s1 False assms(3) by (auto simp: dbuf_ok_def)
    moreover have "dbuf_contents ?s = take off (dbuf_contents s1) @ d @ drop (off + length d) (dbuf_contents s1)"
      using s1(2,4,6) False assms(3) unfolding dbuf_contents_def dbuf_ok_def by (auto simp: max_def drop_take)
    ultimately show ?thesis using s1 False by (simp add: dbuf_outcome_done)
  qed
qed

text \<open>
  C11.  Every operation of the buffer implements its meaning on byte strings.  On a well-formed
  buffer, with arguments inside the contents and a result below 4 GiB, no operation runs into
  undefined behaviour; if it returns 0 the contents are exactly what the operation means, and if
  it returns -1 (the callback found no memory, now or earlier) the contents are unchanged and the
  error flag is set.  The invariant is kept either way.
\<close>

theorem dbuf_exec_refines:
  assumes "dbuf_ok s" and "op_pre op (dbuf_contents s)"
  shows "\<exists>s' e. dbuf_exec op s = Some (s', e) \<and> dbuf_ok s' \<and>
    (e \<longrightarrow> dbuf_contents s' = dbuf_contents s \<and> dbuf_error s') \<and>
    (\<not> e \<longrightarrow> dbuf_contents s' = op_bytes op (dbuf_contents s) \<and> dbuf_error s' = dbuf_error s)"
  unfolding dbuf_outcome_def [symmetric]
proof (cases op)
  case (Put d)
  then show "dbuf_outcome s (op_bytes op (dbuf_contents s)) (dbuf_exec op s)"
    using assms dbuf_put_outcome [of s "length d" d] by simp
next
  case (Putc c)
  then show "dbuf_outcome s (op_bytes op (dbuf_contents s)) (dbuf_exec op s)"
    using assms dbuf_put_outcome [of s 1 "[c]"] by (simp add: dbuf_putc_def)
next
  case (Putstr str)
  then show "dbuf_outcome s (op_bytes op (dbuf_contents s)) (dbuf_exec op s)"
    using assms dbuf_putstr_outcome [of s str] by simp
next
  case (Put_u16 v)
  then show "dbuf_outcome s (op_bytes op (dbuf_contents s)) (dbuf_exec op s)"
    using assms dbuf_put_outcome [of s 2 "le_bytes 2 (unat v)"] by (simp add: dbuf_put_u16_def del: le_bytes.simps)
next
  case (Put_u32 v)
  then show "dbuf_outcome s (op_bytes op (dbuf_contents s)) (dbuf_exec op s)"
    using assms dbuf_put_outcome [of s 4 "le_bytes 4 (unat v)"] by (simp add: dbuf_put_u32_def del: le_bytes.simps)
next
  case (Put_u64 v)
  then show "dbuf_outcome s (op_bytes op (dbuf_contents s)) (dbuf_exec op s)"
    using assms dbuf_put_outcome [of s 8 "le_bytes 8 (unat v)"] by (simp add: dbuf_put_u64_def del: le_bytes.simps)
next
  case (Printf t)
  then show "dbuf_outcome s (op_bytes op (dbuf_contents s)) (dbuf_exec op s)"
    using assms dbuf_printf_outcome [of s t] by simp
next
  case (Put_self off len)
  then show "dbuf_outcome s (op_bytes op (dbuf_contents s)) (dbuf_exec op s)"
    using assms dbuf_put_self_outcome [of s len off] by simp
next
  case (Write off d)
  then show "dbuf_outcome s (op_bytes op (dbuf_contents s)) (dbuf_exec op s)"
    using assms dbuf_write_outcome [of s off d] by simp
qed

text \<open>The witness: a block copied from the buffer itself.\<close>

theorem dbuf_exec_refines_witness:
  "\<exists>s s' e. dbuf_contents s = [1, 2, 3] \<and> dbuf_exec (Put_self 1 2) s = Some (s', e) \<and> \<not> e \<and>
     dbuf_contents s' = [1, 2, 3, 2, 3]"
proof -
  let ?s = "\<lparr>dbuf_mem = [1, 2, 3], dbuf_size = 3, dbuf_allocated = 3, dbuf_error = False,
    dbuf_realloc_func = Some small_realloc\<rparr>"
  have "dbuf_ok ?s" "op_pre (Put_self 1 2) (dbuf_contents ?s)"
    using realloc_law_small by (simp_all add: dbuf_ok_def dbuf_contents_def)
  from dbuf_exec_refines [OF this] obtain s' e where s': "dbuf_exec (Put_self 1 2) ?s = Some (s', e)"
    "\<not> e \<longrightarrow> dbuf_contents s' = op_bytes (Put_self 1 2) (dbuf_contents ?s)" by auto
  moreover have "map_option snd (dbuf_exec (Put_self 1 2) ?s) = Some False"
    by (simp add: dbuf_put_self_def dbuf_grow_def dbuf_realloc_def mem_copy_self_def mem_copy_def small_realloc_def)
  ultimately show ?thesis
    by (intro exI [of _ ?s] exI [of _ s'] exI [of _ e]) (simp add: dbuf_contents_def)
qed

end
