(* ===== verification/Cutils_Num.thy ===== *)
theory Cutils_Num
  imports Dyn_Buf
begin

unbundle bit_operations_syntax

text \<open>
  The inline helpers of \<^verbatim>\<open>cutils.h\<close>: minimum and maximum, leading and trailing zero counts,
  unaligned loads and stores of integers, byte swaps and hexadecimal digits.
\<close>

section \<open>Minimum and maximum\<close>

definition max_int :: "int \<Rightarrow> int \<Rightarrow> int" where "max_int a b = (if a > b then a else b)"
definition min_int :: "int \<Rightarrow> int \<Rightarrow> int" where "min_int a b = (if a < b then a else b)"
definition max_uint32 :: "u32 \<Rightarrow> u32 \<Rightarrow> u32" where "max_uint32 a b = (if a > b then a else b)"
definition min_uint32 :: "u32 \<Rightarrow> u32 \<Rightarrow> u32" where "min_uint32 a b = (if a < b then a else b)"
definition max_int64 :: "int \<Rightarrow> int \<Rightarrow> int" where "max_int64 a b = (if a > b then a else b)"
definition min_int64 :: "int \<Rightarrow> int \<Rightarrow> int" where "min_int64 a b = (if a < b then a else b)"

lemma min_max_eq [simp]:
  "max_int a b = max a b" "min_int a b = min a b" "max_int64 a b = max a b" "min_int64 a b = min a b"
  "max_uint32 x y = max x y" "min_uint32 x y = min x y"
  by (auto simp: max_int_def min_int_def max_int64_def min_int64_def max_uint32_def min_uint32_def max_def min_def)

section \<open>Zero counts\<close>

text \<open>\<open>__builtin_clz\<close> and \<open>__builtin_ctz\<close>: undefined for zero.\<close>

definition builtin_clz :: "'a::len word \<Rightarrow> nat option" where
  "builtin_clz a = (if a = 0 then None else Some (length (takeWhile (\<lambda>i. \<not> bit a i) (rev [0..<LENGTH('a)]))))"

definition builtin_ctz :: "'a::len word \<Rightarrow> nat option" where
  "builtin_ctz a = (if a = 0 then None else Some (length (takeWhile (\<lambda>i. \<not> bit a i) [0..<LENGTH('a)])))"

definition clz32 :: "u32 \<Rightarrow> nat option" where "clz32 a = builtin_clz a"
definition clz64 :: "u64 \<Rightarrow> nat option" where "clz64 a = builtin_clz a"
definition ctz32 :: "u32 \<Rightarrow> nat option" where "ctz32 a = builtin_ctz a"
definition ctz64 :: "u64 \<Rightarrow> nat option" where "ctz64 a = builtin_ctz a"

section \<open>Unaligned loads and stores\<close>

text \<open>A load of \<open>n\<close> bytes at \<open>i\<close>, least significant byte first.\<close>

fun le_val :: "byte list \<Rightarrow> nat" where
  "le_val [] = 0"
| "le_val (b # bs) = unat b + 256 * le_val bs"

definition load :: "byte list \<Rightarrow> nat \<Rightarrow> nat \<Rightarrow> nat option" where
  "load mem i n = (if i + n \<le> length mem then Some (le_val (take n (drop i mem))) else None)"

definition store :: "byte list \<Rightarrow> nat \<Rightarrow> nat \<Rightarrow> nat \<Rightarrow> byte list option" where
  "store mem i n v = (if i + n \<le> length mem then Some (take i mem @ le_bytes n v @ drop (i + n) mem) else None)"

definition get_u64 :: "byte list \<Rightarrow> nat \<Rightarrow> u64 option" where "get_u64 mem i = map_option of_nat (load mem i 8)"
definition get_i64 :: "byte list \<Rightarrow> nat \<Rightarrow> int option" where "get_i64 mem i = map_option sint (get_u64 mem i)"
definition put_u64 :: "byte list \<Rightarrow> nat \<Rightarrow> u64 \<Rightarrow> byte list option" where "put_u64 mem i v = store mem i 8 (unat v)"
definition get_u32 :: "byte list \<Rightarrow> nat \<Rightarrow> u32 option" where "get_u32 mem i = map_option of_nat (load mem i 4)"
definition get_i32 :: "byte list \<Rightarrow> nat \<Rightarrow> int option" where "get_i32 mem i = map_option sint (get_u32 mem i)"
definition put_u32 :: "byte list \<Rightarrow> nat \<Rightarrow> u32 \<Rightarrow> byte list option" where "put_u32 mem i v = store mem i 4 (unat v)"
definition get_u16 :: "byte list \<Rightarrow> nat \<Rightarrow> u32 option" where "get_u16 mem i = map_option of_nat (load mem i 2)"
definition get_i16 :: "byte list \<Rightarrow> nat \<Rightarrow> int option" where
  "get_i16 mem i = map_option (\<lambda>v. sint (of_nat v :: u16)) (load mem i 2)"
definition put_u16 :: "byte list \<Rightarrow> nat \<Rightarrow> u16 \<Rightarrow> byte list option" where "put_u16 mem i v = store mem i 2 (unat v)"
definition get_u8 :: "byte list \<Rightarrow> nat \<Rightarrow> u32 option" where "get_u8 mem i = map_option ucast (rd mem i)"
definition get_i8 :: "byte list \<Rightarrow> nat \<Rightarrow> int option" where "get_i8 mem i = map_option sint (rd mem i)"
definition put_u8 :: "byte list \<Rightarrow> nat \<Rightarrow> byte \<Rightarrow> byte list option" where "put_u8 mem i v = wr mem i v"

section \<open>Byte swaps\<close>

definition bswap16 :: "u16 \<Rightarrow> u16" where
  "bswap16 x = (drop_bit 8 x) OR (push_bit 8 x)"

definition bswap32 :: "u32 \<Rightarrow> u32" where
  "bswap32 v = drop_bit 24 (v AND 0xff000000) OR drop_bit 8 (v AND 0x00ff0000) OR
     push_bit 8 (v AND 0x0000ff00) OR push_bit 24 (v AND 0x000000ff)"

definition bswap64 :: "u64 \<Rightarrow> u64" where
  "bswap64 v =
     drop_bit (7 * 8) (v AND push_bit (7 * 8) 0xff) OR drop_bit (5 * 8) (v AND push_bit (6 * 8) 0xff) OR
     drop_bit (3 * 8) (v AND push_bit (5 * 8) 0xff) OR drop_bit (1 * 8) (v AND push_bit (4 * 8) 0xff) OR
     push_bit (1 * 8) (v AND push_bit (3 * 8) 0xff) OR push_bit (3 * 8) (v AND push_bit (2 * 8) 0xff) OR
     push_bit (5 * 8) (v AND push_bit (1 * 8) 0xff) OR push_bit (7 * 8) (v AND push_bit (0 * 8) 0xff)"

section \<open>Hexadecimal digits\<close>

definition from_hex :: "int \<Rightarrow> int" where
  "from_hex c =
     (if 48 \<le> c \<and> c \<le> 57 then c - 48
      else if 65 \<le> c \<and> c \<le> 70 then c - 65 + 10
      else if 97 \<le> c \<and> c \<le> 102 then c - 97 + 10
      else -1)"

section \<open>Loads read what stores wrote\<close>

lemma le_val_le_bytes: "le_val (le_bytes n v) = v mod 256 ^ n"
proof (induction n arbitrary: v)
  case (Suc n)
  have "v mod 256 ^ Suc n = v mod 256 + 256 * (v div 256 mod 256 ^ n)"
    by (metis mod_mult2_eq power_Suc add.commute)
  with Suc show ?case by (simp add: unsigned_of_nat take_bit_eq_mod)
qed simp

lemma load_store_same: "store mem i n v = Some mem' \<Longrightarrow> load mem' i n = Some (v mod 256 ^ n)"
  by (auto simp: store_def load_def le_val_le_bytes split: if_splits)

lemma bit_bswap16: "n < 16 \<Longrightarrow> bit (bswap16 v) n = bit v (8 * (1 - n div 8) + n mod 8)"
proof -
  have hi: "\<not> bit v n" if "16 \<le> n" for n using that bit_imp_le_length [of v n] by auto
  have "\<forall>n \<in> set [0..<16]. bit (bswap16 v) n = bit v (8 * (1 - n div 8) + n mod 8)"
    using hi by (simp add: upt_rec bswap16_def bit_simps) (simp add: numeral_eq_Suc)
  then show "n < 16 \<Longrightarrow> bit (bswap16 v) n = bit v (8 * (1 - n div 8) + n mod 8)" by simp
qed

lemma bit_bswap32: "n < 32 \<Longrightarrow> bit (bswap32 v) n = bit v (8 * (3 - n div 8) + n mod 8)"
proof -
  have "\<forall>n \<in> set [0..<32]. bit (bswap32 v) n = bit v (8 * (3 - n div 8) + n mod 8)"
    by (simp add: upt_rec bswap32_def bit_simps) (simp add: numeral_eq_Suc)
  then show "n < 32 \<Longrightarrow> bit (bswap32 v) n = bit v (8 * (3 - n div 8) + n mod 8)" by simp
qed

lemma bit_bswap64: "n < 64 \<Longrightarrow> bit (bswap64 v) n = bit v (8 * (7 - n div 8) + n mod 8)"
proof -
  have "\<forall>n \<in> set [0..<64]. bit (bswap64 v) n = bit v (8 * (7 - n div 8) + n mod 8)"
    by (simp add: upt_rec bswap64_def bit_simps) (simp add: numeral_eq_Suc)
  then show "n < 64 \<Longrightarrow> bit (bswap64 v) n = bit v (8 * (7 - n div 8) + n mod 8)" by simp
qed

lemma swap_index: "n < 8 * m \<Longrightarrow> 8 * (m - 1 - (8 * (m - 1 - n div 8) + n mod 8) div 8) + (8 * (m - 1 - n div 8) + n mod 8) mod 8 = n"
  for n m :: nat
proof -
  assume "n < 8 * m"
  then have "n div 8 < m" by auto
  then have "m - 1 - (m - 1 - n div 8) = n div 8" by simp
  then show ?thesis by simp
qed

text \<open>
  The byte swaps are involutions: they reverse the bytes of their argument, so swapping twice
  gives the argument back.
\<close>

theorem bswap_involutive:
  "bswap16 (bswap16 x) = x \<and> bswap32 (bswap32 y) = y \<and> bswap64 (bswap64 z) = z"
proof (intro conjI)
  show "bswap16 (bswap16 x) = x"
    using swap_index [of _ 2] by (intro bit_word_eqI) (simp add: bit_bswap16)
  show "bswap32 (bswap32 y) = y"
    using swap_index [of _ 4] by (intro bit_word_eqI) (simp add: bit_bswap32)
  show "bswap64 (bswap64 z) = z"
    using swap_index [of _ 8] by (intro bit_word_eqI) (simp add: bit_bswap64)
qed

text \<open>
  C15.  Unaligned stores and loads agree: a store succeeds exactly where the field fits the block,
  reading back at its address gives the value stored, signed or not, and the bytes outside the field are untouched.
\<close>

theorem put_get_same:
  "(put_u64 mem i v64 = Some m1 \<longrightarrow> get_u64 m1 i = Some v64 \<and> get_i64 m1 i = Some (sint v64) \<and>
      take i m1 = take i mem \<and> drop (i + 8) m1 = drop (i + 8) mem) \<and>
   (put_u32 mem i v32 = Some m2 \<longrightarrow> get_u32 m2 i = Some v32 \<and> get_i32 m2 i = Some (sint v32) \<and>
      take i m2 = take i mem \<and> drop (i + 4) m2 = drop (i + 4) mem) \<and>
   (put_u16 mem i v16 = Some m3 \<longrightarrow> get_u16 m3 i = Some (ucast v16) \<and> get_i16 m3 i = Some (sint v16) \<and>
      take i m3 = take i mem \<and> drop (i + 2) m3 = drop (i + 2) mem) \<and>
   (put_u64 mem i v64 = None \<longleftrightarrow> length mem < i + 8) \<and>
   (put_u32 mem i v32 = None \<longleftrightarrow> length mem < i + 4) \<and>
   (put_u16 mem i v16 = None \<longleftrightarrow> length mem < i + 2)"
proof -
  have fits: "store mem i n v = None \<longleftrightarrow> length mem < i + n" for n v by (auto simp: store_def)
  have keep: "take i m = take i mem \<and> drop (i + n) m = drop (i + n) mem" if "store mem i n v = Some m" for m n v
    using that by (auto simp: store_def split: if_splits)
  have "unat v64 < 2 ^ 64" "unat v32 < 2 ^ 32" "unat v16 < 2 ^ 16"
    by (rule order.strict_trans2 [OF unsigned_less], simp)+
  then have b64: "unat v64 mod 256 ^ 8 = unat v64" and b32: "unat v32 mod 256 ^ 4 = unat v32"
    and b16: "unat v16 mod 256 ^ 2 = unat v16"
    by simp_all
  show ?thesis
    using keep [of 2 "unat v16" m3] keep load_store_same b64 b32 b16
    by (auto simp: put_u64_def get_u64_def get_i64_def put_u32_def get_u32_def get_i32_def put_u16_def
        get_u16_def get_i16_def fits)
qed

text \<open>The witness: a 32 bit field of a six byte block.\<close>

theorem put_get_same_witness:
  "put_u32 [1, 2, 3, 4, 5, 6] 1 258 = Some [1, 2, 1, 0, 0, 6] \<and>
   get_u32 [1, 2, 1, 0, 0, 6] 1 = Some 258"
proof -
  have "put_u32 [1, 2, 3, 4, 5, 6] 1 258 = Some [1, 2, 1, 0, 0, 6]" by code_simp
  with put_get_same [of "[1, 2, 3, 4, 5, 6]" 1 0 "[]" 258 "[1, 2, 1, 0, 0, 6]" 0 "[]"]
  show ?thesis by blast
qed

section \<open>Zero counts find the outermost set bit\<close>

lemma takeWhile_stop:
  assumes "\<exists>x \<in> set xs. \<not> P x" and "n = length (takeWhile P xs)"
  shows "n < length xs \<and> \<not> P (xs ! n) \<and> (\<forall>i < n. P (xs ! i))"
proof -
  have "n < length xs" using assms by (metis length_takeWhile_le nat_less_le takeWhile_eq_all_conv takeWhile_eq_take take_all)
  then show ?thesis using assms(2) by (metis nth_length_takeWhile nth_mem set_takeWhileD takeWhile_nth)
qed

lemma exists_bit: "a \<noteq> 0 \<Longrightarrow> \<exists>i < LENGTH('a). bit a i" for a :: "'a::len word"
  by (metis bit_0_eq bit_word_eqI bot_apply bot_bool_def)

lemma builtin_clz_spec:
  fixes a :: "'a::len word"
  assumes "builtin_clz a = Some k"
  shows "k < LENGTH('a) \<and> bit a (LENGTH('a) - 1 - k) \<and> (\<forall>i. LENGTH('a) - 1 - k < i \<longrightarrow> \<not> bit a i)"
proof -
  let ?xs = "rev [0..<LENGTH('a)]"
  from assms have a: "a \<noteq> 0" and k: "k = length (takeWhile (\<lambda>i. \<not> bit a i) ?xs)"
    by (auto simp: builtin_clz_def split: if_splits)
  have "\<exists>x \<in> set ?xs. \<not> \<not> bit a x" using exists_bit [OF a] by auto
  from takeWhile_stop [OF this k] have *: "k < LENGTH('a)" "bit a (?xs ! k)" "\<forall>i < k. \<not> bit a (?xs ! i)" by auto
  have nth: "?xs ! i = LENGTH('a) - 1 - i" if "i < LENGTH('a)" for i using that by (simp add: rev_nth)
  have "\<not> bit a i" if i: "LENGTH('a) - 1 - k < i" for i
  proof (cases "i < LENGTH('a)")
    case True
    let ?j = "LENGTH('a) - 1 - i"
    from i True have "?j < k" "?j < LENGTH('a)" "LENGTH('a) - 1 - ?j = i" by auto
    with *(3) nth show ?thesis by metis
  next
    case False
    then show ?thesis using bit_imp_le_length [of a i] by auto
  qed
  with * nth show ?thesis by simp
qed

lemma builtin_ctz_spec:
  fixes a :: "'a::len word"
  assumes "builtin_ctz a = Some k"
  shows "k < LENGTH('a) \<and> bit a k \<and> (\<forall>i < k. \<not> bit a i)"
proof -
  from assms have a: "a \<noteq> 0" and k: "k = length (takeWhile (\<lambda>i. \<not> bit a i) [0..<LENGTH('a)])"
    by (auto simp: builtin_ctz_def split: if_splits)
  have "\<exists>x \<in> set [0..<LENGTH('a)]. \<not> \<not> bit a x" using exists_bit [OF a] by auto
  from takeWhile_stop [OF this k] show ?thesis by auto
qed

text \<open>
  The zero counts are defined exactly on nonzero arguments; the leading count locates the
  highest set bit and the trailing count the lowest one.
\<close>

theorem zero_counts_correct:
  "(clz32 a = None \<longleftrightarrow> a = 0) \<and> (ctz64 b = None \<longleftrightarrow> b = 0) \<and>
   (clz32 a = Some k \<longrightarrow> k < 32 \<and> bit a (31 - k) \<and> (\<forall>i. 31 - k < i \<longrightarrow> \<not> bit a i)) \<and>
   (ctz64 b = Some m \<longrightarrow> m < 64 \<and> bit b m \<and> (\<forall>i < m. \<not> bit b i))"
  using builtin_clz_spec [of a k] builtin_ctz_spec [of b m]
  by (auto simp: clz32_def ctz64_def builtin_clz_def builtin_ctz_def)

text \<open>The witness: the counts of 40.\<close>

theorem zero_counts_correct_witness: "clz32 40 = Some 26 \<and> bit (40 :: u32) 5 \<and> ctz64 40 = Some 3 \<and> bit (40 :: u64) 3"
proof -
  have "clz32 40 = Some 26" "ctz64 40 = Some 3" by code_simp+
  with zero_counts_correct [of 40 40 26 3] show ?thesis by simp
qed

end
