(* ===== verification/Utf8.thy ===== *)
theory Utf8
  imports Wgi_Prelude
begin

unbundle bit_operations_syntax

text \<open>
  UTF-8 encoding and decoding, \<open>unicode_to_utf8\<close> and \<open>unicode_from_utf8\<close> of \<^verbatim>\<open>cutils.c\<close>, in the
  original range of 31 bits and up to six bytes.
\<close>

section \<open>Encoding\<close>

text \<open>The bytes written; their number is the return value.\<close>

definition utf8_tail :: "nat \<Rightarrow> u32 \<Rightarrow> byte" where
  "utf8_tail s c = ucast ((drop_bit s c AND 0x3f) OR 0x80)"

definition unicode_to_utf8 :: "u32 \<Rightarrow> byte list" where
  "unicode_to_utf8 c =
     (if c < 0x80 then [ucast c]
      else if c < 0x800 then [ucast (drop_bit 6 c OR 0xc0), utf8_tail 0 c]
      else if c < 0x10000 then [ucast (drop_bit 12 c OR 0xe0), utf8_tail 6 c, utf8_tail 0 c]
      else if c < 0x00200000 then [ucast (drop_bit 18 c OR 0xf0), utf8_tail 12 c, utf8_tail 6 c, utf8_tail 0 c]
      else if c < 0x04000000 then
        [ucast (drop_bit 24 c OR 0xf8), utf8_tail 18 c, utf8_tail 12 c, utf8_tail 6 c, utf8_tail 0 c]
      else if c < 0x80000000 then
        [ucast (drop_bit 30 c OR 0xfc), utf8_tail 24 c, utf8_tail 18 c, utf8_tail 12 c, utf8_tail 6 c, utf8_tail 0 c]
      else [])"

section \<open>Decoding\<close>

definition utf8_min_code :: "u32 list" where
  "utf8_min_code = [0x80, 0x800, 0x10000, 0x00200000, 0x04000000]"

definition utf8_first_code_mask :: "u32 list" where
  "utf8_first_code_mask = [0x1f, 0xf, 0x7, 0x3, 0x1]"

text \<open>The \<open>switch\<close> on the first byte: the number of bytes that follow.\<close>

definition utf8_len :: "byte \<Rightarrow> nat option" where
  "utf8_len c =
     (if 0xc0 \<le> c \<and> c \<le> 0xdf then Some 1
      else if 0xe0 \<le> c \<and> c \<le> 0xef then Some 2
      else if 0xf0 \<le> c \<and> c \<le> 0xf7 then Some 3
      else if 0xf8 \<le> c \<and> c \<le> 0xfb then Some 4
      else if 0xfc \<le> c \<and> c \<le> 0xfd then Some 5
      else None)"

text \<open>The loop over the \<open>l\<close> following bytes, from position \<open>i\<close> on.\<close>

fun utf8_loop :: "byte list \<Rightarrow> nat \<Rightarrow> nat \<Rightarrow> u32 \<Rightarrow> u32 option option" where
  "utf8_loop p i 0 c = Some (Some c)"
| "utf8_loop p i (Suc l) c = do {
     b \<leftarrow> rd p i;
     if b < 0x80 \<or> 0xc0 \<le> b then Some None
     else utf8_loop p (Suc i) l (push_bit 6 c OR (ucast b AND 0x3f))
   }"

text \<open>\<open>Some (Some (c, n))\<close>: the code point and how far \<open>*pp\<close> was moved; \<open>Some None\<close>: the result -1.\<close>

definition unicode_from_utf8 :: "byte list \<Rightarrow> int \<Rightarrow> (u32 \<times> nat) option option" where
  "unicode_from_utf8 p max_len = do {
     c \<leftarrow> rd p 0;
     if c < 0x80 then Some (Some (ucast c, 1))
     else case utf8_len c of
       None \<Rightarrow> Some None
     | Some l \<Rightarrow>
       (if max_len - 1 < int l then Some None
        else do {
          r \<leftarrow> utf8_loop p 1 l (ucast c AND utf8_first_code_mask ! (l - 1));
          case r of
            None \<Rightarrow> Some None
          | Some c \<Rightarrow> if c < utf8_min_code ! (l - 1) then Some None else Some (Some (c, l + 1))
        })
   }"

section \<open>The classes of bytes by their leading bits\<close>

lemma drop_bit_byte: "drop_bit k b = w \<longleftrightarrow> unat b div 2 ^ k = unat w" for b w :: byte
  by (simp only: word_unat_eq_iff unat_drop_bit_eq) (simp only: drop_bit_eq_div)

lemma div_range: "0 < k \<Longrightarrow> n div k = q \<longleftrightarrow> k * q \<le> n \<and> n < k * Suc q" for n k q :: nat
  by (metis div_nat_eqI dividend_less_times_div mult.commute mult_Suc_right times_div_less_eq_dividend)

lemma utf8_len_ranges:
  "(0xc0 \<le> b \<and> b \<le> 0xdf) \<longleftrightarrow> drop_bit 5 b = 6" "(0xe0 \<le> b \<and> b \<le> 0xef) \<longleftrightarrow> drop_bit 4 b = 14"
  "(0xf0 \<le> b \<and> b \<le> 0xf7) \<longleftrightarrow> drop_bit 3 b = 30" "(0xf8 \<le> b \<and> b \<le> 0xfb) \<longleftrightarrow> drop_bit 2 b = 62"
  "(0xfc \<le> b \<and> b \<le> 0xfd) \<longleftrightarrow> drop_bit 1 b = 126" for b :: byte
  by (auto simp: drop_bit_byte div_range word_le_nat_alt)

lemma utf8_len_bits:
  "utf8_len b = (if drop_bit 5 b = 6 then Some 1 else if drop_bit 4 b = 14 then Some 2
     else if drop_bit 3 b = 30 then Some 3 else if drop_bit 2 b = 62 then Some 4
     else if drop_bit 1 b = 126 then Some 5 else None)"
  unfolding utf8_len_def utf8_len_ranges ..

lemma cont_bits: "(b < 0x80 \<or> 0xc0 \<le> b) \<longleftrightarrow> drop_bit 6 b \<noteq> 2" for b :: byte
  by (auto simp: drop_bit_byte div_range word_le_nat_alt word_less_nat_alt)

lemma ascii_bits: "b < 0x80 \<longleftrightarrow> drop_bit 7 b = 0" for b :: byte
  by (auto simp: drop_bit_byte word_less_nat_alt)

section \<open>Words bit by bit\<close>

lemma word32_bits_eqI: "\<forall>n \<in> set [0, 1, 2, 3, 4, 5, 6, 7, 8, 9, 10, 11, 12, 13, 14, 15, 16, 17, 18, 19, 20, 21, 22, 23, 24, 25, 26, 27, 28, 29, 30, 31]. bit a n = bit b n \<Longrightarrow> a = b"
  for a b :: u32
proof -
  assume "\<forall>n \<in> set [0, 1, 2, 3, 4, 5, 6, 7, 8, 9, 10, 11, 12, 13, 14, 15, 16, 17, 18, 19, 20, 21, 22, 23, 24, 25, 26, 27, 28, 29, 30, 31]. bit a n = bit b n"
  moreover have "[0, 1, 2, 3, 4, 5, 6, 7, 8, 9, 10, 11, 12, 13, 14, 15, 16, 17, 18, 19, 20, 21, 22, 23, 24, 25, 26, 27, 28, 29, 30, 31] = [0..<32]" by code_simp
  ultimately have "\<forall>n < 32. bit a n = bit b n" by (metis atLeastLessThan_iff set_upt zero_le)
  then show "a = b" by (intro bit_word_eqI) simp
qed

lemma byte_bits_eqI: "\<forall>n \<in> set [0, 1, 2, 3, 4, 5, 6, 7]. bit a n = bit b n \<Longrightarrow> a = b"
  for a b :: byte
proof -
  assume "\<forall>n \<in> set [0, 1, 2, 3, 4, 5, 6, 7]. bit a n = bit b n"
  moreover have "[0, 1, 2, 3, 4, 5, 6, 7] = [0..<8]" by code_simp
  ultimately have "\<forall>n < 8. bit a n = bit b n" by (metis atLeastLessThan_iff set_upt zero_le)
  then show "a = b" by (intro bit_word_eqI) simp
qed

lemma high_bits_clear: "unat c < 2 ^ k \<Longrightarrow> k \<le> n \<Longrightarrow> \<not> bit c n" for c :: u32
proof
  assume c: "unat c < 2 ^ k" "k \<le> n" and b: "bit c n"
  note c(1)
  also have "(2 :: nat) ^ k \<le> 2 ^ n" using c(2) by simp
  finally have "\<not> bit (unat c) n" by (simp add: bit_iff_odd)
  with b show False by (simp add: bit_unsigned_iff bit_imp_le_length)
qed

lemma clear_bits_less: "(\<And>n. k \<le> n \<Longrightarrow> \<not> bit c n) \<Longrightarrow> unat c < 2 ^ k" for c :: u32
proof -
  assume clear: "\<And>n. k \<le> n \<Longrightarrow> \<not> bit c n"
  have "take_bit k c = c" using clear by (intro bit_word_eqI) (auto simp: bit_simps not_less [symmetric])
  then have "unat c = take_bit k (unat c)" by (metis unsigned_take_bit_eq)
  then show "unat c < 2 ^ k" by (metis take_bit_nat_less_exp)
qed

section \<open>The byte sequences and the code points they stand for\<close>

text \<open>Encoding, then decoding, bit by bit, for two to six bytes.\<close>

lemma utf8_compose:
  fixes c :: u32
  shows   "\<forall>n \<ge> 11. \<not> bit c n \<Longrightarrow>
     push_bit 6 (ucast (ucast (drop_bit 6 c OR 0xc0) :: byte) AND 0x1f) OR (ucast (utf8_tail 0 c) AND 0x3f) = c"
  "\<forall>n \<ge> 16. \<not> bit c n \<Longrightarrow>
     push_bit 6 (push_bit 6 (ucast (ucast (drop_bit 12 c OR 0xe0) :: byte) AND 0xf) OR (ucast (utf8_tail 6 c) AND 0x3f))
       OR (ucast (utf8_tail 0 c) AND 0x3f) = c"
  "\<forall>n \<ge> 21. \<not> bit c n \<Longrightarrow>
     push_bit 6 (push_bit 6 (push_bit 6 (ucast (ucast (drop_bit 18 c OR 0xf0) :: byte) AND 0x7)
       OR (ucast (utf8_tail 12 c) AND 0x3f)) OR (ucast (utf8_tail 6 c) AND 0x3f)) OR (ucast (utf8_tail 0 c) AND 0x3f) = c"
  "\<forall>n \<ge> 26. \<not> bit c n \<Longrightarrow>
     push_bit 6 (push_bit 6 (push_bit 6 (push_bit 6 (ucast (ucast (drop_bit 24 c OR 0xf8) :: byte) AND 0x3)
       OR (ucast (utf8_tail 18 c) AND 0x3f)) OR (ucast (utf8_tail 12 c) AND 0x3f)) OR (ucast (utf8_tail 6 c) AND 0x3f))
       OR (ucast (utf8_tail 0 c) AND 0x3f) = c"
  "\<forall>n \<ge> 31. \<not> bit c n \<Longrightarrow>
     push_bit 6 (push_bit 6 (push_bit 6 (push_bit 6 (push_bit 6 (ucast (ucast (drop_bit 30 c OR 0xfc) :: byte) AND 0x1)
       OR (ucast (utf8_tail 24 c) AND 0x3f)) OR (ucast (utf8_tail 18 c) AND 0x3f)) OR (ucast (utf8_tail 12 c) AND 0x3f))
       OR (ucast (utf8_tail 6 c) AND 0x3f)) OR (ucast (utf8_tail 0 c) AND 0x3f) = c"
  by (rule word32_bits_eqI, simp add: utf8_tail_def bit_simps)+

lemma utf8_lead:
  fixes c :: u32
  shows "\<forall>n \<ge> 11. \<not> bit c n \<Longrightarrow> drop_bit 5 (ucast (drop_bit 6 c OR 0xc0) :: byte) = 6"
    "\<forall>n \<ge> 16. \<not> bit c n \<Longrightarrow> drop_bit 4 (ucast (drop_bit 12 c OR 0xe0) :: byte) = 14"
    "\<forall>n \<ge> 21. \<not> bit c n \<Longrightarrow> drop_bit 3 (ucast (drop_bit 18 c OR 0xf0) :: byte) = 30"
    "\<forall>n \<ge> 26. \<not> bit c n \<Longrightarrow> drop_bit 2 (ucast (drop_bit 24 c OR 0xf8) :: byte) = 62"
    "\<forall>n \<ge> 31. \<not> bit c n \<Longrightarrow> drop_bit 1 (ucast (drop_bit 30 c OR 0xfc) :: byte) = 126"
  by (rule byte_bits_eqI, simp add: bit_simps)+

lemma utf8_tail_cont: "\<not> (utf8_tail s c < 0x80 \<or> 0xc0 \<le> utf8_tail s c)"
proof -
  have "drop_bit 6 (utf8_tail s c) = 2"
    by (rule byte_bits_eqI) (simp add: utf8_tail_def bit_simps)
  then show ?thesis by (simp only: cont_bits)
qed

section \<open>Round trips\<close>

lemma decode_lead:
  assumes "utf8_len b = Some l" and "int l < max_len"
    and "utf8_loop (b # bs) 1 l (ucast b AND utf8_first_code_mask ! (l - 1)) = Some (Some c)"
    and "\<not> c < utf8_min_code ! (l - 1)"
  shows "unicode_from_utf8 (b # bs) max_len = Some (Some (c, l + 1))"
proof -
  have "\<not> b < 0x80"
  proof
    assume "b < 0x80"
    then have "utf8_len b = None" by (auto simp: utf8_len_def word_le_nat_alt word_less_nat_alt)
    with assms(1) show False by simp
  qed
  with assms show ?thesis by (simp add: unicode_from_utf8_def)
qed

lemma utf8_loop_tail:
  "rd p i = Some (utf8_tail s d) \<Longrightarrow>
     utf8_loop p i (Suc l) c = utf8_loop p (Suc i) l (push_bit 6 c OR (ucast (utf8_tail s d) AND 0x3f))"
  using utf8_tail_cont [of s d] by simp

lemma utf8_loop_tail_numeral:
  "rd p i = Some (utf8_tail s d) \<Longrightarrow>
     utf8_loop p i (numeral k) c = utf8_loop p (Suc i) (pred_numeral k) (push_bit 6 c OR (ucast (utf8_tail s d) AND 0x3f))"
  using utf8_loop_tail [of p i s d "pred_numeral k" c] by (simp add: numeral_eq_Suc)

lemma bits_of_less: "unat c < 2 ^ k \<Longrightarrow> \<forall>n \<ge> k. \<not> bit c n" for c :: u32
  using high_bits_clear by blast

lemmas decode_simps = utf8_len_bits utf8_loop_tail utf8_loop_tail_numeral utf8_first_code_mask_def utf8_min_code_def

lemma utf8_lead_not:
  fixes c :: u32
  shows "\<forall>n \<ge> 11. \<not> bit c n \<Longrightarrow> True"
    "\<forall>n \<ge> 16. \<not> bit c n \<Longrightarrow> drop_bit 5 (ucast (drop_bit 12 c OR 0xe0) :: byte) \<noteq> 6"
    "\<forall>n \<ge> 21. \<not> bit c n \<Longrightarrow> drop_bit 5 (ucast (drop_bit 18 c OR 0xf0) :: byte) \<noteq> 6 \<and> drop_bit 4 (ucast (drop_bit 18 c OR 0xf0) :: byte) \<noteq> 14"
    "\<forall>n \<ge> 26. \<not> bit c n \<Longrightarrow> drop_bit 5 (ucast (drop_bit 24 c OR 0xf8) :: byte) \<noteq> 6 \<and> drop_bit 4 (ucast (drop_bit 24 c OR 0xf8) :: byte) \<noteq> 14 \<and> drop_bit 3 (ucast (drop_bit 24 c OR 0xf8) :: byte) \<noteq> 30"
    "\<forall>n \<ge> 31. \<not> bit c n \<Longrightarrow> drop_bit 5 (ucast (drop_bit 30 c OR 0xfc) :: byte) \<noteq> 6 \<and> drop_bit 4 (ucast (drop_bit 30 c OR 0xfc) :: byte) \<noteq> 14 \<and> drop_bit 3 (ucast (drop_bit 30 c OR 0xfc) :: byte) \<noteq> 30 \<and> drop_bit 2 (ucast (drop_bit 30 c OR 0xfc) :: byte) \<noteq> 62"
  using utf8_lead [of c] by (auto simp: drop_bit_byte div_range)

lemma decode_encoded_2:
  assumes "\<forall>n \<ge> 11. \<not> bit c n" and "\<not> c < 0x80" and "1 < max_len"
  shows "unicode_from_utf8 (ucast (drop_bit 6 c OR 0xc0) # utf8_tail 0 c # rest) max_len = Some (Some (c, 1 + 1))"
  using utf8_lead(1) [OF assms(1)] utf8_lead_not(1) [OF assms(1)] utf8_compose(1) [OF assms(1)] assms(2,3)
  by (intro decode_lead) (simp_all add: decode_simps del: utf8_loop.simps(2))

lemma decode_encoded_3:
  assumes "\<forall>n \<ge> 16. \<not> bit c n" and "\<not> c < 0x800" and "2 < max_len"
  shows "unicode_from_utf8 (ucast (drop_bit 12 c OR 0xe0) # utf8_tail 6 c # utf8_tail 0 c # rest) max_len = Some (Some (c, 2 + 1))"
  using utf8_lead(2) [OF assms(1)] utf8_lead_not(2) [OF assms(1)] utf8_compose(2) [OF assms(1)] assms(2,3)
  by (intro decode_lead) (simp_all add: decode_simps del: utf8_loop.simps(2))

lemma decode_encoded_4:
  assumes "\<forall>n \<ge> 21. \<not> bit c n" and "\<not> c < 0x10000" and "3 < max_len"
  shows "unicode_from_utf8 (ucast (drop_bit 18 c OR 0xf0) # utf8_tail 12 c # utf8_tail 6 c # utf8_tail 0 c # rest) max_len = Some (Some (c, 3 + 1))"
  using utf8_lead(3) [OF assms(1)] utf8_lead_not(3) [OF assms(1)] utf8_compose(3) [OF assms(1)] assms(2,3)
  by (intro decode_lead) (simp_all add: decode_simps del: utf8_loop.simps(2))

lemma decode_encoded_5:
  assumes "\<forall>n \<ge> 26. \<not> bit c n" and "\<not> c < 0x200000" and "4 < max_len"
  shows "unicode_from_utf8 (ucast (drop_bit 24 c OR 0xf8) # utf8_tail 18 c # utf8_tail 12 c # utf8_tail 6 c # utf8_tail 0 c # rest) max_len = Some (Some (c, 4 + 1))"
  using utf8_lead(4) [OF assms(1)] utf8_lead_not(4) [OF assms(1)] utf8_compose(4) [OF assms(1)] assms(2,3)
  by (intro decode_lead) (simp_all add: decode_simps del: utf8_loop.simps(2))

lemma decode_encoded_6:
  assumes "\<forall>n \<ge> 31. \<not> bit c n" and "\<not> c < 0x4000000" and "5 < max_len"
  shows "unicode_from_utf8 (ucast (drop_bit 30 c OR 0xfc) # utf8_tail 24 c # utf8_tail 18 c # utf8_tail 12 c # utf8_tail 6 c # utf8_tail 0 c # rest) max_len = Some (Some (c, 5 + 1))"
  using utf8_lead(5) [OF assms(1)] utf8_lead_not(5) [OF assms(1)] utf8_compose(5) [OF assms(1)] assms(2,3)
  by (intro decode_lead) (simp_all add: decode_simps del: utf8_loop.simps(2))

text \<open>
  C13.  Decoding what was encoded gives the code point back, consumes exactly the bytes of the
  encoding and never reads behind them, for every code point of up to 31 bits.
\<close>

theorem utf8_roundtrip:
  assumes "c < 0x80000000" and "int (length (unicode_to_utf8 c)) \<le> max_len"
  shows "unicode_from_utf8 (unicode_to_utf8 c @ rest) max_len = Some (Some (c, length (unicode_to_utf8 c)))"
proof -
  have bits: "\<forall>n \<ge> 31. \<not> bit c n" "c < 0x80 \<Longrightarrow> \<forall>n \<ge> 7. \<not> bit c n" "c < 0x800 \<Longrightarrow> \<forall>n \<ge> 11. \<not> bit c n"
    "c < 0x10000 \<Longrightarrow> \<forall>n \<ge> 16. \<not> bit c n" "c < 0x200000 \<Longrightarrow> \<forall>n \<ge> 21. \<not> bit c n" "c < 0x4000000 \<Longrightarrow> \<forall>n \<ge> 26. \<not> bit c n"
    using assms(1) by (auto intro!: bits_of_less simp: word_less_nat_alt)
  consider "c < 0x80" | "\<not> c < 0x80" "c < 0x800" | "\<not> c < 0x80" "\<not> c < 0x800" "c < 0x10000"
    | "\<not> c < 0x80" "\<not> c < 0x800" "\<not> c < 0x10000" "c < 0x200000"
    | "\<not> c < 0x80" "\<not> c < 0x800" "\<not> c < 0x10000" "\<not> c < 0x200000" "c < 0x4000000"
    | "\<not> c < 0x80" "\<not> c < 0x800" "\<not> c < 0x10000" "\<not> c < 0x200000" "\<not> c < 0x4000000" by blast
  then show ?thesis
  proof cases
    case 1
    have "ucast (ucast c :: byte) = c" by (rule word32_bits_eqI) (simp add: bits(2) [OF 1] bit_simps)
    moreover have "drop_bit 7 (ucast c :: byte) = 0" by (rule byte_bits_eqI) (simp add: bits(2) [OF 1] bit_simps)
    ultimately show ?thesis using 1 by (simp add: unicode_to_utf8_def unicode_from_utf8_def ascii_bits)
  qed (use assms decode_encoded_2 [OF bits(3)] decode_encoded_3 [OF bits(4)] decode_encoded_4 [OF bits(5)]
      decode_encoded_5 [OF bits(6)] decode_encoded_6 [OF bits(1)] in \<open>simp_all add: unicode_to_utf8_def\<close>)
qed

text \<open>The witness: the euro sign, three bytes.\<close>

theorem utf8_roundtrip_witness:
  "unicode_from_utf8 ([0xE2, 0x82, 0xAC] @ [0x41]) 4 = Some (Some (0x20AC, 3))"
proof -
  have "unicode_to_utf8 0x20AC = [0xE2, 0x82, 0xAC]" by (simp add: unicode_to_utf8_def utf8_tail_def)
  with utf8_roundtrip [of "0x20AC" 4 "[0x41]"] show ?thesis by simp
qed

section \<open>Decoding accepts only canonical encodings\<close>

lemma bit_of_drop: "drop_bit k b = w \<Longrightarrow> bit b (k + n) = bit w n" for b w :: byte
  by (auto simp: bit_simps)

lemma cont_top: "drop_bit 6 b = 2 \<Longrightarrow> bit b 7 \<and> \<not> bit b 6" for b :: byte
  using bit_of_drop [of 6 b 2 0] bit_of_drop [of 6 b 2 1] by simp

lemma lead_top:
  fixes b :: byte
  shows "drop_bit 5 b = 6 \<Longrightarrow> bit b 7 \<and> bit b 6 \<and> \<not> bit b 5"
    "drop_bit 4 b = 14 \<Longrightarrow> bit b 7 \<and> bit b 6 \<and> bit b 5 \<and> \<not> bit b 4"
    "drop_bit 3 b = 30 \<Longrightarrow> bit b 7 \<and> bit b 6 \<and> bit b 5 \<and> bit b 4 \<and> \<not> bit b 3"
    "drop_bit 2 b = 62 \<Longrightarrow> bit b 7 \<and> bit b 6 \<and> bit b 5 \<and> bit b 4 \<and> bit b 3 \<and> \<not> bit b 2"
    "drop_bit 1 b = 126 \<Longrightarrow> bit b 7 \<and> bit b 6 \<and> bit b 5 \<and> bit b 4 \<and> bit b 3 \<and> bit b 2 \<and> \<not> bit b 1"
  by (use bit_of_drop [of 5 b 6 0] bit_of_drop [of 5 b 6 1] bit_of_drop [of 5 b 6 2] in simp)
    (use bit_of_drop [of 4 b 14 0] bit_of_drop [of 4 b 14 1] bit_of_drop [of 4 b 14 2] bit_of_drop [of 4 b 14 3] in simp,
     use bit_of_drop [of 3 b 30 0] bit_of_drop [of 3 b 30 1] bit_of_drop [of 3 b 30 2] bit_of_drop [of 3 b 30 3]
       bit_of_drop [of 3 b 30 4] in simp,
     use bit_of_drop [of 2 b 62 0] bit_of_drop [of 2 b 62 1] bit_of_drop [of 2 b 62 2] bit_of_drop [of 2 b 62 3]
       bit_of_drop [of 2 b 62 4] bit_of_drop [of 2 b 62 5] in simp,
     use bit_of_drop [of 1 b 126 0] bit_of_drop [of 1 b 126 1] bit_of_drop [of 1 b 126 2] bit_of_drop [of 1 b 126 3]
       bit_of_drop [of 1 b 126 4] bit_of_drop [of 1 b 126 5] bit_of_drop [of 1 b 126 6] in
       \<open>simp add: eval_nat_numeral\<close>)

lemma encode_decoded_2:
  fixes c :: u32 and b0 b1 :: byte
  assumes "drop_bit 5 b0 = 6" and "drop_bit 6 b1 = 2"
    and "c = push_bit 6 (ucast b0 AND 0x1f) OR (ucast b1 AND 0x3f)" and "\<not> c < 0x80"
  shows "unicode_to_utf8 c = [b0, b1] \<and> c < 0x80000000"
proof -
  have "\<not> bit c n" if "11 \<le> n" for n
    using that by (auto simp: assms(3) bit_simps not_le less_Suc_eq numeral_eq_Suc)
  then have less: "c < 2 ^ 11" using clear_bits_less [of 11 c] by (simp add: word_less_nat_alt)
  have "ucast (drop_bit 6 c OR 0xc0) = b0"
    using lead_top(1) [OF assms(1)] by (intro byte_bits_eqI) (simp add: assms(3) bit_simps)
  moreover have "utf8_tail 0 c = b1"
    using cont_top [OF assms(2)] by (intro byte_bits_eqI) (simp add: assms(3) utf8_tail_def bit_simps)
  moreover have "\<not> c < 0x80" "\<not> c < 0x800 \<or> 2 < (3 :: nat)" "\<not> c < 0x10000 \<or> 2 < (4 :: nat)"
    "\<not> c < 0x200000 \<or> 2 < (5 :: nat)" "\<not> c < 0x4000000 \<or> 2 < (6 :: nat)"
    using assms(4) by (auto simp: word_less_nat_alt)
  ultimately show ?thesis using less by (auto simp: unicode_to_utf8_def word_less_nat_alt)
qed

lemma encode_decoded_3:
  fixes c :: u32 and b0 b1 b2 :: byte
  assumes "drop_bit 4 b0 = 14" and "drop_bit 6 b1 = 2" and "drop_bit 6 b2 = 2"
    and "c = push_bit 6 (push_bit 6 (ucast b0 AND 0xf) OR (ucast b1 AND 0x3f)) OR (ucast b2 AND 0x3f)" and "\<not> c < 0x800"
  shows "unicode_to_utf8 c = [b0, b1, b2] \<and> c < 0x80000000"
proof -
  have "\<not> bit c n" if "16 \<le> n" for n
    using that by (auto simp: assms(4) bit_simps not_le less_Suc_eq numeral_eq_Suc)
  then have less: "c < 2 ^ 16" using clear_bits_less [of 16 c] by (simp add: word_less_nat_alt)
  have "ucast (drop_bit 12 c OR 0xe0) = b0"
    using lead_top(2) [OF assms(1)] by (intro byte_bits_eqI) (simp add: assms(4) bit_simps)
  moreover have "utf8_tail 6 c = b1"
    using cont_top [OF assms(2)] by (intro byte_bits_eqI) (simp add: assms(4) utf8_tail_def bit_simps)
  moreover have "utf8_tail 0 c = b2"
    using cont_top [OF assms(3)] by (intro byte_bits_eqI) (simp add: assms(4) utf8_tail_def bit_simps)
  moreover have "\<not> c < 0x80" "\<not> c < 0x800 \<or> 3 < (3 :: nat)" "\<not> c < 0x10000 \<or> 3 < (4 :: nat)"
    "\<not> c < 0x200000 \<or> 3 < (5 :: nat)" "\<not> c < 0x4000000 \<or> 3 < (6 :: nat)"
    using assms(5) by (auto simp: word_less_nat_alt)
  ultimately show ?thesis using less by (auto simp: unicode_to_utf8_def word_less_nat_alt)
qed

lemma encode_decoded_4:
  fixes c :: u32 and b0 b1 b2 b3 :: byte
  assumes "drop_bit 3 b0 = 30" and "drop_bit 6 b1 = 2" and "drop_bit 6 b2 = 2" and "drop_bit 6 b3 = 2"
    and "c = push_bit 6 (push_bit 6 (push_bit 6 (ucast b0 AND 0x7) OR (ucast b1 AND 0x3f)) OR (ucast b2 AND 0x3f)) OR (ucast b3 AND 0x3f)" and "\<not> c < 0x10000"
  shows "unicode_to_utf8 c = [b0, b1, b2, b3] \<and> c < 0x80000000"
proof -
  have "\<not> bit c n" if "21 \<le> n" for n
    using that by (auto simp: assms(5) bit_simps not_le less_Suc_eq numeral_eq_Suc)
  then have less: "c < 2 ^ 21" using clear_bits_less [of 21 c] by (simp add: word_less_nat_alt)
  have "ucast (drop_bit 18 c OR 0xf0) = b0"
    using lead_top(3) [OF assms(1)] by (intro byte_bits_eqI) (simp add: assms(5) bit_simps)
  moreover have "utf8_tail 12 c = b1"
    using cont_top [OF assms(2)] by (intro byte_bits_eqI) (simp add: assms(5) utf8_tail_def bit_simps)
  moreover have "utf8_tail 6 c = b2"
    using cont_top [OF assms(3)] by (intro byte_bits_eqI) (simp add: assms(5) utf8_tail_def bit_simps)
  moreover have "utf8_tail 0 c = b3"
    using cont_top [OF assms(4)] by (intro byte_bits_eqI) (simp add: assms(5) utf8_tail_def bit_simps)
  moreover have "\<not> c < 0x80" "\<not> c < 0x800 \<or> 4 < (3 :: nat)" "\<not> c < 0x10000 \<or> 4 < (4 :: nat)"
    "\<not> c < 0x200000 \<or> 4 < (5 :: nat)" "\<not> c < 0x4000000 \<or> 4 < (6 :: nat)"
    using assms(6) by (auto simp: word_less_nat_alt)
  ultimately show ?thesis using less by (auto simp: unicode_to_utf8_def word_less_nat_alt)
qed

lemma encode_decoded_5:
  fixes c :: u32 and b0 b1 b2 b3 b4 :: byte
  assumes "drop_bit 2 b0 = 62" and "drop_bit 6 b1 = 2" and "drop_bit 6 b2 = 2" and "drop_bit 6 b3 = 2" and "drop_bit 6 b4 = 2"
    and "c = push_bit 6 (push_bit 6 (push_bit 6 (push_bit 6 (ucast b0 AND 0x3) OR (ucast b1 AND 0x3f)) OR (ucast b2 AND 0x3f)) OR (ucast b3 AND 0x3f)) OR (ucast b4 AND 0x3f)" and "\<not> c < 0x200000"
  shows "unicode_to_utf8 c = [b0, b1, b2, b3, b4] \<and> c < 0x80000000"
proof -
  have "\<not> bit c n" if "26 \<le> n" for n
    using that by (auto simp: assms(6) bit_simps not_le less_Suc_eq numeral_eq_Suc)
  then have less: "c < 2 ^ 26" using clear_bits_less [of 26 c] by (simp add: word_less_nat_alt)
  have "ucast (drop_bit 24 c OR 0xf8) = b0"
    using lead_top(4) [OF assms(1)] by (intro byte_bits_eqI) (simp add: assms(6) bit_simps)
  moreover have "utf8_tail 18 c = b1"
    using cont_top [OF assms(2)] by (intro byte_bits_eqI) (simp add: assms(6) utf8_tail_def bit_simps)
  moreover have "utf8_tail 12 c = b2"
    using cont_top [OF assms(3)] by (intro byte_bits_eqI) (simp add: assms(6) utf8_tail_def bit_simps)
  moreover have "utf8_tail 6 c = b3"
    using cont_top [OF assms(4)] by (intro byte_bits_eqI) (simp add: assms(6) utf8_tail_def bit_simps)
  moreover have "utf8_tail 0 c = b4"
    using cont_top [OF assms(5)] by (intro byte_bits_eqI) (simp add: assms(6) utf8_tail_def bit_simps)
  moreover have "\<not> c < 0x80" "\<not> c < 0x800 \<or> 5 < (3 :: nat)" "\<not> c < 0x10000 \<or> 5 < (4 :: nat)"
    "\<not> c < 0x200000 \<or> 5 < (5 :: nat)" "\<not> c < 0x4000000 \<or> 5 < (6 :: nat)"
    using assms(7) by (auto simp: word_less_nat_alt)
  ultimately show ?thesis using less by (auto simp: unicode_to_utf8_def word_less_nat_alt)
qed

lemma encode_decoded_6:
  fixes c :: u32 and b0 b1 b2 b3 b4 b5 :: byte
  assumes "drop_bit 1 b0 = 126" and "drop_bit 6 b1 = 2" and "drop_bit 6 b2 = 2" and "drop_bit 6 b3 = 2" and "drop_bit 6 b4 = 2" and "drop_bit 6 b5 = 2"
    and "c = push_bit 6 (push_bit 6 (push_bit 6 (push_bit 6 (push_bit 6 (ucast b0 AND 0x1) OR (ucast b1 AND 0x3f)) OR (ucast b2 AND 0x3f)) OR (ucast b3 AND 0x3f)) OR (ucast b4 AND 0x3f)) OR (ucast b5 AND 0x3f)" and "\<not> c < 0x4000000"
  shows "unicode_to_utf8 c = [b0, b1, b2, b3, b4, b5] \<and> c < 0x80000000"
proof -
  have "\<not> bit c n" if "31 \<le> n" for n
    using that by (auto simp: assms(7) bit_simps not_le less_Suc_eq numeral_eq_Suc)
  then have less: "c < 2 ^ 31" using clear_bits_less [of 31 c] by (simp add: word_less_nat_alt)
  have "ucast (drop_bit 30 c OR 0xfc) = b0"
    using lead_top(5) [OF assms(1)] by (intro byte_bits_eqI) (simp add: assms(7) bit_simps)
  moreover have "utf8_tail 24 c = b1"
    using cont_top [OF assms(2)] by (intro byte_bits_eqI) (simp add: assms(7) utf8_tail_def bit_simps)
  moreover have "utf8_tail 18 c = b2"
    using cont_top [OF assms(3)] by (intro byte_bits_eqI) (simp add: assms(7) utf8_tail_def bit_simps)
  moreover have "utf8_tail 12 c = b3"
    using cont_top [OF assms(4)] by (intro byte_bits_eqI) (simp add: assms(7) utf8_tail_def bit_simps)
  moreover have "utf8_tail 6 c = b4"
    using cont_top [OF assms(5)] by (intro byte_bits_eqI) (simp add: assms(7) utf8_tail_def bit_simps)
  moreover have "utf8_tail 0 c = b5"
    using cont_top [OF assms(6)] by (intro byte_bits_eqI) (simp add: assms(7) utf8_tail_def bit_simps)
  moreover have "\<not> c < 0x80" "\<not> c < 0x800 \<or> 6 < (3 :: nat)" "\<not> c < 0x10000 \<or> 6 < (4 :: nat)"
    "\<not> c < 0x200000 \<or> 6 < (5 :: nat)" "\<not> c < 0x4000000 \<or> 6 < (6 :: nat)"
    using assms(8) by (auto simp: word_less_nat_alt)
  ultimately show ?thesis using less by (auto simp: unicode_to_utf8_def word_less_nat_alt)
qed

lemma utf8_loop_SomeD:
  assumes "utf8_loop p i (Suc l) c = Some (Some c')"
  obtains b where "rd p i = Some b" and "drop_bit 6 b = 2"
    and "utf8_loop p (Suc i) l (push_bit 6 c OR (ucast b AND 0x3f)) = Some (Some c')"
proof -
  from assms obtain b where b: "rd p i = Some b" by (cases "rd p i") auto
  with assms have "\<not> (b < 0x80 \<or> 0xc0 \<le> b)" by (auto split: if_splits)
  moreover from this assms b have "utf8_loop p (Suc i) l (push_bit 6 c OR (ucast b AND 0x3f)) = Some (Some c')" by simp
  ultimately show thesis using that [OF b] by (simp only: cont_bits not_not)
qed

lemma utf8_len_Some:
  assumes "utf8_len b = Some l"
  obtains "l = 1" "drop_bit 5 b = 6" | "l = 2" "drop_bit 4 b = 14" | "l = 3" "drop_bit 3 b = 30"
    | "l = 4" "drop_bit 2 b = 62" | "l = 5" "drop_bit 1 b = 126"
  using assms unfolding utf8_len_bits by (auto split: if_splits)

lemma utf8_loop_bytes:
  "utf8_loop p i l c = Some (Some c') \<Longrightarrow> \<exists>bs. take l (drop i p) = bs \<and> length bs = l \<and>
     (\<forall>b \<in> set bs. drop_bit 6 b = 2) \<and> c' = foldl (\<lambda>c b. push_bit 6 c OR (ucast b AND 0x3f)) c bs"
proof (induction l arbitrary: i c)
  case (Suc l)
  obtain b where b: "rd p i = Some b" "drop_bit 6 b = 2"
    "utf8_loop p (Suc i) l (push_bit 6 c OR (ucast b AND 0x3f)) = Some (Some c')"
    using utf8_loop_SomeD [OF Suc.prems] .
  from Suc.IH [OF b(3)] b(1,2) show ?case by (auto simp: ub_simps drop_eq_Cons_nth)
qed simp

text \<open>
  C14.  The decoder accepts only canonical encodings: whatever it accepts is byte for byte the
  encoding of the code point it returns.  Overlong forms, stray continuation bytes and truncated
  sequences are all rejected.
\<close>

theorem utf8_decode_canonical:
  assumes "unicode_from_utf8 p max_len = Some (Some (c, k))"
  shows "unicode_to_utf8 c = take k p \<and> c < 0x80000000 \<and> int k \<le> max 1 max_len"
proof -
  from assms obtain b0 where b0: "rd p 0 = Some b0" by (cases "rd p 0") (auto simp: unicode_from_utf8_def)
  then have take1: "take 1 p = [b0]" by (cases p) (auto simp: ub_simps)
  show ?thesis
  proof (cases "b0 < 0x80")
    case True
    then have top: "\<not> bit b0 7" using bit_of_drop [of 7 b0 0 0] by (simp add: ascii_bits)
    from assms b0 True have c: "c = ucast b0" "k = 1" by (simp_all add: unicode_from_utf8_def)
    have "\<not> bit c n" if "7 \<le> n" for n
      using that top by (cases "n = 7") (auto simp: c bit_simps dest: bit_imp_le_length)
    then have "c < 0x80" using clear_bits_less [of 7 c] by (simp add: word_less_nat_alt)
    moreover have "ucast c = b0" unfolding c by (rule byte_bits_eqI) (simp add: bit_simps)
    moreover from calculation have "c < 0x80000000" by (simp add: word_less_nat_alt)
    ultimately show ?thesis using take1 c by (simp add: unicode_to_utf8_def)
  next
    case False
    from assms b0 False obtain l where l: "utf8_len b0 = Some l" "int l \<le> max_len - 1" "k = l + 1"
      "utf8_loop p 1 l (ucast b0 AND utf8_first_code_mask ! (l - 1)) = Some (Some c)" "\<not> c < utf8_min_code ! (l - 1)"
      by (auto simp: unicode_from_utf8_def bind_eq_Some_conv split: option.splits if_splits)
    obtain bs where bs: "take l (drop 1 p) = bs" "length bs = l" "\<forall>b \<in> set bs. drop_bit 6 b = 2"
      "c = foldl (\<lambda>c b. push_bit 6 c OR (ucast b AND 0x3f)) (ucast b0 AND utf8_first_code_mask ! (l - 1)) bs"
      using utf8_loop_bytes [OF l(4)] by blast
    from l(1) have "unicode_to_utf8 c = b0 # bs \<and> c < 0x80000000"
    proof (cases rule: utf8_len_Some)
      case 1
      with bs(2) obtain b1 where "bs = [b1]" by (auto simp: length_Suc_conv numeral_eq_Suc)
      with encode_decoded_2 [OF 1(2)] bs l(5) 1(1) show ?thesis
        by (simp add: utf8_min_code_def utf8_first_code_mask_def)
    next
      case 2
      with bs(2) obtain b1 b2 where "bs = [b1, b2]" by (auto simp: length_Suc_conv numeral_eq_Suc)
      with encode_decoded_3 [OF 2(2)] bs l(5) 2(1) show ?thesis
        by (simp add: utf8_min_code_def utf8_first_code_mask_def)
    next
      case 3
      with bs(2) obtain b1 b2 b3 where "bs = [b1, b2, b3]" by (auto simp: length_Suc_conv numeral_eq_Suc)
      with encode_decoded_4 [OF 3(2)] bs l(5) 3(1) show ?thesis
        by (simp add: utf8_min_code_def utf8_first_code_mask_def)
    next
      case 4
      with bs(2) obtain b1 b2 b3 b4 where "bs = [b1, b2, b3, b4]" by (auto simp: length_Suc_conv numeral_eq_Suc)
      with encode_decoded_5 [OF 4(2)] bs l(5) 4(1) show ?thesis
        by (simp add: utf8_min_code_def utf8_first_code_mask_def)
    next
      case 5
      with bs(2) obtain b1 b2 b3 b4 b5 where "bs = [b1, b2, b3, b4, b5]" by (auto simp: length_Suc_conv numeral_eq_Suc)
      with encode_decoded_6 [OF 5(2)] bs l(5) 5(1) show ?thesis
        by (simp add: utf8_min_code_def utf8_first_code_mask_def)
    qed
    moreover have "take (l + 1) p = b0 # bs" using bs(1) take1 by (cases p) auto
    ultimately show ?thesis using l by simp
  qed
qed

text \<open>The witness: the two bytes of e with acute accent.\<close>

theorem utf8_decode_canonical_witness:
  "unicode_from_utf8 [0xC3, 0xA9, 0x21] 3 = Some (Some (0xE9, 2)) \<and> unicode_to_utf8 0xE9 = [0xC3, 0xA9]"
proof -
  have "unicode_from_utf8 [0xC3, 0xA9, 0x21] 3 = Some (Some (0xE9, 2))"
    by (simp add: unicode_from_utf8_def utf8_len_def utf8_first_code_mask_def utf8_min_code_def)
  with utf8_decode_canonical [OF this] show ?thesis by simp
qed

end
