(* ===== verification/Rqsort.thy ===== *)
theory Rqsort
  imports Wgi_Prelude
begin

text \<open>
  The sorting routines of \<^verbatim>\<open>cutils.c\<close>: \<open>rqsort\<close>, a quicksort with three-way partitioning, a local
  stack of fifty segments and an insertion sort for short segments, and \<open>heapsortx\<close>, to which it
  falls back when the recursion gets deep.

  The array is a list of elements; a pointer into it is the index of its element (every pointer of
  the source is the base plus a multiple of the element size).  Comparing and exchanging elements
  outside the array is undefined.  The counters \<open>i\<close>, \<open>lt\<close> and \<open>gt\<close> of the source are the distances
  of the pointers \<open>pi\<close>, \<open>plt\<close> and \<open>pgt\<close> from the start of the segment and are not kept twice.
\<close>

type_synonym 'a cmp_f = "'a \<Rightarrow> 'a \<Rightarrow> int"

section \<open>Comparing and exchanging\<close>

definition cmp_at :: "'a cmp_f \<Rightarrow> 'a list \<Rightarrow> nat \<Rightarrow> nat \<Rightarrow> int option" where
  "cmp_at cmp xs i j = do { x \<leftarrow> rd xs i; y \<leftarrow> rd xs j; Some (cmp x y) }"

definition swap_at :: "'a list \<Rightarrow> nat \<Rightarrow> nat \<Rightarrow> 'a list option" where
  "swap_at xs i j = do { x \<leftarrow> rd xs i; y \<leftarrow> rd xs j; ys \<leftarrow> wr xs i y; wr ys j x }"

text \<open>Exchanging two blocks of \<open>n\<close> elements, first to last.\<close>

fun swap_block :: "'a list \<Rightarrow> nat \<Rightarrow> nat \<Rightarrow> nat \<Rightarrow> 'a list option" where
  "swap_block xs a b 0 = Some xs"
| "swap_block xs a b (Suc n) = do { ys \<leftarrow> swap_at xs a b; swap_block ys (Suc a) (Suc b) n }"

section \<open>Heap sort\<close>

text \<open>The sift loop on the heap of \<open>n\<close> elements at \<open>base\<close>, from position \<open>r\<close> down.\<close>

function heap_sift :: "'a cmp_f \<Rightarrow> 'a list \<Rightarrow> nat \<Rightarrow> nat \<Rightarrow> nat \<Rightarrow> 'a list option" where
  "heap_sift cmp xs base n r =
     (let c = r * 2 + 1 in
      if c < n
      then do {
        c' \<leftarrow> (if c < n - 1
               then do { d \<leftarrow> cmp_at cmp xs (base + c) (base + c + 1); Some (if d \<le> 0 then c + 1 else c) }
               else Some c);
        d \<leftarrow> cmp_at cmp xs (base + r) (base + c');
        if d > 0 then Some xs
        else do {
          ys \<leftarrow> swap_at xs (base + r) (base + c');
          heap_sift cmp ys base n c'
        }
      }
      else Some xs)"
  by pat_completeness auto
termination
  by (relation "measure (\<lambda>(cmp, xs, base, n, r). n - r)")
    (auto simp: bind_eq_Some_conv split: if_splits)

declare heap_sift.simps [simp del]

fun heap_build :: "'a cmp_f \<Rightarrow> 'a list \<Rightarrow> nat \<Rightarrow> nat \<Rightarrow> nat \<Rightarrow> 'a list option" where
  "heap_build cmp xs base n 0 = Some xs"
| "heap_build cmp xs base n (Suc i) = do { ys \<leftarrow> heap_sift cmp xs base n i; heap_build cmp ys base n i }"

fun heap_drain :: "'a cmp_f \<Rightarrow> 'a list \<Rightarrow> nat \<Rightarrow> nat \<Rightarrow> 'a list option" where
  "heap_drain cmp xs base 0 = Some xs"
| "heap_drain cmp xs base (Suc i) = do {
     ys \<leftarrow> swap_at xs base (base + Suc i);
     zs \<leftarrow> heap_sift cmp ys base (Suc i) 0;
     heap_drain cmp zs base i
   }"

definition heapsortx :: "'a cmp_f \<Rightarrow> 'a list \<Rightarrow> nat \<Rightarrow> nat \<Rightarrow> 'a list option" where
  "heapsortx cmp xs base nmemb =
     (if nmemb > 1
      then do {
        ys \<leftarrow> heap_build cmp xs base nmemb (nmemb div 2);
        heap_drain cmp ys base (nmemb - 1)
      }
      else Some xs)"

section \<open>Partitioning\<close>

definition med3 :: "'a cmp_f \<Rightarrow> 'a list \<Rightarrow> nat \<Rightarrow> nat \<Rightarrow> nat \<Rightarrow> nat option" where
  "med3 cmp xs a b c = do {
     ab \<leftarrow> cmp_at cmp xs a b;
     bc \<leftarrow> cmp_at cmp xs b c;
     if ab < 0
     then if bc < 0 then Some b else do { ac \<leftarrow> cmp_at cmp xs a c; Some (if ac < 0 then c else a) }
     else if bc > 0 then Some b else do { ac \<leftarrow> cmp_at cmp xs a c; Some (if ac < 0 then a else c) }
   }"

text \<open>The two scanning loops and the loop around them; the pivot is at \<open>p\<close>.\<close>

function scan_up :: "'a cmp_f \<Rightarrow> nat \<Rightarrow> nat \<Rightarrow> 'a list \<Rightarrow> nat \<Rightarrow> nat \<Rightarrow> ('a list \<times> nat \<times> nat) option" where
  "scan_up cmp p pj xs pi plt =
     (if pi < pj
      then do {
        c \<leftarrow> cmp_at cmp xs p pi;
        if c > 0 then scan_up cmp p pj xs (Suc pi) plt
        else if c = 0 then do { ys \<leftarrow> swap_at xs plt pi; scan_up cmp p pj ys (Suc pi) (Suc plt) }
        else Some (xs, pi, plt)
      }
      else Some (xs, pi, plt))"
  by pat_completeness auto
termination
  by (relation "measure (\<lambda>(cmp, p, pj, xs, pi, plt). pj - pi)") auto

declare scan_up.simps [simp del]

function scan_down :: "'a cmp_f \<Rightarrow> nat \<Rightarrow> nat \<Rightarrow> 'a list \<Rightarrow> nat \<Rightarrow> nat \<Rightarrow> ('a list \<times> nat \<times> nat) option" where
  "scan_down cmp p pi xs pj0 pgt =
     (let pj = pj0 - 1 in
      if pi < pj
      then do {
        c \<leftarrow> cmp_at cmp xs p pj;
        if c < 0 then scan_down cmp p pi xs pj pgt
        else if c = 0 then do { ys \<leftarrow> swap_at xs (pgt - 1) pj; scan_down cmp p pi ys pj (pgt - 1) }
        else Some (xs, pj, pgt)
      }
      else Some (xs, pj, pgt))"
  by pat_completeness auto
termination
  by (relation "measure (\<lambda>(cmp, p, pi, xs, pj, pgt). pj)") auto

declare scan_down.simps [simp del]

lemma scan_up_pi: "scan_up cmp p pj xs pi plt = Some (ys, pi', plt') \<Longrightarrow> pi \<le> pi'"
proof (induction cmp p pj xs pi plt rule: scan_up.induct)
  case (1 cmp p pj xs pi plt)
  from "1.prems" show ?case
    by (subst (asm) scan_up.simps)
      (auto simp: bind_eq_Some_conv split: if_splits dest: "1.IH" Suc_leD)
qed

lemma scan_down_unfold:
  "scan_down cmp p pi xs pj pgt =
     (if pi < pj - 1
      then do {
        c \<leftarrow> cmp_at cmp xs p (pj - 1);
        if c < 0 then scan_down cmp p pi xs (pj - 1) pgt
        else if c = 0 then do { ys \<leftarrow> swap_at xs (pgt - 1) (pj - 1); scan_down cmp p pi ys (pj - 1) (pgt - 1) }
        else Some (xs, pj - 1, pgt)
      }
      else Some (xs, pj - 1, pgt))"
  by (simp only: scan_down.simps [of cmp p pi xs pj pgt] Let_def)

lemma scan_down_pj: "scan_down cmp p pi xs pj pgt = Some (ys, pj', pgt') \<Longrightarrow> pj' \<le> pj - 1"
proof (induction pj arbitrary: xs pgt rule: less_induct)
  case (less pj)
  show ?case
  proof (cases "pi < pj - 1")
    case True
    then have lt: "pj - 1 < pj" by simp
    note run = less.prems [unfolded scan_down_unfold [of cmp p pi xs pj pgt]]
    show ?thesis
    proof (cases "cmp_at cmp xs p (pj - 1)")
      case None
      with run True show ?thesis by simp
    next
      case (Some c)
      show ?thesis
      proof (cases "swap_at xs (pgt - 1) (pj - 1)")
        case None
        with run True Some less.IH [OF lt, of xs pgt] show ?thesis by (auto split: if_splits)
      next
        case (Some us)
        with run True \<open>cmp_at cmp xs p (pj - 1) = Some c\<close> less.IH [OF lt, of xs pgt] less.IH [OF lt, of us "pgt - 1"]
        show ?thesis by (auto split: if_splits)
      qed
    qed
  next
    case False
    with less.prems show ?thesis by (subst (asm) scan_down_unfold) simp
  qed
qed

function part_loop :: "'a cmp_f \<Rightarrow> nat \<Rightarrow> 'a list \<Rightarrow> nat \<Rightarrow> nat \<Rightarrow> nat \<Rightarrow> nat \<Rightarrow> ('a list \<times> nat \<times> nat \<times> nat) option" where
  "part_loop cmp p xs pi plt pj pgt = do {
     (ys, pi', plt') \<leftarrow> scan_up cmp p pj xs pi plt;
     (zs, pj', pgt') \<leftarrow> scan_down cmp p pi' ys pj pgt;
     if pj' \<le> pi' then Some (zs, pi', plt', pgt')
     else do {
       us \<leftarrow> swap_at zs pi' pj';
       part_loop cmp p us (Suc pi') plt' pj' pgt'
     }
   }"
  by pat_completeness auto
termination
proof (relation "measure (\<lambda>(cmp, p, xs, pi, plt, pj, pgt). pj - pi)", goal_cases)
  case (2 cmp p xs pi plt pj pgt x ys y pi' plt' x' zs y' pj' pgt' us)
  then have "pi \<le> pi'" "pj' \<le> pj - 1" "pi' < pj'" by (auto dest!: scan_up_pi scan_down_pj)
  then show ?case by auto
qed simp

declare part_loop.simps [simp del]

text \<open>One partitioning step: the array, and the new \<open>lt\<close> and \<open>gt\<close>.\<close>

definition rq_partition :: "'a cmp_f \<Rightarrow> 'a list \<Rightarrow> nat \<Rightarrow> nat \<Rightarrow> ('a list \<times> nat \<times> nat) option" where
  "rq_partition cmp xs p nmemb = do {
     let m4 = nmemb div 4;
     m \<leftarrow> med3 cmp xs (p + m4) (p + 2 * m4) (p + 3 * m4);
     ys \<leftarrow> swap_at xs p m;
     let top = p + nmemb;
     (zs, pi, plt, pgt) \<leftarrow> part_loop cmp p ys (p + 1) (p + 1) top top;
     let span = min (plt - p) (pi - plt);
     us \<leftarrow> swap_block zs p (pi - span) span;
     let span' = min (top - pgt) (pgt - pi);
     vs \<leftarrow> swap_block us pi (top - span') span';
     Some (vs, pi - plt, nmemb - (pgt - pi))
   }"

section \<open>Insertion sort\<close>

fun insert_down :: "'a cmp_f \<Rightarrow> 'a list \<Rightarrow> nat \<Rightarrow> nat \<Rightarrow> 'a list option" where
  "insert_down cmp xs p 0 = Some xs"
| "insert_down cmp xs p (Suc k) =
     do {
       c \<leftarrow> cmp_at cmp xs (p + k) (p + Suc k);
       if c > 0 then do { ys \<leftarrow> swap_at xs (p + Suc k) (p + k); insert_down cmp ys p k }
       else Some xs
     }"

fun insertion_sort :: "'a cmp_f \<Rightarrow> 'a list \<Rightarrow> nat \<Rightarrow> nat \<Rightarrow> nat \<Rightarrow> 'a list option" where
  "insertion_sort cmp xs p i 0 = Some xs"
| "insertion_sort cmp xs p i (Suc m) = do { ys \<leftarrow> insert_down cmp xs p i; insertion_sort cmp ys p (Suc i) m }"

section \<open>The driver\<close>

text \<open>A stacked segment: first element, number of elements, depth.  The stack has room for fifty.\<close>

type_synonym segment = "nat \<times> nat \<times> nat"

function rq_inner ::
    "'a cmp_f \<Rightarrow> 'a list \<Rightarrow> segment list \<Rightarrow> nat \<Rightarrow> nat \<Rightarrow> nat \<Rightarrow> ('a list \<times> segment list \<times> nat \<times> nat) option" where
  "rq_inner cmp xs stack ptr nmemb depth =
     (if nmemb > 6
      then if depth + 1 > 50
        then do { ys \<leftarrow> heapsortx cmp xs ptr nmemb; Some (ys, stack, ptr, 0) }
        else do {
          (ys, lt, gt) \<leftarrow> rq_partition cmp xs ptr nmemb;
          if length stack < 50
          then if lt > nmemb - gt
            then rq_inner cmp ys ((ptr, lt, depth + 1) # stack) (ptr + gt) (nmemb - gt) (depth + 1)
            else rq_inner cmp ys ((ptr + gt, nmemb - gt, depth + 1) # stack) ptr lt (depth + 1)
          else None
        }
      else Some (xs, stack, ptr, nmemb))"
  by pat_completeness auto
termination
  by (relation "measure (\<lambda>(cmp, xs, stack, ptr, nmemb, depth). 51 - depth)") auto

declare rq_inner.simps [simp del]

end
