(* ===== verification/Rqsort_Part.thy ===== *)
theory Rqsort_Part
  imports Rqsort "HOL-Library.Multiset"
begin

text \<open>
  Partitioning for an arbitrary comparison function: every step stays inside its segment, only
  exchanges elements, and classifies them by their comparison with the pivot.
\<close>

section \<open>Exchanges inside a segment\<close>

inductive swaps :: "nat \<Rightarrow> nat \<Rightarrow> 'a list \<Rightarrow> 'a list \<Rightarrow> bool" for p n where
  swaps_refl: "swaps p n xs xs"
| swaps_step: "swaps p n xs ys \<Longrightarrow> p \<le> i \<Longrightarrow> i < p + n \<Longrightarrow> p \<le> j \<Longrightarrow> j < p + n \<Longrightarrow> p + n \<le> length ys \<Longrightarrow>
    swaps p n xs (ys[i := ys ! j, j := ys ! i])"

lemma swaps_trans: "swaps p n ys zs \<Longrightarrow> swaps p n xs ys \<Longrightarrow> swaps p n xs zs"
  by (induction rule: swaps.induct) (auto intro: swaps_step)

lemma swaps_mono: "swaps p n xs ys \<Longrightarrow> q \<le> p \<Longrightarrow> p + n \<le> q + m \<Longrightarrow> q + m \<le> length xs \<Longrightarrow> swaps q m xs ys \<and> length ys = length xs"
  by (induction rule: swaps.induct) (auto intro: swaps_refl swaps_step)

lemma swaps_length: "swaps p n xs ys \<Longrightarrow> length ys = length xs"
  by (induction rule: swaps.induct) simp_all

lemma swaps_outside: "swaps p n xs ys \<Longrightarrow> i < p \<or> p + n \<le> i \<Longrightarrow> ys ! i = xs ! i"
  by (induction rule: swaps.induct) (auto simp: nth_list_update)

lemma swaps_mset: "swaps p n xs ys \<Longrightarrow> mset ys = mset xs"
  by (induction rule: swaps.induct) (auto simp: mset_swap)

lemma swaps_inside: "swaps p n xs ys \<Longrightarrow> p \<le> i \<Longrightarrow> i < p + n \<Longrightarrow> \<exists>j. p \<le> j \<and> j < p + n \<and> ys ! i = xs ! j"
  by (induction arbitrary: i rule: swaps.induct) (auto simp: nth_list_update)

definition exch :: "'a list \<Rightarrow> nat \<Rightarrow> nat \<Rightarrow> 'a list" where
  "exch xs i j = xs[i := xs ! j, j := xs ! i]"

lemma length_exch [simp]: "length (exch xs i j) = length xs"
  by (simp add: exch_def)

lemma nth_exch: "i < length xs \<Longrightarrow> j < length xs \<Longrightarrow> exch xs i j ! k = (if k = i then xs ! j else if k = j then xs ! i else xs ! k)"
  by (auto simp: exch_def nth_list_update)

lemma swap_at_Some [simp]: "i < length xs \<Longrightarrow> j < length xs \<Longrightarrow> swap_at xs i j = Some (exch xs i j)"
  by (simp add: swap_at_def exch_def)

lemma cmp_at_Some [simp]: "i < length xs \<Longrightarrow> j < length xs \<Longrightarrow> cmp_at cmp xs i j = Some (cmp (xs ! i) (xs ! j))"
  by (simp add: cmp_at_def)

lemma swaps_exch:
  "p \<le> i \<Longrightarrow> i < p + n \<Longrightarrow> p \<le> j \<Longrightarrow> j < p + n \<Longrightarrow> p + n \<le> length xs \<Longrightarrow> swaps p n xs (exch xs i j)"
  unfolding exch_def by (rule swaps_step [OF swaps_refl])

definition all_in :: "('a \<Rightarrow> bool) \<Rightarrow> 'a list \<Rightarrow> nat \<Rightarrow> nat \<Rightarrow> bool" where
  "all_in P xs a b \<longleftrightarrow> (\<forall>k. a \<le> k \<and> k < b \<longrightarrow> P (xs ! k))"

section \<open>Block exchange\<close>

lemma swap_block_spec:
  "a + n \<le> b \<Longrightarrow> b + n \<le> length xs \<Longrightarrow> p \<le> a \<Longrightarrow> b + n \<le> p + m \<Longrightarrow> p + m \<le> length xs \<Longrightarrow>
   \<exists>ys. swap_block xs a b n = Some ys \<and> swaps p m xs ys \<and>
     (\<forall>k. ys ! k = (if a \<le> k \<and> k < a + n then xs ! (k - a + b) else if b \<le> k \<and> k < b + n then xs ! (k - b + a) else xs ! k))"
proof (induction n arbitrary: xs a b)
  case 0
  then show ?case by (auto intro: swaps_refl)
next
  case (Suc n)
  let ?xs = "exch xs a b"
  have "swaps p m xs ?xs" using Suc.prems by (intro swaps_exch) auto
  moreover have nth: "?xs ! k = (if k = a then xs ! b else if k = b then xs ! a else xs ! k)" for k
    using Suc.prems by (simp add: nth_exch)
  moreover obtain ys where ys: "swap_block ?xs (Suc a) (Suc b) n = Some ys" "swaps p m ?xs ys"
    "\<forall>k. ys ! k = (if Suc a \<le> k \<and> k < Suc a + n then ?xs ! (k - Suc a + Suc b)
       else if Suc b \<le> k \<and> k < Suc b + n then ?xs ! (k - Suc b + Suc a) else ?xs ! k)"
    using Suc.IH [of "Suc a" "Suc b" ?xs] Suc.prems by auto
  ultimately have "swaps p m xs ys" using swaps_trans by blast
  moreover have "ys ! k = (if a \<le> k \<and> k < a + Suc n then xs ! (k - a + b)
      else if b \<le> k \<and> k < b + Suc n then xs ! (k - b + a) else xs ! k)" for k
  proof -
    consider "k = a" | "a < k" "k < a + Suc n" | "k = b" | "b < k" "k < b + Suc n"
      | "\<not> (a \<le> k \<and> k < a + Suc n)" "\<not> (b \<le> k \<and> k < b + Suc n)" by linarith
    then show ?thesis
    proof cases
      case 2
      then have "k - Suc a + Suc b = k - a + b" "k - a + b \<noteq> a" "k - a + b \<noteq> b" using Suc.prems(1) by auto
      with 2 show ?thesis using ys(3) nth by simp
    next
      case 4
      then have "k - Suc b + Suc a = k - b + a" "k - b + a \<noteq> a" "k - b + a \<noteq> b" "\<not> k < Suc a + n" "\<not> k < a + Suc n"
        using Suc.prems(1) by auto
      with 4 show ?thesis using ys(3) nth by simp
    qed (use ys(3) nth Suc.prems(1) in auto)
  qed
  ultimately show ?case using ys(1) Suc.prems by auto
qed

lemma block_exchange:
  assumes "a \<le> m" "m \<le> b" "p \<le> a" "b \<le> p + n" "p + n \<le> length xs"
    and "all_in P xs a m" "all_in Q xs m b" "s = min (m - a) (b - m)"
  shows "\<exists>ys. swap_block xs a (b - s) s = Some ys \<and> swaps p n xs ys \<and>
    all_in Q ys a (a + (b - m)) \<and> all_in P ys (a + (b - m)) b \<and> (\<forall>k. k < a \<or> b \<le> k \<longrightarrow> ys ! k = xs ! k)"
proof -
  have s: "a + s \<le> b - s" "b - s + s = b" "s \<le> m - a" "s \<le> b - m" using assms(1,2,8) by (auto simp: min_def)
  obtain ys where ys: "swap_block xs a (b - s) s = Some ys" "swaps p n xs ys"
    "\<forall>k. ys ! k = (if a \<le> k \<and> k < a + s then xs ! (k - a + (b - s)) else if b - s \<le> k \<and> k < b - s + s then xs ! (k - (b - s) + a) else xs ! k)"
    using swap_block_spec [of a s "b - s" xs p n] s assms(3-5) by auto
  have "all_in Q ys a (a + (b - m))"
    unfolding all_in_def
  proof (intro allI impI)
    fix k assume k: "a \<le> k \<and> k < a + (b - m)"
    show "Q (ys ! k)"
    proof (cases "k < a + s")
      case True
      then have "ys ! k = xs ! (k - a + (b - s))" using k ys(3) by simp
      moreover have "m \<le> k - a + (b - s)" "k - a + (b - s) < b" using k True s assms(1,2) by auto
      ultimately show ?thesis using assms(7) by (simp add: all_in_def)
    next
      case False
      then have "s = m - a" using k assms(8) by (auto simp: min_def split: if_splits)
      then have "k < b - s" "m \<le> k" using k False assms(1,2) by auto
      then show ?thesis using ys(3) False assms(7) unfolding all_in_def by auto
    qed
  qed
  moreover have "all_in P ys (a + (b - m)) b"
    unfolding all_in_def
  proof (intro allI impI)
    fix k assume k: "a + (b - m) \<le> k \<and> k < b"
    show "P (ys ! k)"
    proof (cases "b - s \<le> k")
      case True
      then have "ys ! k = xs ! (k - (b - s) + a)" using k ys(3) s by auto
      moreover have "a \<le> k - (b - s) + a" "k - (b - s) + a < m" using k True s assms(1,2) by auto
      ultimately show ?thesis using assms(6) by (simp add: all_in_def)
    next
      case False
      then have "s = b - m" using k assms(1,2,8) by (auto simp: min_def split: if_splits)
      then have "\<not> k < a + s" "k < m" "a \<le> k" using k False assms(1,2) by auto
      then show ?thesis using ys(3) False assms(6) unfolding all_in_def by auto
    qed
  qed
  ultimately show ?thesis using ys s assms(1,2) by auto
qed

section \<open>The scanning loops\<close>

text \<open>
  The classes of elements relative to the pivot \<open>v\<close>: equal ones (the pivot among them), smaller and
  greater ones.
\<close>

abbreviation eq_to :: "'a cmp_f \<Rightarrow> 'a \<Rightarrow> 'a \<Rightarrow> bool" where "eq_to cmp v x \<equiv> x = v \<or> cmp v x = 0"
abbreviation lt_than :: "'a cmp_f \<Rightarrow> 'a \<Rightarrow> 'a \<Rightarrow> bool" where "lt_than cmp v x \<equiv> cmp v x > 0"
abbreviation gt_than :: "'a cmp_f \<Rightarrow> 'a \<Rightarrow> 'a \<Rightarrow> bool" where "gt_than cmp v x \<equiv> cmp v x < 0"

lemma all_in_Suc: "all_in P xs a (Suc b) \<longleftrightarrow> all_in P xs a b \<and> (a \<le> b \<longrightarrow> P (xs ! b))"
  by (auto simp: all_in_def less_Suc_eq)

lemma all_in_exch_keep:
  "all_in P xs a b \<Longrightarrow> i < length xs \<Longrightarrow> j < length xs \<Longrightarrow> \<not> (a \<le> i \<and> i < b) \<Longrightarrow> \<not> (a \<le> j \<and> j < b) \<Longrightarrow> all_in P (exch xs i j) a b"
  by (auto simp: all_in_def nth_exch)

text \<open>What one scan keeps: the state of the partition between the loops.\<close>

definition part_inv ::
    "'a cmp_f \<Rightarrow> nat \<Rightarrow> nat \<Rightarrow> 'a \<Rightarrow> 'a list \<Rightarrow> nat \<Rightarrow> nat \<Rightarrow> nat \<Rightarrow> nat \<Rightarrow> bool" where
  "part_inv cmp p n v xs pi plt pj pgt \<longleftrightarrow>
     p < plt \<and> plt \<le> pi \<and> pi \<le> pj \<and> pj \<le> pgt \<and> pgt \<le> p + n \<and> p + n \<le> length xs \<and> xs ! p = v \<and>
     all_in (eq_to cmp v) xs p plt \<and> all_in (lt_than cmp v) xs plt pi \<and>
     all_in (gt_than cmp v) xs pj pgt \<and> all_in (eq_to cmp v) xs pgt (p + n)"

lemma part_inv_up_lt:
  "part_inv cmp p n v xs pi plt pj pgt \<Longrightarrow> pi < pj \<Longrightarrow> cmp v (xs ! pi) > 0 \<Longrightarrow> part_inv cmp p n v xs (Suc pi) plt pj pgt"
  by (auto simp: part_inv_def all_in_Suc)

lemma part_inv_up_eq:
  assumes "part_inv cmp p n v xs pi plt pj pgt" and "pi < pj" and "cmp v (xs ! pi) = 0"
  shows "part_inv cmp p n v (exch xs plt pi) (Suc pi) (Suc plt) pj pgt"
proof -
  have len: "plt < length xs" "pi < length xs" using assms by (auto simp: part_inv_def)
  from assms show ?thesis
    by (auto simp: part_inv_def all_in_def nth_exch [OF len] less_Suc_eq)
qed

lemma scan_up_spec:
  "part_inv cmp p n v xs pi plt pj pgt \<Longrightarrow>
   \<exists>ys pi' plt'. scan_up cmp p pj xs pi plt = Some (ys, pi', plt') \<and> swaps p n xs ys \<and> pi \<le> pi' \<and>
     part_inv cmp p n v ys pi' plt' pj pgt \<and> (pi' < pj \<longrightarrow> gt_than cmp v (ys ! pi'))"
proof (induction "pj - pi" arbitrary: xs pi plt)
  case 0
  then show ?case
    by (subst scan_up.simps) (auto simp: part_inv_def intro: swaps_refl)
next
  case (Suc d)
  then have lt: "pi < pj" and d: "d = pj - Suc pi" by auto
  have len: "p < length xs" "pi < length xs" "plt < length xs" and v: "xs ! p = v"
    and seg: "p \<le> plt" "plt < p + n" "p \<le> pi" "pi < p + n" "p + n \<le> length xs"
    using Suc.prems lt by (auto simp: part_inv_def)
  consider "cmp v (xs ! pi) > 0" | "cmp v (xs ! pi) = 0" | "cmp v (xs ! pi) < 0" by linarith
  then show ?case
  proof cases
    case 1
    from Suc.hyps(1) [OF d part_inv_up_lt [OF Suc.prems lt 1]] obtain ys pi' plt' where
      "scan_up cmp p pj xs (Suc pi) plt = Some (ys, pi', plt')" "swaps p n xs ys" "Suc pi \<le> pi'"
      "part_inv cmp p n v ys pi' plt' pj pgt" "pi' < pj \<longrightarrow> gt_than cmp v (ys ! pi')" by blast
    with lt 1 len v show ?thesis by (subst scan_up.simps) auto
  next
    case 2
    let ?xs = "exch xs plt pi"
    have sw: "swaps p n xs ?xs" using seg by (intro swaps_exch)
    from Suc.hyps(1) [OF d part_inv_up_eq [OF Suc.prems lt 2]] obtain ys pi' plt' where
      "scan_up cmp p pj ?xs (Suc pi) (Suc plt) = Some (ys, pi', plt')" "swaps p n ?xs ys" "Suc pi \<le> pi'"
      "part_inv cmp p n v ys pi' plt' pj pgt" "pi' < pj \<longrightarrow> gt_than cmp v (ys ! pi')" by blast
    with lt 2 len v swaps_trans [OF _ sw, of ys] show ?thesis by (subst scan_up.simps) auto
  next
    case 3
    with lt len v Suc.prems show ?thesis by (subst scan_up.simps) (auto intro: swaps_refl)
  qed
qed

lemma part_inv_down_gt:
  "part_inv cmp p n v xs pi plt pj pgt \<Longrightarrow> pi < pj \<Longrightarrow> gt_than cmp v (xs ! (pj - 1)) \<Longrightarrow>
     part_inv cmp p n v xs pi plt (pj - 1) pgt"
  by (cases pj) (auto simp: part_inv_def all_in_def le_Suc_eq, metis Suc_leI nat_less_le)

lemma part_inv_down_eq:
  assumes "part_inv cmp p n v xs pi plt pj pgt" and "pi < pj" and "cmp v (xs ! (pj - 1)) = 0"
  shows "part_inv cmp p n v (exch xs (pgt - 1) (pj - 1)) pi plt (pj - 1) (pgt - 1)"
proof -
  have len: "pgt - 1 < length xs" "pj - 1 < length xs" using assms by (auto simp: part_inv_def)
  have *: "p < plt" "plt \<le> pi" "pi \<le> pj - 1" "pj - 1 \<le> pgt - 1" "pgt - 1 < p + n" "p + n \<le> length xs" "xs ! p = v"
    "all_in (eq_to cmp v) xs p plt" "all_in (lt_than cmp v) xs plt pi"
    "all_in (gt_than cmp v) xs pj pgt" "all_in (eq_to cmp v) xs pgt (p + n)"
    using assms by (auto simp: part_inv_def)
  let ?ys = "exch xs (pgt - 1) (pj - 1)"
  have nth: "?ys ! k = (if k = pgt - 1 then xs ! (pj - 1) else if k = pj - 1 then xs ! (pgt - 1) else xs ! k)" for k
    using nth_exch [OF len] .
  have "all_in (gt_than cmp v) ?ys (pj - 1) (pgt - 1)"
    unfolding all_in_def
  proof (intro allI impI)
    fix k
    assume k: "pj - 1 \<le> k \<and> k < pgt - 1"
    show "gt_than cmp v (?ys ! k)"
    proof (cases "k = pj - 1")
      case True
      with k assms(2) have "pj \<le> pgt - 1" "pgt - 1 < pgt" by linarith+
      with *(10) True nth k show ?thesis by (simp add: all_in_def)
    next
      case False
      with k have "pj \<le> k" "k < pgt" by linarith+
      with *(10) False nth k show ?thesis by (simp add: all_in_def)
    qed
  qed
  moreover have "all_in (eq_to cmp v) ?ys (pgt - 1) (p + n)"
    unfolding all_in_def
  proof (intro allI impI)
    fix k
    assume k: "pgt - 1 \<le> k \<and> k < p + n"
    show "eq_to cmp v (?ys ! k)"
    proof (cases "k = pgt - 1")
      case True
      with nth assms(3) show ?thesis by simp
    next
      case False
      with k have "pgt \<le> k" "k \<noteq> pj - 1" using *(4) by linarith+
      with *(11) False nth k show ?thesis by (simp add: all_in_def)
    qed
  qed
  moreover have "all_in (eq_to cmp v) ?ys p plt" "all_in (lt_than cmp v) ?ys plt pi" "?ys ! p = v"
    unfolding all_in_def nth using *(1-4,7-9) by (auto simp: all_in_def)
  ultimately show ?thesis using * by (simp add: part_inv_def)
qed

lemma scan_down_spec:
  "part_inv cmp p n v xs pi plt pj pgt \<Longrightarrow> pi < pj \<longrightarrow> gt_than cmp v (xs ! pi) \<Longrightarrow>
   \<exists>ys pj' pgt'. scan_down cmp p pi xs pj pgt = Some (ys, pj', pgt') \<and> swaps p n xs ys \<and>
     (if pi < pj' then pj' < pj \<and> part_inv cmp p n v ys pi plt (Suc pj') pgt' \<and> lt_than cmp v (ys ! pj') \<and> gt_than cmp v (ys ! pi)
      else part_inv cmp p n v ys pi plt pi pgt')"
proof (induction pj arbitrary: xs pgt rule: less_induct)
  case (less pj)
  show ?case
  proof (cases "pi < pj - 1")
    case False
    from less.prems have "part_inv cmp p n v xs pi plt pi pgt"
    proof (cases "pi < pj")
      case True
      with False have "pj - 1 = pi" by simp
      then show ?thesis using part_inv_down_gt [OF less.prems(1) True] less.prems(2) True by simp
    next
      case False
      then have "pi = pj" using less.prems(1) by (auto simp: part_inv_def)
      then show ?thesis using less.prems(1) by simp
    qed
    with False show ?thesis by (subst scan_down_unfold) (auto intro: swaps_refl)
  next
    case True
    then have lt: "pj - 1 < pj" "pi < pj" by auto
    have len: "p < length xs" "pj - 1 < length xs" "pgt - 1 < length xs" and v: "xs ! p = v"
      and seg: "p \<le> pgt - 1" "pgt - 1 < p + n" "p \<le> pj - 1" "pj - 1 < p + n" "p + n \<le> length xs" "pj - 1 \<le> pgt - 1"
      using less.prems lt by (auto simp: part_inv_def)
    consider "cmp v (xs ! (pj - 1)) < 0" | "cmp v (xs ! (pj - 1)) = 0" | "cmp v (xs ! (pj - 1)) > 0" by linarith
    then show ?thesis
    proof cases
      case 1
      from less.IH [OF lt(1) part_inv_down_gt [OF less.prems(1) lt(2) 1]] less.prems(2) lt(2)
      obtain ys pj' pgt' where "scan_down cmp p pi xs (pj - 1) pgt = Some (ys, pj', pgt')" "swaps p n xs ys"
        "if pi < pj' then pj' < pj - 1 \<and> part_inv cmp p n v ys pi plt (Suc pj') pgt' \<and> lt_than cmp v (ys ! pj') \<and> gt_than cmp v (ys ! pi)
         else part_inv cmp p n v ys pi plt pi pgt'" by auto
      with True 1 len v show ?thesis by (subst scan_down_unfold) (auto split: if_splits)
    next
      case 2
      let ?xs = "exch xs (pgt - 1) (pj - 1)"
      have sw: "swaps p n xs ?xs" using seg by (intro swaps_exch)
      have "?xs ! pi = xs ! pi" using len True seg by (simp add: nth_exch)
      with less.IH [OF lt(1) part_inv_down_eq [OF less.prems(1) lt(2) 2]] less.prems(2) lt(2)
      obtain ys pj' pgt' where "scan_down cmp p pi ?xs (pj - 1) (pgt - 1) = Some (ys, pj', pgt')" "swaps p n ?xs ys"
        "if pi < pj' then pj' < pj - 1 \<and> part_inv cmp p n v ys pi plt (Suc pj') pgt' \<and> lt_than cmp v (ys ! pj') \<and> gt_than cmp v (ys ! pi)
         else part_inv cmp p n v ys pi plt pi pgt'" by auto
      with True 2 len v swaps_trans [OF _ sw, of ys] show ?thesis
        by (subst scan_down_unfold) (auto split: if_splits)
    next
      case 3
      with True len v less.prems show ?thesis by (subst scan_down_unfold) (auto intro: swaps_refl)
    qed
  qed
qed

section \<open>The partition\<close>

lemma part_inv_swap:
  assumes "part_inv cmp p n v xs pi plt (Suc pj) pgt" and "pi < pj"
    and "lt_than cmp v (xs ! pj)" and "gt_than cmp v (xs ! pi)"
  shows "part_inv cmp p n v (exch xs pi pj) (Suc pi) plt pj pgt"
proof -
  let ?ys = "exch xs pi pj"
  have len: "pi < length xs" "pj < length xs"
    and b: "p < plt" "plt \<le> pi" "Suc pj \<le> pgt" "pgt \<le> p + n" "p + n \<le> length xs" "xs ! p = v"
    and E1: "all_in (eq_to cmp v) xs p plt" and L: "all_in (lt_than cmp v) xs plt pi"
    and G: "all_in (gt_than cmp v) xs (Suc pj) pgt" and E2: "all_in (eq_to cmp v) xs pgt (p + n)"
    using assms by (auto simp: part_inv_def)
  note keep = all_in_exch_keep [OF _ len]
  have "all_in (lt_than cmp v) ?ys plt (Suc pi)"
    using keep [OF L] assms(2,3) len b by (simp add: all_in_Suc nth_exch)
  moreover have "all_in (gt_than cmp v) ?ys pj pgt"
    unfolding all_in_def nth_exch [OF len] using G assms(2,4) by (auto simp: all_in_def)
  moreover have "all_in (eq_to cmp v) ?ys p plt" using keep [OF E1] assms(2) b by simp
  moreover have "all_in (eq_to cmp v) ?ys pgt (p + n)" using keep [OF E2] assms(2) b by simp
  ultimately show ?thesis using b assms(2) len by (simp add: part_inv_def nth_exch)
qed

lemma part_loop_spec:
  "part_inv cmp p n v xs pi plt pj pgt \<Longrightarrow>
   \<exists>ys pi' plt' pgt'. part_loop cmp p xs pi plt pj pgt = Some (ys, pi', plt', pgt') \<and> swaps p n xs ys \<and>
     part_inv cmp p n v ys pi' plt' pi' pgt'"
proof (induction "pj - pi" arbitrary: xs pi plt pj pgt rule: less_induct)
  case less
  from scan_up_spec [OF less.prems] obtain ys pi' plt' where
    up: "scan_up cmp p pj xs pi plt = Some (ys, pi', plt')" "swaps p n xs ys" "pi \<le> pi'"
      "part_inv cmp p n v ys pi' plt' pj pgt" "pi' < pj \<longrightarrow> gt_than cmp v (ys ! pi')" by blast
  from scan_down_spec [OF up(4,5)] obtain zs pj' pgt' where
    down: "scan_down cmp p pi' ys pj pgt = Some (zs, pj', pgt')" "swaps p n ys zs"
      "if pi' < pj' then pj' < pj \<and> part_inv cmp p n v zs pi' plt' (Suc pj') pgt' \<and> lt_than cmp v (zs ! pj') \<and> gt_than cmp v (zs ! pi')
       else part_inv cmp p n v zs pi' plt' pi' pgt'" by blast
  have sw: "swaps p n xs zs" using swaps_trans [OF down(2) up(2)] .
  show ?case
  proof (cases "pi' < pj'")
    case False
    with up(1) down(1,3) sw show ?thesis by (subst part_loop.simps) simp
  next
    case True
    let ?us = "exch zs pi' pj'"
    from down(3) True have d: "pj' < pj" "part_inv cmp p n v zs pi' plt' (Suc pj') pgt'" "lt_than cmp v (zs ! pj')"
      "gt_than cmp v (zs ! pi')" by auto
    have seg: "p \<le> pi'" "pi' < p + n" "p \<le> pj'" "pj' < p + n" "p + n \<le> length zs"
      using d(2) True by (auto simp: part_inv_def)
    have sw': "swaps p n zs ?us" using seg by (intro swaps_exch)
    have "pj' - Suc pi' < pj - pi" using d(1) up(3) True by auto
    from less.hyps [OF this part_inv_swap [OF d(2) True d(3,4)]] obtain vs pi'' plt'' pgt'' where
      vs: "part_loop cmp p ?us (Suc pi') plt' pj' pgt' = Some (vs, pi'', plt'', pgt'')" "swaps p n ?us vs"
      "part_inv cmp p n v vs pi'' plt'' pi'' pgt''" by blast
    with up(1) down(1) True seg swaps_trans [OF vs(2) swaps_trans [OF sw' sw]] show ?thesis
      by (subst part_loop.simps) auto
  qed
qed

lemma med3_spec:
  assumes "p + n \<le> length xs" and "p \<le> a" "a < p + n" "p \<le> b" "b < p + n" "p \<le> c" "c < p + n"
  shows "\<exists>m. med3 cmp xs a b c = Some m \<and> p \<le> m \<and> m < p + n"
  using assms by (auto simp: med3_def)

text \<open>
  The result of a partitioning step: the segment starts with \<open>lt\<close> elements smaller than the pivot,
  continues with elements equal to it up to \<open>gt\<close> (at least one) and ends with greater ones.
\<close>

lemma rq_partition_spec:
  assumes "6 < n" and "p + n \<le> length xs"
  shows "\<exists>ys lt gt v. rq_partition cmp xs p n = Some (ys, lt, gt) \<and> swaps p n xs ys \<and> lt < gt \<and> gt \<le> n \<and>
    all_in (lt_than cmp v) ys p (p + lt) \<and> all_in (eq_to cmp v) ys (p + lt) (p + gt) \<and>
    all_in (gt_than cmp v) ys (p + gt) (p + n)"
proof -
  let ?top = "p + n"
  have "3 * (n div 4) < n" using assms(1) by linarith
  then obtain m where m: "med3 cmp xs (p + n div 4) (p + 2 * (n div 4)) (p + 3 * (n div 4)) = Some m" "p \<le> m" "m < ?top"
    using med3_spec [OF assms(2), of "p + n div 4" "p + 2 * (n div 4)" "p + 3 * (n div 4)"] by auto
  let ?xs = "exch xs p m" and ?v = "exch xs p m ! p"
  have sw1: "swaps p n xs ?xs" using m assms by (intro swaps_exch) auto
  have "part_inv cmp p n ?v ?xs (p + 1) (p + 1) ?top ?top"
    using assms by (auto simp: part_inv_def all_in_def le_less_Suc_eq)
  from part_loop_spec [OF this] obtain zs pi plt pgt where
    loop: "part_loop cmp p ?xs (p + 1) (p + 1) ?top ?top = Some (zs, pi, plt, pgt)" "swaps p n ?xs zs"
      "part_inv cmp p n ?v zs pi plt pi pgt" by blast
  from loop(3) have b: "p < plt" "plt \<le> pi" "pi \<le> pgt" "pgt \<le> ?top" "?top \<le> length zs"
    and E1: "all_in (eq_to cmp ?v) zs p plt" and L: "all_in (lt_than cmp ?v) zs plt pi"
    and G: "all_in (gt_than cmp ?v) zs pi pgt" and E2: "all_in (eq_to cmp ?v) zs pgt ?top"
    by (auto simp: part_inv_def)
  let ?s = "min (plt - p) (pi - plt)" and ?s' = "min (?top - pgt) (pgt - pi)"
  from block_exchange [OF _ b(2) order_refl _ b(5) E1 L refl] b obtain us where
    us: "swap_block zs p (pi - ?s) ?s = Some us" "swaps p n zs us" "all_in (lt_than cmp ?v) us p (p + (pi - plt))"
      "all_in (eq_to cmp ?v) us (p + (pi - plt)) pi" "\<forall>k. k < p \<or> pi \<le> k \<longrightarrow> us ! k = zs ! k" by auto
  have G': "all_in (gt_than cmp ?v) us pi pgt" and E2': "all_in (eq_to cmp ?v) us pgt ?top"
    using G E2 us(5) b by (auto simp: all_in_def)
  have len: "?top \<le> length us" using swaps_length [OF us(2)] b(5) by simp
  from block_exchange [OF b(3,4) _ order_refl len G' E2', of "min (pgt - pi) (?top - pgt)"] b obtain vs where
    vs: "swap_block us pi (?top - ?s') ?s' = Some vs" "swaps p n us vs"
      "all_in (eq_to cmp ?v) vs pi (pi + (?top - pgt))" "all_in (gt_than cmp ?v) vs (pi + (?top - pgt)) ?top"
      "\<forall>k. k < pi \<or> ?top \<le> k \<longrightarrow> vs ! k = us ! k" by (auto simp: min.commute)
  let ?lt = "pi - plt" and ?gt = "n - (pgt - pi)"
  have eqs: "p + ?gt = pi + (?top - pgt)" "?lt < ?gt" "?gt \<le> n" using b by auto
  have "all_in (lt_than cmp ?v) vs p (p + ?lt)" using us(3) vs(5) b by (auto simp: all_in_def)
  moreover have "all_in (eq_to cmp ?v) vs (p + ?lt) (p + ?gt)"
    unfolding all_in_def
  proof (intro allI impI)
    fix k
    assume k: "p + ?lt \<le> k \<and> k < p + ?gt"
    show "eq_to cmp ?v (vs ! k)"
    proof (cases "k < pi")
      case True
      with us(4) vs(5) k show ?thesis by (simp add: all_in_def)
    next
      case False
      moreover from k have "k < pi + (?top - pgt)" by (simp only: eqs(1))
      ultimately show ?thesis using vs(3) by (simp add: all_in_def)
    qed
  qed
  moreover have "all_in (gt_than cmp ?v) vs (p + ?gt) ?top" using vs(4) by (simp only: eqs(1))
  moreover have "swaps p n xs vs" using sw1 loop(2) us(2) vs(2) swaps_trans by metis
  moreover have "rq_partition cmp xs p n = Some (vs, ?lt, ?gt)"
    using m assms loop(1) us(1) vs(1) by (simp add: rq_partition_def Let_def)
  ultimately show ?thesis using eqs by blast
qed

end
