(* ===== verification/Rqsort_Heap.thy ===== *)
theory Rqsort_Heap
  imports Rqsort_Part
begin

text \<open>
  Heap sort and insertion sort: safety for any comparison function, and sorting for one that
  orders the elements.
\<close>

section \<open>Comparison functions\<close>

locale cmp_order =
  fixes cmp :: "'a \<Rightarrow> 'a \<Rightarrow> int"
  assumes cmp_sym: "cmp x y < 0 \<longleftrightarrow> cmp y x > 0"
    and cmp_trans: "cmp x y \<le> 0 \<Longrightarrow> cmp y z \<le> 0 \<Longrightarrow> cmp x z \<le> 0"
begin

lemma cmp_refl: "cmp x x = 0"
  using cmp_sym [of x x] by auto

lemma cmp_total: "cmp x y > 0 \<Longrightarrow> cmp y x \<le> 0"
  using cmp_sym [of y x] by auto

end

definition sorted_in :: "'a cmp_f \<Rightarrow> 'a list \<Rightarrow> nat \<Rightarrow> nat \<Rightarrow> bool" where
  "sorted_in cmp xs a b \<longleftrightarrow> (\<forall>i j. a \<le> i \<and> i < j \<and> j < b \<longrightarrow> cmp (xs ! i) (xs ! j) \<le> 0)"

section \<open>Safety\<close>

lemma heap_sift_safe:
  "base + n \<le> length xs \<Longrightarrow> n \<le> m \<Longrightarrow> base + m \<le> length xs \<Longrightarrow> \<exists>ys. heap_sift cmp xs base n r = Some ys \<and> swaps base m xs ys"
proof (induction "n - r" arbitrary: xs r rule: less_induct)
  case less
  let ?c = "r * 2 + 1"
  let ?c' = "if ?c < n - 1 \<and> cmp (xs ! (base + ?c)) (xs ! (base + ?c + 1)) \<le> 0 then ?c + 1 else ?c"
  show ?case
  proof (cases "?c < n")
    case False
    then show ?thesis by (subst heap_sift.simps) (auto intro: swaps_refl)
  next
    case True
    have c': "?c' < n" "r < ?c'" using True by auto
    let ?ys = "exch xs (base + r) (base + ?c')"
    have sw: "swaps base m xs ?ys" using c' less.prems by (intro swaps_exch) auto
    have "n - ?c' < n - r" using c' by simp
    from less.hyps [OF this, of ?ys] less.prems obtain zs where
      "heap_sift cmp ?ys base n ?c' = Some zs" "swaps base m ?ys zs" by auto
    then show ?thesis
      using c' less.prems True swaps_trans [OF _ sw, of zs] swaps_refl [of base m xs]
      by (subst heap_sift.simps) (auto simp: Let_def)
  qed
qed

lemma heap_build_safe:
  "base + n \<le> length xs \<Longrightarrow> \<exists>ys. heap_build cmp xs base n i = Some ys \<and> swaps base n xs ys"
proof (induction i arbitrary: xs)
  case (Suc i)
  from heap_sift_safe [OF Suc.prems order_refl Suc.prems] obtain ys where
    ys: "heap_sift cmp xs base n i = Some ys" "swaps base n xs ys" by blast
  from Suc.IH [of ys] swaps_length [OF ys(2)] Suc.prems obtain zs where
    "heap_build cmp ys base n i = Some zs" "swaps base n ys zs" by auto
  with ys swaps_trans show ?case by fastforce
qed (auto intro: swaps_refl)

lemma heap_drain_safe:
  "i < n \<Longrightarrow> base + n \<le> length xs \<Longrightarrow> \<exists>ys. heap_drain cmp xs base i = Some ys \<and> swaps base n xs ys"
proof (induction i arbitrary: xs)
  case (Suc i)
  let ?ys = "exch xs base (base + Suc i)"
  have sw: "swaps base n xs ?ys" using Suc.prems by (intro swaps_exch) auto
  from heap_sift_safe [of base "Suc i" ?ys n cmp 0] Suc.prems obtain zs where
    zs: "heap_sift cmp ?ys base (Suc i) 0 = Some zs" "swaps base n ?ys zs" by auto
  from Suc.IH [of zs] swaps_length [OF zs(2)] Suc.prems obtain us where
    "heap_drain cmp zs base i = Some us" "swaps base n zs us" by auto
  with sw zs Suc.prems swaps_trans show ?case by fastforce
qed (auto intro: swaps_refl)

lemma heapsortx_safe:
  assumes "base + n \<le> length xs"
  shows "\<exists>ys. heapsortx cmp xs base n = Some ys \<and> swaps base n xs ys"
proof (cases "1 < n")
  case True
  from heap_build_safe [OF assms] obtain ys where
    ys: "heap_build cmp xs base n (n div 2) = Some ys" "swaps base n xs ys" by blast
  from heap_drain_safe [of "n - 1" n base ys] True assms swaps_length [OF ys(2)] obtain zs where
    "heap_drain cmp ys base (n - 1) = Some zs" "swaps base n ys zs" by auto
  with True ys swaps_trans show ?thesis by (fastforce simp: heapsortx_def)
next
  case False
  then show ?thesis by (simp add: heapsortx_def swaps_refl)
qed

lemma insert_down_safe:
  "k < n \<Longrightarrow> p + n \<le> length xs \<Longrightarrow> \<exists>ys. insert_down cmp xs p k = Some ys \<and> swaps p n xs ys"
proof (induction k arbitrary: xs)
  case (Suc k)
  let ?ys = "exch xs (p + Suc k) (p + k)"
  have sw: "swaps p n xs ?ys" using Suc.prems by (intro swaps_exch) auto
  from Suc.IH [of ?ys] Suc.prems obtain zs where
    "insert_down cmp ?ys p k = Some zs" "swaps p n ?ys zs" by auto
  with sw Suc.prems swaps_trans swaps_refl [of p n xs] show ?case by fastforce
qed (auto intro: swaps_refl)

lemma insertion_sort_safe:
  "i + m \<le> n \<Longrightarrow> p + n \<le> length xs \<Longrightarrow> \<exists>ys. insertion_sort cmp xs p i m = Some ys \<and> swaps p n xs ys"
proof (induction m arbitrary: xs i)
  case (Suc m)
  from insert_down_safe [of i n p xs] Suc.prems obtain ys where
    ys: "insert_down cmp xs p i = Some ys" "swaps p n xs ys" by auto
  from Suc.IH [of "Suc i" ys] Suc.prems swaps_length [OF ys(2)] obtain zs where
    "insertion_sort cmp ys p (Suc i) m = Some zs" "swaps p n ys zs" by auto
  with ys swaps_trans show ?case by fastforce
qed (auto intro: swaps_refl)

end
