(* ===== verification/Rqsort_Order.thy ===== *)
theory Rqsort_Order
  imports Rqsort_Heap
begin

text \<open>Heap sort and insertion sort order a segment, for a comparison function that is an order.\<close>

section \<open>Heaps\<close>

definition child :: "nat \<Rightarrow> nat \<Rightarrow> bool" where
  "child i c \<longleftrightarrow> c = 2 * i + 1 \<or> c = 2 * i + 2"

lemma child_gt: "child i c \<Longrightarrow> i < c"
  by (auto simp: child_def)

lemma child_unique: "child i c \<Longrightarrow> child j c \<Longrightarrow> i = j"
  by (auto simp: child_def)

text \<open>
  \<open>heap_but cmp xs base n r0 r\<close>: the positions from \<open>r0\<close> on form a heap, except that position \<open>r\<close> may
  be smaller than its children; these are not greater than the parent of \<open>r\<close>.
\<close>

definition heap_from :: "'a cmp_f \<Rightarrow> 'a list \<Rightarrow> nat \<Rightarrow> nat \<Rightarrow> nat \<Rightarrow> bool" where
  "heap_from cmp xs base n r0 \<longleftrightarrow>
     (\<forall>i c. r0 \<le> i \<and> child i c \<and> c < n \<longrightarrow> cmp (xs ! (base + c)) (xs ! (base + i)) \<le> 0)"

definition heap_but :: "'a cmp_f \<Rightarrow> 'a list \<Rightarrow> nat \<Rightarrow> nat \<Rightarrow> nat \<Rightarrow> nat \<Rightarrow> bool" where
  "heap_but cmp xs base n r0 r \<longleftrightarrow>
     (\<forall>i c. r0 \<le> i \<and> i \<noteq> r \<and> child i c \<and> c < n \<longrightarrow> cmp (xs ! (base + c)) (xs ! (base + i)) \<le> 0) \<and>
     (\<forall>q c. r0 \<le> q \<and> child q r \<and> child r c \<and> c < n \<longrightarrow> cmp (xs ! (base + c)) (xs ! (base + q)) \<le> 0)"

context cmp_order
begin

lemma heap_but_no_child:
  assumes "heap_but cmp xs base n r0 r" and "n \<le> 2 * r + 1"
  shows "heap_from cmp xs base n r0"
  unfolding heap_from_def
proof (intro allI impI)
  fix i c
  assume h: "r0 \<le> i \<and> child i c \<and> c < n"
  then have "i \<noteq> r" using assms(2) by (auto simp: child_def)
  with h assms(1) show "cmp (xs ! (base + c)) (xs ! (base + i)) \<le> 0" by (auto simp: heap_but_def)
qed

lemma heap_but_stop:
  assumes "heap_but cmp xs base n r0 r" and "child r c" and "c < n"
    and "\<forall>c'. child r c' \<and> c' < n \<longrightarrow> cmp (xs ! (base + c')) (xs ! (base + c)) \<le> 0"
    and "cmp (xs ! (base + r)) (xs ! (base + c)) > 0"
  shows "heap_from cmp xs base n r0"
  unfolding heap_from_def
proof (intro allI impI)
  fix i d
  assume d: "r0 \<le> i \<and> child i d \<and> d < n"
  show "cmp (xs ! (base + d)) (xs ! (base + i)) \<le> 0"
  proof (cases "i = r")
    case True
    with d assms(4) have "cmp (xs ! (base + d)) (xs ! (base + c)) \<le> 0" by blast
    with cmp_total [OF assms(5)] True cmp_trans show ?thesis by blast
  next
    case False
    with d assms(1) show ?thesis by (auto simp: heap_but_def)
  qed
qed

lemma heap_but_swap:
  assumes "heap_but cmp xs base n r0 r" and "child r c" and "c < n" and "base + n \<le> length xs" and "r0 \<le> r"
    and "\<forall>c'. child r c' \<and> c' < n \<longrightarrow> cmp (xs ! (base + c')) (xs ! (base + c)) \<le> 0"
    and "cmp (xs ! (base + r)) (xs ! (base + c)) \<le> 0"
  shows "heap_but cmp (exch xs (base + r) (base + c)) base n r0 c"
proof -
  let ?ys = "exch xs (base + r) (base + c)"
  have rc: "r < c" using child_gt [OF assms(2)] .
  have len: "base + r < length xs" "base + c < length xs" using assms(3,4) rc by auto
  have nth: "?ys ! (base + k) = (if k = r then xs ! (base + c) else if k = c then xs ! (base + r) else xs ! (base + k))" for k
    using nth_exch [OF len, of "base + k"] by simp
  have other: "cmp (xs ! (base + d)) (xs ! (base + i)) \<le> 0" if "r0 \<le> i" "i \<noteq> r" "child i d" "d < n" for i d
    using assms(1) that by (auto simp: heap_but_def)
  have up: "cmp (xs ! (base + d)) (xs ! (base + q)) \<le> 0" if "r0 \<le> q" "child q r" "child r d" "d < n" for q d
    using assms(1) that by (auto simp: heap_but_def)
  show ?thesis
    unfolding heap_but_def
  proof (intro conjI allI impI)
    fix i d
    assume h: "r0 \<le> i \<and> i \<noteq> c \<and> child i d \<and> d < n"
    then have id: "i < d" using child_gt by blast
    consider "i = r" "d = c" | "i = r" "d \<noteq> c" | "i \<noteq> r" "d = r" | "i \<noteq> r" "d \<noteq> r" by blast
    then show "cmp (?ys ! (base + d)) (?ys ! (base + i)) \<le> 0"
    proof cases
      case 1
      then show ?thesis using assms(7) rc by (simp add: nth)
    next
      case 2
      then show ?thesis using assms(6) h id by (simp add: nth)
    next
      case 3
      then show ?thesis using up [of i c] h assms(2,3) by (simp add: nth)
    next
      case 4
      then have "d \<noteq> c" using h assms(2) child_unique by blast
      then show ?thesis using other [of i d] 4 h by (simp add: nth)
    qed
  next
    fix q d
    assume h: "r0 \<le> q \<and> child q c \<and> child c d \<and> d < n"
    then have q: "q = r" using assms(2) child_unique by blast
    have "c < d" using h child_gt by blast
    then show "cmp (?ys ! (base + d)) (?ys ! (base + q)) \<le> 0"
      using other [of c d] h q rc assms(5) by (simp add: nth)
  qed
qed

lemma heap_sift_heap:
  "heap_but cmp xs base n r0 r \<Longrightarrow> base + n \<le> length xs \<Longrightarrow> r0 \<le> r \<Longrightarrow> heap_sift cmp xs base n r = Some ys \<Longrightarrow>
     heap_from cmp ys base n r0"
proof (induction "n - r" arbitrary: xs r rule: less_induct)
  case less
  let ?c = "r * 2 + 1"
  let ?c' = "if ?c < n - 1 \<and> cmp (xs ! (base + ?c)) (xs ! (base + ?c + 1)) \<le> 0 then ?c + 1 else ?c"
  show ?case
  proof (cases "?c < n")
    case False
    with less.prems(4) have "ys = xs" by (subst (asm) heap_sift.simps) simp
    with False heap_but_no_child [OF less.prems(1)] show ?thesis by simp
  next
    case True
    have c': "?c' < n" "r < ?c'" "child r ?c'" using True by (auto simp: child_def)
    have max: "\<forall>c. child r c \<and> c < n \<longrightarrow> cmp (xs ! (base + c)) (xs ! (base + ?c')) \<le> 0"
    proof (intro allI impI)
      fix c
      assume "child r c \<and> c < n"
      then consider "c = ?c" | "c = ?c + 1" "?c < n - 1" by (fastforce simp: child_def)
      then show "cmp (xs ! (base + c)) (xs ! (base + ?c')) \<le> 0"
        by cases (auto simp: cmp_refl not_le intro: cmp_total)
    qed
    have len: "base + r < length xs" "base + ?c' < length xs" "base + ?c < length xs" "?c < n - 1 \<Longrightarrow> base + ?c + 1 < length xs"
      using c' less.prems(2) True by auto
    have step: "heap_sift cmp xs base n r =
      (if cmp (xs ! (base + r)) (xs ! (base + ?c')) > 0 then Some xs
       else heap_sift cmp (exch xs (base + r) (base + ?c')) base n ?c')"
      using len True by (subst heap_sift.simps) (simp add: Let_def)
    show ?thesis
    proof (cases "cmp (xs ! (base + r)) (xs ! (base + ?c')) > 0")
      case True
      with less.prems(4) step have "ys = xs" by simp
      with heap_but_stop [OF less.prems(1) c'(3,1) max True] show ?thesis by simp
    next
      case False
      then have le: "cmp (xs ! (base + r)) (xs ! (base + ?c')) \<le> 0" by simp
      have "n - ?c' < n - r" using c' by simp
      then show ?thesis
      proof (rule less.hyps)
        show "heap_but cmp (exch xs (base + r) (base + ?c')) base n r0 ?c'"
          by (rule heap_but_swap [OF less.prems(1) c'(3,1) less.prems(2,3) max le])
      qed (use less.prems c' step False in auto)
    qed
  qed
qed

lemma heap_build_heap:
  "heap_from cmp xs base n i \<Longrightarrow> base + n \<le> length xs \<Longrightarrow> heap_build cmp xs base n i = Some ys \<Longrightarrow>
     heap_from cmp ys base n 0"
proof (induction i arbitrary: xs)
  case (Suc i)
  from heap_sift_safe [OF Suc.prems(2) order_refl Suc.prems(2)] obtain zs where
    zs: "heap_sift cmp xs base n i = Some zs" "swaps base n xs zs" by blast
  have "heap_but cmp xs base n i i"
    using Suc.prems(1) child_gt unfolding heap_but_def heap_from_def by (metis Suc_leI le_neq_implies_less not_less)
  from heap_sift_heap [OF this Suc.prems(2) order_refl zs(1)] swaps_length [OF zs(2)] Suc.prems zs(1)
  show ?case by (intro Suc.IH [of zs]) simp_all
qed simp

lemma heap_root_max: "heap_from cmp xs base n 0 \<Longrightarrow> j < n \<Longrightarrow> cmp (xs ! (base + j)) (xs ! base) \<le> 0"
proof (induction j rule: less_induct)
  case (less j)
  show ?case
  proof (cases j)
    case 0
    then show ?thesis by (simp add: cmp_refl)
  next
    case (Suc k)
    let ?q = "k div 2"
    have ch: "child ?q j" using Suc by (auto simp: child_def)
    have "?q < j" "?q < n" using child_gt [OF ch] less.prems(2) by auto
    from less.IH [OF this(1) less.prems(1) this(2)] have "cmp (xs ! (base + ?q)) (xs ! base) \<le> 0" .
    moreover have "cmp (xs ! (base + j)) (xs ! (base + ?q)) \<le> 0"
      using less.prems ch by (auto simp: heap_from_def)
    ultimately show ?thesis using cmp_trans by blast
  qed
qed

text \<open>The second phase: a heap of \<open>k\<close> elements, then the greatest elements in order.\<close>

definition drain_inv :: "'a list \<Rightarrow> nat \<Rightarrow> nat \<Rightarrow> nat \<Rightarrow> bool" where
  "drain_inv xs base k n \<longleftrightarrow> heap_from cmp xs base k 0 \<and> sorted_in cmp xs (base + k) (base + n) \<and>
     (\<forall>i j. i < k \<and> k \<le> j \<and> j < n \<longrightarrow> cmp (xs ! (base + i)) (xs ! (base + j)) \<le> 0)"

lemma drain_step:
  assumes inv: "drain_inv xs base (Suc (Suc i)) n" and n: "Suc i < n" "base + n \<le> length xs"
    and sift: "heap_sift cmp (exch xs base (base + Suc i)) base (Suc i) 0 = Some zs"
  shows "drain_inv zs base (Suc i) n"
proof -
  let ?ys = "exch xs base (base + Suc i)"
  have len: "base < length xs" "base + Suc i < length xs" using n by auto
  have nth: "?ys ! (base + k) = (if k = 0 then xs ! (base + Suc i) else if k = Suc i then xs ! base else xs ! (base + k))" for k
    using nth_exch [OF len, of "base + k"] by simp
  have heap: "heap_from cmp xs base (Suc (Suc i)) 0" using inv by (simp add: drain_inv_def)
  have "heap_but cmp ?ys base (Suc i) 0 0"
    unfolding heap_but_def
  proof (intro conjI allI impI)
    fix j c
    assume h: "0 \<le> j \<and> j \<noteq> 0 \<and> child j c \<and> c < Suc i"
    then have "j < c" using child_gt by blast
    then show "cmp (?ys ! (base + c)) (?ys ! (base + j)) \<le> 0"
      using h heap nth by (auto simp: heap_from_def)
  qed (auto simp: child_def)
  from heap_sift_heap [OF this _ order_refl sift] n have h: "heap_from cmp zs base (Suc i) 0" by simp
  obtain zs' where "heap_sift cmp ?ys base (Suc i) 0 = Some zs'" "swaps base (Suc i) ?ys zs'"
    using heap_sift_safe [of base "Suc i" ?ys "Suc i" cmp 0] n by auto
  with sift have sw: "swaps base (Suc i) ?ys zs" by simp
  have hi: "zs ! (base + j) = (if j = Suc i then xs ! base else xs ! (base + j))" if "Suc i \<le> j" for j
    using swaps_outside [OF sw, of "base + j"] that nth [of j] by simp
  have lo: "\<exists>k \<le> Suc i. zs ! (base + j) = xs ! (base + k)" if j: "j < Suc i" for j
  proof -
    from swaps_inside [OF sw, of "base + j"] j obtain k where k: "base \<le> k" "k < base + Suc i" "zs ! (base + j) = ?ys ! k" by auto
    then obtain k' where "k = base + k'" "k' < Suc i" by (metis add_less_cancel_left le_Suc_ex)
    with k(3) nth [of k'] show ?thesis by (cases "k' = 0") (auto intro: exI [of _ "Suc i"] exI [of _ k'])
  qed
  have big: "cmp (xs ! (base + k)) (xs ! (base + j)) \<le> 0" if "k < Suc (Suc i)" "Suc (Suc i) \<le> j" "j < n" for k j
    using inv that by (auto simp: drain_inv_def)
  have root: "cmp (xs ! (base + k)) (xs ! base) \<le> 0" if "k < Suc (Suc i)" for k
    using heap_root_max [OF heap that] .
  have "cmp (zs ! (base + a)) (zs ! (base + b)) \<le> 0" if ab: "a < Suc i" "Suc i \<le> b" "b < n" for a b
  proof -
    from lo [OF ab(1)] obtain k where k: "k \<le> Suc i" "zs ! (base + a) = xs ! (base + k)" by blast
    show ?thesis
    proof (cases "b = Suc i")
      case True
      with hi [of b] k root [of k] show ?thesis by simp
    next
      case False
      with hi [of b] k big [of k b] ab show ?thesis by simp
    qed
  qed
  moreover have "sorted_in cmp zs (base + Suc i) (base + n)"
    unfolding sorted_in_def
  proof (intro allI impI)
    fix a b
    assume asm: "base + Suc i \<le> a \<and> a < b \<and> b < base + n"
    define a' b' where "a' = a - base" and "b' = b - base"
    with asm have ab: "a = base + a'" "b = base + b'" "Suc i \<le> a'" "a' < b'" "b' < n" by auto
    show "cmp (zs ! a) (zs ! b) \<le> 0"
    proof (cases "a' = Suc i")
      case True
      with ab hi [of a'] hi [of b'] big [of 0 b'] show ?thesis by simp
    next
      case False
      with ab hi [of a'] hi [of b'] inv show ?thesis by (simp add: drain_inv_def sorted_in_def)
    qed
  qed
  ultimately show ?thesis using h by (auto simp: drain_inv_def)
qed

lemma heap_drain_sorted:
  "drain_inv xs base (Suc i) n \<Longrightarrow> i < n \<Longrightarrow> base + n \<le> length xs \<Longrightarrow> heap_drain cmp xs base i = Some ys \<Longrightarrow>
     sorted_in cmp ys base (base + n)"
proof (induction i arbitrary: xs)
  case 0
  show ?case
    unfolding sorted_in_def
  proof (intro allI impI)
    fix a b
    assume ab: "base \<le> a \<and> a < b \<and> b < base + n"
    define b' where "b' = b - base"
    with ab have b': "b = base + b'" "Suc 0 \<le> b'" "b' < n" by auto
    from 0 have ys: "ys = xs" and inv: "sorted_in cmp xs (base + 1) (base + n)"
      "\<And>j. Suc 0 \<le> j \<Longrightarrow> j < n \<Longrightarrow> cmp (xs ! base) (xs ! (base + j)) \<le> 0"
      by (auto simp: drain_inv_def)
    show "cmp (ys ! a) (ys ! b) \<le> 0"
      using ab b' inv ys by (cases "a = base") (auto simp: sorted_in_def)
  qed
next
  case (Suc i)
  let ?ys = "exch xs base (base + Suc i)"
  from heap_sift_safe [of base "Suc i" ?ys n cmp 0] Suc.prems obtain zs where
    zs: "heap_sift cmp ?ys base (Suc i) 0 = Some zs" "swaps base n ?ys zs" by auto
  from drain_step [OF Suc.prems(1) _ Suc.prems(3) zs(1)] Suc.prems(2) have "drain_inv zs base (Suc i) n" by simp
  from Suc.IH [OF this] Suc.prems zs swaps_length [OF zs(2)] show ?case by simp
qed

lemma heapsortx_sorted:
  assumes "base + n \<le> length xs" and "heapsortx cmp xs base n = Some ys"
  shows "sorted_in cmp ys base (base + n)"
proof (cases "1 < n")
  case True
  from heap_build_safe [OF assms(1)] obtain zs where
    zs: "heap_build cmp xs base n (n div 2) = Some zs" "swaps base n xs zs" by blast
  have "heap_from cmp xs base n (n div 2)" by (auto simp: heap_from_def child_def)
  from heap_build_heap [OF this assms(1) zs(1)] have "drain_inv zs base (Suc (n - 1)) n"
    using True by (simp add: drain_inv_def sorted_in_def)
  from heap_drain_sorted [OF this] True assms zs swaps_length [OF zs(2)] show ?thesis
    by (simp add: heapsortx_def)
next
  case False
  then show ?thesis by (auto simp: sorted_in_def)
qed

section \<open>Insertion sort\<close>

text \<open>Sinking the element at \<open>k\<close> into the sorted prefix: everything but the sinking element is in order.\<close>

definition sink_inv :: "'a list \<Rightarrow> nat \<Rightarrow> nat \<Rightarrow> nat \<Rightarrow> bool" where
  "sink_inv xs p k m \<longleftrightarrow> (\<forall>i j. i < j \<and> j < m \<and> j \<noteq> k \<longrightarrow> cmp (xs ! (p + i)) (xs ! (p + j)) \<le> 0)"

lemma insert_down_sorted:
  "sink_inv xs p k m \<Longrightarrow> k < m \<Longrightarrow> p + m \<le> length xs \<Longrightarrow> insert_down cmp xs p k = Some ys \<Longrightarrow>
     sorted_in cmp ys p (p + m)"
proof (induction k arbitrary: xs)
  case 0
  show ?case
    unfolding sorted_in_def
  proof (intro allI impI)
    fix a b
    assume ab: "p \<le> a \<and> a < b \<and> b < p + m"
    define a' b' where "a' = a - p" and "b' = b - p"
    with ab have "a = p + a'" "b = p + b'" "a' < b'" "b' < m" by auto
    with 0 show "cmp (ys ! a) (ys ! b) \<le> 0" by (auto simp: sink_inv_def)
  qed
next
  case (Suc k)
  have len: "p + Suc k < length xs" "p + k < length xs" using Suc.prems by auto
  show ?case
  proof (cases "cmp (xs ! (p + k)) (xs ! (p + Suc k)) > 0")
    case True
    let ?zs = "exch xs (p + Suc k) (p + k)"
    have nth: "?zs ! (p + i) = (if i = Suc k then xs ! (p + k) else if i = k then xs ! (p + Suc k) else xs ! (p + i))" for i
      using nth_exch [OF len, of "p + i"] by simp
    have "sink_inv ?zs p k m"
      unfolding sink_inv_def
    proof (intro allI impI)
      fix i j
      assume ij: "i < j \<and> j < m \<and> j \<noteq> k"
      consider "j = Suc k" "i = k" | "j = Suc k" "i < k" | "j \<noteq> Suc k" "i = k" | "j \<noteq> Suc k" "i \<noteq> k"
        using ij by linarith
      then show "cmp (?zs ! (p + i)) (?zs ! (p + j)) \<le> 0"
      proof cases
        case 1
        then show ?thesis using cmp_total [OF True] nth [of i] nth [of j] by simp
      next
        case 2
        then show ?thesis using Suc.prems(1,2) ij nth [of i] nth [of j] by (simp add: sink_inv_def)
      next
        case 3
        then have "Suc k < j" using ij by simp
        then have "cmp (xs ! (p + Suc k)) (xs ! (p + j)) \<le> 0"
          using Suc.prems(1) ij 3(1) unfolding sink_inv_def by blast
        then show ?thesis using 3 ij nth [of i] nth [of j] by simp
      next
        case 4
        then have "cmp (xs ! (p + (if i = Suc k then k else i))) (xs ! (p + j)) \<le> 0"
          using Suc.prems(1) ij by (auto simp: sink_inv_def)
        then show ?thesis using 4 ij nth [of i] nth [of j] by (simp split: if_splits)
      qed
    qed
    from Suc.IH [OF this] Suc.prems True len show ?thesis by simp
  next
    case False
    with Suc.prems len have "ys = xs" by simp
    have "cmp (xs ! (p + i)) (xs ! (p + j)) \<le> 0" if "i < j" "j < m" for i j
    proof (cases "j = Suc k")
      case True
      show ?thesis
      proof (cases "i = k")
        case True
        with \<open>j = Suc k\<close> \<open>\<not> cmp (xs ! (p + k)) (xs ! (p + Suc k)) > 0\<close> show ?thesis by simp
      next
        case False
        with that True have "i < k" by simp
        then have "cmp (xs ! (p + i)) (xs ! (p + k)) \<le> 0" using Suc.prems(1,2) by (auto simp: sink_inv_def)
        with \<open>j = Suc k\<close> \<open>\<not> cmp (xs ! (p + k)) (xs ! (p + Suc k)) > 0\<close> show ?thesis using cmp_trans by (meson not_less)
      qed
    next
      case False
      with that Suc.prems(1) show ?thesis by (auto simp: sink_inv_def)
    qed
    then have all: "cmp (xs ! (p + i)) (xs ! (p + j)) \<le> 0" if "i < j" "j < m" for i j using that by blast
    show ?thesis
      unfolding sorted_in_def \<open>ys = xs\<close>
    proof (intro allI impI)
      fix a b
      assume "p \<le> a \<and> a < b \<and> b < p + m"
      then show "cmp (xs ! a) (xs ! b) \<le> 0" using all [of "a - p" "b - p"] by auto
    qed
  qed
qed

lemma insertion_sort_sorted:
  "sorted_in cmp xs p (p + i) \<Longrightarrow> p + (i + m) \<le> length xs \<Longrightarrow> insertion_sort cmp xs p i m = Some ys \<Longrightarrow>
     sorted_in cmp ys p (p + (i + m))"
proof (induction m arbitrary: xs i)
  case (Suc m)
  from insert_down_safe [of i "Suc i" p xs cmp] Suc.prems(2) obtain zs where
    zs: "insert_down cmp xs p i = Some zs" "swaps p (Suc i) xs zs" by auto
  have "sink_inv xs p i (Suc i)"
    using Suc.prems(1) by (auto simp: sink_inv_def sorted_in_def)
  from insert_down_sorted [OF this _ _ zs(1)] Suc.prems(2) have "sorted_in cmp zs p (p + Suc i)" by simp
  from Suc.IH [OF this] Suc.prems zs swaps_length [OF zs(2)] show ?case by simp
qed simp

end

end
