(* ===== verification/Rqsort_Main.thy ===== *)
theory Rqsort_Main
  imports Rqsort_Order
begin

text \<open>
  The driver of \<open>rqsort\<close>: the loop over the stack of segments, its termination, the bound on the
  stack, and correctness.
\<close>

section \<open>The driver\<close>

partial_function (option) rq_outer :: "'a cmp_f \<Rightarrow> 'a list \<Rightarrow> segment list \<Rightarrow> 'a list option" where
  "rq_outer cmp xs stack = (case stack of
     [] \<Rightarrow> Some xs
   | (base, cnt, depth) # stack0 \<Rightarrow> do {
       (ys, stack', ptr, nmemb) \<leftarrow> rq_inner cmp xs stack0 base cnt depth;
       zs \<leftarrow> insertion_sort cmp ys ptr 1 (nmemb - 1);
       rq_outer cmp zs stack'
     })"

definition rqsort :: "'a cmp_f \<Rightarrow> 'a list \<Rightarrow> 'a list option" where
  "rqsort cmp xs = (if length xs < 2 then Some xs else rq_outer cmp xs [(0, length xs, 0)])"

section \<open>The stack\<close>

text \<open>Depths grow strictly towards the top of the stack, so at depth \<open>d\<close> it holds at most \<open>d\<close> segments.\<close>

fun stk_ok :: "nat \<Rightarrow> segment list \<Rightarrow> bool" where
  "stk_ok d [] = True"
| "stk_ok d ((p, n, e) # st) \<longleftrightarrow> 1 \<le> e \<and> e \<le> d \<and> stk_ok (e - 1) st"

lemma stk_ok_mono: "stk_ok d st \<Longrightarrow> d \<le> d' \<Longrightarrow> stk_ok d' st"
  by (cases st) auto

lemma stk_ok_length: "stk_ok d st \<Longrightarrow> length st \<le> d"
proof (induction d st rule: stk_ok.induct)
  case (2 d p n e st)
  then have "length st \<le> e - 1" "1 \<le> e" "e \<le> d" by auto
  then show ?case by simp
qed simp

definition apart :: "segment \<Rightarrow> segment \<Rightarrow> bool" where
  "apart s t = (case (s, t) of ((p, n, d), (q, m, e)) \<Rightarrow> p + n \<le> q \<or> q + m \<le> p)"

definition segs_ok :: "nat \<Rightarrow> segment list \<Rightarrow> bool" where
  "segs_ok N st \<longleftrightarrow> (\<forall>(p, n, d) \<in> set st. p + n \<le> N) \<and> sorted_wrt apart st"

fun weight :: "segment list \<Rightarrow> nat" where
  "weight [] = 0"
| "weight ((p, n, d) # st) = Suc n + weight st"

text \<open>What is left to do: two positions may be out of order only inside one pending segment.\<close>

definition pending :: "segment list \<Rightarrow> nat \<Rightarrow> nat \<Rightarrow> bool" where
  "pending st i j \<longleftrightarrow> (\<exists>(p, n, d) \<in> set st. p \<le> i \<and> j < p + n)"

definition ord_inv :: "'a cmp_f \<Rightarrow> 'a list \<Rightarrow> segment list \<Rightarrow> bool" where
  "ord_inv cmp xs st \<longleftrightarrow> (\<forall>i j. i < j \<and> j < length xs \<longrightarrow> cmp (xs ! i) (xs ! j) \<le> 0 \<or> pending st i j)"

lemma ord_inv_refine:
  assumes inv: "ord_inv cmp xs ((p, n, d) # st)" and segs: "segs_ok (length xs) ((p, n, d) # st)" and sw: "swaps p n xs ys"
    and inside: "\<And>i j. p \<le> i \<Longrightarrow> i < j \<Longrightarrow> j < p + n \<Longrightarrow> cmp (ys ! i) (ys ! j) \<le> 0 \<or> pending T i j"
  shows "ord_inv cmp ys (T @ st)"
  unfolding ord_inv_def
proof (intro allI impI)
  fix i j
  assume ij: "i < j \<and> j < length ys"
  have len: "length ys = length xs" using swaps_length [OF sw] .
  have free: "\<not> pending st a b" if "a \<le> k" "k \<le> b" "p \<le> k" "k < p + n" for a b k
    using segs that by (auto simp: segs_ok_def pending_def apart_def)
  have old: "cmp (xs ! a) (xs ! b) \<le> 0 \<or> pending st a b" if "a < b" "b < length xs" "\<not> (p \<le> a \<and> b < p + n)" for a b
    using inv that by (auto simp: ord_inv_def pending_def)
  consider "p \<le> i" "j < p + n" | "i < p" "p \<le> j" "j < p + n" | "p \<le> i" "i < p + n" "p + n \<le> j"
    | "i < p \<or> p + n \<le> i" "j < p \<or> p + n \<le> j" by linarith
  then have "cmp (ys ! i) (ys ! j) \<le> 0 \<or> pending T i j \<or> pending st i j"
  proof cases
    case 1
    then show ?thesis using inside ij by blast
  next
    case 2
    from swaps_inside [OF sw 2(2,3)] obtain j' where j': "p \<le> j'" "j' < p + n" "ys ! j = xs ! j'" by blast
    have "ys ! i = xs ! i" using swaps_outside [OF sw] 2 by simp
    moreover have "p + n \<le> length xs" using segs by (auto simp: segs_ok_def)
    moreover have "\<not> pending st i j'" using free [of i j' j'] 2 j' by auto
    ultimately show ?thesis using old [of i j'] 2 j' by auto
  next
    case 3
    from swaps_inside [OF sw 3(1,2)] obtain i' where i': "p \<le> i'" "i' < p + n" "ys ! i = xs ! i'" by blast
    have "ys ! j = xs ! j" using swaps_outside [OF sw] 3 by simp
    moreover have "i' < j" using 3 i' by simp
    moreover have "\<not> pending st i' j" using free [of i' i' j] 3 i' by auto
    ultimately show ?thesis using old [of i' j] 3 i' ij len by auto
  next
    case 4
    then have "ys ! i = xs ! i" "ys ! j = xs ! j" using swaps_outside [OF sw] by auto
    then show ?thesis using old [of i j] 4 ij len by auto
  qed
  then show "cmp (ys ! i) (ys ! j) \<le> 0 \<or> pending (T @ st) i j" by (auto simp: pending_def)
qed

lemma segs_ok_split:
  assumes "segs_ok N ((p, n, d) # st)" and "lt \<le> gt" and "gt \<le> n"
  shows "segs_ok N ((p + gt, n - gt, e) # (p, lt, e') # st)" and "segs_ok N ((p, lt, e') # (p + gt, n - gt, e) # st)"
  using assms by (auto simp: segs_ok_def apart_def)

context cmp_order
begin

lemma classes_ordered:
  assumes "all_in (lt_than cmp v) ys p (p + lt)" and "all_in (eq_to cmp v) ys (p + lt) (p + gt)"
    and "all_in (gt_than cmp v) ys (p + gt) (p + n)" and "p \<le> i" and "i < j" and "j < p + n"
  shows "cmp (ys ! i) (ys ! j) \<le> 0 \<or> i < p + lt \<and> j < p + lt \<or> p + gt \<le> i"
proof -
  have up: "cmp v x \<le> 0" if "eq_to cmp v x \<or> gt_than cmp v x" for x using that cmp_refl by auto
  have down: "cmp x v \<le> 0" if "eq_to cmp v x \<or> lt_than cmp v x" for x
    using that cmp_refl [of v] cmp_total [of v x] cmp_sym [of v x] by auto
  have lo: "cmp (ys ! i) v \<le> 0" if "i < p + gt"
    using assms(1,2,4) that down [of "ys ! i"] unfolding all_in_def by (meson not_less)
  have hi: "cmp v (ys ! j) \<le> 0" if "p + lt \<le> j"
    using assms(2,3,6) that up [of "ys ! j"] unfolding all_in_def by (meson not_less)
  from lo hi cmp_trans show ?thesis using assms(5) by (meson leI less_trans)
qed

end

text \<open>Whatever a routine does inside the segment on top, if it leaves it ordered the segment is done.\<close>

lemma ord_inv_sorted:
  assumes "ord_inv cmp xs ((p, n, d) # st)" and "segs_ok (length xs) ((p, n, d) # st)" and "swaps p n xs ys"
    and "sorted_in cmp ys p (p + n)"
  shows "ord_inv cmp ys st"
  using ord_inv_refine [OF assms(1-3), of "[]"] assms(4) by (simp add: sorted_in_def)

text \<open>A partitioning step, with either half on top.\<close>

lemma partition_step:
  assumes "6 < n" and segs: "segs_ok (length xs) ((p, n, d) # st)" and run: "rq_partition cmp xs p n = Some (ys, lt, gt)"
  shows "swaps p n xs ys \<and> lt < gt \<and> gt \<le> n \<and>
    (cmp_order cmp \<and> ord_inv cmp xs ((p, n, d) # st) \<longrightarrow>
      ord_inv cmp ys ((p + gt, n - gt, e) # (p, lt, e) # st) \<and> ord_inv cmp ys ((p, lt, e) # (p + gt, n - gt, e) # st))"
proof -
  have "p + n \<le> length xs" using segs by (auto simp: segs_ok_def)
  from rq_partition_spec [OF assms(1) this, of cmp] run obtain v where
    sw: "swaps p n xs ys" and b: "lt < gt" "gt \<le> n" and
    cl: "all_in (lt_than cmp v) ys p (p + lt)" "all_in (eq_to cmp v) ys (p + lt) (p + gt)"
      "all_in (gt_than cmp v) ys (p + gt) (p + n)" by auto
  have "ord_inv cmp ys (T @ st)"
    if ord: "cmp_order cmp" "ord_inv cmp xs ((p, n, d) # st)" and T: "set T = {(p, lt, e), (p + gt, n - gt, e)}" for T
  proof (rule ord_inv_refine [OF ord(2) segs sw])
    fix i j
    assume "p \<le> i" "i < j" "j < p + n"
    with cmp_order.classes_ordered [OF ord(1) cl this] b T show "cmp (ys ! i) (ys ! j) \<le> 0 \<or> pending T i j"
      by (auto simp: pending_def)
  qed
  from this [of "[(p + gt, n - gt, e), (p, lt, e)]"] this [of "[(p, lt, e), (p + gt, n - gt, e)]"] sw b show ?thesis
    by auto
qed

section \<open>The inner loop\<close>

definition inner_ok :: "'a cmp_f \<Rightarrow> 'a list \<Rightarrow> segment list \<Rightarrow> ('a list \<times> segment list \<times> nat \<times> nat) option \<Rightarrow> bool" where
  "inner_ok cmp xs segs r \<longleftrightarrow> (\<exists>ys st p n d. r = Some (ys, st, p, n) \<and> mset ys = mset xs \<and>
     segs_ok (length xs) ((p, n, d) # st) \<and> stk_ok 50 st \<and> weight ((p, n, d) # st) \<le> weight segs \<and>
     (cmp_order cmp \<and> ord_inv cmp xs segs \<longrightarrow> ord_inv cmp ys ((p, n, d) # st)))"

lemma inner_ok_step:
  assumes "inner_ok cmp ys T r" and "swaps p n xs ys" and "weight T \<le> weight S"
    and "cmp_order cmp \<and> ord_inv cmp xs S \<longrightarrow> ord_inv cmp ys T"
  shows "inner_ok cmp xs S r"
  using assms swaps_length [OF assms(2)] swaps_mset [OF assms(2)] unfolding inner_ok_def
  by (fastforce intro: le_trans)

lemma rq_inner_spec:
  "segs_ok (length xs) ((p, n, d) # st) \<Longrightarrow> stk_ok d st \<Longrightarrow> d \<le> 50 \<Longrightarrow>
     inner_ok cmp xs ((p, n, d) # st) (rq_inner cmp xs st p n d)"
proof (induction "50 - d" arbitrary: xs st p n d rule: less_induct)
  case less
  note segs = less.prems(1)
  have bound: "p + n \<le> length xs" using segs by (auto simp: segs_ok_def)
  consider "n \<le> 6" | "6 < n" "d = 50" | "6 < n" "d < 50" using less.prems(3) by linarith
  then show ?case
  proof cases
    case 1
    with less.prems stk_ok_mono show ?thesis
      by (subst rq_inner.simps) (auto simp: inner_ok_def)
  next
    case 2
    from heapsortx_safe [OF bound, of cmp] obtain ys where
      ys: "heapsortx cmp xs p n = Some ys" "swaps p n xs ys" by blast
    have "ord_inv cmp ys ((p, 0, d) # st)" if "cmp_order cmp" "ord_inv cmp xs ((p, n, d) # st)"
      using ord_inv_sorted [OF that(2) segs ys(2) cmp_order.heapsortx_sorted [OF that(1) bound ys(1)]]
      by (auto simp: ord_inv_def pending_def)
    moreover have "segs_ok (length xs) ((p, 0, d) # st)" using segs by (fastforce simp: segs_ok_def apart_def)
    moreover have "rq_inner cmp xs st p n d = Some (ys, st, p, 0)" using 2 ys by (subst rq_inner.simps) simp
    ultimately show ?thesis using ys swaps_mset [OF ys(2)] less.prems 2 unfolding inner_ok_def by fastforce
  next
    case 3
    from rq_partition_spec [OF 3(1) bound, of cmp] obtain ys lt gt where
      run: "rq_partition cmp xs p n = Some (ys, lt, gt)" by blast
    let ?l = "(p, lt, d + 1)" and ?r = "(p + gt, n - gt, d + 1)"
    note step = partition_step [OF 3(1) segs run, of "d + 1"]
    have len: "length ys = length xs" using step swaps_length by blast
    have room: "length st < 50" using stk_ok_length [OF less.prems(2)] 3 by simp
    have d: "50 - (d + 1) < 50 - d" "d + 1 \<le> 50" using 3 by auto
    have stk: "stk_ok (d + 1) ((q, m, d + 1) # st)" for q m using less.prems(2) by simp
    have r: "inner_ok cmp ys (?r # ?l # st) (rq_inner cmp ys (?l # st) (p + gt) (n - gt) (d + 1))"
      using segs_ok_split(1) [OF segs, of lt gt "d + 1" "d + 1"] step len by (intro less.hyps [OF d(1) _ stk d(2)]) simp
    have l: "inner_ok cmp ys (?l # ?r # st) (rq_inner cmp ys (?r # st) p lt (d + 1))"
      using segs_ok_split(2) [OF segs, of lt gt "d + 1" "d + 1"] step len by (intro less.hyps [OF d(1) _ stk d(2)]) simp
    have "inner_ok cmp xs ((p, n, d) # st) (rq_inner cmp ys (?l # st) (p + gt) (n - gt) (d + 1))"
      by (rule inner_ok_step [OF r conjunct1 [OF step]]) (use step in auto)
    moreover have "inner_ok cmp xs ((p, n, d) # st) (rq_inner cmp ys (?r # st) p lt (d + 1))"
      by (rule inner_ok_step [OF l conjunct1 [OF step]]) (use step in auto)
    ultimately show ?thesis using 3 run room by (subst rq_inner.simps) simp
  qed
qed

section \<open>The outer loop\<close>

lemma rq_outer_spec:
  "segs_ok (length xs) st \<Longrightarrow> stk_ok 50 st \<or> st = [(0, length xs, 0)] \<Longrightarrow>
     \<exists>ys. rq_outer cmp xs st = Some ys \<and> mset ys = mset xs \<and>
       (cmp_order cmp \<and> ord_inv cmp xs st \<longrightarrow> ord_inv cmp ys [])"
proof (induction "weight st" arbitrary: xs st rule: less_induct)
  case less
  show ?case
  proof (cases st)
    case Nil
    then show ?thesis by (subst rq_outer.simps) simp
  next
    case (Cons seg st0)
    then obtain p n d where st: "st = (p, n, d) # st0" by (metis prod_cases3)
    then have "stk_ok d st0" "d \<le> 50" using less.prems(2) stk_ok_mono [of "d - 1" st0 d] by auto
    from rq_inner_spec [OF less.prems(1) [unfolded st] this, of cmp] obtain ys st' q m e where
      inner: "rq_inner cmp xs st0 p n d = Some (ys, st', q, m)" "mset ys = mset xs"
        "segs_ok (length xs) ((q, m, e) # st')" "stk_ok 50 st'" "weight ((q, m, e) # st') \<le> weight st"
        "cmp_order cmp \<and> ord_inv cmp xs st \<longrightarrow> ord_inv cmp ys ((q, m, e) # st')"
      unfolding inner_ok_def st by blast
    have len: "length ys = length xs" using inner(2) by (metis size_mset)
    have bound: "q + m \<le> length ys" using inner(3) len by (auto simp: segs_ok_def)
    have "\<exists>zs. insertion_sort cmp ys q 1 (m - 1) = Some zs \<and> swaps q m ys zs"
    proof (cases "m = 0")
      case False
      then show ?thesis using bound by (intro insertion_sort_safe) auto
    qed (simp add: swaps_refl)
    then obtain zs where zs: "insertion_sort cmp ys q 1 (m - 1) = Some zs" "swaps q m ys zs" by blast
    have sorted: "sorted_in cmp zs q (q + m)" if "cmp_order cmp"
    proof (cases "m = 0")
      case False
      then show ?thesis
        using cmp_order.insertion_sort_sorted [OF that _ _ zs(1)] bound by (auto simp: sorted_in_def)
    qed (simp add: sorted_in_def)
    have lenz: "length zs = length xs" using swaps_length [OF zs(2)] len by simp
    have "segs_ok (length zs) st'" using inner(3) lenz by (auto simp: segs_ok_def)
    moreover have "weight st' < weight st" using inner(5) by simp
    ultimately obtain us where us: "rq_outer cmp zs st' = Some us" "mset us = mset zs"
      "cmp_order cmp \<and> ord_inv cmp zs st' \<longrightarrow> ord_inv cmp us []"
      using less.hyps [of st' zs] inner(4) by blast
    have "ord_inv cmp zs st'" if "cmp_order cmp" "ord_inv cmp xs st"
      by (rule ord_inv_sorted [OF _ _ zs(2) sorted [OF that(1)], where d = e]) (use inner(3,6) that len in simp_all)
    moreover have "rq_outer cmp xs st = Some us" unfolding st
      using inner(1) zs(1) us(1) by (subst rq_outer.simps) simp
    ultimately show ?thesis using us inner(2) swaps_mset [OF zs(2)] by simp
  qed
qed

lemma ord_inv_Nil: "ord_inv cmp xs [] \<longleftrightarrow> sorted_wrt (\<lambda>x y. cmp x y \<le> 0) xs"
  by (auto simp: ord_inv_def pending_def sorted_wrt_iff_nth_less)

text \<open>
  C18. For every comparison function whatsoever, also one that is not an order, \<open>rqsort\<close> returns, never
  touches memory outside the array, never overflows its stack of fifty segments, and leaves a
  permutation of the array.
\<close>

theorem rqsort_safe: "\<exists>ys. rqsort cmp xs = Some ys \<and> mset ys = mset xs"
proof (cases "length xs < 2")
  case True
  then show ?thesis by (simp add: rqsort_def)
next
  case False
  have "segs_ok (length xs) [(0, length xs, 0)]" by (simp add: segs_ok_def)
  from rq_outer_spec [OF this] show ?thesis using False by (auto simp: rqsort_def)
qed

text \<open>
  C17. With a comparison function that orders the elements, \<open>rqsort\<close> sorts the array.
\<close>

theorem rqsort_sorts:
  assumes "cmp_order cmp"
  shows "\<exists>ys. rqsort cmp xs = Some ys \<and> mset ys = mset xs \<and> sorted_wrt (\<lambda>x y. cmp x y \<le> 0) ys"
proof (cases "length xs < 2")
  case True
  then have "xs = [] \<or> (\<exists>x. xs = [x])" by (cases xs; cases "tl xs") auto
  then show ?thesis by (auto simp: rqsort_def)
next
  case False
  have "segs_ok (length xs) [(0, length xs, 0)]" by (simp add: segs_ok_def)
  from rq_outer_spec [OF this, of cmp] obtain ys where
    "rq_outer cmp xs [(0, length xs, 0)] = Some ys" "mset ys = mset xs"
    "cmp_order cmp \<and> ord_inv cmp xs [(0, length xs, 0)] \<longrightarrow> ord_inv cmp ys []" by blast
  moreover have "ord_inv cmp xs [(0, length xs, 0)]" by (simp add: ord_inv_def pending_def)
  ultimately show ?thesis using assms False by (simp add: rqsort_def ord_inv_Nil)
qed

section \<open>The comparison functions of the typed arrays\<close>

text \<open>
  The functions \<^verbatim>\<open>TypedArray.prototype.sort\<close> passes to \<open>rqsort\<close> when no comparison callback is
  given.  The narrow types are promoted to \<open>int\<close>, in which the difference cannot overflow; the wide
  ones are compared.
\<close>

definition js_TA_cmp_int8 :: "8 word cmp_f" where "js_TA_cmp_int8 x y = sint x - sint y"
definition js_TA_cmp_uint8 :: "8 word cmp_f" where "js_TA_cmp_uint8 x y = uint x - uint y"
definition js_TA_cmp_int16 :: "16 word cmp_f" where "js_TA_cmp_int16 x y = sint x - sint y"
definition js_TA_cmp_uint16 :: "16 word cmp_f" where "js_TA_cmp_uint16 x y = uint x - uint y"
definition js_TA_cmp_int32 :: "32 word cmp_f" where
  "js_TA_cmp_int32 x y = of_bool (y <s x) - of_bool (x <s y)"
definition js_TA_cmp_uint32 :: "32 word cmp_f" where
  "js_TA_cmp_uint32 x y = of_bool (y < x) - of_bool (x < y)"
definition js_TA_cmp_int64 :: "64 word cmp_f" where
  "js_TA_cmp_int64 x y = of_bool (y <s x) - of_bool (x <s y)"
definition js_TA_cmp_uint64 :: "64 word cmp_f" where
  "js_TA_cmp_uint64 x y = of_bool (y < x) - of_bool (x < y)"

interpretation ta_i8: cmp_order js_TA_cmp_int8 by unfold_locales (auto simp: js_TA_cmp_int8_def)
interpretation ta_u8: cmp_order js_TA_cmp_uint8 by unfold_locales (auto simp: js_TA_cmp_uint8_def)
interpretation ta_i16: cmp_order js_TA_cmp_int16 by unfold_locales (auto simp: js_TA_cmp_int16_def)
interpretation ta_u16: cmp_order js_TA_cmp_uint16 by unfold_locales (auto simp: js_TA_cmp_uint16_def)
interpretation ta_i32: cmp_order js_TA_cmp_int32
  by unfold_locales (auto simp: js_TA_cmp_int32_def word_sless_alt of_bool_def split: if_splits)
interpretation ta_u32: cmp_order js_TA_cmp_uint32
  by unfold_locales (auto simp: js_TA_cmp_uint32_def of_bool_def split: if_splits)
interpretation ta_i64: cmp_order js_TA_cmp_int64
  by unfold_locales (auto simp: js_TA_cmp_int64_def word_sless_alt of_bool_def split: if_splits)
interpretation ta_u64: cmp_order js_TA_cmp_uint64
  by unfold_locales (auto simp: js_TA_cmp_uint64_def of_bool_def split: if_splits)

theorem rqsort_sorts_witness:
  "\<exists>ys. rqsort js_TA_cmp_int8 [3, -1, 2] = Some ys \<and> mset ys = mset [3, -1, 2] \<and>
     sorted_wrt (\<lambda>x y. js_TA_cmp_int8 x y \<le> 0) ys"
  using rqsort_sorts [OF ta_i8.cmp_order_axioms, of "[3, -1, 2]"] .

end
