(* ===== verification/Exchange.thy ===== *)
theory Exchange
  imports Rqsort_Part
begin

text \<open>
  The exchange functions of \<^verbatim>\<open>cutils.c\<close> and their selection by \<open>exchange_func\<close>, at the level of bytes.

  Memory is a list of bytes indexed by address.  A load or store of a unit of \<open>u\<close> bytes is undefined
  outside memory and at an address that is not a multiple of \<open>u\<close>; the value of a unit is its bytes.
  The lemmas show that the chosen function is always aligned and exchanges exactly the two blocks,
  so that it implements the exchange of two elements (or two runs of elements) of the array.
\<close>

unbundle bit_operations_syntax

section \<open>Units of memory\<close>

definition unit_at :: "nat \<Rightarrow> 'b list \<Rightarrow> nat \<Rightarrow> 'b list option" where
  "unit_at u mem p = (if p mod u = 0 \<and> p + u \<le> length mem then Some (take u (drop p mem)) else None)"

definition set_unit :: "nat \<Rightarrow> 'b list \<Rightarrow> nat \<Rightarrow> 'b list \<Rightarrow> 'b list option" where
  "set_unit u mem p v = (if p mod u = 0 \<and> p + u \<le> length mem then Some (take p mem @ v @ drop (p + u) mem) else None)"

section \<open>The exchange functions\<close>

fun exchange_units :: "nat \<Rightarrow> 'b list \<Rightarrow> nat \<Rightarrow> nat \<Rightarrow> nat \<Rightarrow> 'b list option" where
  "exchange_units u mem ap bp 0 = Some mem"
| "exchange_units u mem ap bp (Suc n) = do {
     t \<leftarrow> unit_at u mem ap;
     v \<leftarrow> unit_at u mem bp;
     mem1 \<leftarrow> set_unit u mem ap v;
     mem2 \<leftarrow> set_unit u mem1 bp t;
     exchange_units u mem2 (ap + u) (bp + u) n
   }"

definition exchange_one :: "nat \<Rightarrow> 'b list \<Rightarrow> nat \<Rightarrow> nat \<Rightarrow> 'b list option" where
  "exchange_one u mem ap bp = do {
     t \<leftarrow> unit_at u mem ap;
     v \<leftarrow> unit_at u mem bp;
     mem1 \<leftarrow> set_unit u mem ap v;
     set_unit u mem1 bp t
   }"

definition exchange_bytes :: "'b list \<Rightarrow> nat \<Rightarrow> nat \<Rightarrow> nat \<Rightarrow> 'b list option" where
  "exchange_bytes mem a b sz = exchange_units 1 mem a b sz"

definition exchange_one_byte :: "'b list \<Rightarrow> nat \<Rightarrow> nat \<Rightarrow> nat \<Rightarrow> 'b list option" where
  "exchange_one_byte mem a b sz = exchange_one 1 mem a b"

definition exchange_int16s :: "'b list \<Rightarrow> nat \<Rightarrow> nat \<Rightarrow> nat \<Rightarrow> 'b list option" where
  "exchange_int16s mem a b sz = exchange_units 2 mem a b (sz div 2)"

definition exchange_one_int16 :: "'b list \<Rightarrow> nat \<Rightarrow> nat \<Rightarrow> nat \<Rightarrow> 'b list option" where
  "exchange_one_int16 mem a b sz = exchange_one 2 mem a b"

definition exchange_int32s :: "'b list \<Rightarrow> nat \<Rightarrow> nat \<Rightarrow> nat \<Rightarrow> 'b list option" where
  "exchange_int32s mem a b sz = exchange_units 4 mem a b (sz div 4)"

definition exchange_one_int32 :: "'b list \<Rightarrow> nat \<Rightarrow> nat \<Rightarrow> nat \<Rightarrow> 'b list option" where
  "exchange_one_int32 mem a b sz = exchange_one 4 mem a b"

definition exchange_int64s :: "'b list \<Rightarrow> nat \<Rightarrow> nat \<Rightarrow> nat \<Rightarrow> 'b list option" where
  "exchange_int64s mem a b sz = exchange_units 8 mem a b (sz div 8)"

definition exchange_one_int64 :: "'b list \<Rightarrow> nat \<Rightarrow> nat \<Rightarrow> nat \<Rightarrow> 'b list option" where
  "exchange_one_int64 mem a b sz = exchange_one 8 mem a b"

text \<open>The sixteen byte unit is moved as two words of eight bytes, in the order of the source.\<close>

definition exchange_pair :: "'b list \<Rightarrow> nat \<Rightarrow> nat \<Rightarrow> 'b list option" where
  "exchange_pair mem ap bp = do {
     t \<leftarrow> unit_at 8 mem ap;
     u \<leftarrow> unit_at 8 mem (ap + 8);
     v \<leftarrow> unit_at 8 mem bp;
     mem1 \<leftarrow> set_unit 8 mem ap v;
     w \<leftarrow> unit_at 8 mem1 (bp + 8);
     mem2 \<leftarrow> set_unit 8 mem1 (ap + 8) w;
     mem3 \<leftarrow> set_unit 8 mem2 bp t;
     set_unit 8 mem3 (bp + 8) u
   }"

fun exchange_pairs :: "'b list \<Rightarrow> nat \<Rightarrow> nat \<Rightarrow> nat \<Rightarrow> 'b list option" where
  "exchange_pairs mem ap bp 0 = Some mem"
| "exchange_pairs mem ap bp (Suc n) = do { mem1 \<leftarrow> exchange_pair mem ap bp; exchange_pairs mem1 (ap + 16) (bp + 16) n }"

definition exchange_int128s :: "'b list \<Rightarrow> nat \<Rightarrow> nat \<Rightarrow> nat \<Rightarrow> 'b list option" where
  "exchange_int128s mem a b sz = exchange_pairs mem a b (sz div 16)"

definition exchange_one_int128 :: "'b list \<Rightarrow> nat \<Rightarrow> nat \<Rightarrow> nat \<Rightarrow> 'b list option" where
  "exchange_one_int128 mem a b sz = exchange_pair mem a b"

text \<open>The switch, and the expression it is on.\<close>

definition exchange_switch :: "nat \<Rightarrow> nat \<Rightarrow> ('b list \<Rightarrow> nat \<Rightarrow> nat \<Rightarrow> nat \<Rightarrow> 'b list option)" where
  "exchange_switch sel sz =
     (if sel = 0 then if sz = 8 * 2 then exchange_one_int128 else exchange_int128s
      else if sel = 8 then if sz = 8 then exchange_one_int64 else exchange_int64s
      else if sel = 4 \<or> sel = 12 then if sz = 4 then exchange_one_int32 else exchange_int32s
      else if sel = 2 \<or> sel = 6 \<or> sel = 10 \<or> sel = 14 then if sz = 2 then exchange_one_int16 else exchange_int16s
      else if sz = 1 then exchange_one_byte else exchange_bytes)"

definition exchange_func :: "nat \<Rightarrow> nat \<Rightarrow> ('b list \<Rightarrow> nat \<Rightarrow> nat \<Rightarrow> nat \<Rightarrow> 'b list option)" where
  "exchange_func base sz = exchange_switch ((base OR sz) AND 15) sz"

section \<open>Exchanging blocks\<close>

definition blk_idx :: "nat \<Rightarrow> nat \<Rightarrow> nat \<Rightarrow> nat \<Rightarrow> nat" where
  "blk_idx a b n i = (if a \<le> i \<and> i < a + n then b + (i - a) else if b \<le> i \<and> i < b + n then a + (i - b) else i)"

definition blk :: "'b list \<Rightarrow> nat \<Rightarrow> nat \<Rightarrow> nat \<Rightarrow> 'b list" where
  "blk mem a b n = map (\<lambda>i. mem ! blk_idx a b n i) [0..<length mem]"

definition apart_or_same :: "nat \<Rightarrow> nat \<Rightarrow> nat \<Rightarrow> bool" where
  "apart_or_same a b n \<longleftrightarrow> a = b \<or> a + n \<le> b \<or> b + n \<le> a"

definition blocks :: "'b list \<Rightarrow> nat \<Rightarrow> nat \<Rightarrow> nat \<Rightarrow> bool" where
  "blocks mem a b n \<longleftrightarrow> a + n \<le> length mem \<and> b + n \<le> length mem \<and> apart_or_same a b n"

lemma length_blk [simp]: "length (blk mem a b n) = length mem"
  by (simp add: blk_def)

lemma nth_blk: "i < length mem \<Longrightarrow> blk mem a b n ! i = mem ! blk_idx a b n i"
  by (simp add: blk_def)

lemma blk_0 [simp]: "blk mem a b 0 = mem"
  by (rule nth_equalityI) (auto simp: nth_blk blk_idx_def)

lemma blk_idx_bound: "a + n \<le> N \<Longrightarrow> b + n \<le> N \<Longrightarrow> i < N \<Longrightarrow> blk_idx a b n i < N"
  by (auto simp: blk_idx_def)

lemma blk_idx_same: "blk_idx a a n i = i"
  by (auto simp: blk_idx_def)

lemma blk_idx_comp:
  assumes "apart_or_same a b (m + n)"
  shows "blk_idx a b m (blk_idx (a + m) (b + m) n i) = blk_idx a b (m + n) i"
proof (cases "a = b")
  case False
  then consider "a + (m + n) \<le> b" | "b + (m + n) \<le> a" using assms by (auto simp: apart_or_same_def)
  then show ?thesis by cases (auto simp: blk_idx_def)
qed (simp add: blk_idx_same)

lemma blk_blk:
  assumes "blocks mem a b (m + n)"
  shows "blk (blk mem a b m) (a + m) (b + m) n = blk mem a b (m + n)"
proof (rule nth_equalityI)
  fix i
  assume "i < length (blk (blk mem a b m) (a + m) (b + m) n)"
  then show "blk (blk mem a b m) (a + m) (b + m) n ! i = blk mem a b (m + n) ! i"
    using assms by (simp add: blocks_def nth_blk blk_idx_bound blk_idx_comp)
qed simp

lemma blocks_split: "blocks mem a b (m + n) \<Longrightarrow> blocks mem a b m \<and> blocks (blk mem a b m) (a + m) (b + m) n"
  by (auto simp: blocks_def apart_or_same_def)

subsection \<open>One unit\<close>

definition overwrite :: "'b list \<Rightarrow> nat \<Rightarrow> 'b list \<Rightarrow> 'b list" where
  "overwrite mem p v = map (\<lambda>i. if p \<le> i \<and> i < p + length v then v ! (i - p) else mem ! i) [0..<length mem]"

lemma length_overwrite [simp]: "length (overwrite mem p v) = length mem"
  by (simp add: overwrite_def)

lemma nth_overwrite: "i < length mem \<Longrightarrow> overwrite mem p v ! i = (if p \<le> i \<and> i < p + length v then v ! (i - p) else mem ! i)"
  by (simp add: overwrite_def)

lemma set_unit_Some:
  assumes "p mod u = 0" and "p + u \<le> length mem" and "length v = u"
  shows "set_unit u mem p v = Some (overwrite mem p v)"
proof -
  have "take p mem @ v @ drop (p + u) mem = overwrite mem p v"
    using assms by (intro nth_equalityI) (auto simp: nth_overwrite nth_append min_def)
  with assms show ?thesis by (simp add: set_unit_def)
qed

lemma unit_at_Some: "p mod u = 0 \<Longrightarrow> p + u \<le> length mem \<Longrightarrow> unit_at u mem p = Some (take u (drop p mem))"
  by (simp add: unit_at_def)

lemma overwrite_blk:
  assumes "blocks mem a b u"
  shows "overwrite (overwrite mem a (take u (drop b mem))) b (take u (drop a mem)) = blk mem a b u"
proof (rule nth_equalityI)
  fix i
  assume "i < length (overwrite (overwrite mem a (take u (drop b mem))) b (take u (drop a mem)))"
  then have "i < length mem" by simp
  then show "overwrite (overwrite mem a (take u (drop b mem))) b (take u (drop a mem)) ! i = blk mem a b u ! i"
    using assms by (auto simp: nth_overwrite nth_blk blk_idx_def blocks_def apart_or_same_def)
qed simp

lemma exchange_one_blk:
  assumes "blocks mem a b u" and "a mod u = 0" and "b mod u = 0"
  shows "exchange_one u mem a b = Some (blk mem a b u)"
proof -
  from assms(1) have "a + u \<le> length mem" "b + u \<le> length mem" by (auto simp: blocks_def)
  moreover from this have "length (take u (drop a mem)) = u" "length (take u (drop b mem)) = u" by auto
  ultimately show ?thesis using assms(2,3) overwrite_blk [OF assms(1)]
    by (simp only: exchange_one_def unit_at_Some set_unit_Some length_overwrite bind.bind_lunit)
qed

lemma exchange_units_blk:
  "blocks mem a b (n * u) \<Longrightarrow> a mod u = 0 \<Longrightarrow> b mod u = 0 \<Longrightarrow> exchange_units u mem a b n = Some (blk mem a b (n * u))"
proof (induction n arbitrary: mem a b)
  case (Suc n)
  then have split: "blocks mem a b u" "blocks (blk mem a b u) (a + u) (b + u) (n * u)"
    using blocks_split [of mem a b u "n * u"] by auto
  have "exchange_units u mem a b (Suc n) = do { m \<leftarrow> exchange_one u mem a b; exchange_units u m (a + u) (b + u) n }"
    by (simp add: exchange_one_def)
  also have "\<dots> = Some (blk mem a b (u + n * u))"
    using exchange_one_blk [OF split(1)] Suc.IH [OF split(2)] Suc.prems blk_blk [of mem a b u "n * u"] by simp
  finally show ?case by simp
qed simp

lemma exchange_pair_blk:
  assumes "blocks mem a b 16" and "a mod 8 = 0" and "b mod 8 = 0"
  shows "exchange_pair mem a b = Some (blk mem a b 16)"
proof -
  let ?t = "take 8 (drop a mem)" and ?u = "take 8 (drop (a + 8) mem)" and ?v = "take 8 (drop b mem)"
  let ?m1 = "overwrite mem a ?v"
  let ?w = "take 8 (drop (b + 8) ?m1)"
  let ?r = "overwrite (overwrite (overwrite ?m1 (a + 8) ?w) b ?t) (b + 8) ?u"
  have len: "a + 16 \<le> length mem" "b + 16 \<le> length mem" using assms by (auto simp: blocks_def)
  have "(a + 8) mod 8 = 0" "(b + 8) mod 8 = 0" using assms by presburger+
  then have "exchange_pair mem a b = Some ?r"
    using assms(2,3) len by (simp add: exchange_pair_def unit_at_Some set_unit_Some)
  also have "?r = blk mem a b 16"
  proof (rule nth_equalityI)
    fix i
    assume "i < length ?r"
    then have i: "i < length mem" by simp
    consider "a = b" | "a + 16 \<le> b" | "b + 16 \<le> a" using assms(1) by (auto simp: blocks_def apart_or_same_def)
    then show "?r ! i = blk mem a b 16 ! i"
      by cases (use i len in \<open>auto simp: nth_overwrite nth_blk blk_idx_def\<close>)
  qed simp
  finally show ?thesis .
qed

lemma exchange_pairs_blk:
  "blocks mem a b (n * 16) \<Longrightarrow> a mod 8 = 0 \<Longrightarrow> b mod 8 = 0 \<Longrightarrow> exchange_pairs mem a b n = Some (blk mem a b (n * 16))"
proof (induction n arbitrary: mem a b)
  case (Suc n)
  then have split: "blocks mem a b 16" "blocks (blk mem a b 16) (a + 16) (b + 16) (n * 16)"
    using blocks_split [of mem a b 16 "n * 16"] by auto
  have "(a + 16) mod 8 = 0" "(b + 16) mod 8 = 0" using Suc.prems by presburger+
  then have "exchange_pairs mem a b (Suc n) = Some (blk mem a b (16 + n * 16))"
    using exchange_pair_blk [OF split(1)] Suc.IH [OF split(2)] Suc.prems blk_blk [of mem a b 16 "n * 16"] by simp
  then show ?case by simp
qed simp

section \<open>The selection\<close>

lemma and_15: "x AND 15 = x mod (16 :: nat)"
  using take_bit_eq_mask [of 4 x] by (simp add: take_bit_eq_mod mask_eq_exp_minus_1)

lemma or_mod_zero: "(x OR y) mod 2 ^ k = (0 :: nat) \<longleftrightarrow> x mod 2 ^ k = 0 \<and> y mod 2 ^ k = 0"
  by (simp add: take_bit_or or_eq_0_iff flip: take_bit_eq_mod)

lemma exchange_unit_cases:
  "u = 2 ^ k \<Longrightarrow> k \<le> 4 \<Longrightarrow> ((base OR sz) AND 15) mod u = 0 \<Longrightarrow> u dvd base \<and> u dvd (sz :: nat)"
  using or_mod_zero [of base sz k] by (auto simp: and_15 mod_mod_cancel le_imp_power_dvd [of k 4 2, simplified])

text \<open>
  The unit of the selected function divides the base and the element size, and the function
  exchanges any two blocks of a multiple of the unit; the functions for a single unit are selected
  only for that size.
\<close>

definition exchanges :: "nat \<Rightarrow> nat \<Rightarrow> nat \<Rightarrow> 'b itself \<Rightarrow> bool" where
  "exchanges u sel sz T \<longleftrightarrow> (\<forall>(mem :: 'b list) a b n.
     u dvd a \<and> u dvd b \<and> u dvd n \<and> blocks mem a b n \<and> (n = sz \<or> 16 < sz) \<longrightarrow>
       exchange_switch sel sz mem a b n = Some (blk mem a b n))"

lemma exchanges_units:
  assumes "\<And>(mem :: 'b list) a b n. exchange_switch sel sz mem a b n =
      (if sz = u then exchange_one u mem a b else exchange_units u mem a b (n div u))" and "u \<le> 16"
  shows "exchanges u sel sz (T :: 'b itself)"
  unfolding exchanges_def assms(1)
proof (intro allI impI, elim conjE)
  fix mem :: "'b list" and a b n
  assume "u dvd a" "u dvd b" "u dvd n" "blocks mem a b n" "n = sz \<or> 16 < sz"
  then show "(if sz = u then exchange_one u mem a b else exchange_units u mem a b (n div u)) = Some (blk mem a b n)"
    using exchange_one_blk [of mem a b u] exchange_units_blk [of mem a b "n div u" u] assms(2) by auto
qed

lemma exchanges_pairs: "exchanges 16 0 sz (T :: 'b itself)"
  unfolding exchanges_def
proof (intro allI impI, elim conjE)
  fix mem :: "'b list" and a b n
  assume *: "16 dvd a" "16 dvd b" "16 dvd n" "blocks mem a b n" "n = sz \<or> 16 < sz"
  have "a mod 8 = 0" using *(1) by presburger
  moreover have "b mod 8 = 0" using *(2) by presburger
  moreover have "n div 16 * 16 = n" using *(3) by simp
  ultimately show "exchange_switch 0 sz mem a b n = Some (blk mem a b n)"
    using *(4,5) exchange_pair_blk [of mem a b] exchange_pairs_blk [of mem a b "n div 16"]
    by (auto simp: exchange_switch_def exchange_one_int128_def exchange_int128s_def)
qed

lemmas exchange_defs = exchange_one_int64_def exchange_int64s_def exchange_one_int32_def exchange_int32s_def
  exchange_one_int16_def exchange_int16s_def exchange_one_byte_def exchange_bytes_def

lemma exchanges_sel:
  "exchanges 8 8 sz T"
  "sel = 4 \<or> sel = 12 \<Longrightarrow> exchanges 4 sel sz T"
  "sel = 2 \<or> sel = 6 \<or> sel = 10 \<or> sel = 14 \<Longrightarrow> exchanges 2 sel sz T"
  "odd sel \<Longrightarrow> exchanges 1 sel sz T"
  by (rule exchanges_units; auto simp add: exchange_switch_def exchange_defs)+

lemma exchange_func_blk:
  "\<exists>u. u dvd base \<and> u dvd unit_sz \<and> exchanges u ((base OR unit_sz) AND 15) sz T"
proof -
  define sel where "sel = (base OR unit_sz) AND 15"
  have "sel < 16" by (simp add: sel_def and_15)
  then have "sel = 0 \<or> sel = 8 \<or> (sel = 4 \<or> sel = 12) \<or> (sel = 2 \<or> sel = 6 \<or> sel = 10 \<or> sel = 14) \<or> odd sel"
    by presburger
  then consider "sel = 0" | "sel = 8" | "sel = 4 \<or> sel = 12" | "sel = 2 \<or> sel = 6 \<or> sel = 10 \<or> sel = 14" | "odd sel"
    by blast
  then have "\<exists>k \<le> 4. sel mod 2 ^ k = 0 \<and> exchanges (2 ^ k) sel sz T"
  proof cases
    case 1
    then show ?thesis using exchanges_pairs [of sz T] by (intro exI [of _ 4]) simp
  next
    case 2
    then show ?thesis using exchanges_sel(1) [of sz T] by (intro exI [of _ 3]) simp
  next
    case 3
    then show ?thesis using exchanges_sel(2) [OF 3, of sz T] by (intro exI [of _ 2]) auto
  next
    case 4
    then show ?thesis using exchanges_sel(3) [OF 4, of sz T] by (intro exI [of _ 1]) auto
  next
    case 5
    then show ?thesis using exchanges_sel(4) [OF 5, of sz T] by (intro exI [of _ 0]) simp
  qed
  then obtain k where k: "k \<le> 4" "sel mod 2 ^ k = 0" "exchanges (2 ^ k) sel sz T" by (elim exE conjE) (rule that)
  from exchange_unit_cases [OF refl k(1) k(2) [unfolded sel_def]] k(3) show ?thesis
    unfolding sel_def by (intro exI [of _ "2 ^ k"] conjI) simp_all
qed

section \<open>Arrays of elements\<close>

lemma length_concat_uniform: "\<forall>e \<in> set els. length e = sz \<Longrightarrow> length (concat els) = length els * sz"
  by (induction els) auto

lemma nth_concat_uniform:
  "\<forall>e \<in> set els. length e = sz \<Longrightarrow> r < length els \<Longrightarrow> k < sz \<Longrightarrow> concat els ! (r * sz + k) = els ! r ! k"
proof (induction els arbitrary: r)
  case (Cons e els)
  then show ?case by (cases r) (auto simp: nth_append)
qed simp

definition image_of :: "'b list \<Rightarrow> 'b list list \<Rightarrow> 'b list \<Rightarrow> 'b list" where
  "image_of pre els post = pre @ concat els @ post"

lemma nth_image_of:
  assumes "\<forall>e \<in> set els. length e = sz" and "r < length els" and "k < sz"
  shows "image_of pre els post ! (length pre + (r * sz + k)) = els ! r ! k"
proof -
  have "Suc r * sz \<le> length els * sz" using assms(2) by (intro mult_le_mono1) simp
  then have "r * sz + k < length (concat els)" using assms length_concat_uniform [OF assms(1)] by simp
  then show ?thesis using nth_concat_uniform [OF assms] by (simp add: image_of_def nth_append)
qed

lemma in_block_iff:
  assumes "k < (sz :: nat)"
  shows "i * sz \<le> r * sz + k \<and> r * sz + k < i * sz + sz \<longleftrightarrow> r = i"
proof (cases r i rule: linorder_cases)
  case less
  then have "Suc r * sz \<le> i * sz" by (intro mult_le_mono1) simp
  with less assms show ?thesis by simp
next
  case greater
  then have "Suc i * sz \<le> r * sz" by (intro mult_le_mono1) simp
  with greater assms show ?thesis by simp
qed (use assms in simp)

lemma exch_uniform: "\<forall>e \<in> set els. P e \<Longrightarrow> i < length els \<Longrightarrow> j < length els \<Longrightarrow> \<forall>e \<in> set (exch els i j). P e"
  by (simp add: exch_def)

lemma blk_elements:
  assumes uni: "\<forall>e \<in> set els. length e = sz" and i: "i < length els" and j: "j < length els" and sz: "0 < sz"
  shows "blk (image_of pre els post) (length pre + i * sz) (length pre + j * sz) sz = image_of pre (exch els i j) post"
    (is "blk ?m ?a ?b sz = ?m'")
proof (rule nth_equalityI)
  have uni': "\<forall>e \<in> set (exch els i j). length e = sz"
    using exch_uniform [OF uni i j] .
  have len: "length ?m' = length ?m"
    using length_concat_uniform [OF uni] length_concat_uniform [OF uni'] by (simp add: image_of_def)
  then show "length (blk ?m ?a ?b sz) = length ?m'" by simp
  fix q
  assume q: "q < length (blk ?m ?a ?b sz)"
  let ?N = "length pre + length els * sz"
  consider "q < length pre" | "?N \<le> q" | r k where "q = length pre + (r * sz + k)" "r < length els" "k < sz"
  proof -
    have "q = length pre + ((q - length pre) div sz * sz + (q - length pre) mod sz)" if "length pre \<le> q" using that by simp
    moreover have "(q - length pre) div sz < length els" if "length pre \<le> q" "q < ?N"
      using that by (intro less_mult_imp_div_less) auto
    ultimately show thesis using that sz mod_less_divisor by (metis not_less)
  qed
  then show "blk ?m ?a ?b sz ! q = ?m' ! q"
  proof cases
    case 1
    then show ?thesis using q by (simp add: nth_blk blk_idx_def image_of_def nth_append)
  next
    case 2
    have "Suc i * sz \<le> length els * sz" "Suc j * sz \<le> length els * sz" using i j by (intro mult_le_mono1; simp)+
    then have "blk_idx ?a ?b sz q = q" using 2 by (auto simp: blk_idx_def)
    moreover have "\<not> q - length pre < length els * sz" using 2 by simp
    ultimately show ?thesis using q 2 length_concat_uniform [OF uni] length_concat_uniform [OF uni']
      by (simp add: nth_blk image_of_def nth_append del: length_concat)
  next
    case 3
    then have "blk_idx ?a ?b sz q = length pre + ((if r = i then j else if r = j then i else r) * sz + k)"
      using in_block_iff [of k sz i r] in_block_iff [of k sz j r] by (auto simp: blk_idx_def)
    then show ?thesis using 3 q i j nth_image_of [OF uni _ 3(3), of _ pre post] nth_image_of [OF uni' _ 3(3), of r pre post]
      by (simp add: nth_blk nth_exch)
  qed
qed

text \<open>Runs of elements: the block exchange of the bytes is \<open>swap_block\<close> of the elements.\<close>

lemma blocks_elements:
  assumes "\<forall>e \<in> set els. length e = sz" and "i + n \<le> length els" and "j + n \<le> length els" and "apart_or_same i j n"
  shows "blocks (image_of pre els post) (length pre + i * sz) (length pre + j * sz) (n * sz)"
proof -
  have "(i + n) * sz \<le> length els * sz" "(j + n) * sz \<le> length els * sz" using assms(2,3) by (auto intro: mult_le_mono1)
  moreover have "apart_or_same (length pre + i * sz) (length pre + j * sz) (n * sz)"
    using assms(4) mult_le_mono1 [of "i + n" j sz] mult_le_mono1 [of "j + n" i sz]
    by (auto simp: apart_or_same_def distrib_right)
  ultimately show ?thesis using length_concat_uniform [OF assms(1)]
    by (simp add: blocks_def image_of_def distrib_right)
qed

lemma blk_swap_block:
  "\<forall>e \<in> set els. length e = sz \<Longrightarrow> 0 < sz \<Longrightarrow> i + n \<le> length els \<Longrightarrow> j + n \<le> length els \<Longrightarrow> apart_or_same i j n \<Longrightarrow>
     \<exists>els'. swap_block els i j n = Some els' \<and>
       blk (image_of pre els post) (length pre + i * sz) (length pre + j * sz) (n * sz) = image_of pre els' post"
proof (induction n arbitrary: els i j)
  case (Suc n)
  let ?els = "exch els i j"
  have uni: "\<forall>e \<in> set ?els. length e = sz"
    by (rule exch_uniform [OF Suc.prems(1)]) (use Suc.prems in simp_all)
  have "apart_or_same (Suc i) (Suc j) n" using Suc.prems(5) by (auto simp: apart_or_same_def)
  with Suc.IH [OF uni, of "Suc i" "Suc j"] Suc.prems obtain els' where
    els': "swap_block ?els (Suc i) (Suc j) n = Some els'"
      "blk (image_of pre ?els post) (length pre + Suc i * sz) (length pre + Suc j * sz) (n * sz) = image_of pre els' post"
    by auto
  have "blk (image_of pre els post) (length pre + i * sz) (length pre + j * sz) (sz + n * sz) = image_of pre els' post"
    using blk_blk [of "image_of pre els post" "length pre + i * sz" "length pre + j * sz" sz "n * sz"]
      blocks_elements [OF Suc.prems(1,3-5), of pre post] blk_elements [OF Suc.prems(1), of i j pre post] els'(2) Suc.prems
    by (simp add: add.assoc add.commute [of sz])
  with els'(1) Suc.prems show ?case by simp
qed simp

lemma OR_lower_big: "128 \<le> sz OR (128 :: nat)"
proof -
  have "int (sz OR 128) = 128 OR int sz" by (simp add: of_nat_or_eq or.commute)
  with or_greater_eq [of "int sz" 128] show ?thesis by linarith
qed

text \<open>
  C19. On the bytes of an array of elements of any size and at any address, the functions that
  \<open>rqsort\<close> selects with \<open>exchange_func\<close> are always aligned and stay in memory: the one for single
  elements exchanges two elements, and the one for blocks (selected with the size or-ed with 128)
  exchanges two runs of elements, and nothing else in memory changes.
\<close>

theorem exchange_func_swaps:
  assumes "\<forall>e \<in> set els. length e = sz" and "0 < sz" and "i + n \<le> length els" and "j + n \<le> length els"
    and "i = j \<or> i + n \<le> j \<or> j + n \<le> i"
  shows "exchange_func (length pre) (sz OR 128) (image_of pre els post)
        (length pre + i * sz) (length pre + j * sz) (n * sz) =
        map_option (\<lambda>els'. image_of pre els' post) (swap_block els i j n) \<and>
      (n = 1 \<longrightarrow> exchange_func (length pre) sz (image_of pre els post) (length pre + i * sz) (length pre + j * sz) sz =
        map_option (\<lambda>els'. image_of pre els' post) (swap_at els i j))"
proof -
  let ?m = "image_of pre els post" and ?a = "length pre + i * sz" and ?b = "length pre + j * sz"
  have ap: "apart_or_same i j n" using assms(5) by (simp add: apart_or_same_def)
  have bl: "blocks ?m ?a ?b (n * sz)" by (rule blocks_elements [OF assms(1,3,4) ap])
  obtain els' where els': "swap_block els i j n = Some els'" "blk ?m ?a ?b (n * sz) = image_of pre els' post"
    using blk_swap_block [OF assms(1-4) ap] by blast
  have sel: "(length pre OR (sz OR 128)) AND 15 = (length pre OR sz) AND 15"
  proof -
    have "y mod 16 = take_bit 4 y" for y :: nat by (simp add: take_bit_eq_mod)
    then show ?thesis by (simp only: and_15 take_bit_or) simp
  qed
  have big: "16 < sz OR 128" using OR_lower_big [of sz] by simp
  have ex: "exchange_switch ((length pre OR sz) AND 15) sz' ?m ?a ?b (n * sz) = Some (image_of pre els' post)"
    if "n * sz = sz' \<or> 16 < sz'" for sz'
  proof -
    from exchange_func_blk [of "length pre" sz sz'] obtain u where
      "u dvd length pre" "u dvd sz" "exchanges u ((length pre OR sz) AND 15) sz' TYPE('a)" by blast
    then show ?thesis using bl els'(2) that by (simp add: exchanges_def)
  qed
  have "swap_at els i j = Some els'" if "n = 1"
    using els'(1) that by (cases "swap_at els i j") simp_all
  then show ?thesis using ex [of "sz OR 128"] ex [of sz] els'(1) big by (auto simp: exchange_func_def sel)
qed

theorem exchange_func_swaps_witness:
  "exchange_func (length [0, 0, 0, 0 :: nat]) 2 (image_of [0, 0, 0, 0] [[1, 2], [3, 4], [5, 6 :: nat]] [9])
     (length [0, 0, 0, 0 :: nat] + 0 * 2) (length [0, 0, 0, 0 :: nat] + 2 * 2) 2 = map_option (\<lambda>els'. image_of [0, 0, 0, 0] els' [9]) (swap_at [[1, 2], [3, 4], [5, 6]] 0 2)"
  using exchange_func_swaps [of "[[1, 2], [3, 4], [5, 6 :: nat]]" 2 0 1 2 "[0, 0, 0, 0]" "[9]"] by auto

end
