(* ===== verification/List_Head.thy ===== *)
theory List_Head
  imports Wgi_Prelude
begin

text \<open>
  The intrusive doubly linked lists of \<^verbatim>\<open>list.h\<close>.

  Memory maps the address of each link to its two pointers; address 0 is the null pointer, and
  reading or writing a link that is not allocated is undefined.  The four stores of \<open>__list_add\<close>
  and of \<open>list_del\<close> are made in the order of the source, since in short lists the links alias.
\<close>

record list_head =
  prev :: nat
  nxt :: nat

type_synonym links = "nat \<rightharpoonup> list_head"

definition set_prev :: "links \<Rightarrow> nat \<Rightarrow> nat \<Rightarrow> links option" where
  "set_prev h a p = map_option (\<lambda>l. h(a \<mapsto> l\<lparr>prev := p\<rparr>)) (h a)"

definition set_next :: "links \<Rightarrow> nat \<Rightarrow> nat \<Rightarrow> links option" where
  "set_next h a p = map_option (\<lambda>l. h(a \<mapsto> l\<lparr>nxt := p\<rparr>)) (h a)"

definition init_list_head :: "links \<Rightarrow> nat \<Rightarrow> links option" where
  "init_list_head h head = do { h1 \<leftarrow> set_prev h head head; set_next h1 head head }"

definition list_add_between :: "links \<Rightarrow> nat \<Rightarrow> nat \<Rightarrow> nat \<Rightarrow> links option" where
  "list_add_between h el p n = do {
     h1 \<leftarrow> set_next h p el;
     h2 \<leftarrow> set_prev h1 el p;
     h3 \<leftarrow> set_next h2 el n;
     set_prev h3 n el
   }"

definition list_add :: "links \<Rightarrow> nat \<Rightarrow> nat \<Rightarrow> links option" where
  "list_add h el head = do { l \<leftarrow> h head; list_add_between h el head (nxt l) }"

definition list_add_tail :: "links \<Rightarrow> nat \<Rightarrow> nat \<Rightarrow> links option" where
  "list_add_tail h el head = do { l \<leftarrow> h head; list_add_between h el (prev l) head }"

definition list_del :: "links \<Rightarrow> nat \<Rightarrow> links option" where
  "list_del h el = do {
     l \<leftarrow> h el;
     h1 \<leftarrow> set_next h (prev l) (nxt l);
     h2 \<leftarrow> set_prev h1 (nxt l) (prev l);
     h3 \<leftarrow> set_prev h2 el 0;
     set_next h3 el 0
   }"

definition list_empty :: "links \<Rightarrow> nat \<Rightarrow> bool option" where
  "list_empty h el = map_option (\<lambda>l. nxt l = el) (h el)"

text \<open>
  The loops.  The body of \<open>list_for_each\<close> gets the address of the link; the body of
  the safe loops may change memory, and the next link is read before it runs.
\<close>

partial_function (option) list_for_each_from :: "links \<Rightarrow> nat \<Rightarrow> nat \<Rightarrow> ('s \<Rightarrow> nat \<Rightarrow> 's option) \<Rightarrow> 's \<Rightarrow> 's option" where
  "list_for_each_from h head el body s =
     (if el = head then Some s
      else do { s' \<leftarrow> body s el; l \<leftarrow> h el; list_for_each_from h head (nxt l) body s' })"

definition list_for_each :: "links \<Rightarrow> nat \<Rightarrow> ('s \<Rightarrow> nat \<Rightarrow> 's option) \<Rightarrow> 's \<Rightarrow> 's option" where
  "list_for_each h head body s = do { l \<leftarrow> h head; list_for_each_from h head (nxt l) body s }"

partial_function (option) list_for_each_prev_from :: "links \<Rightarrow> nat \<Rightarrow> nat \<Rightarrow> ('s \<Rightarrow> nat \<Rightarrow> 's option) \<Rightarrow> 's \<Rightarrow> 's option" where
  "list_for_each_prev_from h head el body s =
     (if el = head then Some s
      else do { s' \<leftarrow> body s el; l \<leftarrow> h el; list_for_each_prev_from h head (prev l) body s' })"

definition list_for_each_prev :: "links \<Rightarrow> nat \<Rightarrow> ('s \<Rightarrow> nat \<Rightarrow> 's option) \<Rightarrow> 's \<Rightarrow> 's option" where
  "list_for_each_prev h head body s = do { l \<leftarrow> h head; list_for_each_prev_from h head (prev l) body s }"

partial_function (option) list_for_each_safe_from ::
    "nat \<Rightarrow> nat \<Rightarrow> nat \<Rightarrow> (links \<Rightarrow> nat \<Rightarrow> links option) \<Rightarrow> links \<Rightarrow> links option" where
  "list_for_each_safe_from head el el1 body h =
     (if el = head then Some h
      else do { h' \<leftarrow> body h el; l \<leftarrow> h' el1; list_for_each_safe_from head el1 (nxt l) body h' })"

definition list_for_each_safe :: "links \<Rightarrow> nat \<Rightarrow> (links \<Rightarrow> nat \<Rightarrow> links option) \<Rightarrow> links option" where
  "list_for_each_safe h head body = do {
     l \<leftarrow> h head;
     l1 \<leftarrow> h (nxt l);
     list_for_each_safe_from head (nxt l) (nxt l1) body h
   }"

partial_function (option) list_for_each_prev_safe_from ::
    "nat \<Rightarrow> nat \<Rightarrow> nat \<Rightarrow> (links \<Rightarrow> nat \<Rightarrow> links option) \<Rightarrow> links \<Rightarrow> links option" where
  "list_for_each_prev_safe_from head el el1 body h =
     (if el = head then Some h
      else do { h' \<leftarrow> body h el; l \<leftarrow> h' el1; list_for_each_prev_safe_from head el1 (prev l) body h' })"

definition list_for_each_prev_safe :: "links \<Rightarrow> nat \<Rightarrow> (links \<Rightarrow> nat \<Rightarrow> links option) \<Rightarrow> links option" where
  "list_for_each_prev_safe h head body = do {
     l \<leftarrow> h head;
     l1 \<leftarrow> h (prev l);
     list_for_each_prev_safe_from head (prev l) (prev l1) body h
   }"

section \<open>The list a head represents\<close>

text \<open>\<open>joined\<close> says that two links point at each other; a chain is joined throughout.\<close>

definition nx :: "links \<Rightarrow> nat \<rightharpoonup> nat" where "nx h a = map_option nxt (h a)"
definition pv :: "links \<Rightarrow> nat \<rightharpoonup> nat" where "pv h a = map_option prev (h a)"

definition joined :: "links \<Rightarrow> nat \<Rightarrow> nat \<Rightarrow> bool" where
  "joined h a b \<longleftrightarrow> nx h a = Some b \<and> pv h b = Some a"

fun chain :: "links \<Rightarrow> nat list \<Rightarrow> bool" where
  "chain h (a # b # xs) \<longleftrightarrow> joined h a b \<and> chain h (b # xs)"
| "chain h xs = True"

definition list_rep :: "links \<Rightarrow> nat \<Rightarrow> nat list \<Rightarrow> bool" where
  "list_rep h head xs \<longleftrightarrow> distinct (head # xs) \<and> 0 \<notin> set (head # xs) \<and> chain h (head # xs @ [head])"

lemma chain_append: "chain h (xs @ a # ys) \<longleftrightarrow> chain h (xs @ [a]) \<and> chain h (a # ys)"
proof (induction xs)
  case (Cons x xs)
  then show ?case by (cases xs) auto
qed simp

lemma chain_cong:
  assumes "chain h xs" and "\<And>a b. joined h a b \<Longrightarrow> a \<in> set (butlast xs) \<Longrightarrow> b \<in> set (tl xs) \<Longrightarrow> joined h' a b"
  shows "chain h' xs"
  using assms by (induction h xs rule: chain.induct) auto

lemma joined_dom: "joined h a b \<Longrightarrow> a \<in> dom h \<and> b \<in> dom h"
  by (auto simp: joined_def nx_def pv_def)

lemma chain_last_hd: "xs \<noteq> [] \<Longrightarrow> ys \<noteq> [] \<Longrightarrow> chain h (xs @ ys) \<longleftrightarrow> chain h xs \<and> joined h (last xs) (hd ys) \<and> chain h ys"
proof (induction xs)
  case (Cons x xs)
  then show ?case by (cases xs; cases ys) auto
qed simp

section \<open>What the stores do\<close>

lemma set_next_Some:
  "a \<in> dom h \<Longrightarrow> \<exists>h'. set_next h a p = Some h' \<and> nx h' = (nx h)(a \<mapsto> p) \<and> pv h' = pv h \<and> dom h' = dom h \<and> (\<forall>b. b \<noteq> a \<longrightarrow> h' b = h b)"
  by (force simp: set_next_def nx_def pv_def)

lemma set_prev_Some:
  "a \<in> dom h \<Longrightarrow> \<exists>h'. set_prev h a p = Some h' \<and> pv h' = (pv h)(a \<mapsto> p) \<and> nx h' = nx h \<and> dom h' = dom h \<and> (\<forall>b. b \<noteq> a \<longrightarrow> h' b = h b)"
  by (force simp: set_prev_def nx_def pv_def)

lemma list_add_between_Some:
  assumes "p \<in> dom h" "el \<in> dom h" "n \<in> dom h"
  shows "\<exists>h'. list_add_between h el p n = Some h' \<and> nx h' = (nx h)(p \<mapsto> el, el \<mapsto> n) \<and>
    pv h' = (pv h)(el \<mapsto> p, n \<mapsto> el) \<and> dom h' = dom h \<and> (\<forall>b. b \<notin> {p, el, n} \<longrightarrow> h' b = h b)"
proof -
  from set_next_Some [OF assms(1), of el] obtain h1 where
    h1: "set_next h p el = Some h1" "nx h1 = (nx h)(p \<mapsto> el)" "pv h1 = pv h" "dom h1 = dom h" "\<forall>b. b \<noteq> p \<longrightarrow> h1 b = h b" by blast
  from set_prev_Some [of el h1 p] assms(2) h1(4) obtain h2 where
    h2: "set_prev h1 el p = Some h2" "pv h2 = (pv h1)(el \<mapsto> p)" "nx h2 = nx h1" "dom h2 = dom h" "\<forall>b. b \<noteq> el \<longrightarrow> h2 b = h1 b" by auto
  from set_next_Some [of el h2 n] assms(2) h2(4) obtain h3 where
    h3: "set_next h2 el n = Some h3" "nx h3 = (nx h2)(el \<mapsto> n)" "pv h3 = pv h2" "dom h3 = dom h" "\<forall>b. b \<noteq> el \<longrightarrow> h3 b = h2 b" by auto
  from set_prev_Some [of n h3 el] assms(3) h3(4) obtain h4 where
    "set_prev h3 n el = Some h4" "pv h4 = (pv h3)(n \<mapsto> el)" "nx h4 = nx h3" "dom h4 = dom h" "\<forall>b. b \<noteq> n \<longrightarrow> h4 b = h3 b" by auto
  with h1 h2 h3 show ?thesis by (simp add: list_add_between_def)
qed

lemma list_del_Some:
  assumes "nx h el = Some n" "pv h el = Some p" "p \<in> dom h" "n \<in> dom h"
  shows "\<exists>h'. list_del h el = Some h' \<and> nx h' = (nx h)(p \<mapsto> n, el \<mapsto> 0) \<and>
    pv h' = (pv h)(n \<mapsto> p, el \<mapsto> 0) \<and> dom h' = dom h \<and> (\<forall>b. b \<notin> {p, el, n} \<longrightarrow> h' b = h b)"
proof -
  from assms(1,2) obtain l where l: "h el = Some l" "nxt l = n" "prev l = p" by (auto simp: nx_def pv_def)
  then have el: "el \<in> dom h" by blast
  from set_next_Some [OF assms(3), of n] obtain h1 where
    h1: "set_next h p n = Some h1" "nx h1 = (nx h)(p \<mapsto> n)" "pv h1 = pv h" "dom h1 = dom h" "\<forall>b. b \<noteq> p \<longrightarrow> h1 b = h b" by blast
  from set_prev_Some [of n h1 p] assms(4) h1(4) obtain h2 where
    h2: "set_prev h1 n p = Some h2" "pv h2 = (pv h1)(n \<mapsto> p)" "nx h2 = nx h1" "dom h2 = dom h" "\<forall>b. b \<noteq> n \<longrightarrow> h2 b = h1 b" by auto
  from set_prev_Some [of el h2 0] el h2(4) obtain h3 where
    h3: "set_prev h2 el 0 = Some h3" "pv h3 = (pv h2)(el \<mapsto> 0)" "nx h3 = nx h2" "dom h3 = dom h" "\<forall>b. b \<noteq> el \<longrightarrow> h3 b = h2 b" by auto
  from set_next_Some [of el h3 0] el h3(4) obtain h4 where
    "set_next h3 el 0 = Some h4" "nx h4 = (nx h3)(el \<mapsto> 0)" "pv h4 = pv h3" "dom h4 = dom h" "\<forall>b. b \<noteq> el \<longrightarrow> h4 b = h3 b" by auto
  with h1 h2 h3 l show ?thesis by (simp add: list_del_def)
qed

section \<open>Insertion and removal\<close>

lemma last_notin_butlast: "distinct xs \<Longrightarrow> a \<in> set (butlast xs) \<Longrightarrow> a \<noteq> last xs"
  by (cases xs rule: rev_cases) auto

lemma list_add_between_rep:
  assumes rep: "list_rep h head (us @ vs)" and el: "el \<in> dom h" "el \<noteq> 0" "el \<notin> set (head # us @ vs)"
    and p: "p = last (head # us)" and n: "n = hd (vs @ [head])"
  shows "\<exists>h'. list_add_between h el p n = Some h' \<and> list_rep h' head (us @ el # vs) \<and> dom h' = dom h \<and>
    (\<forall>b. b \<notin> set (head # el # us @ vs) \<longrightarrow> h' b = h b)"
proof -
  have dist: "distinct (head # us @ vs)" "0 \<notin> set (head # us @ vs)" using rep by (auto simp: list_rep_def)
  have ch: "chain h (head # us)" "joined h p n" "chain h (vs @ [head])"
    using rep chain_last_hd [of "head # us" "vs @ [head]" h] by (simp_all add: list_rep_def p n)
  have pin: "p \<in> set (head # us)" unfolding p by (rule last_in_set) simp
  have nin: "n \<in> set (vs @ [head])" unfolding n by (rule hd_in_set) simp
  from joined_dom [OF ch(2)] el list_add_between_Some [of p h el n] obtain h' where
    h': "list_add_between h el p n = Some h'" "nx h' = (nx h)(p \<mapsto> el, el \<mapsto> n)" "pv h' = (pv h)(el \<mapsto> p, n \<mapsto> el)"
      "dom h' = dom h" "\<forall>b. b \<notin> {p, el, n} \<longrightarrow> h' b = h b" by blast
  have ne: "p \<noteq> el" "n \<noteq> el" using pin nin el(3) by auto
  have "chain h' (head # us)"
  proof (rule chain_cong [OF ch(1)])
    fix a b
    assume ab: "joined h a b" "a \<in> set (butlast (head # us))" "b \<in> set (tl (head # us))"
    from ab(2) dist have "a \<noteq> p" unfolding p by (intro last_notin_butlast) auto
    moreover have "b \<noteq> n" using ab(3) dist nin by auto
    moreover have "a \<noteq> el" "b \<noteq> el" using ab(2,3) el(3) in_set_butlastD by fastforce+
    ultimately show "joined h' a b" using ab(1) h'(2,3) by (simp add: joined_def)
  qed
  moreover have "chain h' (vs @ [head])"
  proof (rule chain_cong [OF ch(3)])
    fix a b
    assume ab: "joined h a b" "a \<in> set (butlast (vs @ [head]))" "b \<in> set (tl (vs @ [head]))"
    from ab(2) dist pin have "a \<noteq> p" by auto
    moreover have "distinct (vs @ [head])" using dist by auto
    then have "b \<noteq> n" using ab(3) unfolding n by (cases "vs @ [head]") auto
    moreover have "a \<noteq> el" "b \<noteq> el" using ab(2,3) el(3) list.set_sel(2) [of "vs @ [head]" b] by auto
    ultimately show "joined h' a b" using ab(1) h'(2,3) by (simp add: joined_def)
  qed
  moreover have "joined h' p el" "joined h' el n" using h'(2,3) ne by (auto simp: joined_def)
  ultimately have "chain h' ((head # us) @ el # vs @ [head])"
    using chain_last_hd [of "head # us" "el # vs @ [head]" h'] chain_last_hd [of "[el]" "vs @ [head]" h'] p n by simp
  moreover have "distinct (head # us @ el # vs)" "0 \<notin> set (head # us @ el # vs)" using dist el by auto
  ultimately have "list_rep h' head (us @ el # vs)" by (simp add: list_rep_def)
  then show ?thesis using h'(1,4,5) pin nin by (intro exI [of _ h']) auto
qed

lemma list_rep_ends:
  assumes "list_rep h head xs"
  obtains l where "h head = Some l" "nxt l = hd (xs @ [head])" "prev l = last (head # xs)"
proof -
  have "joined h head (hd (xs @ [head]))" "joined h (last (head # xs)) head"
    using assms chain_last_hd [of "[head]" "xs @ [head]" h] chain_last_hd [of "head # xs" "[head]" h]
    by (simp_all add: list_rep_def)
  then show thesis using that by (auto simp: joined_def nx_def pv_def)
qed

lemma list_add_rep:
  assumes "list_rep h head xs" and "el \<in> dom h" "el \<noteq> 0" "el \<notin> set (head # xs)"
  shows "\<exists>h'. list_add h el head = Some h' \<and> list_rep h' head (el # xs) \<and> dom h' = dom h \<and>
    (\<forall>b. b \<notin> set (head # el # xs) \<longrightarrow> h' b = h b)"
proof -
  obtain l where "h head = Some l" "nxt l = hd (xs @ [head])" using list_rep_ends [OF assms(1)] by blast
  then show ?thesis using list_add_between_rep [of h head "[]" xs el head] assms by (simp add: list_add_def)
qed

lemma list_add_tail_rep:
  assumes "list_rep h head xs" and "el \<in> dom h" "el \<noteq> 0" "el \<notin> set (head # xs)"
  shows "\<exists>h'. list_add_tail h el head = Some h' \<and> list_rep h' head (xs @ [el]) \<and> dom h' = dom h \<and>
    (\<forall>b. b \<notin> set (head # el # xs) \<longrightarrow> h' b = h b)"
proof -
  obtain l where "h head = Some l" "prev l = last (head # xs)" using list_rep_ends [OF assms(1)] by blast
  then show ?thesis using list_add_between_rep [of h head xs "[]" el "last (head # xs)" head] assms
    by (simp add: list_add_tail_def del: last.simps)
qed

lemma list_del_rep:
  assumes rep: "list_rep h head (us @ el # vs)"
  shows "\<exists>h'. list_del h el = Some h' \<and> list_rep h' head (us @ vs) \<and> dom h' = dom h \<and>
    h' el = Some \<lparr>prev = 0, nxt = 0\<rparr> \<and> (\<forall>b. b \<notin> set (head # us @ el # vs) \<longrightarrow> h' b = h b)"
proof -
  let ?p = "last (head # us)" and ?n = "hd (vs @ [head])"
  have dist: "distinct (head # us @ el # vs)" "0 \<notin> set (head # us @ el # vs)" using rep by (auto simp: list_rep_def)
  have ch: "chain h (head # us)" "joined h ?p el" "joined h el ?n" "chain h (vs @ [head])"
    using rep chain_last_hd [of "head # us" "el # vs @ [head]" h] chain_last_hd [of "[el]" "vs @ [head]" h]
    by (simp_all add: list_rep_def)
  have pin: "?p \<in> set (head # us)" by (rule last_in_set) simp
  have nin: "?n \<in> set (vs @ [head])" by (rule hd_in_set) simp
  from list_del_Some [of h el ?n ?p] ch(2,3) joined_dom [OF ch(2)] joined_dom [OF ch(3)] obtain h' where
    h': "list_del h el = Some h'" "nx h' = (nx h)(?p \<mapsto> ?n, el \<mapsto> 0)" "pv h' = (pv h)(?n \<mapsto> ?p, el \<mapsto> 0)"
      "dom h' = dom h" "\<forall>b. b \<notin> {?p, el, ?n} \<longrightarrow> h' b = h b" by (auto simp: joined_def)
  have ne: "?p \<noteq> el" "?n \<noteq> el" using pin nin dist by auto
  have "chain h' (head # us)"
  proof (rule chain_cong [OF ch(1)])
    fix a b
    assume ab: "joined h a b" "a \<in> set (butlast (head # us))" "b \<in> set (tl (head # us))"
    have "a \<noteq> ?p" using ab(2) dist by (intro last_notin_butlast) auto
    moreover have "b \<noteq> ?n" using ab(3) dist nin by auto
    moreover have "a \<noteq> el" "b \<noteq> el" using ab(2,3) dist in_set_butlastD by fastforce+
    ultimately show "joined h' a b" using ab(1) h'(2,3) by (simp add: joined_def)
  qed
  moreover have "chain h' (vs @ [head])"
  proof (rule chain_cong [OF ch(4)])
    fix a b
    assume ab: "joined h a b" "a \<in> set (butlast (vs @ [head]))" "b \<in> set (tl (vs @ [head]))"
    from ab(2) dist pin have "a \<noteq> ?p" by auto
    moreover have "distinct (vs @ [head])" using dist by auto
    then have "b \<noteq> ?n" using ab(3) by (cases "vs @ [head]") auto
    moreover have "a \<noteq> el" "b \<noteq> el" using ab(2,3) dist list.set_sel(2) [of "vs @ [head]" b] by auto
    ultimately show "joined h' a b" using ab(1) h'(2,3) by (simp add: joined_def)
  qed
  moreover have "joined h' ?p ?n" using h'(2,3) ne by (simp add: joined_def)
  ultimately have "chain h' ((head # us) @ vs @ [head])"
    using chain_last_hd [of "head # us" "vs @ [head]" h'] by simp
  then have "list_rep h' head (us @ vs)" using dist by (simp add: list_rep_def)
  moreover have "nx h' el = Some 0" "pv h' el = Some 0" using h'(2,3) by simp_all
  then have "h' el = Some \<lparr>prev = 0, nxt = 0\<rparr>" by (auto simp: nx_def pv_def intro: list_head.equality)
  moreover have "\<forall>b. b \<notin> set (head # us @ el # vs) \<longrightarrow> h' b = h b"
  proof (intro allI impI)
    fix b
    assume "b \<notin> set (head # us @ el # vs)"
    then have "b \<noteq> ?p" "b \<noteq> el" "b \<noteq> ?n" using pin nin by (auto simp del: last.simps)
    then show "h' b = h b" using h'(5) by blast
  qed
  ultimately show ?thesis using h'(1,4) by blast
qed

lemma list_rep_cong:
  assumes "list_rep h head xs" and "\<And>b. b \<in> set (head # xs) \<Longrightarrow> h' b = h b"
  shows "list_rep h' head xs"
proof -
  have "chain h' (head # xs @ [head])"
  proof (rule chain_cong)
    show "chain h (head # xs @ [head])" using assms(1) by (simp add: list_rep_def)
    fix a b
    assume "joined h a b" "a \<in> set (butlast (head # xs @ [head]))" "b \<in> set (tl (head # xs @ [head]))"
    then show "joined h' a b" using assms(2) [of a] assms(2) [of b] by (auto simp: joined_def nx_def pv_def butlast_append)
  qed
  then show ?thesis using assms(1) by (simp add: list_rep_def)
qed

section \<open>Iteration\<close>

fun fold_body :: "('s \<Rightarrow> nat \<Rightarrow> 's option) \<Rightarrow> nat list \<Rightarrow> 's \<Rightarrow> 's option" where
  "fold_body body [] s = Some s"
| "fold_body body (x # xs) s = do { s' \<leftarrow> body s x; fold_body body xs s' }"

lemma list_for_each_from_chain:
  "chain h (xs @ [head]) \<Longrightarrow> head \<notin> set xs \<Longrightarrow> list_for_each_from h head (hd (xs @ [head])) body s = fold_body body xs s"
proof (induction xs arbitrary: s)
  case Nil
  then show ?case by (subst list_for_each_from.simps) simp
next
  case (Cons x xs)
  then have "joined h x (hd (xs @ [head]))" "chain h (xs @ [head])"
    using chain_last_hd [of "[x]" "xs @ [head]" h] by auto
  then obtain l where "h x = Some l" "nxt l = hd (xs @ [head])" by (auto simp: joined_def nx_def)
  with Cons \<open>chain h (xs @ [head])\<close> show ?case
    by (subst list_for_each_from.simps) (auto intro: Option.bind_cong simp del: last.simps)
qed

lemma list_for_each_rep:
  assumes "list_rep h head xs"
  shows "list_for_each h head body s = fold_body body xs s"
proof -
  obtain l where "h head = Some l" "nxt l = hd (xs @ [head])" using list_rep_ends [OF assms] by blast
  then show ?thesis using list_for_each_from_chain [of h xs head body s] assms chain_last_hd [of "[head]" "xs @ [head]" h]
    by (simp add: list_for_each_def list_rep_def)
qed

lemma list_for_each_prev_from_chain:
  "chain h (head # xs) \<Longrightarrow> head \<notin> set xs \<Longrightarrow> list_for_each_prev_from h head (last (head # xs)) body s = fold_body body (rev xs) s"
proof (induction xs arbitrary: s rule: rev_induct)
  case Nil
  then show ?case by (subst list_for_each_prev_from.simps) simp
next
  case (snoc x xs)
  then have "joined h (last (head # xs)) x" "chain h (head # xs)"
    using chain_last_hd [of "head # xs" "[x]" h] by auto
  then obtain l where "h x = Some l" "prev l = last (head # xs)" by (auto simp: joined_def pv_def)
  moreover have "last (head # xs @ [x]) = x" by simp
  ultimately show ?case using snoc \<open>chain h (head # xs)\<close>
    by (subst list_for_each_prev_from.simps) (auto intro: Option.bind_cong simp del: last.simps)
qed

lemma list_for_each_prev_rep:
  assumes "list_rep h head xs"
  shows "list_for_each_prev h head body s = fold_body body (rev xs) s"
proof -
  obtain l where "h head = Some l" "prev l = last (head # xs)" using list_rep_ends [OF assms] by blast
  then show ?thesis using list_for_each_prev_from_chain [of h head xs body s] assms chain_last_hd [of "head # xs" "[head]" h]
    by (simp add: list_for_each_prev_def list_rep_def del: last.simps)
qed

text \<open>The safe loop, when its body removes the current element: the list ends up empty.\<close>

lemma list_for_each_safe_from_del:
  "list_rep h head xs \<Longrightarrow>
     \<exists>h'. list_for_each_safe_from head (hd (xs @ [head])) (hd (tl (xs @ [head, hd (xs @ [head])]))) list_del h = Some h' \<and>
       list_rep h' head [] \<and> dom h' = dom h \<and> (\<forall>x \<in> set xs. h' x = Some \<lparr>prev = 0, nxt = 0\<rparr>) \<and>
       (\<forall>b. b \<notin> set (head # xs) \<longrightarrow> h' b = h b)"
proof (induction xs arbitrary: h)
  case Nil
  then show ?case by (subst list_for_each_safe_from.simps) simp
next
  case (Cons x xs)
  from list_del_rep [of h head "[]" x xs] Cons.prems obtain h1 where
    h1: "list_del h x = Some h1" "list_rep h1 head xs" "dom h1 = dom h" "h1 x = Some \<lparr>prev = 0, nxt = 0\<rparr>"
      "\<forall>b. b \<notin> set (head # x # xs) \<longrightarrow> h1 b = h b" by auto
  from Cons.IH [OF h1(2)] obtain h2 where
    h2: "list_for_each_safe_from head (hd (xs @ [head])) (hd (tl (xs @ [head, hd (xs @ [head])]))) list_del h1 = Some h2"
      "list_rep h2 head []" "dom h2 = dom h1" "\<forall>x \<in> set xs. h2 x = Some \<lparr>prev = 0, nxt = 0\<rparr>"
      "\<forall>b. b \<notin> set (head # xs) \<longrightarrow> h2 b = h1 b" by blast
  have x: "x \<noteq> head" "x \<notin> set xs" using Cons.prems by (auto simp: list_rep_def)
  obtain l where l: "h1 (hd (xs @ [head])) = Some l" "nxt l = hd (tl (xs @ [head, hd (xs @ [head])]))"
  proof (cases xs)
    case Nil
    then show thesis using that list_rep_ends [OF h1(2)] by (metis append_Nil list.sel(1,3))
  next
    case (Cons y ys)
    then have "joined h1 y (hd (ys @ [head]))"
      using h1(2) chain_last_hd [of "[head, y]" "ys @ [head]" h1] by (auto simp: list_rep_def)
    then show thesis using that Cons by (cases ys) (auto simp: joined_def nx_def)
  qed
  show ?case
  proof (rule exI [of _ h2], intro conjI)
    show "list_for_each_safe_from head (hd ((x # xs) @ [head])) (hd (tl ((x # xs) @ [head, hd ((x # xs) @ [head])]))) list_del h = Some h2"
      using x h1(1) h2(1) l by (subst list_for_each_safe_from.simps) (cases xs; simp)
  qed (use h1 h2 x in auto)
qed

lemma list_for_each_safe_del:
  assumes "list_rep h head xs"
  shows "\<exists>h'. list_for_each_safe h head list_del = Some h' \<and> list_rep h' head []"
proof -
  obtain l where l: "h head = Some l" "nxt l = hd (xs @ [head])" using list_rep_ends [OF assms] by blast
  have "\<exists>m. h (hd (xs @ [head])) = Some m \<and> nxt m = hd (tl (xs @ [head, hd (xs @ [head])]))"
  proof (cases xs)
    case (Cons y ys)
    then have "joined h y (hd (ys @ [head]))"
      using assms chain_last_hd [of "[head, y]" "ys @ [head]" h] by (auto simp: list_rep_def)
    then show ?thesis using Cons by (cases ys) (auto simp: joined_def nx_def)
  qed (use l in simp)
  then show ?thesis using l list_for_each_safe_from_del [OF assms] by (auto simp: list_for_each_safe_def)
qed

text \<open>The same backwards.\<close>

lemma list_rep_prev:
  assumes "list_rep h head xs"
  shows "\<exists>m. h (last (head # xs)) = Some m \<and> prev m = last (head # butlast xs)"
proof (cases xs rule: rev_cases)
  case Nil
  then show ?thesis using list_rep_ends [OF assms] by (metis butlast.simps(1) last.simps)
next
  case (snoc ys y)
  then have "joined h (last (head # ys)) y"
    using assms chain_last_hd [of "head # ys" "[y, head]" h] by (auto simp: list_rep_def)
  moreover have "last (head # ys @ [y]) = y" by simp
  ultimately show ?thesis using snoc by (auto simp: joined_def pv_def simp del: last.simps)
qed

lemma list_for_each_prev_safe_from_del:
  "list_rep h head xs \<Longrightarrow> \<exists>h'. list_for_each_prev_safe_from head (last (head # xs)) (last (head # butlast xs)) list_del h = Some h' \<and> list_rep h' head []"
proof (induction xs arbitrary: h rule: rev_induct)
  case Nil
  then show ?case by (subst list_for_each_prev_safe_from.simps) simp
next
  case (snoc x xs)
  from list_del_rep [of h head xs x "[]"] snoc.prems obtain h1 where h1: "list_del h x = Some h1" "list_rep h1 head xs" by auto
  from snoc.IH [OF h1(2)] list_rep_prev [OF h1(2)] obtain h2 m where
    "list_for_each_prev_safe_from head (last (head # xs)) (last (head # butlast xs)) list_del h1 = Some h2" "list_rep h2 head []"
    "h1 (last (head # xs)) = Some m" "prev m = last (head # butlast xs)" by blast
  moreover have "x \<noteq> head" using snoc.prems by (auto simp: list_rep_def)
  moreover have "last (head # xs @ [x]) = x" by simp
  ultimately show ?case using h1(1) by (subst list_for_each_prev_safe_from.simps) (simp del: last.simps)
qed

lemma list_for_each_prev_safe_del:
  assumes "list_rep h head xs"
  shows "\<exists>h'. list_for_each_prev_safe h head list_del = Some h' \<and> list_rep h' head []"
proof -
  obtain l where "h head = Some l" "prev l = last (head # xs)" using list_rep_ends [OF assms] by blast
  then show ?thesis using list_rep_prev [OF assms] list_for_each_prev_safe_from_del [OF assms]
    by (auto simp: list_for_each_prev_safe_def simp del: last.simps)
qed

lemma init_list_head_rep:
  "head \<in> dom h \<Longrightarrow> head \<noteq> 0 \<Longrightarrow> \<exists>h'. init_list_head h head = Some h' \<and> list_rep h' head [] \<and> dom h' = dom h"
  by (auto simp: init_list_head_def set_prev_def set_next_def list_rep_def joined_def nx_def pv_def)

lemma list_empty_rep:
  assumes "list_rep h head xs"
  shows "list_empty h head = Some (xs = [])"
proof -
  obtain l where "h head = Some l" "nxt l = hd (xs @ [head])" using list_rep_ends [OF assms] by blast
  then show ?thesis using assms by (cases xs) (auto simp: list_empty_def list_rep_def)
qed

section \<open>The interface of an intrusive list\<close>

datatype list_op = Push nat | Append nat | Remove nat

fun ops_list :: "nat list \<Rightarrow> list_op list \<Rightarrow> nat list" where
  "ops_list xs [] = xs"
| "ops_list xs (Push el # ops) = ops_list (el # xs) ops"
| "ops_list xs (Append el # ops) = ops_list (xs @ [el]) ops"
| "ops_list xs (Remove el # ops) = ops_list (remove1 el xs) ops"

text \<open>The discipline of the clients: an element is in the list at most once, and only members are removed.\<close>

fun ops_ok :: "nat set \<Rightarrow> nat list \<Rightarrow> list_op list \<Rightarrow> bool" where
  "ops_ok N xs [] = True"
| "ops_ok N xs (Push el # ops) \<longleftrightarrow> el \<in> N \<and> el \<notin> set xs \<and> ops_ok N (el # xs) ops"
| "ops_ok N xs (Append el # ops) \<longleftrightarrow> el \<in> N \<and> el \<notin> set xs \<and> ops_ok N (xs @ [el]) ops"
| "ops_ok N xs (Remove el # ops) \<longleftrightarrow> el \<in> set xs \<and> ops_ok N (remove1 el xs) ops"

fun run_ops :: "('h \<Rightarrow> nat \<Rightarrow> 'h option) \<Rightarrow> ('h \<Rightarrow> nat \<Rightarrow> 'h option) \<Rightarrow> ('h \<Rightarrow> nat \<Rightarrow> 'h option) \<Rightarrow>
    'h \<Rightarrow> list_op list \<Rightarrow> 'h option" where
  "run_ops push app rem h [] = Some h"
| "run_ops push app rem h (Push el # ops) = do { h' \<leftarrow> push h el; run_ops push app rem h' ops }"
| "run_ops push app rem h (Append el # ops) = do { h' \<leftarrow> app h el; run_ops push app rem h' ops }"
| "run_ops push app rem h (Remove el # ops) = do { h' \<leftarrow> rem h el; run_ops push app rem h' ops }"

locale intrusive_list =
  fixes rep :: "'h \<Rightarrow> nat list \<Rightarrow> bool" and nodes :: "nat set"
    and push :: "'h \<Rightarrow> nat \<Rightarrow> 'h option" and app :: "'h \<Rightarrow> nat \<Rightarrow> 'h option" and rem :: "'h \<Rightarrow> nat \<Rightarrow> 'h option"
  assumes push_rep: "rep h xs \<Longrightarrow> el \<in> nodes \<Longrightarrow> el \<notin> set xs \<Longrightarrow> \<exists>h'. push h el = Some h' \<and> rep h' (el # xs)"
    and app_rep: "rep h xs \<Longrightarrow> el \<in> nodes \<Longrightarrow> el \<notin> set xs \<Longrightarrow> \<exists>h'. app h el = Some h' \<and> rep h' (xs @ [el])"
    and rem_rep: "rep h xs \<Longrightarrow> el \<in> set xs \<Longrightarrow> \<exists>h'. rem h el = Some h' \<and> rep h' (remove1 el xs)"
begin

lemma run_ops_rep:
  "rep h xs \<Longrightarrow> ops_ok nodes xs ops \<Longrightarrow> \<exists>h'. run_ops push app rem h ops = Some h' \<and> rep h' (ops_list xs ops)"
proof (induction ops arbitrary: h xs)
  case (Cons oper ops)
  then show ?case
  proof (cases oper)
    case (Push el)
    with Cons.prems push_rep [of h xs el] obtain h' where "push h el = Some h'" "rep h' (el # xs)" by auto
    with Cons.IH [of h' "el # xs"] Cons.prems Push show ?thesis by simp
  next
    case (Append el)
    with Cons.prems app_rep [of h xs el] obtain h' where "app h el = Some h'" "rep h' (xs @ [el])" by auto
    with Cons.IH [of h' "xs @ [el]"] Cons.prems Append show ?thesis by simp
  next
    case (Remove el)
    with Cons.prems rem_rep [of h xs el] obtain h' where "rem h el = Some h'" "rep h' (remove1 el xs)" by auto
    with Cons.IH [of h' "remove1 el xs"] Cons.prems Remove show ?thesis by simp
  qed
qed simp

end

interpretation lh: intrusive_list "\<lambda>h xs. list_rep h head xs \<and> dom h = D" "D - {0, head}"
    "\<lambda>h el. list_add h el head" "\<lambda>h el. list_add_tail h el head" list_del for head D
proof
  fix h xs el
  assume *: "list_rep h head xs \<and> dom h = D" "el \<in> D - {0, head}" "el \<notin> set xs"
  from list_add_rep [of h head xs el] * show "\<exists>h'. list_add h el head = Some h' \<and> list_rep h' head (el # xs) \<and> dom h' = D" by auto
  from list_add_tail_rep [of h head xs el] * show "\<exists>h'. list_add_tail h el head = Some h' \<and> list_rep h' head (xs @ [el]) \<and> dom h' = D" by auto
next
  fix h xs el
  assume *: "list_rep h head xs \<and> dom h = D" "el \<in> set xs"
  then obtain us vs where xs: "xs = us @ el # vs" "el \<notin> set us" using split_list_first by metis
  then have "remove1 el xs = us @ vs" by (simp add: remove1_append)
  with list_del_rep [of h head us el vs] * xs show "\<exists>h'. list_del h el = Some h' \<and> list_rep h' head (remove1 el xs) \<and> dom h' = D" by auto
qed

lemma fold_body_collect: "fold_body (\<lambda>s x. Some (s @ [x])) xs acc = Some (acc @ xs)"
  by (induction xs arbitrary: acc) auto

text \<open>
  C20. Whatever sequence of insertions at the head, insertions at the tail and removals is made on a
  well-formed list (elements inserted at most once, only members removed), no null or foreign link is
  dereferenced, and the list then holds exactly what the same operations do to a sequence: walking it
  forwards and backwards visits those elements in order and ends, the emptiness test agrees, and the
  safe loops, in either direction, may delete every element they visit.
\<close>

theorem list_ops_refine:
  assumes "list_rep h head xs" and "ops_ok (dom h - {0, head}) xs ops"
  shows "\<exists>h'. run_ops (\<lambda>h el. list_add h el head) (\<lambda>h el. list_add_tail h el head) list_del h ops = Some h' \<and>
    list_rep h' head (ops_list xs ops) \<and>
    list_for_each h' head (\<lambda>s x. Some (s @ [x])) [] = Some (ops_list xs ops) \<and>
    list_for_each_prev h' head (\<lambda>s x. Some (s @ [x])) [] = Some (rev (ops_list xs ops)) \<and>
    list_empty h' head = Some (ops_list xs ops = []) \<and>
    (\<exists>h''. list_for_each_safe h' head list_del = Some h'' \<and> list_rep h'' head []) \<and>
    (\<exists>h''. list_for_each_prev_safe h' head list_del = Some h'' \<and> list_rep h'' head [])"
proof -
  from lh.run_ops_rep [of h head xs "dom h" ops] assms obtain h' where
    h': "run_ops (\<lambda>h el. list_add h el head) (\<lambda>h el. list_add_tail h el head) list_del h ops = Some h'"
      "list_rep h' head (ops_list xs ops)" by auto
  with list_for_each_rep [OF h'(2), of "\<lambda>s x. Some (s @ [x])" "[]"]
    list_for_each_prev_rep [OF h'(2), of "\<lambda>s x. Some (s @ [x])" "[]"] list_empty_rep [OF h'(2)]
    list_for_each_safe_del [OF h'(2)] list_for_each_prev_safe_del [OF h'(2)] show ?thesis by (simp add: fold_body_collect)
qed

theorem list_ops_refine_witness:
  "\<exists>h'. run_ops (\<lambda>h el. list_add h el 1) (\<lambda>h el. list_add_tail h el 1) list_del
      [1 \<mapsto> \<lparr>prev = 1, nxt = 1\<rparr>, 2 \<mapsto> \<lparr>prev = 0, nxt = 0\<rparr>, 3 \<mapsto> \<lparr>prev = 0, nxt = 0\<rparr>]
      [Append 2, Push 3, Remove 2] = Some h' \<and>
    list_for_each h' 1 (\<lambda>s x. Some (s @ [x])) [] = Some [3]"
  using list_ops_refine [of "[1 \<mapsto> \<lparr>prev = 1, nxt = 1\<rparr>, 2 \<mapsto> \<lparr>prev = 0, nxt = 0\<rparr>, 3 \<mapsto> \<lparr>prev = 0, nxt = 0\<rparr>]" 1 "[]"
      "[Append 2, Push 3, Remove 2]"]
  by (auto simp: list_rep_def joined_def nx_def pv_def)

end
