(* ===== verification/Char_Range.thy ===== *)
theory Char_Range
  imports Wgi_Prelude
begin

text \<open>
  The character ranges of \<^verbatim>\<open>libunicode.c\<close> and \<^verbatim>\<open>libunicode.h\<close>: a set of code points as the sorted list of
  the points where membership changes.

  The storage is the list \<open>cr_points\<close>, whose length is \<open>cr_size\<close>; the first \<open>cr_len\<close> entries are in
  use.  The callback \<open>realloc_func\<close> is a field and counts in points.  \<open>None\<close> is undefined behaviour:
  an access outside the storage, or an overflow of the \<open>int\<close> product in \<open>cr_realloc\<close>.  Otherwise an
  operation returns the new range and whether it returned -1.
\<close>

section \<open>Data\<close>

type_synonym points_realloc = "u32 list \<Rightarrow> nat \<Rightarrow> u32 list option"

record CharRange =
  cr_len :: nat
  cr_size :: nat
  cr_points :: "u32 list"
  cr_realloc_func :: points_realloc

type_synonym cr_result = "(CharRange \<times> bool) option"

datatype CharRangeOpEnum = CR_OP_UNION | CR_OP_INTER | CR_OP_XOR

text \<open>\<open>libc_realloc\<close> stands for the \<open>realloc\<close> of the C library.\<close>

definition cr_default_realloc :: "points_realloc \<Rightarrow> points_realloc" where
  "cr_default_realloc libc_realloc p n = libc_realloc p n"

definition cr_init :: "points_realloc \<Rightarrow> points_realloc option \<Rightarrow> CharRange" where
  "cr_init libc_realloc realloc_func =
     \<lparr>cr_len = 0, cr_size = 0, cr_points = [],
      cr_realloc_func = (case realloc_func of None \<Rightarrow> cr_default_realloc libc_realloc | Some f \<Rightarrow> f)\<rparr>"

section \<open>Operations\<close>

definition cr_realloc :: "CharRange \<Rightarrow> nat \<Rightarrow> cr_result" where
  "cr_realloc cr sz =
     (if cr_size cr < sz
      then if 2 ^ 31 \<le> cr_size cr * 3 then None
        else let new_size = max sz (cr_size cr * 3 div 2) in
          Some (case cr_realloc_func cr (cr_points cr) new_size of
              None \<Rightarrow> (cr, True)
            | Some new_buf \<Rightarrow> (cr\<lparr>cr_points := new_buf, cr_size := new_size\<rparr>, False))
      else Some (cr, False))"

definition cr_copy :: "CharRange \<Rightarrow> CharRange \<Rightarrow> cr_result" where
  "cr_copy cr cr1 = do {
     (cr', err) \<leftarrow> cr_realloc cr (cr_len cr1);
     if err then Some (cr', True)
     else if cr_len cr1 \<le> length (cr_points cr') \<and> cr_len cr1 \<le> length (cr_points cr1)
     then Some (cr'\<lparr>cr_points := take (cr_len cr1) (cr_points cr1) @ drop (cr_len cr1) (cr_points cr'), cr_len := cr_len cr1\<rparr>, False)
     else None
   }"

definition cr_add_point :: "CharRange \<Rightarrow> u32 \<Rightarrow> cr_result" where
  "cr_add_point cr v = do {
     (cr', err) \<leftarrow> (if cr_len cr \<ge> cr_size cr then cr_realloc cr (cr_len cr + 1) else Some (cr, False));
     if err then Some (cr', True)
     else do {
       pt \<leftarrow> wr (cr_points cr') (cr_len cr') v;
       Some (cr'\<lparr>cr_points := pt, cr_len := cr_len cr' + 1\<rparr>, False)
     }
   }"

definition cr_add_interval :: "CharRange \<Rightarrow> u32 \<Rightarrow> u32 \<Rightarrow> cr_result" where
  "cr_add_interval cr c1 c2 = do {
     (cr', err) \<leftarrow> (if cr_len cr + 2 > cr_size cr then cr_realloc cr (cr_len cr + 2) else Some (cr, False));
     if err then Some (cr', True)
     else do {
       pt \<leftarrow> wr (cr_points cr') (cr_len cr') c1;
       pt' \<leftarrow> wr pt (cr_len cr' + 1) c2;
       Some (cr'\<lparr>cr_points := pt', cr_len := cr_len cr' + 2\<rparr>, False)
     }
   }"

text \<open>Compression in place: the search for the end of a run of touching intervals, and the loop.\<close>

function cr_run_end :: "u32 list \<Rightarrow> nat \<Rightarrow> nat \<Rightarrow> nat option" where
  "cr_run_end pt len j =
     (if j + 3 < len
      then do {
        x \<leftarrow> rd pt (j + 1);
        y \<leftarrow> rd pt (j + 2);
        if x = y then cr_run_end pt len (j + 2) else Some j
      }
      else Some j)"
  by pat_completeness auto
termination by (relation "measure (\<lambda>(pt, len, j). len - j)") auto

declare cr_run_end.simps [simp del]

lemma cr_run_end_ge: "cr_run_end pt len j = Some j' \<Longrightarrow> j \<le> j'"
proof (induction pt len j rule: cr_run_end.induct)
  case (1 pt len j)
  from "1.prems" show ?case
    by (subst (asm) cr_run_end.simps) (auto simp: bind_eq_Some_conv split: if_splits dest!: "1.IH")
qed

function cr_compress_loop :: "u32 list \<Rightarrow> nat \<Rightarrow> nat \<Rightarrow> nat \<Rightarrow> (u32 list \<times> nat) option" where
  "cr_compress_loop pt len i k =
     (if i + 1 < len
      then do {
        x \<leftarrow> rd pt i;
        y \<leftarrow> rd pt (i + 1);
        if x = y then cr_compress_loop pt len (i + 2) k
        else do {
          j \<leftarrow> cr_run_end pt len i;
          a \<leftarrow> rd pt i;
          pt1 \<leftarrow> wr pt k a;
          b \<leftarrow> rd pt1 (j + 1);
          pt2 \<leftarrow> wr pt1 (k + 1) b;
          cr_compress_loop pt2 len (j + 2) (k + 2)
        }
      }
      else Some (pt, k))"
  by pat_completeness auto
termination
  by (relation "measure (\<lambda>(pt, len, i, k). len - i)") (auto dest!: cr_run_end_ge)

declare cr_compress_loop.simps [simp del]

definition cr_compress :: "CharRange \<Rightarrow> CharRange option" where
  "cr_compress cr = do {
     (pt, k) \<leftarrow> cr_compress_loop (cr_points cr) (cr_len cr) 0 0;
     Some (cr\<lparr>cr_points := pt, cr_len := k\<rparr>)
   }"

text \<open>The merge of \<open>cr_op\<close>: the next point, with the indices after it.\<close>

definition cr_next :: "u32 list \<Rightarrow> nat \<Rightarrow> u32 list \<Rightarrow> nat \<Rightarrow> nat \<Rightarrow> nat \<Rightarrow> (u32 \<times> nat \<times> nat) option option" where
  "cr_next a_pt a_len b_pt b_len a_idx b_idx =
     (if a_idx < a_len \<and> b_idx < b_len
      then do {
        a \<leftarrow> rd a_pt a_idx;
        b \<leftarrow> rd b_pt b_idx;
        Some (Some (if a < b then (a, a_idx + 1, b_idx)
                    else if a = b then (a, a_idx + 1, b_idx + 1)
                    else (b, a_idx, b_idx + 1)))
      }
      else if a_idx < a_len then do { a \<leftarrow> rd a_pt a_idx; Some (Some (a, a_idx + 1, b_idx)) }
      else if b_idx < b_len then do { b \<leftarrow> rd b_pt b_idx; Some (Some (b, a_idx, b_idx + 1)) }
      else Some None)"

fun cr_is_in :: "CharRangeOpEnum \<Rightarrow> bool \<Rightarrow> bool \<Rightarrow> bool" where
  "cr_is_in CR_OP_UNION a b = (a \<or> b)"
| "cr_is_in CR_OP_INTER a b = (a \<and> b)"
| "cr_is_in CR_OP_XOR a b = (a \<noteq> b)"

function cr_op_loop :: "CharRange \<Rightarrow> u32 list \<Rightarrow> nat \<Rightarrow> u32 list \<Rightarrow> nat \<Rightarrow> CharRangeOpEnum \<Rightarrow> nat \<Rightarrow> nat \<Rightarrow> cr_result" where
  "cr_op_loop cr a_pt a_len b_pt b_len rop a_idx b_idx = do {
     r \<leftarrow> cr_next a_pt a_len b_pt b_len a_idx b_idx;
     case r of
       None \<Rightarrow> Some (cr, False)
     | Some (v, a_idx', b_idx') \<Rightarrow>
         if cr_is_in rop (odd a_idx') (odd b_idx') \<noteq> odd (cr_len cr)
         then do {
           (cr', err) \<leftarrow> cr_add_point cr v;
           if err then Some (cr', True) else cr_op_loop cr' a_pt a_len b_pt b_len rop a_idx' b_idx'
         }
         else cr_op_loop cr a_pt a_len b_pt b_len rop a_idx' b_idx'
   }"
  by pat_completeness auto
termination
  by (relation "measure (\<lambda>(cr, a_pt, a_len, b_pt, b_len, rop, a_idx, b_idx). (a_len - a_idx) + (b_len - b_idx))")
    (auto simp: cr_next_def bind_eq_Some_conv split: if_splits)

declare cr_op_loop.simps [simp del]

definition cr_op :: "CharRange \<Rightarrow> u32 list \<Rightarrow> nat \<Rightarrow> u32 list \<Rightarrow> nat \<Rightarrow> CharRangeOpEnum \<Rightarrow> cr_result" where
  "cr_op cr a_pt a_len b_pt b_len rop = do {
     (cr', err) \<leftarrow> cr_op_loop cr a_pt a_len b_pt b_len rop 0 0;
     if err then Some (cr', True) else do { cr'' \<leftarrow> cr_compress cr'; Some (cr'', False) }
   }"

definition cr_union1 :: "CharRange \<Rightarrow> u32 list \<Rightarrow> nat \<Rightarrow> cr_result" where
  "cr_union1 cr b_pt b_len =
     cr_op (cr\<lparr>cr_len := 0, cr_size := 0, cr_points := []\<rparr>) (cr_points cr) (cr_len cr) b_pt b_len CR_OP_UNION"

definition cr_union_interval :: "CharRange \<Rightarrow> u32 \<Rightarrow> u32 \<Rightarrow> cr_result" where
  "cr_union_interval cr c1 c2 = cr_union1 cr [c1, c2 + 1] 2"

definition cr_invert :: "CharRange \<Rightarrow> cr_result" where
  "cr_invert cr = do {
     let len = cr_len cr;
     (cr', err) \<leftarrow> cr_realloc cr (len + 2);
     if err then Some (cr', True)
     else if len + 1 \<le> length (cr_points cr')
     then do {
       let pt0 = take 1 (cr_points cr') @ take len (cr_points cr') @ drop (len + 1) (cr_points cr');
       pt1 \<leftarrow> wr pt0 0 0;
       pt2 \<leftarrow> wr pt1 (len + 1) (- 1);
       cr'' \<leftarrow> cr_compress (cr'\<lparr>cr_points := pt2, cr_len := len + 2\<rparr>);
       Some (cr'', False)
     }
     else None
   }"

section \<open>The set a list of points stands for\<close>

text \<open>A code point is in the set when an odd number of points are at or below it.\<close>

definition cnt :: "u32 list \<Rightarrow> u32 \<Rightarrow> nat" where
  "cnt pts x = length (filter (\<lambda>p. p \<le> x) pts)"

definition in_points :: "u32 list \<Rightarrow> u32 \<Rightarrow> bool" where
  "in_points pts x \<longleftrightarrow> odd (cnt pts x)"

definition canonical :: "u32 list \<Rightarrow> bool" where
  "canonical pts \<longleftrightarrow> even (length pts) \<and> sorted_wrt (<) pts"

definition cr_live :: "CharRange \<Rightarrow> u32 list" where
  "cr_live cr = take (cr_len cr) (cr_points cr)"

definition cr_wf :: "CharRange \<Rightarrow> bool" where
  "cr_wf cr \<longleftrightarrow> length (cr_points cr) = cr_size cr \<and> cr_len cr \<le> cr_size cr"

text \<open>What is relied on of \<open>realloc\<close>: a block it returns has the size asked for and keeps the contents.\<close>

definition points_alloc :: "points_realloc \<Rightarrow> bool" where
  "points_alloc f \<longleftrightarrow> (\<forall>p n p'. f p n = Some p' \<longrightarrow> length p' = n \<and> take (length p) p' = take n p)"

definition alloc_always :: "points_realloc \<Rightarrow> bool" where
  "alloc_always f \<longleftrightarrow> (\<forall>p n. f p n \<noteq> None)"

lemma cnt_simps [simp]: "cnt [] x = 0" "cnt (p # pts) x = (if p \<le> x then 1 else 0) + cnt pts x"
  by (simp_all add: cnt_def)

lemma cnt_append [simp]: "cnt (xs @ ys) x = cnt xs x + cnt ys x"
  by (simp add: cnt_def)

lemma cnt_all: "\<forall>p \<in> set pts. p \<le> x \<Longrightarrow> cnt pts x = length pts"
  by (induction pts) auto

section \<open>Compression\<close>

text \<open>The list compression computes: empty intervals dropped, touching ones joined.\<close>

fun squeeze :: "u32 list \<Rightarrow> u32 list" where
  "squeeze (a # b # c # d # r) =
     (if a = b then squeeze (c # d # r) else if b = c then squeeze (a # d # r) else a # b # squeeze (c # d # r))"
| "squeeze [a, b, c] = (if a = b then [] else [a, b])"
| "squeeze [a, b] = (if a = b then [] else [a, b])"
| "squeeze [a] = []"
| "squeeze [] = []"

lemma comp_cnt: "even (length pts) \<Longrightarrow> odd (cnt (squeeze pts) x) \<longleftrightarrow> odd (cnt pts x)"
  by (induction pts rule: squeeze.induct) auto

lemma comp_even: "even (length (squeeze pts))"
  by (induction pts rule: squeeze.induct) auto

lemma comp_length: "length (squeeze pts) \<le> length pts"
  by (induction pts rule: squeeze.induct) auto

lemma comp_subset: "set (squeeze pts) \<subseteq> set pts"
  by (induction pts rule: squeeze.induct) auto

lemma comp_sorted: "sorted pts \<Longrightarrow> sorted_wrt (<) (squeeze pts)"
proof (induction pts rule: squeeze.induct)
  case (1 a b c d r)
  show ?case
  proof (cases "a = b \<or> b = c")
    case True
    with 1 show ?thesis by auto
  next
    case False
    then have ab: "a < b" "b < c" using "1.prems" by (auto simp: less_le)
    have "b < y" if "y \<in> set (squeeze (c # d # r))" for y
    proof -
      have "c \<le> y" using that "1.prems" comp_subset [of "c # d # r"] by auto
      with ab(2) show ?thesis by (rule less_le_trans)
    qed
    with ab False 1 show ?thesis by (auto intro: less_trans)
  qed
qed (auto simp: less_le)

lemma comp_skip: "squeeze (a # a # r) = squeeze r"
  by (cases r rule: squeeze.cases) auto

lemma cr_run_end_comp:
  assumes "sorted L" and "length L = len" and "even len" and "len \<le> length pt"
  shows "i + 1 < len \<Longrightarrow> even i \<Longrightarrow> a < L ! (i + 1) \<Longrightarrow> (\<And>q. i \<le> q \<Longrightarrow> q < len \<Longrightarrow> pt ! q = L ! q) \<Longrightarrow>
    \<exists>j. cr_run_end pt len i = Some j \<and> i \<le> j \<and> j + 1 < len \<and> even j \<and>
      squeeze (a # drop (i + 1) L) = a # L ! (j + 1) # squeeze (drop (j + 2) L)"
proof (induction "len - i" arbitrary: i rule: less_induct)
  case less
  show ?case
  proof (cases "i + 3 < len")
    case False
    with less.prems(1,2) assms(3) have i: "i + 2 = len" by presburger
    then have "drop (i + 1) L = [L ! (i + 1)]" using assms(2) by (simp add: drop_eq_Cons_nth)
    then show ?thesis using False less.prems i assms(2) by (subst cr_run_end.simps) auto
  next
    case True
    have d: "drop (i + 1) L = L ! (i + 1) # L ! (i + 2) # L ! (i + 3) # drop (i + 4) L"
      using True assms(2) by (simp add: drop_eq_Cons_nth numeral_eq_Suc)
    have d2: "drop (i + 2) L = L ! (i + 2) # L ! (i + 3) # drop (i + 4) L"
      "drop (i + 3) L = L ! (i + 3) # drop (i + 4) L"
      using True assms(2) by (simp_all add: drop_eq_Cons_nth numeral_eq_Suc)
    have rd: "rd pt (i + 1) = Some (L ! (i + 1))" "rd pt (i + 2) = Some (L ! (i + 2))"
      using True assms(4) less.prems(4) by (simp_all add: rd_def)
    show ?thesis
    proof (cases "L ! (i + 1) = L ! (i + 2)")
      case eq: True
      have "L ! (i + 1) \<le> L ! (i + 2 + 1)" using assms(1,2) True by (intro sorted_nth_mono) auto
      with less.prems(3) have "a < L ! (i + 2 + 1)" by (rule less_le_trans)
      moreover have "i + 2 + 1 < len" "even (i + 2)" "len - (i + 2) < len - i" using True less.prems(2) by auto
      moreover have "\<And>q. i + 2 \<le> q \<Longrightarrow> q < len \<Longrightarrow> pt ! q = L ! q" using less.prems(4) by simp
      ultimately obtain j where j: "cr_run_end pt len (i + 2) = Some j" "i + 2 \<le> j" "j + 1 < len" "even j"
        "squeeze (a # drop (i + 2 + 1) L) = a # L ! (j + 1) # squeeze (drop (j + 2) L)"
        using less.hyps [of "i + 2"] by blast
      have "i + 2 + 1 = i + 3" by simp
      then have "squeeze (a # drop (i + 1) L) = squeeze (a # drop (i + 2 + 1) L)"
        using eq less.prems(3) unfolding d d2 by (simp only: d2) simp
      then show ?thesis using j True rd eq by (subst cr_run_end.simps) (auto simp: add.commute)
    next
      case False
      then have "squeeze (a # drop (i + 1) L) = a # L ! (i + 1) # squeeze (drop (i + 2) L)"
        using less.prems(3) unfolding d d2 by simp
      then show ?thesis using False True rd less.prems by (subst cr_run_end.simps) auto
    qed
  qed
qed

lemma cr_compress_loop_comp:
  assumes L: "sorted L" "length L = len" "even len"
  shows "len \<le> length pt \<Longrightarrow> even i \<Longrightarrow> i \<le> len \<Longrightarrow> k \<le> i \<Longrightarrow> (\<And>q. i \<le> q \<Longrightarrow> q < len \<Longrightarrow> pt ! q = L ! q) \<Longrightarrow>
    \<exists>pt' k'. cr_compress_loop pt len i k = Some (pt', k') \<and> take k' pt' = take k pt @ squeeze (drop i L) \<and>
      k' \<le> len \<and> length pt' = length pt"
proof (induction "len - i" arbitrary: pt i k rule: less_induct)
  case less
  show ?case
  proof (cases "i + 1 < len")
    case False
    with less.prems L(3) have "i = len" by presburger
    then show ?thesis using less.prems False L(2) by (subst cr_compress_loop.simps) auto
  next
    case True
    have d: "drop i L = L ! i # drop (i + 1) L" "drop (i + 1) L = L ! (i + 1) # drop (i + 2) L"
      using True L(2) by (simp_all add: drop_eq_Cons_nth)
    have rd: "rd pt i = Some (L ! i)" "rd pt (i + 1) = Some (L ! (i + 1))"
      using True less.prems by (simp_all add: rd_def)
    have ev: "even (i + 2)" "i + 2 \<le> len" using True less.prems(2) L(3) by presburger+
    show ?thesis
    proof (cases "L ! i = L ! (i + 1)")
      case eq: True
      have "squeeze (drop i L) = squeeze (drop (i + 2) L)" unfolding d using eq by (simp add: comp_skip)
      moreover have "len - (i + 2) < len - i" using True by linarith
      moreover note less.hyps [OF this less.prems(1) ev(1,2), of k]
      ultimately obtain pt' k' where
        "cr_compress_loop pt len (i + 2) k = Some (pt', k')" "take k' pt' = take k pt @ squeeze (drop (i + 2) L)"
        "k' \<le> len" "length pt' = length pt" using less.prems(4,5) by auto
      with \<open>squeeze (drop i L) = squeeze (drop (i + 2) L)\<close> show ?thesis using True rd eq by (subst cr_compress_loop.simps) simp
    next
      case neq: False
      have "L ! i \<le> L ! (i + 1)" using L True by (intro sorted_nth_mono) auto
      then have lt: "L ! i < L ! (i + 1)" using neq by simp
      from cr_run_end_comp [OF L less.prems(1) True less.prems(2) lt less.prems(5)] obtain j where
        j: "cr_run_end pt len i = Some j" "i \<le> j" "j + 1 < len" "even j"
          "squeeze (L ! i # drop (i + 1) L) = L ! i # L ! (j + 1) # squeeze (drop (j + 2) L)" by blast
      let ?pt1 = "pt[k := L ! i]"
      let ?pt2 = "?pt1[k + 1 := L ! (j + 1)]"
      have "rd ?pt1 (j + 1) = Some (L ! (j + 1))" using j less.prems by (simp add: rd_def)
      moreover have ev2: "even (j + 2)" "j + 2 \<le> len" "len - (j + 2) < len - i" using j L(3) True by presburger+
      moreover have "?pt2 ! q = L ! q" if "j + 2 \<le> q" "q < len" for q
        using that j less.prems by simp
      then obtain pt' k' where r: "cr_compress_loop ?pt2 len (j + 2) (k + 2) = Some (pt', k')"
        "take k' pt' = take (k + 2) ?pt2 @ squeeze (drop (j + 2) L)" "k' \<le> len" "length pt' = length pt"
        using less.hyps [of "j + 2" ?pt2 "k + 2"] ev2 less.prems j by fastforce
      moreover have "take (k + 2) ?pt2 = take k pt @ [L ! i, L ! (j + 1)]"
        using less.prems True by (simp add: take_Suc_conv_app_nth)
      ultimately show ?thesis using True rd neq j less.prems by (subst cr_compress_loop.simps) (simp add: d(1))
    qed
  qed
qed

lemma cr_compress_live:
  assumes "cr_wf cr" and "sorted (cr_live cr)" and "even (cr_len cr)"
  shows "\<exists>cr'. cr_compress cr = Some cr' \<and> cr_live cr' = squeeze (cr_live cr) \<and> cr_wf cr' \<and> cr_realloc_func cr' = cr_realloc_func cr \<and>
    cr_size cr' = cr_size cr \<and> cr_len cr' \<le> cr_len cr"
proof -
  have "length (cr_live cr) = cr_len cr" using assms(1) by (simp add: cr_live_def cr_wf_def)
  from cr_compress_loop_comp [OF assms(2) this assms(3), of "cr_points cr" 0 0] assms(1) obtain pt k where
    "cr_compress_loop (cr_points cr) (cr_len cr) 0 0 = Some (pt, k)" "take k pt = squeeze (cr_live cr)"
    "k \<le> cr_len cr" "length pt = length (cr_points cr)" by (auto simp: cr_wf_def cr_live_def)
  then show ?thesis using assms(1) by (auto simp: cr_compress_def cr_live_def cr_wf_def)
qed

section \<open>Adding points\<close>

lemma cr_realloc_ok:
  assumes "cr_wf cr" and "points_alloc (cr_realloc_func cr)" and "cr_size cr * 3 < 2 ^ 31"
  shows "\<exists>cr' err. cr_realloc cr n = Some (cr', err) \<and> cr_wf cr' \<and> cr_live cr' = cr_live cr \<and> cr_len cr' = cr_len cr \<and>
    cr_realloc_func cr' = cr_realloc_func cr \<and> cr_size cr' \<le> max (cr_size cr) (max n (cr_size cr * 3 div 2)) \<and>
    (\<not> err \<longrightarrow> n \<le> cr_size cr') \<and> (alloc_always (cr_realloc_func cr) \<longrightarrow> \<not> err)"
proof (cases "cr_size cr < n")
  case True
  let ?m = "max n (cr_size cr * 3 div 2)"
  show ?thesis
  proof (cases "cr_realloc_func cr (cr_points cr) ?m")
    case None
    then have "cr_realloc cr n = Some (cr, True)" using True assms(3) by (simp add: cr_realloc_def Let_def)
    moreover have "\<not> alloc_always (cr_realloc_func cr)" using None by (auto simp: alloc_always_def)
    ultimately show ?thesis using assms(1) by (intro exI [of _ cr] exI [of _ True]) simp
  next
    case (Some p)
    then have "length p = ?m" "take (length (cr_points cr)) p = take ?m (cr_points cr)"
      using assms(2) by (auto simp: points_alloc_def)
    moreover from this have "take (length (cr_points cr)) p = cr_points cr" using assms(1) True by (simp add: cr_wf_def)
    then have "take (cr_len cr) p = take (cr_len cr) (cr_points cr)"
      using assms(1) by (metis cr_wf_def min.absorb1 take_take)
    moreover have "cr_realloc cr n = Some (cr\<lparr>cr_points := p, cr_size := ?m\<rparr>, False)"
      using True Some assms(3) by (simp add: cr_realloc_def Let_def)
    ultimately show ?thesis using True assms(1)
      by (intro exI [of _ "cr\<lparr>cr_points := p, cr_size := ?m\<rparr>"] exI [of _ False]) (auto simp: cr_wf_def cr_live_def)
  qed
next
  case False
  then show ?thesis using assms(1) by (intro exI [of _ cr] exI [of _ False]) (auto simp: cr_realloc_def)
qed

lemma cr_add_point_ok:
  assumes "cr_wf cr" and "points_alloc (cr_realloc_func cr)" and "cr_len cr < n" and "cr_size cr \<le> 2 * n" and "n < 2 ^ 28"
  shows "\<exists>cr' err. cr_add_point cr v = Some (cr', err) \<and> cr_wf cr' \<and> cr_realloc_func cr' = cr_realloc_func cr \<and>
    cr_size cr' \<le> 2 * n \<and> (\<not> err \<longrightarrow> cr_live cr' = cr_live cr @ [v] \<and> cr_len cr' = cr_len cr + 1) \<and>
    (alloc_always (cr_realloc_func cr) \<longrightarrow> \<not> err)"
proof -
  have sz: "cr_size cr * 3 < 2 ^ 31" using assms(4,5) by simp
  let ?r = "if cr_len cr \<ge> cr_size cr then cr_realloc cr (cr_len cr + 1) else Some (cr, False)"
  have "\<exists>cr' err. ?r = Some (cr', err) \<and> cr_wf cr' \<and> cr_live cr' = cr_live cr \<and> cr_len cr' = cr_len cr \<and>
    cr_realloc_func cr' = cr_realloc_func cr \<and> cr_size cr' \<le> 2 * n \<and> (\<not> err \<longrightarrow> cr_len cr < cr_size cr') \<and>
    (alloc_always (cr_realloc_func cr) \<longrightarrow> \<not> err)"
  proof (cases "cr_size cr \<le> cr_len cr")
    case True
    then have "cr_size cr = cr_len cr" using assms(1) by (simp add: cr_wf_def)
    then show ?thesis using cr_realloc_ok [OF assms(1,2) sz, of "cr_len cr + 1"] assms(3) by fastforce
  next
    case False
    then show ?thesis using assms(1,4) by (intro exI [of _ cr] exI [of _ False]) simp
  qed
  then obtain cr' err where r: "?r = Some (cr', err)" "cr_wf cr'" "cr_live cr' = cr_live cr" "cr_len cr' = cr_len cr"
    "cr_realloc_func cr' = cr_realloc_func cr" "cr_size cr' \<le> 2 * n" "\<not> err \<longrightarrow> cr_len cr < cr_size cr'"
    "alloc_always (cr_realloc_func cr) \<longrightarrow> \<not> err" by blast
  show ?thesis
  proof (cases err)
    case True
    then show ?thesis using r unfolding cr_add_point_def r(1) by (intro exI [of _ cr'] exI [of _ True]) simp
  next
    case False
    then have "cr_len cr < length (cr_points cr')" using r(2,7) by (simp add: cr_wf_def)
    then show ?thesis using False r unfolding cr_add_point_def r(1)
      by (auto simp: cr_wf_def cr_live_def take_Suc_conv_app_nth)
  qed
qed

section \<open>Merging\<close>

text \<open>
  The invariant of the merge: the points produced stand for the combination of the points consumed,
  and none of them is above a point still to come.
\<close>

definition op_inv :: "CharRangeOpEnum \<Rightarrow> u32 list \<Rightarrow> u32 list \<Rightarrow> nat \<Rightarrow> nat \<Rightarrow> u32 list \<Rightarrow> bool" where
  "op_inv rop a b i j out \<longleftrightarrow> i \<le> length a \<and> j \<le> length b \<and> length out \<le> i + j \<and> sorted out \<and>
     (\<forall>x. odd (cnt out x) \<longleftrightarrow> cr_is_in rop (odd (cnt (take i a) x)) (odd (cnt (take j b) x))) \<and>
     (\<forall>p \<in> set out \<union> set (take i a) \<union> set (take j b). \<forall>r \<in> set (drop i a) \<union> set (drop j b). p \<le> r)"

lemma sorted_split: "sorted xs \<Longrightarrow> p \<in> set (take i xs) \<Longrightarrow> r \<in> set (drop i xs) \<Longrightarrow> p \<le> r"
  by (metis append_take_drop_id sorted_append)

lemma op_inv_init: "op_inv rop a b 0 0 []"
  by (cases rop) (simp_all add: op_inv_def)

text \<open>One step: the point \<open>v\<close> is consumed from either list or from both.\<close>

lemma op_inv_step:
  assumes inv: "op_inv rop a b i j out" and srt: "sorted a" "sorted b"
    and i': "i' = i \<or> i < length a \<and> a ! i = v \<and> i' = i + 1" and j': "j' = j \<or> j < length b \<and> b ! j = v \<and> j' = j + 1"
    and one: "i + j < i' + j'" and small: "\<forall>r \<in> set (drop i a) \<union> set (drop j b). v \<le> r"
    and out': "out' = (if cr_is_in rop (odd i') (odd j') \<noteq> odd (length out) then out @ [v] else out)"
  shows "op_inv rop a b i' j' out'"
proof -
  note inv' = inv [unfolded op_inv_def]
  have ta: "take i' a = take i a @ (if i' = i then [] else [v])" and tb: "take j' b = take j b @ (if j' = j then [] else [v])"
    using i' j' by (auto simp: take_Suc_conv_app_nth)
  have below: "p \<le> v" if "p \<in> set out \<union> set (take i a) \<union> set (take j b)" for p
  proof -
    have "v \<in> set (drop i a) \<union> set (drop j b)" using i' j' one drop_eq_Cons_nth [of i a] drop_eq_Cons_nth [of j b] by auto
    with inv' that show ?thesis by blast
  qed
  have len: "i' \<le> length a" "j' \<le> length b" using inv' i' j' by auto
  have sem: "odd (cnt out' x) \<longleftrightarrow> cr_is_in rop (odd (cnt (take i' a) x)) (odd (cnt (take j' b) x))" for x
  proof (cases "v \<le> x")
    case True
    have "p \<le> x" if "p \<in> set out \<union> set (take i a) \<union> set (take j b)" for p using below [OF that] True by (rule order_trans)
    then have "\<forall>p \<in> set out'. p \<le> x" "\<forall>p \<in> set (take i' a). p \<le> x" "\<forall>p \<in> set (take j' b). p \<le> x"
      using True by (auto simp: out' ta tb split: if_splits)
    then have "cnt out' x = length out'" "cnt (take i' a) x = i'" "cnt (take j' b) x = j'"
      using len by (simp_all add: cnt_all)
    then show ?thesis by (auto simp: out')
  next
    case False
    then show ?thesis using inv' by (auto simp: out' ta tb)
  qed
  have "sorted out'" using inv' below by (auto simp: out' sorted_append)
  moreover have "length out' \<le> i' + j'" using inv' one by (auto simp: out')
  moreover have "p \<le> r" if "p \<in> set out' \<union> set (take i' a) \<union> set (take j' b)" "r \<in> set (drop i' a) \<union> set (drop j' b)" for p r
  proof -
    have "r \<in> set (drop i a) \<union> set (drop j b)" using that(2) i' j' set_drop_subset_set_drop [of i i' a] set_drop_subset_set_drop [of j j' b] by auto
    moreover from that(1) have "p = v \<or> p \<in> set out \<union> set (take i a) \<union> set (take j b)" by (auto simp: out' ta tb split: if_splits)
    ultimately show ?thesis using inv' small by blast
  qed
  ultimately show ?thesis using len sem unfolding op_inv_def by blast
qed

lemma cr_next_cases:
  assumes "i \<le> length a" "j \<le> length b" and "sorted a" "sorted b"
  shows "cr_next a (length a) b (length b) i j = Some None \<and> i = length a \<and> j = length b \<or>
    (\<exists>v i' j'. cr_next a (length a) b (length b) i j = Some (Some (v, i', j')) \<and>
      (i' = i \<or> i < length a \<and> a ! i = v \<and> i' = i + 1) \<and> (j' = j \<or> j < length b \<and> b ! j = v \<and> j' = j + 1) \<and>
      i + j < i' + j' \<and> (\<forall>r \<in> set (drop i a) \<union> set (drop j b). v \<le> r))"
proof -
  have low: "xs ! k \<le> r" if "sorted xs" "k < length xs" "r \<in> set (drop k xs)" for xs :: "u32 list" and k r
  proof -
    have "sorted (xs ! k # drop (Suc k) xs)" using that(1) sorted_wrt_drop [of "(\<le>)" xs k] drop_eq_Cons_nth [OF that(2)] by simp
    then show ?thesis using that(3) drop_eq_Cons_nth [OF that(2)] by auto
  qed
  consider "i = length a" "j = length b" | "i < length a" "j = length b" | "i = length a" "j < length b" | "i < length a" "j < length b"
    using assms(1,2) by linarith
  then show ?thesis
  proof cases
    case 4
    note la = low [OF assms(3) 4(1)] and lb = low [OF assms(4) 4(2)]
    consider "a ! i < b ! j" | "a ! i = b ! j" | "b ! j < a ! i" by (rule linorder_cases)
    then show ?thesis
    proof cases
      case 1
      then have "a ! i \<le> r" if "r \<in> set (drop i a) \<union> set (drop j b)" for r using that la [of r] lb [of r] by auto
      with 1 4 show ?thesis by (simp add: cr_next_def)
    next
      case 2
      then have "a ! i \<le> r" if "r \<in> set (drop i a) \<union> set (drop j b)" for r using that la [of r] lb [of r] by auto
      with 2 4 show ?thesis by (simp add: cr_next_def)
    next
      case 3
      then have "b ! j \<le> r" if "r \<in> set (drop i a) \<union> set (drop j b)" for r using that la [of r] lb [of r] by auto
      with 3 4 show ?thesis by (simp add: cr_next_def)
    qed
  qed (use assms low in \<open>simp_all add: cr_next_def\<close>)
qed

lemma cr_op_loop_ok:
  assumes a: "sorted a" "sorted b" "length a + length b < 2 ^ 28"
  shows "cr_wf cr \<Longrightarrow> points_alloc (cr_realloc_func cr) \<Longrightarrow> op_inv rop a b i j (cr_live cr) \<Longrightarrow>
    cr_size cr \<le> 2 * (length a + length b) \<Longrightarrow>
    \<exists>cr' err. cr_op_loop cr a (length a) b (length b) rop i j = Some (cr', err) \<and> cr_wf cr' \<and>
      cr_realloc_func cr' = cr_realloc_func cr \<and> cr_size cr' \<le> 2 * (length a + length b) \<and>
      (\<not> err \<longrightarrow> op_inv rop a b (length a) (length b) (cr_live cr')) \<and> (alloc_always (cr_realloc_func cr) \<longrightarrow> \<not> err)"
proof (induction "(length a - i) + (length b - j)" arbitrary: cr i j rule: less_induct)
  case less
  have len: "length (cr_live cr) = cr_len cr" using less.prems(1) by (simp add: cr_live_def cr_wf_def)
  have ij: "i \<le> length a" "j \<le> length b" using less.prems(3) by (auto simp: op_inv_def)
  show ?case
  proof (cases "cr_next a (length a) b (length b) i j = Some None")
    case True
    then have "i = length a" "j = length b" using cr_next_cases [OF ij a(1,2)] by auto
    then show ?thesis using True less.prems by (subst cr_op_loop.simps) auto
  next
    case False
    then obtain v i' j' where st: "cr_next a (length a) b (length b) i j = Some (Some (v, i', j'))"
      "i' = i \<or> i < length a \<and> a ! i = v \<and> i' = i + 1" "j' = j \<or> j < length b \<and> b ! j = v \<and> j' = j + 1"
      "i + j < i' + j'" "\<forall>r \<in> set (drop i a) \<union> set (drop j b). v \<le> r"
      using cr_next_cases [OF ij a(1,2)] by auto
    note inv = op_inv_step [OF less.prems(3) a(1,2) st(2-5) refl]
    have dec: "(length a - i') + (length b - j') < (length a - i) + (length b - j)" using st(2-4) by auto
    show ?thesis
    proof (cases "cr_is_in rop (odd i') (odd j') \<noteq> odd (cr_len cr)")
      case True
      have "cr_len cr < length a + length b" using less.prems(3) st(2-4) len ij by (auto simp: op_inv_def)
      from cr_add_point_ok [OF less.prems(1,2) this less.prems(4) a(3), of v] obtain cr' err where
        r: "cr_add_point cr v = Some (cr', err)" "cr_wf cr'" "cr_realloc_func cr' = cr_realloc_func cr"
          "cr_size cr' \<le> 2 * (length a + length b)" "\<not> err \<longrightarrow> cr_live cr' = cr_live cr @ [v] \<and> cr_len cr' = cr_len cr + 1"
          "alloc_always (cr_realloc_func cr) \<longrightarrow> \<not> err" by blast
      show ?thesis
      proof (cases err)
        case True
        with \<open>cr_is_in rop (odd i') (odd j') \<noteq> odd (cr_len cr)\<close> st(1) r show ?thesis
          by (subst cr_op_loop.simps) (intro exI [of _ cr'] exI [of _ True], simp)
      next
        case False
        then have "op_inv rop a b i' j' (cr_live cr')" using inv True r(5) len by simp
        from less.hyps [OF dec r(2) _ this r(4)] less.prems(2) r(3) obtain cr'' err' where
          "cr_op_loop cr' a (length a) b (length b) rop i' j' = Some (cr'', err')" "cr_wf cr''"
          "cr_realloc_func cr'' = cr_realloc_func cr" "cr_size cr'' \<le> 2 * (length a + length b)" "\<not> err' \<longrightarrow> op_inv rop a b (length a) (length b) (cr_live cr'')"
          "alloc_always (cr_realloc_func cr) \<longrightarrow> \<not> err'" by auto
        then show ?thesis using True False st(1) r(1)
          by (subst cr_op_loop.simps) (intro exI [of _ cr''] exI [of _ err'], simp)
      qed
    next
      case False
      then have "op_inv rop a b i' j' (cr_live cr)" using inv len by simp
      from less.hyps [OF dec less.prems(1,2) this less.prems(4)] False st(1) show ?thesis
        by (subst cr_op_loop.simps) simp
    qed
  qed
qed

section \<open>Set operations\<close>

lemma cr_op_ok:
  assumes "sorted a" and "sorted b" and "even (length a)" and "even (length b)" and "length a + length b < 2 ^ 28"
    and "points_alloc realloc" and "cr_wf cr" and "cr_realloc_func cr = realloc" and "cr_len cr = 0" and "cr_size cr = 0"
  shows "\<exists>cr' err. cr_op cr a (length a) b (length b) rop = Some (cr', err) \<and> cr_wf cr' \<and> cr_realloc_func cr' = realloc \<and>
    cr_size cr' \<le> 2 * (length a + length b) \<and> (err \<longrightarrow> (\<exists>p n. realloc p n = None)) \<and>
    (\<not> err \<longrightarrow> canonical (cr_live cr') \<and> cr_len cr' \<le> length a + length b \<and>
       (\<forall>x. in_points (cr_live cr') x \<longleftrightarrow> cr_is_in rop (in_points a x) (in_points b x)))"
proof -
  have cr: "cr_wf cr" "cr_realloc_func cr = realloc" "cr_live cr = []" "cr_size cr = 0"
    using assms(7-10) by (simp_all add: cr_live_def)
  from cr_op_loop_ok [OF assms(1,2,5), of cr rop 0 0] cr assms(6) op_inv_init obtain cr1 err where
    r: "cr_op_loop cr a (length a) b (length b) rop 0 0 = Some (cr1, err)" "cr_wf cr1" "cr_realloc_func cr1 = realloc"
      "\<not> err \<longrightarrow> op_inv rop a b (length a) (length b) (cr_live cr1)" "alloc_always realloc \<longrightarrow> \<not> err"
      "cr_size cr1 \<le> 2 * (length a + length b)" by auto
  show ?thesis
  proof (cases err)
    case True
    then show ?thesis using r by (intro exI [of _ cr1] exI [of _ True]) (auto simp: cr_op_def alloc_always_def)
  next
    case False
    with r(4) have inv: "sorted (cr_live cr1)"
      "\<forall>x. odd (cnt (cr_live cr1) x) \<longleftrightarrow> cr_is_in rop (odd (cnt a x)) (odd (cnt b x))"
      "length (cr_live cr1) \<le> length a + length b" by (auto simp: op_inv_def)
    have "length (cr_live cr1) = cr_len cr1" using r(2) by (simp add: cr_live_def cr_wf_def)
    moreover have "cnt xs (- 1) = length xs" for xs by (rule cnt_all) (simp add: word_order.extremum)
    ultimately have "even (cr_len cr1)" using inv(2) [rule_format, of "- 1"] assms(3,4) by (cases rop) auto
    from cr_compress_live [OF r(2) inv(1) this] obtain cr2 where
      cr2: "cr_compress cr1 = Some cr2" "cr_live cr2 = squeeze (cr_live cr1)" "cr_wf cr2"
      "cr_realloc_func cr2 = cr_realloc_func cr1" "cr_size cr2 = cr_size cr1" "cr_len cr2 \<le> cr_len cr1" by blast
    then have "canonical (cr_live cr2)" using comp_even comp_sorted [OF inv(1)] by (simp add: canonical_def)
    moreover have "in_points (cr_live cr2) x \<longleftrightarrow> cr_is_in rop (in_points a x) (in_points b x)" for x
      using comp_cnt [of "cr_live cr1" x] inv(2) \<open>even (cr_len cr1)\<close> \<open>length (cr_live cr1) = cr_len cr1\<close> cr2(2)
      by (simp add: in_points_def)
    ultimately show ?thesis using False r(1,3,6) cr2(1,3-6) inv(3) \<open>length (cr_live cr1) = cr_len cr1\<close>
      by (intro exI [of _ cr2] exI [of _ False]) (simp add: cr_op_def)
  qed
qed

definition test_realloc :: points_realloc where
  "test_realloc p n = Some (take n p @ replicate (n - length p) 0)"

lemma test_realloc_ok: "points_alloc test_realloc"
  by (auto simp: points_alloc_def test_realloc_def min_def)

text \<open>
  C21. On sorted lists of points, the union, intersection and symmetric difference of two character
  ranges are computed exactly: the operation never leaves its memory, it fails only if the allocator
  does, and otherwise the new range is in canonical form (intervals non-empty, increasing and not
  touching) and contains a code point exactly when the operation on the two memberships says so.
\<close>

theorem cr_op_set:
  assumes "sorted a" and "sorted b" and "even (length a)" and "even (length b)" and "length a + length b < 2 ^ 28"
    and "points_alloc realloc" and "cr = cr_init libc_realloc (Some realloc)"
  shows "\<exists>cr' err. cr_op cr a (length a) b (length b) rop = Some (cr', err) \<and> cr_wf cr' \<and>
    (err \<longrightarrow> (\<exists>p n. realloc p n = None)) \<and>
    (\<not> err \<longrightarrow> canonical (cr_live cr') \<and>
       (\<forall>x. in_points (cr_live cr') x \<longleftrightarrow> cr_is_in rop (in_points a x) (in_points b x)))"
  using cr_op_ok [OF assms(1-6), of cr rop] assms(7) by (auto simp: cr_init_def cr_wf_def)

theorem cr_op_set_witness:
  "\<exists>cr'. cr_op (cr_init test_realloc (Some test_realloc)) [1, 5] (length [1, 5 :: u32]) [3, 9] (length [3, 9 :: u32]) CR_OP_UNION =
     Some (cr', False) \<and> in_points (cr_live cr') 4 \<and> \<not> in_points (cr_live cr') 9"
proof -
  have "\<exists>cr' err. cr_op (cr_init test_realloc (Some test_realloc)) [1, 5] (length [1, 5 :: u32]) [3, 9] (length [3, 9 :: u32]) CR_OP_UNION =
      Some (cr', err) \<and> cr_wf cr' \<and> (err \<longrightarrow> (\<exists>p n. test_realloc p n = None)) \<and> (\<not> err \<longrightarrow> canonical (cr_live cr') \<and>
        (\<forall>x. in_points (cr_live cr') x \<longleftrightarrow> cr_is_in CR_OP_UNION (in_points [1, 5] x) (in_points [3, 9] x)))"
    by (rule cr_op_set [OF _ _ _ _ _ test_realloc_ok refl]) simp_all
  moreover have "test_realloc p n \<noteq> None" for p n by (simp add: test_realloc_def)
  ultimately obtain cr' where "cr_op (cr_init test_realloc (Some test_realloc)) [1, 5] (length [1, 5 :: u32]) [3, 9] (length [3, 9 :: u32]) CR_OP_UNION =
      Some (cr', False)" "\<forall>x. in_points (cr_live cr') x \<longleftrightarrow> cr_is_in CR_OP_UNION (in_points [1, 5] x) (in_points [3, 9] x)"
    by metis
  moreover have "in_points [1, 5] 4" "\<not> in_points [1, 5] 9" "\<not> in_points [3, 9] 9" by (simp_all add: in_points_def)
  ultimately show ?thesis by simp
qed

section \<open>Complement and intervals\<close>

lemma update_after: "length L = n \<Longrightarrow> (a # L @ v # R)[n + 1 := w] = a # L @ w # R"
  by auto

lemma cr_invert_ok:
  assumes wf: "cr_wf cr" and al: "points_alloc (cr_realloc_func cr)" and sz: "cr_size cr * 3 < 2 ^ 31"
    and srt: "sorted (cr_live cr)" and ev: "even (cr_len cr)"
  shows "\<exists>cr' err. cr_invert cr = Some (cr', err) \<and> cr_wf cr' \<and> cr_realloc_func cr' = cr_realloc_func cr \<and>
    cr_size cr' \<le> max (cr_size cr) (max (cr_len cr + 2) (cr_size cr * 3 div 2)) \<and> (err \<longrightarrow> \<not> alloc_always (cr_realloc_func cr)) \<and>
    (\<not> err \<longrightarrow> canonical (cr_live cr') \<and> cr_len cr' \<le> cr_len cr + 2 \<and> (\<forall>x. in_points (cr_live cr') x \<longleftrightarrow> x < - 1 \<and> \<not> in_points (cr_live cr) x))"
proof -
  let ?n = "cr_len cr"
  from cr_realloc_ok [OF wf al sz, of "?n + 2"] obtain cr1 err where
    r: "cr_realloc cr (?n + 2) = Some (cr1, err)" "cr_wf cr1" "cr_live cr1 = cr_live cr" "cr_len cr1 = ?n"
      "\<not> err \<longrightarrow> ?n + 2 \<le> cr_size cr1" "alloc_always (cr_realloc_func cr) \<longrightarrow> \<not> err" "cr_realloc_func cr1 = cr_realloc_func cr"
      "cr_size cr1 \<le> max (cr_size cr) (max (?n + 2) (cr_size cr * 3 div 2))" by blast
  show ?thesis
  proof (cases err)
    case True
    then show ?thesis using r by (intro exI [of _ cr1] exI [of _ True]) (simp add: cr_invert_def)
  next
    case False
    let ?p = "cr_points cr1"
    let ?pt0 = "take 1 ?p @ take ?n ?p @ drop (?n + 1) ?p"
    let ?cr2 = "cr1\<lparr>cr_points := ?pt0[0 := 0, ?n + 1 := - 1], cr_len := ?n + 2\<rparr>"
    have len: "?n + 2 \<le> length ?p" using False r(2,5) by (simp add: cr_wf_def)
    then have wf2: "cr_wf ?cr2" using r(2) by (simp add: cr_wf_def)
    have live: "cr_live ?cr2 = 0 # cr_live cr @ [- 1]"
    proof -
      have "?pt0[0 := 0] = 0 # take ?n ?p @ drop (?n + 1) ?p" using len by (cases ?p) auto
      moreover have "drop (?n + 1) ?p = ?p ! (?n + 1) # drop (?n + 2) ?p" using len by (simp add: drop_eq_Cons_nth)
      moreover have "take ?n ?p = cr_live cr" "length (cr_live cr) = ?n"
        using r(3,4) len wf by (auto simp: cr_live_def cr_wf_def)
      ultimately have "?pt0[0 := 0, ?n + 1 := - 1] = 0 # cr_live cr @ - 1 # drop (?n + 2) ?p"
        using update_after [of "cr_live cr" ?n] by simp
      then show ?thesis using \<open>length (cr_live cr) = ?n\<close> unfolding cr_live_def [of ?cr2] by simp
    qed
    have "sorted (cr_live ?cr2)" unfolding live using srt by (simp add: sorted_append word_order.extremum)
    from cr_compress_live [OF wf2 this] ev obtain cr3 where
      cr3: "cr_compress ?cr2 = Some cr3" "cr_live cr3 = squeeze (0 # cr_live cr @ [- 1])" "cr_wf cr3"
      "cr_realloc_func cr3 = cr_realloc_func cr1" "cr_size cr3 = cr_size cr1" "cr_len cr3 \<le> ?n + 2" unfolding live by auto
    have "even (length (0 # cr_live cr @ [- 1 :: u32]))" using ev wf by (simp add: cr_live_def cr_wf_def)
    from comp_cnt [OF this] have "in_points (cr_live cr3) x \<longleftrightarrow> x < - 1 \<and> \<not> in_points (cr_live cr) x" for x
    proof (cases "x = - 1")
      case True
      moreover have "cnt (cr_live cr) (- 1) = length (cr_live cr)" by (rule cnt_all) (simp add: word_order.extremum)
      ultimately show ?thesis using comp_cnt [OF \<open>even (length (0 # cr_live cr @ [- 1 :: u32]))\<close>, of x] ev wf cr3(2)
        by (simp add: in_points_def cr_live_def cr_wf_def word_order.extremum)
    next
      case False
      then have "x < - 1" "\<not> - 1 \<le> x" using word_order.extremum [of x] by (auto simp: not_le less_le)
      then show ?thesis using comp_cnt [OF \<open>even (length (0 # cr_live cr @ [- 1 :: u32]))\<close>, of x] cr3(2)
        by (simp add: in_points_def)
    qed
    moreover have "canonical (cr_live cr3)" using cr3(2) comp_even comp_sorted [OF \<open>sorted (cr_live ?cr2)\<close>] unfolding live
      by (simp add: canonical_def)
    moreover have "cr_invert cr = Some (cr3, False)"
      using r(1,4) False len cr3(1) by (simp add: cr_invert_def Let_def)
    ultimately show ?thesis using cr3(3-6) r(7,8) by (intro exI [of _ cr3] exI [of _ False]) simp
  qed
qed

lemma unat_succ: "c < (- 1 :: u32) \<Longrightarrow> unat (c + 1) = unat c + 1"
proof -
  assume "c < - 1"
  moreover have "(- 1 :: u32) = 4294967295" by simp
  ultimately have "unat c < 4294967295" by (simp add: word_less_nat_alt)
  then show ?thesis by (simp add: unat_word_ariths)
qed

text \<open>Only the points in use are read.\<close>

lemma cr_op_loop_take:
  "n \<le> length a \<Longrightarrow> cr_op_loop cr a n b m rop i j = cr_op_loop cr (take n a) n b m rop i j"
proof (induction "(n - i) + (m - j)" arbitrary: cr i j rule: less_induct)
  case less
  have nx: "cr_next (take n a) n b m i j = cr_next a n b m i j"
    using less.prems by (simp add: cr_next_def rd_def)
  have "(n - i') + (m - j') < (n - i) + (m - j)" if "cr_next a n b m i j = Some (Some (v, i', j'))" for v i' j'
    using that by (auto simp: cr_next_def bind_eq_Some_conv split: if_splits)
  then have "cr_op_loop cr' a n b m rop i' j' = cr_op_loop cr' (take n a) n b m rop i' j'"
    if "cr_next a n b m i j = Some (Some (v, i', j'))" for v i' j' cr' using that less.hyps less.prems by blast
  then show ?case
    by (subst (1 2) cr_op_loop.simps) (auto simp: nx intro!: Option.bind_cong split: option.splits)
qed

lemma in_points_interval:
  assumes "c1 \<le> c2" and "c2 < - 1"
  shows "in_points [c1, c2 + 1] x \<longleftrightarrow> c1 \<le> x \<and> x \<le> (c2 :: u32)"
proof -
  have "unat (c2 + 1) = unat c2 + 1" using unat_succ [OF assms(2)] .
  then have "c2 + 1 \<le> x \<longleftrightarrow> c2 < x" by (simp add: word_less_nat_alt word_le_nat_alt Suc_le_eq)
  then show ?thesis using assms(1) by (auto simp: in_points_def not_le not_less)
qed

lemma cr_union_interval_ok:
  assumes wf: "cr_wf cr" and al: "points_alloc (cr_realloc_func cr)" and len: "cr_len cr + 2 < 2 ^ 28"
    and srt: "sorted (cr_live cr)" and ev: "even (cr_len cr)" and c: "c1 \<le> c2" "c2 < - 1"
  shows "\<exists>cr' err. cr_union_interval cr c1 c2 = Some (cr', err) \<and> cr_wf cr' \<and> (err \<longrightarrow> \<not> alloc_always (cr_realloc_func cr)) \<and>
    (\<not> err \<longrightarrow> canonical (cr_live cr') \<and> (\<forall>x. in_points (cr_live cr') x \<longleftrightarrow> in_points (cr_live cr) x \<or> c1 \<le> x \<and> x \<le> c2))"
proof -
  let ?cr0 = "cr\<lparr>cr_len := 0, cr_size := 0, cr_points := []\<rparr>"
  have l: "length (cr_live cr) = cr_len cr" using wf by (simp add: cr_live_def cr_wf_def)
  have "c1 \<le> c2 + 1" using c(1) unat_succ [OF c(2)] by (simp add: word_le_nat_alt)
  then have s2: "sorted [c1, c2 + 1]" by simp
  have p: "even (length (cr_live cr))" "even (length [c1, c2 + 1])" "length (cr_live cr) + length [c1, c2 + 1] < 2 ^ 28"
    "cr_wf ?cr0" "cr_realloc_func ?cr0 = cr_realloc_func cr" "cr_len ?cr0 = 0" "cr_size ?cr0 = 0" and l2: "length [c1, c2 + 1] = 2"
    using ev l len by (simp_all add: cr_wf_def)
  from cr_op_ok [OF srt s2 p(1-3) al p(4-7), of CR_OP_UNION, unfolded l l2] obtain cr' err where
    r: "cr_op ?cr0 (cr_live cr) (cr_len cr) [c1, c2 + 1] 2 CR_OP_UNION = Some (cr', err)" "cr_wf cr'"
      "err \<longrightarrow> (\<exists>p n. cr_realloc_func cr p n = None)"
      "\<not> err \<longrightarrow> canonical (cr_live cr') \<and> (\<forall>x. in_points (cr_live cr') x \<longleftrightarrow> cr_is_in CR_OP_UNION (in_points (cr_live cr) x) (in_points [c1, c2 + 1] x))"
    by blast
  have "cr_op ?cr0 (cr_points cr) (cr_len cr) [c1, c2 + 1] 2 CR_OP_UNION = cr_op ?cr0 (cr_live cr) (cr_len cr) [c1, c2 + 1] 2 CR_OP_UNION"
    using cr_op_loop_take [of "cr_len cr" "cr_points cr"] wf by (simp add: cr_op_def cr_live_def cr_wf_def)
  then have "cr_union_interval cr c1 c2 = Some (cr', err)" using r(1) by (simp add: cr_union_interval_def cr_union1_def)
  with r(2-4) in_points_interval [OF c] show ?thesis
    by (intro exI [of _ cr'] exI [of _ err]) (auto simp: alloc_always_def)
qed

text \<open>
  C22. Inverting a range gives the complement below the highest code, and adding an interval gives the
  union with it; both keep the storage well-formed, fail only if the allocator does, and leave the
  range in canonical form.
\<close>

theorem cr_invert_union:
  assumes "cr_wf cr" and "points_alloc (cr_realloc_func cr)" and "cr_size cr < 2 ^ 28 - 2"
    and "canonical (cr_live cr)" and "c1 \<le> c2" "c2 < - 1"
  shows "(\<exists>cr' err. cr_invert cr = Some (cr', err) \<and> cr_wf cr' \<and> (err \<longrightarrow> \<not> alloc_always (cr_realloc_func cr)) \<and>
      (\<not> err \<longrightarrow> canonical (cr_live cr') \<and> (\<forall>x. in_points (cr_live cr') x \<longleftrightarrow> x < - 1 \<and> \<not> in_points (cr_live cr) x))) \<and>
    (\<exists>cr' err. cr_union_interval cr c1 c2 = Some (cr', err) \<and> cr_wf cr' \<and> (err \<longrightarrow> \<not> alloc_always (cr_realloc_func cr)) \<and>
      (\<not> err \<longrightarrow> canonical (cr_live cr') \<and> (\<forall>x. in_points (cr_live cr') x \<longleftrightarrow> in_points (cr_live cr) x \<or> c1 \<le> x \<and> x \<le> c2)))"
proof -
  have "sorted (cr_live cr)" using assms(4) strict_sorted_imp_sorted unfolding canonical_def by blast
  moreover have "even (cr_len cr)" "cr_len cr \<le> cr_size cr" using assms(1,4) by (simp_all add: canonical_def cr_live_def cr_wf_def)
  ultimately have *: "cr_size cr * 3 < 2 ^ 31" "cr_len cr + 2 < 2 ^ 28" "sorted (cr_live cr)" "even (cr_len cr)" using assms(3) by auto
  show ?thesis
    using cr_invert_ok [OF assms(1,2) *(1,3,4)] cr_union_interval_ok [OF assms(1,2) *(2-4) assms(5,6)] by blast
qed

theorem cr_invert_union_witness:
  "\<exists>cr' err. cr_invert (cr_init test_realloc (Some test_realloc)) = Some (cr', err) \<and> cr_wf cr'"
  using cr_invert_union [of "cr_init test_realloc (Some test_realloc)" 1 2] test_realloc_ok
  by (auto simp: cr_init_def cr_wf_def cr_live_def canonical_def)

end
