(* ===== verification/Unicode_Table.thy ===== *)
theory Unicode_Table
  imports Unicode_Data
begin

text \<open>
  The membership tables of \<^verbatim>\<open>libunicode.c\<close>: a set of code points as run lengths in a byte code, with an
  index of every 32 bytes or so.  \<open>None\<close> is a read outside a table.  The sums of run lengths stay far
  below \<open>2\<^sup>3\<^sup>2\<close>, so codes are plain integers.
\<close>

section \<open>The lookup\<close>

definition get_le24 :: "int list \<Rightarrow> int \<Rightarrow> int option" where
  "get_le24 tab i = do {
     a \<leftarrow> rd_int tab i;
     b \<leftarrow> rd_int tab (i + 1);
     c \<leftarrow> rd_int tab (i + 2);
     Some (a + b * 2 ^ 8 + c * 2 ^ 16)
   }"

definition UNICODE_INDEX_BLOCK_LEN :: int where
  "UNICODE_INDEX_BLOCK_LEN = 32"

function index_search :: "int list \<Rightarrow> int \<Rightarrow> int \<Rightarrow> int \<Rightarrow> int option" where
  "index_search tab c idx_min idx_max =
     (if idx_max - idx_min > 1
      then do {
        let idx = (idx_max + idx_min) div 2;
        v \<leftarrow> get_le24 tab (idx * 3);
        let code = v mod 2 ^ 21;
        if c < code then index_search tab c idx_min idx else index_search tab c idx idx_max
      }
      else Some idx_min)"
  by pat_completeness auto
termination by (relation "measure (\<lambda>(tab, c, lo, hi). nat (hi - lo))") auto

declare index_search.simps [simp del]

text \<open>The position and the code of the block, or \<open>None\<close> inside when the code is outside the table.\<close>

definition get_index_pos :: "int \<Rightarrow> int list \<Rightarrow> int \<Rightarrow> (int \<times> int) option option" where
  "get_index_pos c tab len = do {
     v \<leftarrow> get_le24 tab 0;
     let code = v mod 2 ^ 21;
     if c < code then Some (Some (0, 0))
     else do {
       code \<leftarrow> get_le24 tab ((len - 1) * 3);
       if c \<ge> code then Some None
       else do {
         idx_min \<leftarrow> index_search tab c 0 (len - 1);
         v \<leftarrow> get_le24 tab (idx_min * 3);
         Some (Some ((idx_min + 1) * UNICODE_INDEX_BLOCK_LEN + v div 2 ^ 21, v mod 2 ^ 21))
       }
     }
   }"

function in_table_loop :: "int list \<Rightarrow> int \<Rightarrow> int \<Rightarrow> int \<Rightarrow> bool \<Rightarrow> bool option" where
  "in_table_loop tab c p code bi = do {
     b \<leftarrow> rd_int tab p;
     if b < 64
     then let code = code + b div 8 + 1 in
       if c < code then Some bi
       else let bi = (\<not> bi); code = code + b mod 8 + 1 in
         if c < code then Some bi else in_table_loop tab c (p + 1) code (\<not> bi)
     else if b \<ge> 0x80
     then let code = code + b - 0x80 + 1 in
       if c < code then Some bi else in_table_loop tab c (p + 1) code (\<not> bi)
     else if b < 0x60
     then do {
       p0 \<leftarrow> rd_int tab (p + 1);
       let code = code + ((b - 0x40) * 2 ^ 8 + p0) + 1;
       if c < code then Some bi else in_table_loop tab c (p + 2) code (\<not> bi)
     }
     else do {
       p0 \<leftarrow> rd_int tab (p + 1);
       p1 \<leftarrow> rd_int tab (p + 2);
       let code = code + ((b - 0x60) * 2 ^ 16 + p0 * 2 ^ 8 + p1) + 1;
       if c < code then Some bi else in_table_loop tab c (p + 3) code (\<not> bi)
     }
   }"
  by pat_completeness auto
termination
  by (relation "measure (\<lambda>(tab, c, p, code, bi). nat (int (length tab) - p))") (auto simp: rd_int_eq_Some_iff)

declare in_table_loop.simps [simp del]

definition lre_is_in_table :: "int \<Rightarrow> int list \<Rightarrow> int list \<Rightarrow> int \<Rightarrow> bool option" where
  "lre_is_in_table c tab index_table index_table_len = do {
     r \<leftarrow> get_index_pos c index_table index_table_len;
     case r of None \<Rightarrow> Some False | Some (pos, code) \<Rightarrow> in_table_loop tab c pos code False
   }"

definition lre_is_case_ignorable :: "int \<Rightarrow> bool option" where
  "lre_is_case_ignorable c = lre_is_in_table c unicode_prop_Case_Ignorable_table
     unicode_prop_Case_Ignorable_index (int (length unicode_prop_Case_Ignorable_index) div 3)"

definition lre_is_id_start :: "int \<Rightarrow> bool option" where
  "lre_is_id_start c = lre_is_in_table c unicode_prop_ID_Start_table
     unicode_prop_ID_Start_index (int (length unicode_prop_ID_Start_index) div 3)"

definition lre_is_id_continue :: "int \<Rightarrow> bool option" where
  "lre_is_id_continue c = do {
     b \<leftarrow> lre_is_id_start c;
     if b then Some True
     else lre_is_in_table c unicode_prop_ID_Continue1_table
       unicode_prop_ID_Continue1_index (int (length unicode_prop_ID_Continue1_index) div 3)
   }"

section \<open>The set a table stands for\<close>

text \<open>The codes at which membership changes, by decoding the whole table from its start.\<close>

definition run_step :: "int list \<Rightarrow> (int list \<times> int list) option" where
  "run_step bs = (case bs of [] \<Rightarrow> None
     | b # bs1 \<Rightarrow>
         if b < 64 then Some ([b div 8 + 1, b mod 8 + 1], bs1)
         else if b \<ge> 0x80 then Some ([b - 0x80 + 1], bs1)
         else if b < 0x60 then (case bs1 of p0 # bs2 \<Rightarrow> Some ([(b - 0x40) * 2 ^ 8 + p0 + 1], bs2) | [] \<Rightarrow> None)
         else (case bs1 of p0 # p1 # bs3 \<Rightarrow> Some ([(b - 0x60) * 2 ^ 16 + p0 * 2 ^ 8 + p1 + 1], bs3) | _ \<Rightarrow> None))"

fun codes_from :: "int \<Rightarrow> int list \<Rightarrow> int list" where
  "codes_from code [] = []"
| "codes_from code (d # ds) = (code + d) # codes_from (code + d) ds"

function bounds :: "int list \<Rightarrow> int \<Rightarrow> int list" where
  "bounds bs code = (case run_step bs of None \<Rightarrow> []
     | Some (ds, bs') \<Rightarrow> codes_from code ds @ bounds bs' (code + sum_list ds))"
  by pat_completeness auto
termination
  by (relation "measure (\<lambda>(bs, code). length bs)") (auto simp: run_step_def split: list.splits if_splits)

declare bounds.simps [simp del]

definition in_runs :: "int list \<Rightarrow> int \<Rightarrow> bool" where
  "in_runs bs c \<longleftrightarrow> odd (length (filter (\<lambda>x. x \<le> c) bs))"

lemma in_runs_simps [simp]:
  "in_runs [] c = False"
  "in_runs (x # bs) c = ((x \<le> c) \<noteq> in_runs bs c)"
  by (auto simp: in_runs_def)

lemma in_runs_append: "in_runs (xs @ ys) c = (in_runs xs c \<noteq> in_runs ys c)"
  by (auto simp: in_runs_def)

text \<open>Runs are never empty, so the codes increase.\<close>

definition bytes_ok :: "int list \<Rightarrow> bool" where
  "bytes_ok bs \<longleftrightarrow> (\<forall>b \<in> set bs. 0 \<le> b)"

lemma bytes_ok_simps [simp]: "bytes_ok []" "bytes_ok (b # bs) \<longleftrightarrow> 0 \<le> b \<and> bytes_ok bs"
  by (auto simp: bytes_ok_def)

lemma run_step_pos: "bytes_ok bs \<Longrightarrow> run_step bs = Some (ds, bs') \<Longrightarrow> ds \<noteq> [] \<and> (\<forall>d \<in> set ds. 0 < d) \<and> bytes_ok bs'"
  by (auto simp: run_step_def split: list.splits if_splits)

lemma codes_from_gt: "\<forall>d \<in> set ds. 0 < d \<Longrightarrow> x \<in> set (codes_from code ds) \<Longrightarrow> code < x"
  by (induction code ds rule: codes_from.induct) force+

lemma sum_list_pos: "\<forall>d \<in> set ds. (0 :: int) < d \<Longrightarrow> 0 \<le> sum_list ds"
  by (induction ds) auto

lemma bounds_gt: "bytes_ok bs \<Longrightarrow> x \<in> set (bounds bs code) \<Longrightarrow> code < x"
proof (induction bs code rule: bounds.induct)
  case (1 bs code)
  show ?case
  proof (cases "run_step bs")
    case None
    with "1.prems" show ?thesis by (simp add: bounds.simps [of bs])
  next
    case (Some r)
    obtain ds bs' where r: "r = (ds, bs')" by (cases r)
    have pos: "\<forall>d \<in> set ds. 0 < d" "bytes_ok bs'" using run_step_pos "1.prems"(1) Some r by auto
    from "1.prems"(2) Some r consider "x \<in> set (codes_from code ds)" | "x \<in> set (bounds bs' (code + sum_list ds))"
      by (auto simp: bounds.simps [of bs])
    then show ?thesis
    proof cases
      case 1
      then show ?thesis using codes_from_gt pos by blast
    next
      case 2
      then show ?thesis using "1.IH" [OF Some r [symmetric]] pos sum_list_pos [of ds] by fastforce
    qed
  qed
qed

lemma in_runs_below: "bytes_ok bs \<Longrightarrow> c \<le> code \<Longrightarrow> \<not> in_runs (bounds bs code) c"
proof -
  assume "bytes_ok bs" "c \<le> code"
  then have "\<forall>x \<in> set (bounds bs code). \<not> x \<le> c" using bounds_gt [of bs _ code] by force
  then show ?thesis by (simp add: in_runs_def filter_empty_conv)
qed

text \<open>One step of the lookup loop, in terms of the runs it reads.\<close>

lemma in_table_loop_step:
  assumes "drop (nat p) tab = bs" and "0 \<le> p" and "run_step bs = Some (ds, bs')"
  shows "\<exists>p'. drop (nat p') tab = bs' \<and> 0 \<le> p' \<and> in_table_loop tab c p code bi =
    (case ds of
       [d] \<Rightarrow> if c < code + d then Some bi else in_table_loop tab c p' (code + d) (\<not> bi)
     | [d, e] \<Rightarrow> if c < code + d then Some bi else if c < code + d + e then Some (\<not> bi) else in_table_loop tab c p' (code + d + e) bi
     | _ \<Rightarrow> None) \<and> (length ds = 1 \<or> length ds = 2)"
proof -
  have rd: "rd_int tab (p + int k) = Some (bs ! k)" if "k < length bs" for k
  proof -
    have "nat (p + int k) = nat p + k" using assms(2) by simp
    then show ?thesis using that assms(1,2) by (auto simp: rd_int_def rd_def nth_drop)
  qed
  have dr: "drop (nat (p + int k)) tab = drop k bs" for k
    using assms(1,2) by (simp add: nat_add_distrib add.commute flip: drop_drop)
  from assms(3) obtain b bs1 where bs: "bs = b # bs1" by (auto simp: run_step_def split: list.splits)
  consider "b < 64" | "0x80 \<le> b" | "64 \<le> b" "b < 0x60" | "0x60 \<le> b" "b < 0x80" by linarith
  then show ?thesis
  proof cases
    case 1
    then show ?thesis using assms(3) rd [of 0] dr [of 1] bs assms(2)
      by (intro exI [of _ "p + 1"]) (auto simp: run_step_def in_table_loop.simps [of tab c p] Let_def algebra_simps)
  next
    case 2
    then show ?thesis using assms(3) rd [of 0] dr [of 1] bs assms(2)
      by (intro exI [of _ "p + 1"]) (auto simp: run_step_def in_table_loop.simps [of tab c p] Let_def algebra_simps)
  next
    case 3
    then obtain p0 bs2 where "bs1 = p0 # bs2" using assms(3) bs by (auto simp: run_step_def split: list.splits)
    then show ?thesis using 3 assms(3) rd [of 0] rd [of 1] dr [of 2] bs assms(2)
      by (intro exI [of _ "p + 2"]) (auto simp: run_step_def in_table_loop.simps [of tab c p] Let_def algebra_simps)
  next
    case 4
    then obtain p0 p1 bs3 where "bs1 = p0 # p1 # bs3" using assms(3) bs by (auto simp: run_step_def split: list.splits)
    then show ?thesis using 4 assms(3) rd [of 0] rd [of 1] rd [of 2] dr [of 3] bs assms(2)
      by (intro exI [of _ "p + 3"]) (auto simp: run_step_def in_table_loop.simps [of tab c p] Let_def algebra_simps)
  qed
qed

lemma in_table_loop_runs:
  "bytes_ok bs \<Longrightarrow> drop (nat p) tab = bs \<Longrightarrow> 0 \<le> p \<Longrightarrow> \<exists>x \<in> set (bounds bs code). c < x \<Longrightarrow>
     in_table_loop tab c p code bi = Some (bi \<noteq> in_runs (bounds bs code) c)"
proof (induction bs code arbitrary: p bi rule: bounds.induct)
  case (1 bs code)
  from "1.prems"(4) obtain ds bs' where st: "run_step bs = Some (ds, bs')"
    by (cases "run_step bs") (auto simp: bounds.simps [of bs])
  note pos = run_step_pos [OF "1.prems"(1) st]
  from in_table_loop_step [OF "1.prems"(2,3) st] obtain p' where
    p': "drop (nat p') tab = bs'" "0 \<le> p'" "in_table_loop tab c p code bi =
    (case ds of
       [d] \<Rightarrow> if c < code + d then Some bi else in_table_loop tab c p' (code + d) (\<not> bi)
     | [d, e] \<Rightarrow> if c < code + d then Some bi else if c < code + d + e then Some (\<not> bi) else in_table_loop tab c p' (code + d + e) bi
     | _ \<Rightarrow> None)" "length ds = 1 \<or> length ds = 2" by blast
  have B: "bounds bs code = codes_from code ds @ bounds bs' (code + sum_list ds)" by (simp add: bounds.simps [of bs] st)
  let ?k = "code + sum_list ds"
  show ?case
  proof (cases "c < ?k")
    case True
    then have "\<not> in_runs (bounds bs' ?k) c" using in_runs_below pos by auto
    then show ?thesis using p'(3,4) True pos unfolding B
      by (auto simp: in_runs_append length_Suc_conv numeral_2_eq_2)
  next
    case False
    have "\<forall>x \<in> set (codes_from code ds). x \<le> ?k"
      using p'(4) pos by (auto simp: length_Suc_conv numeral_2_eq_2)
    then have "\<exists>x \<in> set (bounds bs' ?k). c < x" using "1.prems"(4) False unfolding B by fastforce
    from "1.IH" [OF st refl _ p'(1,2) this] pos
    have ih: "in_table_loop tab c p' ?k b = Some (b \<noteq> in_runs (bounds bs' ?k) c)" for b by blast
    from p'(4) consider d where "ds = [d]" | d e where "ds = [d, e]" by (auto simp: length_Suc_conv numeral_2_eq_2)
    then show ?thesis
    proof cases
      case 1
      then show ?thesis using p'(3) False ih [of "\<not> bi"] unfolding B by (simp add: in_runs_append)
    next
      case 2
      then show ?thesis using p'(3) False ih [of bi] pos unfolding B by (simp add: in_runs_append add.assoc)
    qed
  qed
qed

section \<open>The index\<close>

text \<open>
  A position with a code is an anchor when decoding from the start of the table gets there with that
  code, outside the set.  A table whose blocks each end outside the set has an anchor at every block.
\<close>

definition anchored :: "int list \<Rightarrow> int \<Rightarrow> int \<Rightarrow> bool" where
  "anchored tab p code \<longleftrightarrow> 0 \<le> p \<and> (\<exists>B. bounds tab 0 = B @ bounds (drop (nat p) tab) code \<and> even (length B) \<and> (\<forall>x \<in> set B. x \<le> code))"

function block_end :: "int list \<Rightarrow> int \<Rightarrow> bool \<Rightarrow> (int \<times> bool) option" where
  "block_end bs code bi = (if bs = [] then Some (code, bi)
     else case run_step bs of None \<Rightarrow> None | Some (ds, bs') \<Rightarrow> block_end bs' (code + sum_list ds) (bi \<noteq> (tl ds = [])))"
  by pat_completeness auto
termination
  by (relation "measure (\<lambda>(bs, code, bi). length bs)") (auto simp: run_step_def split: list.splits if_splits)

declare block_end.simps [simp del]

fun int_length :: "'a list \<Rightarrow> int" where
  "int_length [] = 0"
| "int_length (x # xs) = 1 + int_length xs"

fun blocks_ok :: "int list list \<Rightarrow> int \<Rightarrow> int \<Rightarrow> (int \<times> int) list \<Rightarrow> int \<Rightarrow> bool" where
  "blocks_ok [] p code as limit = (as = [] \<and> code = limit)"
| "blocks_ok (blk # blks) p code as limit =
     (case as of [] \<Rightarrow> False
      | a # as' \<Rightarrow> a = (p, code) \<and> blk \<noteq> [] \<and> list_all (\<lambda>b. 0 \<le> b) blk \<and>
          (case block_end blk code False of
             Some (code', bi) \<Rightarrow> \<not> bi \<and> blocks_ok blks (p + int_length blk) code' as' limit
           | None \<Rightarrow> False))"

lemma int_length: "int_length xs = int (length xs)"
  by (induction xs) auto

lemma codes_from_props: "length (codes_from code ds) = length ds"
  by (induction code ds rule: codes_from.induct) auto

lemma codes_from_le: "\<forall>d \<in> set ds. 0 < d \<Longrightarrow> x \<in> set (codes_from code ds) \<Longrightarrow> x \<le> code + sum_list ds"
proof (induction code ds rule: codes_from.induct)
  case (2 code d ds)
  then show ?case using sum_list_pos [of ds] by (auto simp: add.assoc)
qed simp

lemma codes_from_last: "ds \<noteq> [] \<Longrightarrow> last (codes_from code ds) = code + sum_list ds"
proof (induction code ds rule: codes_from.induct)
  case (2 code d ds)
  then show ?case by (cases ds) (simp_all add: add.assoc)
qed simp

lemma run_step_append: "run_step bs = Some (ds, bs') \<Longrightarrow> run_step (bs @ rest) = Some (ds, bs' @ rest) \<and> (tl ds = []) = odd (length ds)"
  by (auto simp: run_step_def split: list.splits if_splits)

text \<open>What a block contributes to the bounds of a table.\<close>

definition block_bounds :: "int \<Rightarrow> int \<Rightarrow> int list \<Rightarrow> bool" where
  "block_bounds code code' B \<longleftrightarrow> code \<le> code' \<and> (\<forall>x \<in> set B. x \<le> code') \<and> (code' \<in> set B \<or> B = [] \<and> code' = code)"

lemma block_end_bounds:
  "bytes_ok bs \<Longrightarrow> block_end bs code bi = Some (code', bi') \<Longrightarrow>
     \<exists>B. bounds (bs @ rest) code = B @ bounds rest code' \<and> (odd (length B) = (bi \<noteq> bi')) \<and> block_bounds code code' B"
proof (induction bs code bi rule: block_end.induct)
  case (1 bs code bi)
  show ?case
  proof (cases "bs = []")
    case True
    then show ?thesis using "1.prems" by (intro exI [of _ "[]"]) (auto simp: block_end.simps block_bounds_def)
  next
    case False
    then obtain ds bs' where st: "run_step bs = Some (ds, bs')"
      using "1.prems"(2) by (subst (asm) block_end.simps) (auto split: option.splits)
    note pos = run_step_pos [OF "1.prems"(1) st] and app = run_step_append [OF st, of rest]
    have "block_end bs' (code + sum_list ds) (bi \<noteq> (tl ds = [])) = Some (code', bi')"
      using "1.prems"(2) False st by (subst (asm) block_end.simps) simp
    with "1.IH" [OF False st refl] pos obtain B where
      B: "bounds (bs' @ rest) (code + sum_list ds) = B @ bounds rest code'"
        "odd (length B) = ((bi \<noteq> (tl ds = [])) \<noteq> bi')" "block_bounds (code + sum_list ds) code' B" by blast
    have "bounds (bs @ rest) code = (codes_from code ds @ B) @ bounds rest code'"
      using B(1) app by (simp add: bounds.simps [of "bs @ rest"])
    moreover have "odd (length (codes_from code ds @ B)) = (bi \<noteq> bi')" using B(2) app by (auto simp: codes_from_props)
    moreover have "codes_from code ds \<noteq> []" using pos by (cases ds) auto
    moreover have "block_bounds code code' (codes_from code ds @ B)"
    proof -
      have "code + sum_list ds \<in> set (codes_from code ds)"
        using codes_from_last [of ds code] pos last_in_set [OF \<open>codes_from code ds \<noteq> []\<close>] by simp
      moreover have "0 \<le> sum_list ds" using sum_list_pos [of ds] pos by blast
      moreover have "\<forall>x \<in> set (codes_from code ds). x \<le> code + sum_list ds" using codes_from_le [of ds _ code] pos by blast
      ultimately show ?thesis using B(3) unfolding block_bounds_def by auto
    qed
    ultimately show ?thesis by blast
  qed
qed

fun le24s :: "int list \<Rightarrow> int list" where
  "le24s (a # b # c # r) = (a + b * 2 ^ 8 + c * 2 ^ 16) # le24s r"
| "le24s _ = []"

fun index_anchors :: "int \<Rightarrow> int list \<Rightarrow> (int \<times> int) list" where
  "index_anchors i (v # w # vs) = ((i + 1) * 32 + v div 2 ^ 21, v mod 2 ^ 21) # index_anchors (i + 1) (w # vs)"
| "index_anchors i _ = []"

definition table_check :: "int list list \<Rightarrow> int list \<Rightarrow> bool" where
  "table_check blks ind \<longleftrightarrow> blocks_ok blks 0 0 ((0, 0) # index_anchors 0 (le24s ind)) (last (le24s ind)) \<and>
     int_length ind = 3 * int_length (le24s ind) \<and> 2 \<le> int_length (le24s ind) \<and>
     hd (le24s ind) mod 2 ^ 21 \<le> last (le24s ind) \<and> 0 < last (le24s ind)"

lemma blocks_ok_anchored:
  assumes tab: "bounds tab 0 = B @ bounds (concat blks) code" "even (length B)" "block_bounds 0 code B"
    and "blocks_ok blks p code as limit" and "0 \<le> p" and "drop (nat p) tab = concat blks"
  shows "(\<forall>(q, k) \<in> set as. anchored tab q k) \<and> even (length (bounds tab 0)) \<and> block_bounds 0 limit (bounds tab 0) \<and> bytes_ok (concat blks)"
  using assms
proof (induction blks arbitrary: p code as B)
  case Nil
  then show ?case by (simp add: bounds.simps [of "[]"] run_step_def)
next
  case (Cons blk blks)
  from Cons.prems(4) obtain as' code' where
    c: "as = (p, code) # as'" "bytes_ok blk" "block_end blk code False = Some (code', False)"
      "blocks_ok blks (p + int_length blk) code' as' limit"
    by (auto simp: bytes_ok_def list_all_iff split: list.splits option.splits)
  from block_end_bounds [OF c(2,3), of "concat blks"] obtain C where
    C: "bounds (blk @ concat blks) code = C @ bounds (concat blks) code'" "even (length C)" "block_bounds code code' C" by auto
  have bb: "block_bounds 0 code' (B @ C)" using Cons.prems(3) C(3) by (fastforce simp: block_bounds_def)
  have "drop (nat (p + int_length blk)) tab = concat blks"
  proof -
    have "drop (nat (p + int_length blk)) tab = drop (length blk) (drop (nat p) tab)"
      using Cons.prems(5) by (simp add: int_length nat_add_distrib add.commute)
    then show ?thesis using Cons.prems(6) by simp
  qed
  with Cons.IH [of "B @ C" code' "p + int_length blk" as'] Cons.prems C bb c(4)
  have ih: "(\<forall>(q, k) \<in> set as'. anchored tab q k) \<and> even (length (bounds tab 0)) \<and> block_bounds 0 limit (bounds tab 0) \<and> bytes_ok (concat blks)"
    by (simp add: int_length)
  moreover have "anchored tab p code" using Cons.prems by (auto simp: anchored_def block_bounds_def)
  ultimately show ?case using c(1,2) by (auto simp: bytes_ok_def)
qed

lemma get_le24_nth:
  "i < length (le24s ind) \<Longrightarrow> get_le24 ind (int i * 3) = Some (le24s ind ! i)"
proof (induction ind arbitrary: i rule: le24s.induct)
  case (1 a b c r)
  show ?case
  proof (cases i)
    case 0
    then show ?thesis by (simp add: get_le24_def rd_int_def rd_def)
  next
    case (Suc j)
    have shift: "rd_int (a # b # c # r) (int (Suc j) * 3 + k) = rd_int r (int j * 3 + k)" if "0 \<le> k" for k
    proof -
      have "nat (int (Suc j) * 3 + k) = nat (int j * 3 + k) + 3" using that by simp
      then show ?thesis using that by (auto simp: rd_int_def rd_def numeral_3_eq_3)
    qed
    have "get_le24 (a # b # c # r) (int (Suc j) * 3) = get_le24 r (int j * 3)"
      using shift [of 0] shift [of 1] shift [of 2] by (simp add: get_le24_def)
    with 1 Suc show ?thesis by simp
  qed
qed simp_all

lemma index_anchors_mem:
  "Suc i < length vs \<Longrightarrow> ((k + int i + 1) * 32 + vs ! i div 2 ^ 21, vs ! i mod 2 ^ 21) \<in> set (index_anchors k vs)"
proof (induction k vs arbitrary: i rule: index_anchors.induct)
  case (1 k v w vs)
  then show ?case
  proof (cases i)
    case (Suc j)
    with 1(1) [of j] "1.prems" show ?thesis by (simp add: add.assoc add.left_commute)
  qed simp
qed simp_all

lemma index_search_ok:
  "0 \<le> lo \<Longrightarrow> lo < hi \<Longrightarrow> hi < int (length (le24s ind)) \<Longrightarrow> le24s ind ! nat lo mod 2 ^ 21 \<le> c \<Longrightarrow>
     \<exists>idx. index_search ind c lo hi = Some idx \<and> 0 \<le> idx \<and> idx < hi \<and> le24s ind ! nat idx mod 2 ^ 21 \<le> c"
proof (induction "nat (hi - lo)" arbitrary: lo hi rule: less_induct)
  case less
  show ?case
  proof (cases "1 < hi - lo")
    case False
    with less.prems show ?thesis by (subst index_search.simps) auto
  next
    case True
    let ?m = "(hi + lo) div 2"
    have m: "lo < ?m" "?m < hi" using True by auto
    with less.prems get_le24_nth [of "nat ?m" ind] have g: "get_le24 ind (?m * 3) = Some (le24s ind ! nat ?m)" by simp
    show ?thesis
    proof (cases "c < le24s ind ! nat ?m mod 2 ^ 21")
      case lt: True
      from less.hyps [of ?m lo] m less.prems obtain idx where
        "index_search ind c lo ?m = Some idx" "0 \<le> idx" "idx < ?m" "le24s ind ! nat idx mod 2 ^ 21 \<le> c" by auto
      with m True g lt show ?thesis by (subst index_search.simps) (auto simp: Let_def)
    next
      case ge: False
      from less.hyps [of hi ?m] m less.prems ge obtain idx where
        "index_search ind c ?m hi = Some idx" "0 \<le> idx" "idx < hi" "le24s ind ! nat idx mod 2 ^ 21 \<le> c" by auto
      with m True g ge show ?thesis by (subst index_search.simps) (auto simp: Let_def)
    qed
  qed
qed

lemma anchored_lookup:
  assumes "anchored tab p code" and "bytes_ok tab" and "code \<le> c" and "\<exists>x \<in> set (bounds tab 0). c < x"
  shows "in_table_loop tab c p code False = Some (in_runs (bounds tab 0) c)"
proof -
  from assms(1) obtain B where B: "0 \<le> p" "bounds tab 0 = B @ bounds (drop (nat p) tab) code" "even (length B)"
    "\<forall>x \<in> set B. x \<le> code" by (auto simp: anchored_def)
  have "bytes_ok (drop (nat p) tab)" using assms(2) by (auto simp: bytes_ok_def dest: in_set_dropD)
  moreover have "\<exists>x \<in> set (bounds (drop (nat p) tab) code). c < x" using assms(3,4) B(2,4) by fastforce
  ultimately have "in_table_loop tab c p code False = Some (in_runs (bounds (drop (nat p) tab) code) c)"
    using in_table_loop_runs [OF _ refl B(1)] by simp
  moreover have "\<forall>x \<in> set B. x \<le> c" using B(4) assms(3) by fastforce
  then have "filter (\<lambda>x. x \<le> c) B = B" by (simp add: filter_id_conv)
  then have "\<not> in_runs B c" using B(3) by (simp add: in_runs_def)
  ultimately show ?thesis by (simp add: B(2) in_runs_append)
qed

lemma table_lookup:
  assumes chk: "table_check blks ind" and tab: "tab = concat blks" and c: "0 \<le> c"
  shows "lre_is_in_table c tab ind (int (length ind) div 3) = Some (in_runs (bounds tab 0) c)"
proof -
  let ?vs = "le24s ind" and ?n = "length (le24s ind)" and ?L = "last (le24s ind)"
  note ck = chk [unfolded table_check_def int_length]
  have n: "int (length ind) div 3 = int ?n" "2 \<le> ?n" using ck by auto
  have "block_bounds 0 0 []" by (simp add: block_bounds_def)
  with blocks_ok_anchored [of tab "[]" blks 0 0 "(0, 0) # index_anchors 0 ?vs" ?L] ck tab
  have anc: "\<forall>(q, k) \<in> set ((0, 0) # index_anchors 0 ?vs). anchored tab q k" and ev: "even (length (bounds tab 0))"
    and bb: "block_bounds 0 ?L (bounds tab 0)" and ok: "bytes_ok tab" by auto
  have ne: "?vs \<noteq> []" using n(2) by auto
  have lst: "?vs ! (?n - 1) = ?L" using ne by (subst last_conv_nth) auto
  have g0: "get_le24 ind 0 = Some (?vs ! 0)" using get_le24_nth [of 0 ind] ne by simp
  have gl: "get_le24 ind ((int ?n - 1) * 3) = Some ?L" using get_le24_nth [of "?n - 1" ind] n(2) lst by (simp add: of_nat_diff)
  show ?thesis
  proof (cases "?L \<le> c")
    case True
    then have "\<forall>x \<in> set (bounds tab 0). x \<le> c" using bb by (auto simp: block_bounds_def)
    then have "filter (\<lambda>x. x \<le> c) (bounds tab 0) = bounds tab 0" by (simp add: filter_id_conv)
    then have out: "\<not> in_runs (bounds tab 0) c" using ev by (simp add: in_runs_def)
    have "\<not> c < ?vs ! 0 mod 2 ^ 21" using ck True ne by (simp add: hd_conv_nth)
    then show ?thesis using g0 gl out True n by (simp add: lre_is_in_table_def get_index_pos_def Let_def)
  next
    case False
    then have ex: "\<exists>x \<in> set (bounds tab 0). c < x" using bb ck by (intro bexI [of _ ?L]) (auto simp: block_bounds_def)
    have start: "anchored tab 0 0" using anc by simp
    show ?thesis
    proof (cases "c < ?vs ! 0 mod 2 ^ 21")
      case True
      then show ?thesis using g0 n anchored_lookup [OF start ok c ex] by (simp add: lre_is_in_table_def get_index_pos_def Let_def)
    next
      case ge: False
      from index_search_ok [of 0 "int ?n - 1" ind c] ge n(2) obtain idx where
        idx: "index_search ind c 0 (int ?n - 1) = Some idx" "0 \<le> idx" "idx < int ?n - 1" "?vs ! nat idx mod 2 ^ 21 \<le> c" by auto
      let ?v = "?vs ! nat idx"
      have gi: "get_le24 ind (idx * 3) = Some ?v" using get_le24_nth [of "nat idx" ind] idx by simp
      have "((idx + 1) * 32 + ?v div 2 ^ 21, ?v mod 2 ^ 21) \<in> set (index_anchors 0 ?vs)"
        using index_anchors_mem [of "nat idx" ?vs 0] idx by simp
      then have "anchored tab ((idx + 1) * 32 + ?v div 2 ^ 21) (?v mod 2 ^ 21)" using anc by auto
      from anchored_lookup [OF this ok idx(4) ex] show ?thesis
        using g0 gl gi idx(1) ge False n
        by (simp add: lre_is_in_table_def get_index_pos_def Let_def UNICODE_INDEX_BLOCK_LEN_def)
    qed
  qed
qed

section \<open>The tables of the program\<close>

definition is_table :: "int list \<Rightarrow> int list \<Rightarrow> bool" where
  "is_table tab ind \<longleftrightarrow> (\<exists>blks. table_check blks ind \<and> tab = concat blks)"

lemma Case_Ignorable_table: "is_table unicode_prop_Case_Ignorable_table unicode_prop_Case_Ignorable_index"
  unfolding is_table_def unicode_prop_Case_Ignorable_table_def by (rule exI, rule conjI [OF _ refl]) code_simp

lemma ID_Start_table: "is_table unicode_prop_ID_Start_table unicode_prop_ID_Start_index"
  unfolding is_table_def unicode_prop_ID_Start_table_def by (rule exI, rule conjI [OF _ refl]) code_simp

lemma ID_Continue1_table: "is_table unicode_prop_ID_Continue1_table unicode_prop_ID_Continue1_index"
  unfolding is_table_def unicode_prop_ID_Continue1_table_def by (rule exI, rule conjI [OF _ refl]) code_simp

lemma Cased1_table: "is_table unicode_prop_Cased1_table unicode_prop_Cased1_index"
  unfolding is_table_def unicode_prop_Cased1_table_def by (rule exI, rule conjI [OF _ refl]) code_simp

lemma is_table_lookup:
  "is_table tab ind \<Longrightarrow> 0 \<le> c \<Longrightarrow> lre_is_in_table c tab ind (int (length ind) div 3) = Some (in_runs (bounds tab 0) c)"
  using table_lookup by (auto simp: is_table_def)

text \<open>
  C23. The indexed lookups of the identifier and case properties never read outside their tables, for
  any code, and the index is only an accelerator: the answer is membership in the set of runs that
  decoding the whole table from its start gives.
\<close>

theorem property_lookups:
  assumes "0 \<le> c"
  shows "lre_is_id_start c = Some (in_runs (bounds unicode_prop_ID_Start_table 0) c) \<and>
    lre_is_id_continue c = Some (in_runs (bounds unicode_prop_ID_Start_table 0) c \<or>
      in_runs (bounds unicode_prop_ID_Continue1_table 0) c) \<and>
    lre_is_case_ignorable c = Some (in_runs (bounds unicode_prop_Case_Ignorable_table 0) c)"
  using is_table_lookup [OF ID_Start_table assms] is_table_lookup [OF ID_Continue1_table assms]
    is_table_lookup [OF Case_Ignorable_table assms]
  by (simp add: lre_is_id_start_def lre_is_id_continue_def lre_is_case_ignorable_def)

theorem property_lookups_witness:
  "lre_is_id_start 65 = Some (in_runs (bounds unicode_prop_ID_Start_table 0) 65)"
  using property_lookups [of 65] by simp

end
