(* ===== verification/Unicode_Case.thy ===== *)
theory Unicode_Case
  imports Unicode_Table
begin

text \<open>
  Case conversion (\<open>lre_case_conv\<close>, \<open>lre_is_cased\<close> of \<^verbatim>\<open>libunicode.c\<close>) and the canonicalization of
  characters in case insensitive regular expressions (\<open>lre_canonicalize\<close> of \<^verbatim>\<open>libregexp.c\<close>).

  Characters are integers; the unsigned sums that may wrap are reduced modulo \<open>2\<^sup>3\<^sup>2\<close>.  Shifts and masks
  of table entries are written as division and remainder, and the or of disjoint bits as a sum.
\<close>

definition u32w :: "int \<Rightarrow> int" where "u32w x = x mod 2 ^ 32"

section \<open>The runs of the table\<close>

abbreviation (input) "RUN_TYPE_U \<equiv> 0 :: int"
abbreviation (input) "RUN_TYPE_L \<equiv> 1 :: int"
abbreviation (input) "RUN_TYPE_UF \<equiv> 2 :: int"
abbreviation (input) "RUN_TYPE_LF \<equiv> 3 :: int"
abbreviation (input) "RUN_TYPE_UL \<equiv> 4 :: int"
abbreviation (input) "RUN_TYPE_LSU \<equiv> 5 :: int"
abbreviation (input) "RUN_TYPE_U2L_399_EXT2 \<equiv> 6 :: int"
abbreviation (input) "RUN_TYPE_UF_D20 \<equiv> 7 :: int"
abbreviation (input) "RUN_TYPE_UF_D1_EXT \<equiv> 8 :: int"
abbreviation (input) "RUN_TYPE_U_EXT \<equiv> 9 :: int"
abbreviation (input) "RUN_TYPE_LF_EXT \<equiv> 10 :: int"
abbreviation (input) "RUN_TYPE_U_EXT2 \<equiv> 11 :: int"
abbreviation (input) "RUN_TYPE_L_EXT2 \<equiv> 12 :: int"
abbreviation (input) "RUN_TYPE_U_EXT3 \<equiv> 13 :: int"

definition run_code :: "int \<Rightarrow> int" where "run_code v = v div 2 ^ (32 - 17)"
definition run_len :: "int \<Rightarrow> int" where "run_len v = v div 2 ^ (32 - 17 - 7) mod 0x80"
definition run_type :: "int \<Rightarrow> int" where "run_type v = v div 2 ^ (32 - 17 - 7 - 4) mod 0x10"

function case_search :: "int \<Rightarrow> int \<Rightarrow> int \<Rightarrow> int option option" where
  "case_search c idx_min idx_max =
     (if idx_min \<le> idx_max
      then do {
        let idx = (idx_max + idx_min) div 2;
        v \<leftarrow> rd_int case_conv_table1 idx;
        if c < run_code v then case_search c idx_min (idx - 1)
        else if c \<ge> run_code v + run_len v then case_search c (idx + 1) idx_max
        else Some (Some idx)
      }
      else Some None)"
  by pat_completeness auto
termination by (relation "measure (\<lambda>(c, lo, hi). nat (hi - lo + 1))") auto

declare case_search.simps [simp del]

text \<open>The switch on the type of the run that holds the character.\<close>

definition case_switch :: "int \<Rightarrow> int \<Rightarrow> int \<Rightarrow> int \<Rightarrow> int \<Rightarrow> int list option" where
  "case_switch c conv_type code type data = (
     let is_lower = (if conv_type \<noteq> 0 then 1 else 0 :: int) in
     if type \<in> {RUN_TYPE_U, RUN_TYPE_L, RUN_TYPE_UF, RUN_TYPE_LF}
     then if conv_type = type mod 2 \<or> type \<ge> RUN_TYPE_UF \<and> conv_type = 2
       then do { w \<leftarrow> rd_int case_conv_table1 data; Some [u32w (c - code + run_code w)] }
       else Some [c]
     else if type = RUN_TYPE_UL
     then let a = c - code in
       if a mod 2 \<noteq> 1 - is_lower then Some [c]
       else Some [(if a mod 2 = 0 then a + 1 else a - 1) + code]
     else if type = RUN_TYPE_LSU
     then let a = c - code in
       if a = 1 then Some [u32w (c + 2 * is_lower - 1)]
       else if a = (1 - is_lower) * 2 then Some [u32w (c + (2 * is_lower - 1) * 2)]
       else Some [c]
     else if type = RUN_TYPE_U2L_399_EXT2
     then if is_lower = 0
       then do { e \<leftarrow> rd_int case_conv_ext (data div 2 ^ 6); Some [u32w (c - code + e), 0x399] }
       else do { e \<leftarrow> rd_int case_conv_ext (data mod 0x40); Some [u32w (c - code + e)] }
     else if type = RUN_TYPE_UF_D20
     then if conv_type = 1 then Some [c] else Some [data + (if conv_type = 2 then 0x20 else 0)]
     else if type = RUN_TYPE_UF_D1_EXT
     then if conv_type = 1 then Some [c]
       else do { e \<leftarrow> rd_int case_conv_ext data; Some [e + (if conv_type = 2 then 1 else 0)] }
     else if type = RUN_TYPE_U_EXT \<or> type = RUN_TYPE_LF_EXT
     then if is_lower \<noteq> type - RUN_TYPE_U_EXT then Some [c]
       else do { e \<leftarrow> rd_int case_conv_ext data; Some [e] }
     else if type = RUN_TYPE_U_EXT2 \<or> type = RUN_TYPE_L_EXT2
     then if conv_type \<noteq> type - RUN_TYPE_U_EXT2 then Some [c]
       else do {
         e \<leftarrow> rd_int case_conv_ext (data div 2 ^ 6);
         f \<leftarrow> rd_int case_conv_ext (data mod 0x40);
         Some [u32w (c - code + e), f]
       }
     else if conv_type \<noteq> 0 then Some [c]
     else do {
       e \<leftarrow> rd_int case_conv_ext (data div 2 ^ 8);
       f \<leftarrow> rd_int case_conv_ext (data div 2 ^ 4 mod 0x10);
       g \<leftarrow> rd_int case_conv_ext (data mod 0x10);
       Some [e, f, g]
     })"

definition case_apply :: "int \<Rightarrow> int \<Rightarrow> int \<Rightarrow> int list option" where
  "case_apply c conv_type idx = do {
     v \<leftarrow> rd_int case_conv_table1 idx;
     t2 \<leftarrow> rd_int case_conv_table2 idx;
     case_switch c conv_type (run_code v) (run_type v) (v mod 0x10 * 2 ^ 8 + t2)
   }"

definition lre_case_conv :: "int \<Rightarrow> int \<Rightarrow> int list option" where
  "lre_case_conv c conv_type =
     (if c < 128
      then if conv_type \<noteq> 0
        then Some [if 0x41 \<le> c \<and> c \<le> 0x5a then c - 0x41 + 0x61 else c]
        else Some [if 0x61 \<le> c \<and> c \<le> 0x7a then c - 0x61 + 0x41 else c]
      else do {
        r \<leftarrow> case_search c 0 (int (length case_conv_table1) - 1);
        case r of None \<Rightarrow> Some [c] | Some idx \<Rightarrow> case_apply c conv_type idx
      })"

definition lre_is_cased :: "int \<Rightarrow> bool option" where
  "lre_is_cased c = do {
     r \<leftarrow> case_search c 0 (int (length case_conv_table1) - 1);
     case r of Some idx \<Rightarrow> Some True
     | None \<Rightarrow> lre_is_in_table c unicode_prop_Cased1_table unicode_prop_Cased1_index
         (int (length unicode_prop_Cased1_index) div 3)
   }"

definition lre_canonicalize :: "int \<Rightarrow> bool \<Rightarrow> int option" where
  "lre_canonicalize c is_utf16 =
     (if is_utf16
      then if c < 128 then Some (if 0x41 \<le> c \<and> c \<le> 0x5a then c - 0x41 + 0x61 else c)
        else do { res \<leftarrow> lre_case_conv c 2; rd res 0 }
      else if c < 128 then Some (if 0x61 \<le> c \<and> c \<le> 0x7a then c - 0x61 + 0x41 else c)
        else do {
          res \<leftarrow> lre_case_conv c 0;
          r0 \<leftarrow> rd res 0;
          Some (if length res = 1 \<and> r0 \<ge> 128 then r0 else c)
        })"

section \<open>The table\<close>

text \<open>What the code relies on of the table: runs in increasing order that do not overlap, and indices in range.\<close>

definition entry_ok :: "int \<times> int \<Rightarrow> bool" where
  "entry_ok e \<longleftrightarrow> (case e of (v, t2) \<Rightarrow> let data = v mod 0x10 * 2 ^ 8 + t2; type = run_type v in
     0 \<le> v \<and> v < 2 ^ 32 \<and> 0 \<le> t2 \<and> t2 < 2 ^ 8 \<and>
     (if type < 4 then data < 361
      else if type = 6 \<or> type = 11 \<or> type = 12 then data div 2 ^ 6 < 58 \<and> data mod 0x40 < 58
      else if type = 8 \<or> type = 9 \<or> type = 10 then data < 58 else True))"

fun runs_ok :: "int \<Rightarrow> int list \<Rightarrow> bool" where
  "runs_ok k [] = True"
| "runs_ok k (v # vs) \<longleftrightarrow> k \<le> run_code v \<and> 0 < run_len v \<and> runs_ok (run_code v + run_len v) vs"

lemma case_table_runs: "runs_ok 0 case_conv_table1"
  by (simp add: case_conv_table1_def run_code_def run_len_def)

lemma case_table_entries: "list_all entry_ok (zip case_conv_table1 case_conv_table2)"
  by (simp add: case_conv_table1_def case_conv_table2_def entry_ok_def run_type_def Let_def)

lemma case_table_lengths: "length case_conv_table1 = 361" "length case_conv_table2 = 361" "length case_conv_ext = 58"
  by (simp_all add: case_conv_table1_def case_conv_table2_def case_conv_ext_def)

lemma case_ext_range: "list_all (\<lambda>e. 0 \<le> e \<and> e < 2 ^ 16) case_conv_ext"
  by (simp add: case_conv_ext_def)

section \<open>The search\<close>

definition in_run :: "int \<Rightarrow> int \<Rightarrow> bool" where
  "in_run c v \<longleftrightarrow> run_code v \<le> c \<and> c < run_code v + run_len v"

lemma runs_ok_nth: "runs_ok k vs \<Longrightarrow> i < length vs \<Longrightarrow> k \<le> run_code (vs ! i) \<and> 0 < run_len (vs ! i)"
proof (induction k vs arbitrary: i rule: runs_ok.induct)
  case (2 k v vs)
  then show ?case by (cases i) fastforce+
qed simp

lemma runs_ok_mono: "runs_ok k vs \<Longrightarrow> i < j \<Longrightarrow> j < length vs \<Longrightarrow> run_code (vs ! i) + run_len (vs ! i) \<le> run_code (vs ! j)"
proof (induction k vs arbitrary: i j rule: runs_ok.induct)
  case (2 k v vs)
  then obtain j' where j: "j = Suc j'" by (cases j) auto
  show ?case
  proof (cases i)
    case 0
    then show ?thesis using 2 j runs_ok_nth [of "run_code v + run_len v" vs j'] by simp
  next
    case (Suc i')
    then show ?thesis using 2 j by simp
  qed
qed simp

abbreviation "T1 \<equiv> case_conv_table1"

lemma rd_T1: "0 \<le> i \<Longrightarrow> i < 361 \<Longrightarrow> rd_int T1 i = Some (T1 ! nat i)"
  by (simp add: rd_int_def rd_def case_table_lengths)

lemma case_search_ok:
  "0 \<le> lo \<Longrightarrow> hi < 361 \<Longrightarrow> lo \<le> hi + 1 \<Longrightarrow>
     \<forall>i. 0 \<le> i \<and> i < lo \<longrightarrow> run_code (T1 ! nat i) + run_len (T1 ! nat i) \<le> c \<Longrightarrow>
     \<forall>i. hi < i \<and> i < 361 \<longrightarrow> c < run_code (T1 ! nat i) \<Longrightarrow>
     (\<exists>idx. case_search c lo hi = Some (Some idx) \<and> 0 \<le> idx \<and> idx < 361 \<and> in_run c (T1 ! nat idx)) \<or>
     case_search c lo hi = Some None \<and> (\<forall>i < 361. \<not> in_run c (T1 ! i))"
proof (induction "nat (hi - lo + 1)" arbitrary: lo hi rule: less_induct)
  case less
  show ?case
  proof (cases "lo \<le> hi")
    case False
    have "\<not> in_run c (T1 ! i)" if "i < 361" for i
    proof (cases "int i < lo")
      case True
      with less.prems(4) [rule_format, of "int i"] show ?thesis by (simp add: in_run_def)
    next
      case ge: False
      with False that less.prems(5) [rule_format, of "int i"] show ?thesis by (simp add: in_run_def)
    qed
    then show ?thesis using False by (subst case_search.simps) simp
  next
    case True
    let ?m = "(hi + lo) div 2"
    let ?v = "T1 ! nat ?m"
    have m: "lo \<le> ?m" "?m \<le> hi" using True by auto
    then have r: "rd_int T1 ?m = Some ?v" using less.prems(1,2) by (intro rd_T1) auto
    have mono: "run_code (T1 ! i) + run_len (T1 ! i) \<le> run_code (T1 ! j)" if "i < j" "j < 361" for i j
      using runs_ok_mono [OF case_table_runs that(1)] that(2) by (simp add: case_table_lengths)
    have len: "0 < run_len (T1 ! i)" if "i < 361" for i
      using runs_ok_nth [OF case_table_runs, of i] that by (simp add: case_table_lengths)
    consider "c < run_code ?v" | "run_code ?v + run_len ?v \<le> c" | "in_run c ?v" unfolding in_run_def by linarith
    then show ?thesis
    proof cases
      case 1
      have "c < run_code (T1 ! nat i)" if "?m - 1 < i" "i < 361" for i
      proof (cases "i = ?m")
        case False
        then have "nat ?m < nat i" "nat i < 361" using that m less.prems(1) by auto
        then show ?thesis using mono [of "nat ?m" "nat i"] len [of "nat ?m"] 1 by linarith
      qed (use 1 in simp)
      with less.hyps [of "?m - 1" lo] less.prems m have
        "(\<exists>idx. case_search c lo (?m - 1) = Some (Some idx) \<and> 0 \<le> idx \<and> idx < 361 \<and> in_run c (T1 ! nat idx)) \<or>
         case_search c lo (?m - 1) = Some None \<and> (\<forall>i < 361. \<not> in_run c (T1 ! i))" by auto
      then show ?thesis using True r 1 by (subst (1 2) case_search.simps) (simp add: Let_def)
    next
      case 2
      have "run_code (T1 ! nat i) + run_len (T1 ! nat i) \<le> c" if "0 \<le> i" "i < ?m + 1" for i
      proof (cases "i = ?m")
        case False
        then have "nat i < nat ?m" "nat ?m < 361" using that m less.prems by auto
        then show ?thesis using mono [of "nat i" "nat ?m"] len [of "nat ?m"] 2 by linarith
      qed (use 2 in simp)
      with less.hyps [of hi "?m + 1"] less.prems m have
        "(\<exists>idx. case_search c (?m + 1) hi = Some (Some idx) \<and> 0 \<le> idx \<and> idx < 361 \<and> in_run c (T1 ! nat idx)) \<or>
         case_search c (?m + 1) hi = Some None \<and> (\<forall>i < 361. \<not> in_run c (T1 ! i))" by auto
      moreover have "nat ?m < 361" using m less.prems(1,2) by linarith
      then have "\<not> c < run_code ?v" using 2 len [of "nat ?m"] by simp
      ultimately show ?thesis using True r 2 by (subst (1 2) case_search.simps) (simp add: Let_def)
    next
      case 3
      then show ?thesis using True r m less.prems by (subst (1 2) case_search.simps) (auto simp: Let_def in_run_def)
    qed
  qed
qed

text \<open>The same search as a scan of the table.\<close>

definition case_lookup :: "int \<Rightarrow> nat option" where
  "case_lookup c = List.find (\<lambda>i. in_run c (T1 ! i)) [0..<length T1]"

lemma in_run_unique: "i < 361 \<Longrightarrow> j < 361 \<Longrightarrow> in_run c (T1 ! i) \<Longrightarrow> in_run c (T1 ! j) \<Longrightarrow> i = j"
  using runs_ok_mono [OF case_table_runs, of i j] runs_ok_mono [OF case_table_runs, of j i]
  by (cases i j rule: linorder_cases) (auto simp: case_table_lengths in_run_def)

lemma case_search_lookup: "case_search c 0 (int (length T1) - 1) = Some (map_option int (case_lookup c))"
proof -
  note len = case_table_lengths(1)
  have "(\<exists>idx. case_search c 0 360 = Some (Some idx) \<and> 0 \<le> idx \<and> idx < 361 \<and> in_run c (T1 ! nat idx)) \<or>
     case_search c 0 360 = Some None \<and> (\<forall>i < 361. \<not> in_run c (T1 ! i))"
    by (rule case_search_ok) auto
  then show ?thesis
  proof (elim disjE exE conjE)
    fix idx
    assume *: "case_search c 0 360 = Some (Some idx)" "0 \<le> idx" "idx < 361" "in_run c (T1 ! nat idx)"
    have "case_lookup c = Some (nat idx)"
    proof (cases "case_lookup c")
      case None
      then show ?thesis using *(2-4) by (auto simp: case_lookup_def find_None_iff len)
    next
      case (Some i)
      then have "i < 361" "in_run c (T1 ! i)" by (auto simp: case_lookup_def find_Some_iff len)
      then show ?thesis using Some in_run_unique [of i "nat idx" c] * by simp
    qed
    then show ?thesis using * by (simp add: len)
  next
    assume "case_search c 0 360 = Some None" "\<forall>i < 361. \<not> in_run c (T1 ! i)"
    then show ?thesis by (simp add: case_lookup_def find_None_iff len)
  qed
qed

section \<open>Safety\<close>

definition char_list :: "int list \<Rightarrow> bool" where
  "char_list res \<longleftrightarrow> res \<noteq> [] \<and> length res \<le> 3 \<and> (\<forall>r \<in> set res. 0 \<le> r \<and> r < 2 ^ 32)"

lemma rd_ext: "0 \<le> i \<Longrightarrow> i < 58 \<Longrightarrow> \<exists>e. rd_int case_conv_ext i = Some e \<and> 0 \<le> e \<and> e < 2 ^ 16"
  using case_ext_range by (auto simp: rd_int_def rd_def case_table_lengths list_all_length)

lemma u32w_range [simp]: "0 \<le> u32w x" "u32w x < 4294967296"
  by (simp_all add: u32w_def)

lemma data_parts:
  "0 \<le> d \<Longrightarrow> d < (4096 :: int) \<Longrightarrow> 0 \<le> d div 64 \<and> 0 \<le> d div 256 \<and> d div 256 < 58 \<and> d div 16 mod 16 < 58 \<and> d mod 16 < 58"
  by auto

lemma char_list_single: "0 \<le> x \<Longrightarrow> x < 2 ^ 32 \<Longrightarrow> char_list [x]"
  by (simp add: char_list_def)

lemma case_switch_ok:
  assumes c: "0 \<le> c" "c < 2 ^ 31" and code: "0 \<le> code" "code \<le> c" and data: "0 \<le> data" "data < 4096" and "0 \<le> type"
    and a: "type < 4 \<Longrightarrow> data < 361" and b: "type = 6 \<or> type = 11 \<or> type = 12 \<Longrightarrow> data div 64 < 58 \<and> data mod 64 < 58"
    and e: "type = 8 \<or> type = 9 \<or> type = 10 \<Longrightarrow> data < 58"
  shows "\<exists>res. case_switch c conv_type code type data = Some res \<and> char_list res"
proof -
  note dp = data_parts [OF data] and un = case_switch_def [of c conv_type code type data, unfolded Let_def]
  note c1 = char_list_single
  have pos: "0 < c" if "(c - code) mod 2 = 1" using that code by (cases "c = 0") auto
  consider "type \<in> {0, 1, 2, 3}" | "type = 4" | "type = 5" | "type = 6" | "type = 7" | "type = 8" | "type = 9 \<or> type = 10"
    | "type = 11 \<or> type = 12" | "13 \<le> type"
  proof -
    have "type = 0 \<or> type = 1 \<or> type = 2 \<or> type = 3 \<or> type = 4 \<or> type = 5 \<or> type = 6 \<or> type = 7 \<or> type = 8 \<or>
      (type = 9 \<or> type = 10) \<or> (type = 11 \<or> type = 12) \<or> 13 \<le> type" using assms(7) by presburger
    then show thesis using that by blast
  qed
  then show ?thesis
  proof cases
    case 1
    then have "data < 361" using a by auto
    then obtain w where "rd_int T1 data = Some w" using data(1) rd_T1 by blast
    with 1 c show ?thesis unfolding un by (simp add: c1)
  next
    case 2
    then show ?thesis unfolding un using c code pos by (auto simp: c1)
  next
    case 3
    then show ?thesis unfolding un using c by (auto simp: c1)
  next
    case 4
    then have "data div 64 < 58" "data mod 64 < 58" "0 \<le> data div 64" "0 \<le> data mod 64" using b dp by auto
    then obtain e1 e2 where "rd_int case_conv_ext (data div 64) = Some e1" "rd_int case_conv_ext (data mod 64) = Some e2"
      using rd_ext by metis
    with 4 show ?thesis unfolding un by (simp add: char_list_def)
  next
    case 5
    then show ?thesis unfolding un using c data by (auto simp: c1)
  next
    case 6
    then obtain e1 where "rd_int case_conv_ext data = Some e1" "0 \<le> e1" "e1 < 2 ^ 16" using e data rd_ext by metis
    with 6 c show ?thesis unfolding un by (simp add: c1)
  next
    case 7
    then obtain e1 where "rd_int case_conv_ext data = Some e1" "0 \<le> e1" "e1 < 2 ^ 16" using e data rd_ext by metis
    with 7 c show ?thesis unfolding un by (auto simp: c1)
  next
    case 8
    then have "data div 64 < 58" "data mod 64 < 58" "0 \<le> data div 64" "0 \<le> data mod 64" using b dp by auto
    then obtain e1 e2 where "rd_int case_conv_ext (data div 64) = Some e1" "rd_int case_conv_ext (data mod 64) = Some e2" "0 \<le> e2" "e2 < 2 ^ 16"
      using rd_ext by metis
    with 8 c show ?thesis unfolding un by (auto simp: char_list_def)
  next
    case 9
    have "0 \<le> data div 16 mod 16" "0 \<le> data mod 16" by auto
    then obtain e1 e2 e3 where "rd_int case_conv_ext (data div 256) = Some e1" "0 \<le> e1" "e1 < 2 ^ 16"
      "rd_int case_conv_ext (data div 16 mod 16) = Some e2" "0 \<le> e2" "e2 < 2 ^ 16"
      "rd_int case_conv_ext (data mod 16) = Some e3" "0 \<le> e3" "e3 < 2 ^ 16" using dp rd_ext by metis
    with 9 c show ?thesis unfolding un by (simp add: char_list_def)
  qed
qed

lemma case_apply_ok:
  assumes idx: "i < 361" and run: "in_run c (T1 ! i)" and c: "0 \<le> c" "c < 2 ^ 32"
  shows "\<exists>res. case_apply c conv_type (int i) = Some res \<and> char_list res"
proof -
  let ?v = "T1 ! i" and ?t = "case_conv_table2 ! i"
  have "entry_ok (?v, ?t)" using case_table_entries idx by (simp add: list_all_length case_table_lengths)
  then have e: "0 \<le> ?v" "?v < 2 ^ 32" "0 \<le> ?t" "?t < 2 ^ 8" "run_type ?v < 4 \<Longrightarrow> ?v mod 16 * 256 + ?t < 361"
    "run_type ?v = 6 \<or> run_type ?v = 11 \<or> run_type ?v = 12 \<Longrightarrow> (?v mod 16 * 256 + ?t) div 64 < 58 \<and> (?v mod 16 * 256 + ?t) mod 64 < 58"
    "run_type ?v = 8 \<or> run_type ?v = 9 \<or> run_type ?v = 10 \<Longrightarrow> ?v mod 16 * 256 + ?t < 58"
    by (auto simp: entry_ok_def Let_def)
  have d: "0 \<le> ?v mod 16 * 256 + ?t" "?v mod 16 * 256 + ?t < 4096" "0 \<le> run_type ?v" using e(1,3,4) by (auto simp: run_type_def)
  have v: "0 \<le> run_code ?v" "run_code ?v \<le> c" using e(1) run by (auto simp: run_code_def in_run_def)
  have "run_code ?v < 2 ^ 17" "c < run_code ?v + 128" using e(1,2) run by (auto simp: run_code_def in_run_def run_len_def)
  then have "c < 2 ^ 31" by simp
  from case_switch_ok [OF c(1) this v d e(5-7), of conv_type] show ?thesis
    using idx by (simp add: case_apply_def case_table_lengths)
qed

lemma lre_case_conv_total:
  assumes "0 \<le> c" "c < 2 ^ 32"
  shows "\<exists>res. lre_case_conv c conv_type = Some res \<and> char_list res"
proof (cases "c < 128")
  case True
  then show ?thesis using assms by (auto simp: lre_case_conv_def char_list_def)
next
  case False
  show ?thesis
  proof (cases "case_lookup c")
    case None
    then show ?thesis using False assms by (simp add: lre_case_conv_def case_search_lookup char_list_def)
  next
    case (Some i)
    then have "i < 361" "in_run c (T1 ! i)" by (auto simp: case_lookup_def find_Some_iff case_table_lengths)
    from case_apply_ok [OF this assms] Some False show ?thesis by (simp add: lre_case_conv_def case_search_lookup)
  qed
qed

lemma lre_canonicalize_total:
  assumes "0 \<le> c" "c < 2 ^ 32"
  shows "\<exists>r. lre_canonicalize c is_utf16 = Some r \<and> 0 \<le> r \<and> r < 2 ^ 32"
proof (cases "c < 128")
  case True
  then show ?thesis using assms by (auto simp: lre_canonicalize_def)
next
  case False
  have hd: "\<exists>r. rd res 0 = Some r \<and> 0 \<le> r \<and> r < 2 ^ 32" if "char_list res" for res
    using that by (cases res) (auto simp: char_list_def rd_def)
  from lre_case_conv_total [OF assms, of 2] lre_case_conv_total [OF assms, of 0] hd obtain res2 r2 res0 r0 where
    "lre_case_conv c 2 = Some res2" "rd res2 0 = Some r2" "0 \<le> r2" "r2 < 2 ^ 32"
    "lre_case_conv c 0 = Some res0" "rd res0 0 = Some r0" "0 \<le> r0" "r0 < 2 ^ 32" by metis
  then show ?thesis using False assms by (auto simp: lre_canonicalize_def)
qed

text \<open>
  C24. Case conversion never reads outside its tables and yields one to three characters; the binary
  search over the packed runs finds exactly what a scan of the table finds, and a character in no run
  is unchanged.
\<close>

theorem lre_case_conv_scan:
  assumes "0 \<le> c" "c < 2 ^ 32"
  shows "(\<exists>res. lre_case_conv c conv_type = Some res \<and> char_list res) \<and>
    (128 \<le> c \<longrightarrow> lre_case_conv c conv_type =
       (case case_lookup c of None \<Rightarrow> Some [c] | Some i \<Rightarrow> case_apply c conv_type (int i))) \<and>
    (128 \<le> c \<longrightarrow> lre_is_cased c =
       Some (case_lookup c \<noteq> None \<or> in_runs (bounds unicode_prop_Cased1_table 0) c))"
  using lre_case_conv_total [OF assms, of conv_type] is_table_lookup [OF Cased1_table assms(1)]
  by (auto simp: lre_case_conv_def lre_is_cased_def case_search_lookup split: option.splits)

theorem lre_case_conv_scan_witness:
  "\<exists>res. lre_case_conv 0xe9 0 = Some res \<and> char_list res"
  using conjunct1 [OF lre_case_conv_scan [of "0xe9" 0]] by simp

end
