(* ===== verification/Unicode_Sets.thy ===== *)
theory Unicode_Sets
  imports Unicode_Case Char_Range Unicode_Set_Data
begin

unbundle bit_operations_syntax

text \<open>
  The sets of characters behind \<open>\p{...}\<close> (\<^verbatim>\<open>libunicode.c\<close>): names are looked up in the tables of
  aliases, and general categories, scripts and properties are decoded from their tables into a
  character range.

  A pointer into a table is the list of the bytes from it to the end, and \<open>None\<close> is a read past the
  end, a failed assertion, or a function that does not return.  Sums of run lengths stay far below
  \<open>2\<^sup>3\<^sup>2\<close>, so codes are plain integers; the or of disjoint bits is a sum.  Masks are 32 bit words.
  Ranges are not freed: nothing is read through a freed one.
\<close>

section \<open>Names\<close>

text \<open>The characters of the C string at a pointer, and the two loops of \<open>unicode_find_name\<close>.\<close>

definition c_string :: "string \<Rightarrow> string option" where
  "c_string p = (if CHR 0x00 \<in> set p then Some (takeWhile (\<lambda>x. x \<noteq> CHR 0x00) p) else None)"

function find_alias :: "string \<Rightarrow> string \<Rightarrow> (bool \<times> string) option" where
  "find_alias p name = do {
     s \<leftarrow> c_string p;
     let len = length (takeWhile (\<lambda>x. x \<noteq> CHR '','') s);
     if len = length name \<and> take len p = name then Some (True, p)
     else let p' = drop (len + 1) p in
       if CHR '','' \<in> set s then find_alias p' name else Some (False, p')
   }"
  by pat_completeness auto
termination
  by (relation "measure (\<lambda>(p, name). length p)") (auto simp: c_string_def length_pos_if_in_set intro!: diff_less split: if_splits)

declare find_alias.simps [simp del]

lemma find_alias_shorter: "find_alias p name = Some (False, p') \<Longrightarrow> length p' < length p"
proof (induction p name rule: find_alias.induct)
  case (1 p name)
  have "p \<noteq> []" using "1.prems" by (auto simp: find_alias.simps [of p] c_string_def)
  then show ?case using "1.prems" "1.IH" [OF _ refl _ refl]
    by (subst (asm) find_alias.simps) (fastforce simp: Let_def bind_eq_Some_conv split: if_splits)
qed

function find_entry_loop :: "string \<Rightarrow> string \<Rightarrow> int \<Rightarrow> int option" where
  "find_entry_loop p name pos = (case p of [] \<Rightarrow> None
     | c # _ \<Rightarrow> if c = CHR 0x00 then Some (- 1)
       else do {
         (found, p') \<leftarrow> find_alias p name;
         if found then Some pos else find_entry_loop p' name (pos + 1)
       })"
  by pat_completeness auto
termination
  by (relation "measure (\<lambda>(p, name, pos). length p)") (auto dest: find_alias_shorter)

declare find_entry_loop.simps [simp del]

definition unicode_find_name :: "string \<Rightarrow> string \<Rightarrow> int option" where
  "unicode_find_name name_table name = find_entry_loop name_table name 0"

section \<open>Scripts\<close>

fun next_byte :: "int list \<Rightarrow> (int \<times> int list) option" where
  "next_byte [] = None"
| "next_byte (b # p) = Some (b, p)"

abbreviation (input) "UNICODE_SCRIPT_Unknown \<equiv> 0 :: int"
abbreviation (input) "UNICODE_SCRIPT_Common \<equiv> 25 :: int"
abbreviation (input) "UNICODE_SCRIPT_Inherited \<equiv> 55 :: int"

text \<open>A run of the table of scripts: its length, its script and the rest of the table.\<close>

definition script_run_length :: "int \<Rightarrow> int list \<Rightarrow> (int \<times> int list) option" where
  "script_run_length n p =
     (if n < 96 then Some (n, p)
      else if n < 112 then do {
        (b0, p) \<leftarrow> next_byte p;
        Some ((n - 96) * 2 ^ 8 + b0 + 96, p)
      }
      else do {
        (b0, p) \<leftarrow> next_byte p;
        (b1, p) \<leftarrow> next_byte p;
        Some ((n - 112) * 2 ^ 16 + b0 * 2 ^ 8 + b1 + (96 + 2 ^ 12), p)
      })"

definition script_run :: "int list \<Rightarrow> (int \<times> int \<times> int list) option" where
  "script_run p = do {
     (b, p) \<leftarrow> next_byte p;
     let type = b div 2 ^ 7;
     (n, p) \<leftarrow> script_run_length (b mod 0x80) p;
     (v, p) \<leftarrow> (if type = 0 then Some (0, p) else next_byte p);
     Some (n, v, p)
   }"

lemma next_byte_length: "next_byte p = Some (b, p') \<Longrightarrow> length p = Suc (length p')"
  by (cases p) auto

lemma script_run_length_shorter: "script_run_length n p = Some (n', p') \<Longrightarrow> length p' \<le> length p"
  by (auto simp: script_run_length_def bind_eq_Some_conv dest!: next_byte_length split: if_splits)

lemma script_run_shorter: "script_run p = Some (n, v, p') \<Longrightarrow> length p' < length p"
  by (auto simp: script_run_def Let_def bind_eq_Some_conv dest!: next_byte_length script_run_length_shorter split: if_splits)

function script_loop :: "int \<Rightarrow> int list \<Rightarrow> int \<Rightarrow> CharRange \<Rightarrow> cr_result" where
  "script_loop script_idx p c cr1 =
     (if p = [] then Some (cr1, False)
      else do {
        (n, v, p) \<leftarrow> script_run p;
        let c1 = c + n + 1;
        (cr1, err) \<leftarrow> (if v = script_idx then cr_add_interval cr1 (of_int c) (of_int c1) else Some (cr1, False));
        if err then Some (cr1, True) else script_loop script_idx p c1 cr1
      })"
  by pat_completeness auto
termination
  by (relation "measure (\<lambda>(i, p, c, cr). length p)") (auto dest: script_run_shorter)

text \<open>A run of the table of script extensions: its length, the scripts and the rest.\<close>

definition script_ext_run_length :: "int \<Rightarrow> int list \<Rightarrow> (int \<times> int list) option" where
  "script_ext_run_length b p =
     (if b < 128 then Some (b, p)
      else if b < 128 + 64 then do {
        (b0, p) \<leftarrow> next_byte p;
        Some ((b - 128) * 2 ^ 8 + b0 + 128, p)
      }
      else do {
        (b0, p) \<leftarrow> next_byte p;
        (b1, p) \<leftarrow> next_byte p;
        Some ((b - 128 - 64) * 2 ^ 16 + b0 * 2 ^ 8 + b1 + (128 + 2 ^ 14), p)
      })"

definition script_ext_run :: "int list \<Rightarrow> (int \<times> int list \<times> int list) option" where
  "script_ext_run p = do {
     (b, p) \<leftarrow> next_byte p;
     (n, p) \<leftarrow> script_ext_run_length b p;
     (v_len, p) \<leftarrow> next_byte p;
     if nat v_len \<le> length p then Some (n, take (nat v_len) p, drop (nat v_len) p) else None
   }"

lemma script_ext_run_length_shorter: "script_ext_run_length n p = Some (n', p') \<Longrightarrow> length p' \<le> length p"
  by (auto simp: script_ext_run_length_def bind_eq_Some_conv dest!: next_byte_length split: if_splits)

lemma script_ext_run_shorter: "script_ext_run p = Some (n, vs, p') \<Longrightarrow> length p' < length p"
  by (auto simp: script_ext_run_def bind_eq_Some_conv dest!: next_byte_length script_ext_run_length_shorter split: if_splits)

function script_ext_loop :: "int \<Rightarrow> bool \<Rightarrow> int list \<Rightarrow> int \<Rightarrow> CharRange \<Rightarrow> cr_result" where
  "script_ext_loop script_idx is_common p c cr2 =
     (if p = [] then Some (cr2, False)
      else do {
        (n, vs, p) \<leftarrow> script_ext_run p;
        let c1 = c + n + 1;
        (cr2, err) \<leftarrow> (if (if is_common then vs \<noteq> [] else script_idx \<in> set vs)
          then cr_add_interval cr2 (of_int c) (of_int c1) else Some (cr2, False));
        if err then Some (cr2, True) else script_ext_loop script_idx is_common p c1 cr2
      })"
  by pat_completeness auto
termination
  by (relation "measure (\<lambda>(i, k, p, c, cr). length p)") (auto dest: script_ext_run_shorter)

declare script_loop.simps [simp del] script_ext_loop.simps [simp del]

definition cr_fresh :: "CharRange \<Rightarrow> CharRange" where
  "cr_fresh cr = cr_init (cr_realloc_func cr) (Some (cr_realloc_func cr))"

text \<open>
  The label \<open>fail\<close> of \<open>unicode_script\<close> ends with a jump to itself: it is reached when memory runs out,
  and the function does not return.
\<close>

definition script_fail :: "cr_result \<Rightarrow> CharRange option" where
  "script_fail r = do { (cr, err) \<leftarrow> r; if err then None else Some cr }"

definition unicode_script :: "CharRange \<Rightarrow> string \<Rightarrow> bool \<Rightarrow> (CharRange \<times> int) option" where
  "unicode_script cr script_name is_ext = do {
     script_idx \<leftarrow> unicode_find_name unicode_script_name_table script_name;
     if script_idx < 0 then Some (cr, - 2)
     else do {
       let script_idx = script_idx + (UNICODE_SCRIPT_Unknown + 1);
       let is_common = (script_idx = UNICODE_SCRIPT_Common \<or> script_idx = UNICODE_SCRIPT_Inherited);
       cr1 \<leftarrow> script_fail (script_loop script_idx unicode_script_table 0 (if is_ext then cr_fresh cr else cr));
       if is_ext then do {
         cr2 \<leftarrow> script_fail (script_ext_loop script_idx is_common unicode_script_ext_table 0 (cr_fresh cr));
         if is_common then do {
           cr2 \<leftarrow> script_fail (cr_invert cr2);
           cr \<leftarrow> script_fail (cr_op cr (cr_points cr1) (cr_len cr1) (cr_points cr2) (cr_len cr2) CR_OP_INTER);
           Some (cr, 0)
         }
         else do {
           cr \<leftarrow> script_fail (cr_op cr (cr_points cr1) (cr_len cr1) (cr_points cr2) (cr_len cr2) CR_OP_UNION);
           Some (cr, 0)
         }
       }
       else Some (cr1, 0)
     }
   }"

section \<open>General categories\<close>

abbreviation (input) "UNICODE_GC_Cn \<equiv> 0 :: nat"
abbreviation (input) "UNICODE_GC_Lu \<equiv> 1 :: nat"
abbreviation (input) "UNICODE_GC_Ll \<equiv> 2 :: nat"
abbreviation (input) "UNICODE_GC_Lt \<equiv> 3 :: nat"
abbreviation (input) "UNICODE_GC_Lm \<equiv> 4 :: nat"
abbreviation (input) "UNICODE_GC_Lo \<equiv> 5 :: nat"
abbreviation (input) "UNICODE_GC_Mn \<equiv> 6 :: nat"
abbreviation (input) "UNICODE_GC_Mc \<equiv> 7 :: nat"
abbreviation (input) "UNICODE_GC_Me \<equiv> 8 :: nat"
abbreviation (input) "UNICODE_GC_Nd \<equiv> 9 :: nat"
abbreviation (input) "UNICODE_GC_Nl \<equiv> 10 :: nat"
abbreviation (input) "UNICODE_GC_No \<equiv> 11 :: nat"
abbreviation (input) "UNICODE_GC_Sm \<equiv> 12 :: nat"
abbreviation (input) "UNICODE_GC_Sc \<equiv> 13 :: nat"
abbreviation (input) "UNICODE_GC_Sk \<equiv> 14 :: nat"
abbreviation (input) "UNICODE_GC_So \<equiv> 15 :: nat"
abbreviation (input) "UNICODE_GC_Pc \<equiv> 16 :: nat"
abbreviation (input) "UNICODE_GC_Pd \<equiv> 17 :: nat"
abbreviation (input) "UNICODE_GC_Ps \<equiv> 18 :: nat"
abbreviation (input) "UNICODE_GC_Pe \<equiv> 19 :: nat"
abbreviation (input) "UNICODE_GC_Pi \<equiv> 20 :: nat"
abbreviation (input) "UNICODE_GC_Pf \<equiv> 21 :: nat"
abbreviation (input) "UNICODE_GC_Po \<equiv> 22 :: nat"
abbreviation (input) "UNICODE_GC_Zs \<equiv> 23 :: nat"
abbreviation (input) "UNICODE_GC_Zl \<equiv> 24 :: nat"
abbreviation (input) "UNICODE_GC_Zp \<equiv> 25 :: nat"
abbreviation (input) "UNICODE_GC_Cc \<equiv> 26 :: nat"
abbreviation (input) "UNICODE_GC_Cf \<equiv> 27 :: nat"
abbreviation (input) "UNICODE_GC_Cs \<equiv> 28 :: nat"
abbreviation (input) "UNICODE_GC_Co \<equiv> 29 :: nat"
abbreviation (input) "UNICODE_GC_LC \<equiv> 30 :: nat"

definition M :: "nat list \<Rightarrow> u32" where
  "M ids = foldr (\<lambda>i m. push_bit i 1 OR m) ids 0"

text \<open>A run of the table of categories: its length, its category and the rest of the table.\<close>

definition gc_run_length :: "int \<Rightarrow> int list \<Rightarrow> (int \<times> int list) option" where
  "gc_run_length n p =
     (if n = 7 then do {
        (n, p) \<leftarrow> next_byte p;
        if n < 128 then Some (n + 7, p)
        else if n < 128 + 64 then do {
          (b0, p) \<leftarrow> next_byte p;
          Some ((n - 128) * 2 ^ 8 + b0 + (7 + 128), p)
        }
        else do {
          (b0, p) \<leftarrow> next_byte p;
          (b1, p) \<leftarrow> next_byte p;
          Some ((n - 128 - 64) * 2 ^ 16 + b0 * 2 ^ 8 + b1 + (7 + 128 + 2 ^ 14), p)
        }
      }
      else Some (n, p))"

definition gc_run :: "int list \<Rightarrow> (int \<times> int \<times> int list) option" where
  "gc_run p = do {
     (b, p) \<leftarrow> next_byte p;
     (n, p) \<leftarrow> gc_run_length (b div 2 ^ 5) p;
     Some (n, b mod 0x20, p)
   }"

lemma gc_run_length_shorter: "gc_run_length n p = Some (n', p') \<Longrightarrow> length p' \<le> length p"
  by (auto simp: gc_run_length_def bind_eq_Some_conv dest!: next_byte_length split: if_splits)

lemma gc_run_shorter: "gc_run p = Some (n, v, p') \<Longrightarrow> length p' < length p"
  by (auto simp: gc_run_def bind_eq_Some_conv dest!: next_byte_length gc_run_length_shorter)

text \<open>Every second character of a run, one at a time.\<close>

function add_alternate :: "CharRange \<Rightarrow> int \<Rightarrow> int \<Rightarrow> cr_result" where
  "add_alternate cr c0 c =
     (if c0 < c
      then do {
        (cr, err) \<leftarrow> cr_add_interval cr (of_int c0) (of_int (c0 + 1));
        if err then Some (cr, True) else add_alternate cr (c0 + 2) c
      }
      else Some (cr, False))"
  by pat_completeness auto
termination by (relation "measure (\<lambda>(cr, c0, c). nat (c - c0))") auto

function gc_loop :: "u32 \<Rightarrow> int list \<Rightarrow> int \<Rightarrow> CharRange \<Rightarrow> cr_result" where
  "gc_loop gc_mask p c cr =
     (if p = [] then Some (cr, False)
      else do {
        (n, v, p) \<leftarrow> gc_run p;
        let c0 = c;
        let c = c + (n + 1);
        (cr, err) \<leftarrow> (if v = 31 then
            let b = gc_mask AND (M [UNICODE_GC_Lu, UNICODE_GC_Ll]) in
            if b \<noteq> 0 then
              if b = M [UNICODE_GC_Lu, UNICODE_GC_Ll] then cr_add_interval cr (of_int c0) (of_int c)
              else add_alternate cr (c0 + (if gc_mask AND M [UNICODE_GC_Ll] \<noteq> 0 then 1 else 0)) c
            else Some (cr, False)
          else if drop_bit (nat v) gc_mask AND 1 \<noteq> 0 then cr_add_interval cr (of_int c0) (of_int c)
          else Some (cr, False));
        if err then Some (cr, True) else gc_loop gc_mask p c cr
      })"
  by pat_completeness auto
termination
  by (relation "measure (\<lambda>(m, p, c, cr). length p)") (auto dest: gc_run_shorter)

declare add_alternate.simps [simp del] gc_loop.simps [simp del]

definition unicode_general_category1 :: "CharRange \<Rightarrow> u32 \<Rightarrow> cr_result" where
  "unicode_general_category1 cr gc_mask = gc_loop gc_mask unicode_gc_table 0 cr"

definition unicode_gc_mask_table :: "u32 list" where
  "unicode_gc_mask_table =
     [M [UNICODE_GC_Lu, UNICODE_GC_Ll, UNICODE_GC_Lt],
      M [UNICODE_GC_Lu, UNICODE_GC_Ll, UNICODE_GC_Lt, UNICODE_GC_Lm, UNICODE_GC_Lo],
      M [UNICODE_GC_Mn, UNICODE_GC_Mc, UNICODE_GC_Me],
      M [UNICODE_GC_Nd, UNICODE_GC_Nl, UNICODE_GC_No],
      M [UNICODE_GC_Sm, UNICODE_GC_Sc, UNICODE_GC_Sk, UNICODE_GC_So],
      M [UNICODE_GC_Pc, UNICODE_GC_Pd, UNICODE_GC_Ps, UNICODE_GC_Pe, UNICODE_GC_Pi, UNICODE_GC_Pf, UNICODE_GC_Po],
      M [UNICODE_GC_Zs, UNICODE_GC_Zl, UNICODE_GC_Zp],
      M [UNICODE_GC_Cc, UNICODE_GC_Cf, UNICODE_GC_Cs, UNICODE_GC_Co, UNICODE_GC_Cn]]"

definition ret_of :: "cr_result \<Rightarrow> (CharRange \<times> int) option" where
  "ret_of r = do { (cr, err) \<leftarrow> r; Some (cr, if err then - 1 else 0) }"

definition unicode_general_category :: "CharRange \<Rightarrow> string \<Rightarrow> (CharRange \<times> int) option" where
  "unicode_general_category cr gc_name = do {
     gc_idx \<leftarrow> unicode_find_name unicode_gc_name_table gc_name;
     if gc_idx < 0 then Some (cr, - 2)
     else do {
       gc_mask \<leftarrow> (if nat gc_idx \<le> UNICODE_GC_Co then Some (push_bit (nat gc_idx) 1)
         else rd unicode_gc_mask_table (nat gc_idx - UNICODE_GC_LC));
       ret_of (unicode_general_category1 cr gc_mask)
     }
   }"

section \<open>Properties\<close>

function prop1_loop :: "int list \<Rightarrow> int \<Rightarrow> bool \<Rightarrow> CharRange \<Rightarrow> cr_result" where
  "prop1_loop p c bi cr =
     (case p of [] \<Rightarrow> Some (cr, False)
      | b # p \<Rightarrow>
          let add = (\<lambda>bi c0 c cr. if bi then cr_add_interval cr (of_int c0) (of_int c) else Some (cr, False)) in
          if b < 64 then do {
            let c1 = c + (b div 2 ^ 3 + 1);
            (cr, err) \<leftarrow> add bi c c1 cr;
            if err then Some (cr, True)
            else do {
              let c2 = c1 + (b mod 8 + 1);
              (cr, err) \<leftarrow> add (\<not> bi) c1 c2 cr;
              if err then Some (cr, True) else prop1_loop p c2 bi cr
            }
          }
          else if b \<ge> 0x80 then do {
            let c1 = c + (b - 0x80 + 1);
            (cr, err) \<leftarrow> add bi c c1 cr;
            if err then Some (cr, True) else prop1_loop p c1 (\<not> bi) cr
          }
          else if b < 0x60 then (case p of
              b0 # p \<Rightarrow> do {
                let c1 = c + ((b - 0x40) * 2 ^ 8 + b0 + 1);
                (cr, err) \<leftarrow> add bi c c1 cr;
                if err then Some (cr, True) else prop1_loop p c1 (\<not> bi) cr
              }
            | [] \<Rightarrow> None)
          else (case p of
              b0 # b1 # p \<Rightarrow> do {
                let c1 = c + ((b - 0x60) * 2 ^ 16 + b0 * 2 ^ 8 + b1 + 1);
                (cr, err) \<leftarrow> add bi c c1 cr;
                if err then Some (cr, True) else prop1_loop p c1 (\<not> bi) cr
              }
            | _ \<Rightarrow> None))"
  by pat_completeness auto
termination
  by (relation "measure (\<lambda>(p, c, bi, cr). length p)") auto

declare prop1_loop.simps [simp del]

definition unicode_prop1 :: "CharRange \<Rightarrow> nat \<Rightarrow> cr_result" where
  "unicode_prop1 cr prop_idx = do {
     p \<leftarrow> rd unicode_prop_table prop_idx;
     prop1_loop p 0 False cr
   }"

section \<open>Characters changed by case conversion\<close>

abbreviation (input) "CASE_U \<equiv> 1 :: u32"
abbreviation (input) "CASE_L \<equiv> 2 :: u32"
abbreviation (input) "CASE_F \<equiv> 4 :: u32"

text \<open>The types of runs in a mask, as \<open>MR\<close> builds it.\<close>

definition MR :: "int list \<Rightarrow> u32" where
  "MR types = foldr (\<lambda>t m. push_bit (nat t) 1 OR m) types 0"

definition tab_run_mask :: "u32 list" where
  "tab_run_mask =
     [MR [RUN_TYPE_U, RUN_TYPE_UF, RUN_TYPE_UL, RUN_TYPE_LSU, RUN_TYPE_U2L_399_EXT2, RUN_TYPE_UF_D20,
          RUN_TYPE_UF_D1_EXT, RUN_TYPE_U_EXT, RUN_TYPE_U_EXT2, RUN_TYPE_U_EXT3],
      MR [RUN_TYPE_L, RUN_TYPE_LF, RUN_TYPE_UL, RUN_TYPE_LSU, RUN_TYPE_U2L_399_EXT2, RUN_TYPE_LF_EXT, RUN_TYPE_L_EXT2],
      MR [RUN_TYPE_UF, RUN_TYPE_LF, RUN_TYPE_UL, RUN_TYPE_LSU, RUN_TYPE_U2L_399_EXT2, RUN_TYPE_LF_EXT, RUN_TYPE_UF_D20,
          RUN_TYPE_UF_D1_EXT, RUN_TYPE_LF_EXT]]"

definition case_run_mask :: "u32 \<Rightarrow> u32" where
  "case_run_mask case_mask =
     foldl (\<lambda>m i. if drop_bit i case_mask AND 1 \<noteq> 0 then m OR tab_run_mask ! i else m) 0 [0 ..< 3]"

fun add_intervals :: "CharRange \<Rightarrow> (int \<times> int) list \<Rightarrow> cr_result" where
  "add_intervals cr [] = Some (cr, False)"
| "add_intervals cr ((a, b) # is) = do {
     (cr, err) \<leftarrow> cr_add_interval cr (of_int a) (of_int b);
     if err then Some (cr, True) else add_intervals cr is
   }"

text \<open>The switch on the type of a run.  The loop over a \<open>UL\<close> run takes every second character.\<close>

definition case1_run :: "u32 \<Rightarrow> int \<Rightarrow> int \<Rightarrow> int \<Rightarrow> CharRange \<Rightarrow> cr_result" where
  "case1_run case_mask type code len cr = (
     let u = (case_mask AND CASE_U \<noteq> 0); both = (u \<and> case_mask AND (CASE_L OR CASE_F) \<noteq> 0) in
     if type = RUN_TYPE_UL \<and> \<not> both
     then let code = code + (if u then 1 else 0) in add_alternate cr code (code + len)
     else if type = RUN_TYPE_LSU \<and> \<not> both
     then add_intervals cr ((if \<not> u then [(code, code + 1)] else []) @ [(code + 1, code + 2)] @
       (if u then [(code + 2, code + 3)] else []))
     else cr_add_interval cr (of_int code) (of_int (code + len)))"

fun case1_loop :: "u32 \<Rightarrow> u32 \<Rightarrow> int list \<Rightarrow> CharRange \<Rightarrow> cr_result" where
  "case1_loop run_mask case_mask [] cr = Some (cr, False)"
| "case1_loop run_mask case_mask (v # vs) cr = do {
     (cr, err) \<leftarrow> (if drop_bit (nat (run_type v)) run_mask AND 1 \<noteq> 0
       then case1_run case_mask (run_type v) (run_code v) (run_len v) cr else Some (cr, False));
     if err then Some (cr, True) else case1_loop run_mask case_mask vs cr
   }"

definition unicode_case1 :: "CharRange \<Rightarrow> u32 \<Rightarrow> cr_result" where
  "unicode_case1 cr case_mask =
     (if case_mask = 0 then Some (cr, False)
      else case1_loop (case_run_mask case_mask) case_mask case_conv_table1 cr)"

section \<open>The stack machine of derived properties\<close>

datatype PropOPEnum =
    POP_GC u32 | POP_PROP nat | POP_CASE u32 | POP_UNION | POP_INTER | POP_XOR | POP_INVERT

definition POP_STACK_LEN_MAX :: nat where
  "POP_STACK_LEN_MAX = 4"

text \<open>One instruction on the stack, its top first; the flag is the jump to \<open>fail\<close>.\<close>

definition pop_push :: "(CharRange \<Rightarrow> cr_result) \<Rightarrow> CharRange \<Rightarrow> CharRange list \<Rightarrow> (CharRange list \<times> bool) option" where
  "pop_push f cr stack =
     (if length stack < POP_STACK_LEN_MAX
      then do { (x, err) \<leftarrow> f (cr_fresh cr); Some (x # stack, err) }
      else None)"

definition pop_binary :: "CharRangeOpEnum \<Rightarrow> CharRange \<Rightarrow> CharRange list \<Rightarrow> (CharRange list \<times> bool) option" where
  "pop_binary rop cr stack = (case stack of
      cr2 # cr1 # rest \<Rightarrow>
        if length stack < POP_STACK_LEN_MAX
        then do {
          (cr3, err) \<leftarrow> cr_op (cr_fresh cr) (cr_points cr1) (cr_len cr1) (cr_points cr2) (cr_len cr2) rop;
          Some (cr3 # rest, err)
        }
        else None
    | _ \<Rightarrow> None)"

fun pop_step :: "CharRange \<Rightarrow> PropOPEnum \<Rightarrow> CharRange list \<Rightarrow> (CharRange list \<times> bool) option" where
  "pop_step cr (POP_GC a) stack = pop_push (\<lambda>x. unicode_general_category1 x a) cr stack"
| "pop_step cr (POP_PROP a) stack = pop_push (\<lambda>x. unicode_prop1 x a) cr stack"
| "pop_step cr (POP_CASE a) stack = pop_push (\<lambda>x. unicode_case1 x a) cr stack"
| "pop_step cr POP_UNION stack = pop_binary CR_OP_UNION cr stack"
| "pop_step cr POP_INTER stack = pop_binary CR_OP_INTER cr stack"
| "pop_step cr POP_XOR stack = pop_binary CR_OP_XOR cr stack"
| "pop_step cr POP_INVERT stack = (case stack of [] \<Rightarrow> None
     | x # rest \<Rightarrow> do { (x, err) \<leftarrow> cr_invert x; Some (x # rest, err) })"

fun pop_loop :: "CharRange \<Rightarrow> PropOPEnum list \<Rightarrow> CharRange list \<Rightarrow> cr_result" where
  "pop_loop cr [] stack = (case stack of [x] \<Rightarrow> cr_copy cr x | _ \<Rightarrow> None)"
| "pop_loop cr (op # ops) stack = do {
     (stack, err) \<leftarrow> pop_step cr op stack;
     if err then Some (cr, True) else pop_loop cr ops stack
   }"

definition unicode_prop_ops :: "CharRange \<Rightarrow> PropOPEnum list \<Rightarrow> cr_result" where
  "unicode_prop_ops cr ops = pop_loop cr ops []"

section \<open>Properties by name\<close>

abbreviation (input) "UNICODE_PROP_Other_Math \<equiv> 1 :: nat"
abbreviation (input) "UNICODE_PROP_Other_Alphabetic \<equiv> 2 :: nat"
abbreviation (input) "UNICODE_PROP_Other_Lowercase \<equiv> 3 :: nat"
abbreviation (input) "UNICODE_PROP_Other_Uppercase \<equiv> 4 :: nat"
abbreviation (input) "UNICODE_PROP_Other_Grapheme_Extend \<equiv> 5 :: nat"
abbreviation (input) "UNICODE_PROP_Other_ID_Start \<equiv> 7 :: nat"
abbreviation (input) "UNICODE_PROP_Other_ID_Continue \<equiv> 8 :: nat"
abbreviation (input) "UNICODE_PROP_ID_Continue1 \<equiv> 10 :: nat"
abbreviation (input) "UNICODE_PROP_XID_Start1 \<equiv> 11 :: nat"
abbreviation (input) "UNICODE_PROP_XID_Continue1 \<equiv> 12 :: nat"
abbreviation (input) "UNICODE_PROP_Changes_When_Titlecased1 \<equiv> 13 :: nat"
abbreviation (input) "UNICODE_PROP_Changes_When_Casefolded1 \<equiv> 14 :: nat"
abbreviation (input) "UNICODE_PROP_Changes_When_NFKC_Casefolded1 \<equiv> 15 :: nat"
abbreviation (input) "UNICODE_PROP_ASCII_Hex_Digit \<equiv> 16 :: nat"
abbreviation (input) "UNICODE_PROP_Pattern_Syntax \<equiv> 29 :: nat"
abbreviation (input) "UNICODE_PROP_Pattern_White_Space \<equiv> 30 :: nat"
abbreviation (input) "UNICODE_PROP_ID_Start \<equiv> 48 :: nat"
abbreviation (input) "UNICODE_PROP_ASCII \<equiv> 50 :: nat"
abbreviation (input) "UNICODE_PROP_Alphabetic \<equiv> 51 :: nat"
abbreviation (input) "UNICODE_PROP_Any \<equiv> 52 :: nat"
abbreviation (input) "UNICODE_PROP_Assigned \<equiv> 53 :: nat"
abbreviation (input) "UNICODE_PROP_Cased \<equiv> 54 :: nat"
abbreviation (input) "UNICODE_PROP_Changes_When_Casefolded \<equiv> 55 :: nat"
abbreviation (input) "UNICODE_PROP_Changes_When_Casemapped \<equiv> 56 :: nat"
abbreviation (input) "UNICODE_PROP_Changes_When_Lowercased \<equiv> 57 :: nat"
abbreviation (input) "UNICODE_PROP_Changes_When_NFKC_Casefolded \<equiv> 58 :: nat"
abbreviation (input) "UNICODE_PROP_Changes_When_Titlecased \<equiv> 59 :: nat"
abbreviation (input) "UNICODE_PROP_Changes_When_Uppercased \<equiv> 60 :: nat"
abbreviation (input) "UNICODE_PROP_Grapheme_Base \<equiv> 61 :: nat"
abbreviation (input) "UNICODE_PROP_Grapheme_Extend \<equiv> 62 :: nat"
abbreviation (input) "UNICODE_PROP_ID_Continue \<equiv> 63 :: nat"
abbreviation (input) "UNICODE_PROP_Lowercase \<equiv> 64 :: nat"
abbreviation (input) "UNICODE_PROP_Math \<equiv> 65 :: nat"
abbreviation (input) "UNICODE_PROP_Uppercase \<equiv> 66 :: nat"
abbreviation (input) "UNICODE_PROP_XID_Continue \<equiv> 67 :: nat"
abbreviation (input) "UNICODE_PROP_XID_Start \<equiv> 68 :: nat"

text \<open>The programs of the switch in \<open>unicode_prop\<close>.\<close>

definition prop_program :: "nat \<Rightarrow> PropOPEnum list option" where
  "prop_program prop_idx =
     (if prop_idx = UNICODE_PROP_Assigned
      then Some [POP_GC (M [UNICODE_GC_Cn]), POP_INVERT]
      else if prop_idx = UNICODE_PROP_Math
      then Some [POP_GC (M [UNICODE_GC_Sm]), POP_PROP UNICODE_PROP_Other_Math, POP_UNION]
      else if prop_idx = UNICODE_PROP_Lowercase
      then Some [POP_GC (M [UNICODE_GC_Ll]), POP_PROP UNICODE_PROP_Other_Lowercase, POP_UNION]
      else if prop_idx = UNICODE_PROP_Uppercase
      then Some [POP_GC (M [UNICODE_GC_Lu]), POP_PROP UNICODE_PROP_Other_Uppercase, POP_UNION]
      else if prop_idx = UNICODE_PROP_Cased
      then Some [POP_GC (M [UNICODE_GC_Lu, UNICODE_GC_Ll, UNICODE_GC_Lt]), POP_PROP UNICODE_PROP_Other_Uppercase,
          POP_UNION, POP_PROP UNICODE_PROP_Other_Lowercase, POP_UNION]
      else if prop_idx = UNICODE_PROP_Alphabetic
      then Some [POP_GC (M [UNICODE_GC_Lu, UNICODE_GC_Ll, UNICODE_GC_Lt, UNICODE_GC_Lm, UNICODE_GC_Lo, UNICODE_GC_Nl]),
          POP_PROP UNICODE_PROP_Other_Uppercase, POP_UNION, POP_PROP UNICODE_PROP_Other_Lowercase, POP_UNION,
          POP_PROP UNICODE_PROP_Other_Alphabetic, POP_UNION]
      else if prop_idx = UNICODE_PROP_Grapheme_Base
      then Some [POP_GC (M [UNICODE_GC_Cc, UNICODE_GC_Cf, UNICODE_GC_Cs, UNICODE_GC_Co, UNICODE_GC_Cn, UNICODE_GC_Zl, UNICODE_GC_Zp, UNICODE_GC_Me, UNICODE_GC_Mn]),
          POP_PROP UNICODE_PROP_Other_Grapheme_Extend, POP_UNION, POP_INVERT]
      else if prop_idx = UNICODE_PROP_Grapheme_Extend
      then Some [POP_GC (M [UNICODE_GC_Me, UNICODE_GC_Mn]), POP_PROP UNICODE_PROP_Other_Grapheme_Extend, POP_UNION]
      else if prop_idx = UNICODE_PROP_XID_Start
      then Some [POP_GC (M [UNICODE_GC_Lu, UNICODE_GC_Ll, UNICODE_GC_Lt, UNICODE_GC_Lm, UNICODE_GC_Lo, UNICODE_GC_Nl]),
          POP_PROP UNICODE_PROP_Other_ID_Start, POP_UNION, POP_PROP UNICODE_PROP_Pattern_Syntax,
          POP_PROP UNICODE_PROP_Pattern_White_Space, POP_UNION, POP_PROP UNICODE_PROP_XID_Start1, POP_UNION,
          POP_INVERT, POP_INTER]
      else if prop_idx = UNICODE_PROP_XID_Continue
      then Some [POP_GC (M [UNICODE_GC_Lu, UNICODE_GC_Ll, UNICODE_GC_Lt, UNICODE_GC_Lm, UNICODE_GC_Lo, UNICODE_GC_Nl, UNICODE_GC_Mn, UNICODE_GC_Mc, UNICODE_GC_Nd, UNICODE_GC_Pc]),
          POP_PROP UNICODE_PROP_Other_ID_Start, POP_UNION, POP_PROP UNICODE_PROP_Other_ID_Continue, POP_UNION,
          POP_PROP UNICODE_PROP_Pattern_Syntax, POP_PROP UNICODE_PROP_Pattern_White_Space, POP_UNION,
          POP_PROP UNICODE_PROP_XID_Continue1, POP_UNION, POP_INVERT, POP_INTER]
      else if prop_idx = UNICODE_PROP_Changes_When_Titlecased
      then Some [POP_CASE CASE_U, POP_PROP UNICODE_PROP_Changes_When_Titlecased1, POP_XOR]
      else if prop_idx = UNICODE_PROP_Changes_When_Casefolded
      then Some [POP_CASE CASE_F, POP_PROP UNICODE_PROP_Changes_When_Casefolded1, POP_XOR]
      else if prop_idx = UNICODE_PROP_Changes_When_NFKC_Casefolded
      then Some [POP_CASE CASE_F, POP_PROP UNICODE_PROP_Changes_When_NFKC_Casefolded1, POP_XOR]
      else if prop_idx = UNICODE_PROP_ID_Continue
      then Some [POP_PROP UNICODE_PROP_ID_Start, POP_PROP UNICODE_PROP_ID_Continue1, POP_XOR]
      else None)"

definition unicode_prop :: "CharRange \<Rightarrow> string \<Rightarrow> (CharRange \<times> int) option" where
  "unicode_prop cr prop_name = do {
     prop_idx \<leftarrow> unicode_find_name unicode_prop_name_table prop_name;
     if prop_idx < 0 then Some (cr, - 2)
     else let prop_idx = nat prop_idx + UNICODE_PROP_ASCII_Hex_Digit in
       if prop_idx = UNICODE_PROP_ASCII then ret_of (cr_add_interval cr 0x00 (0x7f + 1))
       else if prop_idx = UNICODE_PROP_Any then ret_of (cr_add_interval cr 0x00000 (0x10ffff + 1))
       else if prop_idx = UNICODE_PROP_Changes_When_Uppercased then ret_of (unicode_case1 cr CASE_U)
       else if prop_idx = UNICODE_PROP_Changes_When_Lowercased then ret_of (unicode_case1 cr CASE_L)
       else if prop_idx = UNICODE_PROP_Changes_When_Casemapped then ret_of (unicode_case1 cr (CASE_U OR CASE_L OR CASE_F))
       else (case prop_program prop_idx of
           Some ops \<Rightarrow> ret_of (unicode_prop_ops cr ops)
         | None \<Rightarrow> if prop_idx \<ge> length unicode_prop_table then Some (cr, - 2) else ret_of (unicode_prop1 cr prop_idx))
   }"

end
