(* ===== verification/Unicode_Intervals.thy ===== *)
theory Unicode_Intervals
  imports Unicode_Sets
begin

unbundle bit_operations_syntax

text \<open>
  Ranges built by adding intervals in increasing order, and the tables of run lengths that are decoded
  this way: the locale \<open>run_table\<close> is the contract of such a decoder, and general categories, scripts
  and script extensions are instances of it.
\<close>

section \<open>Adding intervals\<close>

lemma cr_add_interval_ok:
  assumes "cr_wf cr" and "points_alloc (cr_realloc_func cr)" and "cr_len cr + 2 \<le> n" and "cr_size cr \<le> 2 * n" and "n < 2 ^ 28"
  shows "\<exists>cr' err. cr_add_interval cr a b = Some (cr', err) \<and> cr_wf cr' \<and> cr_realloc_func cr' = cr_realloc_func cr \<and>
    cr_size cr' \<le> 2 * n \<and> (\<not> err \<longrightarrow> cr_live cr' = cr_live cr @ [a, b] \<and> cr_len cr' = cr_len cr + 2) \<and>
    (alloc_always (cr_realloc_func cr) \<longrightarrow> \<not> err)"
proof -
  have sz: "cr_size cr * 3 < 2 ^ 31" using assms(4,5) by simp
  let ?r = "if cr_len cr + 2 > cr_size cr then cr_realloc cr (cr_len cr + 2) else Some (cr, False)"
  have "\<exists>cr' err. ?r = Some (cr', err) \<and> cr_wf cr' \<and> cr_live cr' = cr_live cr \<and> cr_len cr' = cr_len cr \<and>
    cr_realloc_func cr' = cr_realloc_func cr \<and> cr_size cr' \<le> 2 * n \<and> (\<not> err \<longrightarrow> cr_len cr + 2 \<le> cr_size cr') \<and>
    (alloc_always (cr_realloc_func cr) \<longrightarrow> \<not> err)"
  proof (cases "cr_size cr < cr_len cr + 2")
    case True
    then have "max (cr_size cr) (max (cr_len cr + 2) (cr_size cr * 3 div 2)) \<le> 2 * n" using assms(3) by simp
    then show ?thesis using True cr_realloc_ok [OF assms(1,2) sz, of "cr_len cr + 2"] by fastforce
  next
    case False
    then show ?thesis using assms(1,4) by (intro exI [of _ cr] exI [of _ False]) simp
  qed
  then obtain cr' err where r: "?r = Some (cr', err)" "cr_wf cr'" "cr_live cr' = cr_live cr" "cr_len cr' = cr_len cr"
    "cr_realloc_func cr' = cr_realloc_func cr" "cr_size cr' \<le> 2 * n" "\<not> err \<longrightarrow> cr_len cr + 2 \<le> cr_size cr'"
    "alloc_always (cr_realloc_func cr) \<longrightarrow> \<not> err" by blast
  show ?thesis
  proof (cases err)
    case True
    then show ?thesis using r unfolding cr_add_interval_def r(1) by (intro exI [of _ cr'] exI [of _ True]) simp
  next
    case False
    then have "cr_len cr + 1 < length (cr_points cr')" using r(2,7) by (simp add: cr_wf_def)
    then show ?thesis using False r unfolding cr_add_interval_def r(1)
      by (auto simp: cr_wf_def cr_live_def take_Suc_conv_app_nth)
  qed
qed

text \<open>Non-empty intervals in increasing order between two codes, and their points.\<close>

fun intervals_in :: "int \<Rightarrow> (int \<times> int) list \<Rightarrow> int \<Rightarrow> bool" where
  "intervals_in lo [] hi = (lo \<le> hi)"
| "intervals_in lo ((a, b) # is) hi = (lo \<le> a \<and> a < b \<and> intervals_in b is hi)"

definition in_intervals :: "(int \<times> int) list \<Rightarrow> int \<Rightarrow> bool" where
  "in_intervals is x \<longleftrightarrow> (\<exists>(a, b) \<in> set is. a \<le> x \<and> x < b)"

definition interval_points :: "(int \<times> int) list \<Rightarrow> u32 list" where
  "interval_points is = concat (map (\<lambda>(a, b). [of_int a, of_int b]) is)"

lemma in_intervals_simps [simp]:
  "\<not> in_intervals [] x"
  "in_intervals ((a, b) # is) x \<longleftrightarrow> a \<le> x \<and> x < b \<or> in_intervals is x"
  "in_intervals (is @ js) x \<longleftrightarrow> in_intervals is x \<or> in_intervals js x"
  by (auto simp: in_intervals_def)

lemma interval_points_simps [simp]:
  "interval_points [] = []"
  "interval_points ((a, b) # is) = of_int a # of_int b # interval_points is"
  by (simp_all add: interval_points_def)

lemma length_interval_points [simp]: "length (interval_points is) = 2 * length is"
  by (induction "is") auto

lemma intervals_in_le: "intervals_in lo is hi \<Longrightarrow> lo + int (length is) \<le> hi"
  by (induction lo "is" hi rule: intervals_in.induct) auto

lemma intervals_in_append: "intervals_in lo is mid \<Longrightarrow> intervals_in mid js hi \<Longrightarrow> intervals_in lo (is @ js) hi"
proof (induction lo "is" mid rule: intervals_in.induct)
  case (1 lo mid)
  then show ?case by (cases js) auto
qed auto

lemma intervals_in_lower: "intervals_in lo is hi \<Longrightarrow> lo' \<le> lo \<Longrightarrow> intervals_in lo' is hi"
  by (cases "is") auto

lemma intervals_in_bound: "intervals_in lo is hi \<Longrightarrow> in_intervals is x \<Longrightarrow> lo \<le> x \<and> x < hi"
proof (induction lo "is" hi rule: intervals_in.induct)
  case (2 lo a b "is" hi)
  then show ?case using intervals_in_le [of b "is" hi] by auto
qed simp

lemma add_intervals_append:
  "add_intervals cr (is @ js) = do { (cr', err) \<leftarrow> add_intervals cr is; if err then Some (cr', True) else add_intervals cr' js }"
proof (induction cr "is" rule: add_intervals.induct)
  case (2 cr a b "is")
  then show ?case by (cases "cr_add_interval cr (of_int a) (of_int b)") auto
qed simp

lemma add_intervals_ok:
  "cr_wf cr \<Longrightarrow> points_alloc (cr_realloc_func cr) \<Longrightarrow> cr_len cr + 2 * length is \<le> n \<Longrightarrow> cr_size cr \<le> 2 * n \<Longrightarrow> n < 2 ^ 28 \<Longrightarrow>
   \<exists>cr' err. add_intervals cr is = Some (cr', err) \<and> cr_wf cr' \<and> cr_realloc_func cr' = cr_realloc_func cr \<and> cr_size cr' \<le> 2 * n \<and>
     (\<not> err \<longrightarrow> cr_live cr' = cr_live cr @ interval_points is) \<and> (alloc_always (cr_realloc_func cr) \<longrightarrow> \<not> err)"
proof (induction cr "is" rule: add_intervals.induct)
  case (2 cr a b "is")
  have "cr_len cr + 2 \<le> n" using "2.prems"(3) by simp
  from cr_add_interval_ok [OF "2.prems"(1,2) this "2.prems"(4,5), of "of_int a" "of_int b"] obtain cr1 e where
    r: "cr_add_interval cr (of_int a) (of_int b) = Some (cr1, e)" "cr_wf cr1" "cr_realloc_func cr1 = cr_realloc_func cr"
      "cr_size cr1 \<le> 2 * n" "\<not> e \<longrightarrow> cr_live cr1 = cr_live cr @ [of_int a, of_int b] \<and> cr_len cr1 = cr_len cr + 2"
      "alloc_always (cr_realloc_func cr) \<longrightarrow> \<not> e" by blast
  show ?case
  proof (cases e)
    case True
    then show ?thesis using r by (intro exI [of _ cr1] exI [of _ True]) simp
  next
    case False
    then show ?thesis using "2.IH" [OF r(1) refl False r(2)] r "2.prems" by (auto simp: r(1))
  qed
qed (intro exI conjI, auto)

lemma of_int_le_u32: "0 \<le> a \<Longrightarrow> a < 2 ^ 32 \<Longrightarrow> (of_int a :: u32) \<le> x \<longleftrightarrow> a \<le> uint x"
  by (simp add: word_le_def uint_word_of_int)

lemma interval_points_set:
  "intervals_in lo is hi \<Longrightarrow> 0 \<le> lo \<Longrightarrow> hi < 2 ^ 32 \<Longrightarrow>
     sorted (interval_points is) \<and> (\<forall>p \<in> set (interval_points is). lo \<le> uint p) \<and>
     (\<forall>x. in_points (interval_points is) x \<longleftrightarrow> in_intervals is (uint x))"
proof (induction lo "is" hi rule: intervals_in.induct)
  case (2 lo a b "is" hi)
  have b: "b < 2 ^ 32" using "2.prems" intervals_in_le [of b "is" hi] by simp
  have ab: "lo \<le> a" "a < b" "0 \<le> b" using "2.prems" by auto
  have ih: "sorted (interval_points is)" "\<And>p. p \<in> set (interval_points is) \<Longrightarrow> b \<le> uint p"
    "\<And>x. in_points (interval_points is) x \<longleftrightarrow> in_intervals is (uint x)" using "2.IH" [OF _ ab(3) "2.prems"(3)] "2.prems"(1) by auto
  have u: "uint (of_int a :: u32) = a" "uint (of_int b :: u32) = b" using ab "2.prems"(2) b by (simp_all add: uint_word_of_int)
  have ge: "(of_int a :: u32) \<le> x \<longleftrightarrow> a \<le> uint x" "(of_int b :: u32) \<le> x \<longleftrightarrow> b \<le> uint x" for x
    using ab "2.prems"(2) b by (simp_all add: of_int_le_u32)
  have srt: "sorted (interval_points ((a, b) # is))" using ih(1,2) ab u by (fastforce simp: ge)
  have "in_points (interval_points ((a, b) # is)) x \<longleftrightarrow> in_intervals ((a, b) # is) (uint x)" for x
    using ih(3) [of x] "2.prems"(1) ab intervals_in_bound [of b "is" hi "uint x"] unfolding in_points_def by (auto simp: ge)
  then show ?case using srt ih(2) ab u by fastforce
qed (simp add: in_points_def)

text \<open>
  A range that holds a set of characters, with at most \<open>n\<close> points, and the outcome of building one:
  it fails only if the allocator does.
\<close>

definition holds_set :: "CharRange \<Rightarrow> points_realloc \<Rightarrow> nat \<Rightarrow> (int \<Rightarrow> bool) \<Rightarrow> bool" where
  "holds_set cr realloc n S \<longleftrightarrow> cr_wf cr \<and> cr_realloc_func cr = realloc \<and> cr_size cr \<le> 2 * n \<and> cr_len cr \<le> n \<and>
     sorted (cr_live cr) \<and> even (cr_len cr) \<and> (\<forall>x. in_points (cr_live cr) x \<longleftrightarrow> S (uint x))"

definition builds :: "cr_result \<Rightarrow> points_realloc \<Rightarrow> nat \<Rightarrow> (int \<Rightarrow> bool) \<Rightarrow> bool" where
  "builds r realloc n S \<longleftrightarrow> (\<exists>cr err. r = Some (cr, err) \<and> cr_wf cr \<and>
     (if err then \<not> alloc_always realloc else holds_set cr realloc n S))"

lemma builds_cong: "builds r realloc n S \<Longrightarrow> (\<And>x. 0 \<le> x \<Longrightarrow> x < 2 ^ 32 \<Longrightarrow> S x \<longleftrightarrow> S' x) \<Longrightarrow> builds r realloc n S'"
proof -
  assume b: "builds r realloc n S" and S: "\<And>x. 0 \<le> x \<Longrightarrow> x < 2 ^ 32 \<Longrightarrow> S x \<longleftrightarrow> S' x"
  have "S (uint x) \<longleftrightarrow> S' (uint x)" for x :: u32 using uint_lt2p [of x] by (intro S) auto
  then have "holds_set cr realloc n S \<longleftrightarrow> holds_set cr realloc n S'" for cr by (simp add: holds_set_def)
  then show ?thesis using b unfolding builds_def by metis
qed

definition cr_empty :: "CharRange \<Rightarrow> bool" where
  "cr_empty cr \<longleftrightarrow> cr_wf cr \<and> cr_len cr = 0 \<and> cr_size cr = 0"

lemma cr_empty_fresh [simp]: "cr_empty (cr_fresh cr)" "cr_realloc_func (cr_fresh cr) = cr_realloc_func cr"
  by (simp_all add: cr_empty_def cr_fresh_def cr_init_def cr_wf_def)

lemma add_intervals_builds:
  assumes "intervals_in lo is hi" and "0 \<le> lo" and "hi < 2 ^ 26" and "cr_empty cr" and "points_alloc (cr_realloc_func cr)"
    and "2 * length is \<le> n" and "n < 2 ^ 28"
  shows "builds (add_intervals cr is) (cr_realloc_func cr) n (in_intervals is)"
proof -
  have "cr_wf cr" "cr_len cr + 2 * length is \<le> n" "cr_size cr \<le> 2 * n" and live: "cr_live cr = []"
    using assms(4,6) by (simp_all add: cr_empty_def cr_live_def)
  from add_intervals_ok [OF this(1) assms(5) this(2,3) assms(7)] obtain cr' err where
    r: "add_intervals cr is = Some (cr', err)" "cr_wf cr'" "cr_realloc_func cr' = cr_realloc_func cr" "cr_size cr' \<le> 2 * n"
      "\<not> err \<longrightarrow> cr_live cr' = interval_points is" "alloc_always (cr_realloc_func cr) \<longrightarrow> \<not> err" unfolding live by auto
  have "cr_len cr' = length (cr_live cr')" using r(2) by (simp add: cr_live_def cr_wf_def)
  moreover have "hi < 2 ^ 32" using assms(3) by simp
  ultimately show ?thesis using r assms(6) interval_points_set [OF assms(1,2)] 
    unfolding builds_def holds_set_def by (intro exI [of _ cr'] exI [of _ err]) auto
qed

lemma add_one_interval: "add_intervals cr [(a, b)] = cr_add_interval cr (of_int a) (of_int b)"
  by (cases "cr_add_interval cr (of_int a) (of_int b)") auto

text \<open>Every second code of an interval.\<close>

function alternates :: "int \<Rightarrow> int \<Rightarrow> (int \<times> int) list" where
  "alternates a b = (if a < b then (a, a + 1) # alternates (a + 2) b else [])"
  by pat_completeness auto
termination by (relation "measure (\<lambda>(a, b). nat (b - a))") auto

declare alternates.simps [simp del]

lemma add_alternate_intervals: "add_alternate cr a b = add_intervals cr (alternates a b)"
proof (induction a b arbitrary: cr rule: alternates.induct)
  case (1 a b)
  then show ?case by (simp add: add_alternate.simps [of cr] alternates.simps [of a] cong: if_cong)
qed

lemma alternates_in: "a \<le> b \<Longrightarrow> intervals_in a (alternates a b) b"
proof (induction a b rule: alternates.induct)
  case (1 a b)
  show ?case
  proof (cases "a + 2 \<le> b")
    case True
    then show ?thesis using 1 by (auto simp: alternates.simps [of a] intro: intervals_in_lower)
  next
    case False
    then show ?thesis using "1.prems" by (simp add: alternates.simps [of a] alternates.simps [of "a + 2"])
  qed
qed

lemma alternates_odd: "odd (b - a) \<Longrightarrow> alternates a (b + 1) = alternates a b"
proof (induction a b rule: alternates.induct)
  case (1 a b)
  show ?case
  proof (cases "a < b")
    case True
    then show ?thesis using "1.IH" "1.prems" by (subst (1 2) alternates.simps) simp
  next
    case False
    then have "\<not> a < b + 1" using "1.prems" by presburger
    then show ?thesis using False by (simp add: alternates.simps)
  qed
qed

lemma in_alternates: "in_intervals (alternates a b) x \<longleftrightarrow> a \<le> x \<and> x < b \<and> even (x - a)"
proof (induction a b rule: alternates.induct)
  case (1 a b)
  then show ?case by (subst alternates.simps) (auto, presburger+)
qed

section \<open>Masks\<close>

lemma drop_bit_and_1: "drop_bit n (w :: u32) AND 1 \<noteq> 0 \<longleftrightarrow> bit w n"
  by (simp add: and_one_eq bit_iff_odd_drop_bit odd_iff_mod_2_eq_one)

lemma bit_M: "bit (M ids) n \<longleftrightarrow> n \<in> set ids \<and> n < 32"
  by (induction ids) (auto simp: M_def bit_simps)

lemma mask_test: "gc_mask AND M ids \<noteq> 0 \<longleftrightarrow> (\<exists>n \<in> set ids. bit gc_mask n)"
  using bit_imp_le_length [of gc_mask] by (auto simp: bit_eq_iff bit_simps bit_M)

lemma mask_all: "\<forall>n \<in> set ids. n < 32 \<Longrightarrow> gc_mask AND M ids = M ids \<longleftrightarrow> (\<forall>n \<in> set ids. bit gc_mask n)"
  by (auto simp: bit_eq_iff bit_simps bit_M)

section \<open>Tables of runs\<close>

text \<open>
  The runs of a table from a code: first code, code after the last, and value.  \<open>run_at\<close> is the value
  of the run that holds a code, with the start of the run.
\<close>

partial_function (option) decode_runs :: "(int list \<Rightarrow> (int \<times> 'v \<times> int list) option) \<Rightarrow> int list \<Rightarrow> int \<Rightarrow> (int \<times> int \<times> 'v) list option" where
  "decode_runs run p c =
     (if p = [] then Some []
      else do {
        (n, v, q) \<leftarrow> run p;
        rs \<leftarrow> decode_runs run q (c + n + 1);
        Some ((c, c + n + 1, v) # rs)
      })"

declare decode_runs.simps [code]

fun runs_cover :: "int \<Rightarrow> (int \<times> int \<times> 'v) list \<Rightarrow> int \<Rightarrow> bool" where
  "runs_cover lo [] hi = (lo = hi)"
| "runs_cover lo ((a, b, v) # rs) hi = (a = lo \<and> a < b \<and> runs_cover b rs hi)"

fun run_at :: "(int \<times> int \<times> 'v) list \<Rightarrow> int \<Rightarrow> (int \<times> 'v) option" where
  "run_at [] x = None"
| "run_at ((a, b, v) # rs) x = (if a \<le> x \<and> x < b then Some (a, v) else run_at rs x)"

lemma runs_cover_le: "runs_cover lo rs hi \<Longrightarrow> lo \<le> hi"
  by (induction lo rs hi rule: runs_cover.induct) auto

lemma run_at_Some: "runs_cover lo rs hi \<Longrightarrow> (\<exists>a v. run_at rs x = Some (a, v)) \<longleftrightarrow> lo \<le> x \<and> x < hi"
proof (induction lo rs hi rule: runs_cover.induct)
  case (2 lo a b v rs hi)
  then show ?case using runs_cover_le [of b rs hi] by auto
qed auto

text \<open>The number of codes that a piece of a table covers, and that of several pieces.\<close>

partial_function (option) piece_codes :: "(int list \<Rightarrow> (int \<times> 'v \<times> int list) option) \<Rightarrow> int list \<Rightarrow> int option" where
  "piece_codes run p =
     (if p = [] then Some 0
      else do {
        (n, v, q) \<leftarrow> run p;
        k \<leftarrow> piece_codes run q;
        if 0 \<le> n then Some (n + 1 + k) else None
      })"

declare piece_codes.simps [code]

fun total_codes :: "int option list \<Rightarrow> int option" where
  "total_codes [] = Some 0"
| "total_codes (None # ks) = None"
| "total_codes (Some k # ks) = map_option (\<lambda>t. k + t) (total_codes ks)"

lemma runs_cover_append: "runs_cover lo rs mid \<Longrightarrow> runs_cover mid rs' hi \<Longrightarrow> runs_cover lo (rs @ rs') hi"
  by (induction lo rs mid rule: runs_cover.induct) auto

text \<open>The contract of a decoder: what follows a run does not change how it is read.\<close>

locale run_decoder =
  fixes run :: "int list \<Rightarrow> (int \<times> 'v \<times> int list) option"
  assumes run_append: "run p = Some (n, v, q) \<Longrightarrow> run (p @ r) = Some (n, v, q @ r)"
begin

lemma piece_codes_decode:
  "piece_codes run' p = Some k \<Longrightarrow> run' = run \<Longrightarrow>
     \<exists>rs. runs_cover c rs (c + k) \<and> (\<forall>r rs'. decode_runs run r (c + k) = Some rs' \<longrightarrow> decode_runs run (p @ r) c = Some (rs @ rs'))"
proof (induction arbitrary: c rule: piece_codes.raw_induct [rotated, consumes 1, case_names 1])
  case (1 pc run' p k)
  show ?case
  proof (cases "p = []")
    case True
    then show ?thesis using "1.hyps" by (intro exI [of _ "[]"]) simp
  next
    case False
    then obtain n v q k' where r: "run p = Some (n, v, q)" "pc run q = Some k'" "0 \<le> n" "k = n + 1 + k'"
      using "1.hyps" "1.prems" by (auto simp: bind_eq_Some_conv split: if_splits)
    from "1.IH" [OF r(2) refl, of "c + n + 1"] obtain rs where
      rs: "runs_cover (c + n + 1) rs (c + k)" "\<And>r rs'. decode_runs run r (c + k) = Some rs' \<Longrightarrow> decode_runs run (q @ r) (c + n + 1) = Some (rs @ rs')"
      using r(4) by (auto simp: algebra_simps)
    have "decode_runs run (p @ r) c = Some (((c, c + n + 1, v) # rs) @ rs')" if "decode_runs run r (c + k) = Some rs'" for r rs'
      using False rs(2) [OF that] run_append [OF r(1), of r] by (subst decode_runs.simps) simp
    then show ?thesis using rs(1) r(3) by (intro exI [of _ "(c, c + n + 1, v) # rs"]) auto
  qed
qed

lemma total_codes_decode:
  "total_codes (map (piece_codes run) ps) = Some k \<Longrightarrow> \<exists>rs. decode_runs run (concat ps) c = Some rs \<and> runs_cover c rs (c + k)"
proof (induction ps arbitrary: c k)
  case Nil
  then show ?case by (simp add: decode_runs.simps)
next
  case (Cons p ps)
  then obtain k1 k2 where k: "piece_codes run p = Some k1" "total_codes (map (piece_codes run) ps) = Some k2" "k = k1 + k2"
    by (cases "piece_codes run p") auto
  from piece_codes_decode [OF k(1) refl, of c] Cons.IH [OF k(2), of "c + k1"] runs_cover_append show ?case
    by (fastforce simp: k(3) add.assoc)
qed

lemma table_decode:
  "tab = concat ps \<Longrightarrow> total_codes (map (piece_codes run) ps) = Some hi \<Longrightarrow> \<exists>rs. decode_runs run tab 0 = Some rs \<and> runs_cover 0 rs hi"
  using total_codes_decode [of ps hi 0] by simp

end

text \<open>The contract of a loop that adds pieces of the runs of a table to a range.\<close>

locale run_table = run_decoder run
  for run :: "int list \<Rightarrow> (int \<times> 'v \<times> int list) option" +
  fixes pieces :: "'p \<Rightarrow> int \<Rightarrow> int \<Rightarrow> 'v \<Rightarrow> (int \<times> int) list"
    and loop :: "'p \<Rightarrow> int list \<Rightarrow> int \<Rightarrow> CharRange \<Rightarrow> cr_result"
    and selected :: "'p \<Rightarrow> int \<Rightarrow> 'v \<Rightarrow> int \<Rightarrow> bool"
  assumes loop_run: "loop par p c cr = (if p = [] then Some (cr, False) else do {
      (n, v, q) \<leftarrow> run p;
      (cr', err) \<leftarrow> add_intervals cr (pieces par c (c + n + 1) v);
      if err then Some (cr', True) else loop par q (c + n + 1) cr'
    })"
    and pieces_in: "a < b \<Longrightarrow> intervals_in a (pieces par a b v) b"
    and pieces_selected: "a \<le> x \<Longrightarrow> x < b \<Longrightarrow> in_intervals (pieces par a b v) x \<longleftrightarrow> selected par a v x"
begin

definition all_pieces :: "'p \<Rightarrow> (int \<times> int \<times> 'v) list \<Rightarrow> (int \<times> int) list" where
  "all_pieces par rs = concat (map (\<lambda>(a, b, v). pieces par a b v) rs)"

lemma loop_add_intervals: "decode_runs run p c = Some rs \<Longrightarrow> loop par p c cr = add_intervals cr (all_pieces par rs)"
proof (induction rs arbitrary: p c cr)
  case Nil
  then show ?case by (subst (asm) decode_runs.simps) (auto simp: loop_run [of par p] all_pieces_def bind_eq_Some_conv split: if_splits)
next
  case (Cons r rs)
  from Cons.prems obtain n v q where "p \<noteq> []" "run p = Some (n, v, q)" "decode_runs run q (c + n + 1) = Some rs" "r = (c, c + n + 1, v)"
    by (subst (asm) decode_runs.simps) (auto simp: bind_eq_Some_conv split: if_splits)
  then show ?case using Cons.IH [of q "c + n + 1"] loop_run [of par p c cr]
    by (simp add: all_pieces_def add_intervals_append cong: if_cong)
qed

lemma all_pieces_in: "runs_cover lo rs hi \<Longrightarrow> intervals_in lo (all_pieces par rs) hi"
proof (induction lo rs hi rule: runs_cover.induct)
  case (2 lo a b v rs hi)
  then show ?case using pieces_in [of a b par v] intervals_in_append [of a "pieces par a b v" b] by (simp add: all_pieces_def)
qed (simp add: all_pieces_def)

lemma all_pieces_selected:
  "runs_cover lo rs hi \<Longrightarrow> in_intervals (all_pieces par rs) x \<longleftrightarrow> (\<exists>a v. run_at rs x = Some (a, v) \<and> selected par a v x)"
proof (induction lo rs hi rule: runs_cover.induct)
  case (2 lo a b v rs hi)
  have p: "in_intervals (pieces par a b v) x \<longleftrightarrow> a \<le> x \<and> x < b \<and> selected par a v x"
    using pieces_in [of a b par v] intervals_in_bound [of a "pieces par a b v" b x] pieces_selected [of a x b par v] "2.prems" by auto
  have "\<not> in_intervals (all_pieces par rs) x" if "x < b"
    using that all_pieces_in [of b rs hi par] intervals_in_bound [of b "all_pieces par rs" hi x] "2.prems" by auto
  then show ?case using p 2 by (auto simp: all_pieces_def)
qed (simp add: all_pieces_def)

theorem loop_builds:
  assumes "decode_runs run p 0 = Some rs" and "runs_cover 0 rs hi" and "hi < 2 ^ 26" and "cr_empty cr"
    and "points_alloc (cr_realloc_func cr)" and "2 * nat hi \<le> n" and "n < 2 ^ 28"
  shows "builds (loop par p 0 cr) (cr_realloc_func cr) n (\<lambda>x. \<exists>a v. run_at rs x = Some (a, v) \<and> selected par a v x)"
proof -
  note i = all_pieces_in [OF assms(2), of par]
  have "2 * length (all_pieces par rs) \<le> n" using intervals_in_le [OF i] assms(6) by simp
  from add_intervals_builds [OF i _ assms(3,4,5) this assms(7)] show ?thesis
    using loop_add_intervals [OF assms(1)] all_pieces_selected [OF assms(2), of par] by (auto intro: builds_cong)
qed

end

end
