(* ===== verification/Unicode_Case_Sets.thy ===== *)
theory Unicode_Case_Sets
  imports Unicode_Intervals
begin

unbundle bit_operations_syntax

text \<open>
  The characters changed by case conversion: \<open>unicode_case1\<close> reads them off the runs of the table
  without converting any, and they are those that \<open>lre_case_conv\<close> changes.
\<close>

section \<open>The intervals of a run\<close>

definition case_pieces :: "u32 \<Rightarrow> int \<Rightarrow> (int \<times> int) list" where
  "case_pieces m v = (
     let type = run_type v; code = run_code v; len = run_len v; u = bit m 0; both = (u \<and> (bit m 1 \<or> bit m 2)) in
     if \<not> bit (case_run_mask m) (nat type) then []
     else if type = RUN_TYPE_UL \<and> \<not> both then if u then alternates (code + 1) (code + 1 + len) else alternates code (code + len)
     else if type = RUN_TYPE_LSU \<and> \<not> both then if u then [(code + 1, code + 2), (code + 2, code + 3)] else [(code, code + 1), (code + 1, code + 2)]
     else [(code, code + len)])"

lemma case_mask_bits: "m AND CASE_U \<noteq> 0 \<longleftrightarrow> bit m 0" "m AND (CASE_L OR CASE_F) \<noteq> 0 \<longleftrightarrow> bit m 1 \<or> bit m 2"
proof -
  have "M [0] = 1" "M [1, 2] = 2 OR 4" by (simp_all add: M_def)
  then show "m AND CASE_U \<noteq> 0 \<longleftrightarrow> bit m 0" "m AND (CASE_L OR CASE_F) \<noteq> 0 \<longleftrightarrow> bit m 1 \<or> bit m 2"
    using mask_test [of m "[0]"] mask_test [of m "[1, 2]"] by simp_all
qed

lemma case1_loop_intervals:
  "case1_loop (case_run_mask m) m vs cr = add_intervals cr (concat (map (case_pieces m) vs))"
proof (induction vs arbitrary: cr)
  case (Cons v vs)
  have "(if drop_bit (nat (run_type v)) (case_run_mask m) AND 1 \<noteq> 0
      then case1_run m (run_type v) (run_code v) (run_len v) cr else Some (cr, False)) = add_intervals cr (case_pieces m v)"
    unfolding drop_bit_and_1 unfolding case_pieces_def case1_run_def case_mask_bits Let_def
    by (simp add: add_one_interval add_alternate_intervals del: add_intervals.simps(2))
  then show ?case using Cons.IH by (simp add: add_intervals_append cong: if_cong)
qed simp

section \<open>What the runs do\<close>

lemma bit_MR: "bit (MR ts) n \<longleftrightarrow> n \<in> nat ` set ts \<and> n < 32"
  by (induction ts) (auto simp: MR_def bit_simps)

lemma bit_case_run_mask:
  "bit (case_run_mask m) n \<longleftrightarrow> bit m 0 \<and> n \<in> {0, 2, 4, 5, 6, 7, 8, 9, 11, 13} \<or> bit m 1 \<and> n \<in> {1, 3, 4, 5, 6, 10, 12} \<or>
     bit m 2 \<and> n \<in> {2, 3, 4, 5, 6, 7, 8, 10}"
  unfolding case_run_mask_def drop_bit_and_1 by (auto simp: upt_rec tab_run_mask_def bit_MR bit_simps numeral_2_eq_2)

text \<open>
  What is relied on of the entry with number \<open>i\<close> so that every character of its run is changed.  An
  entry that maps to a run does not map to its own.
\<close>

definition moves :: "int \<Rightarrow> int \<Rightarrow> int \<Rightarrow> bool" where
  "moves i v t2 \<longleftrightarrow> (
     let data = v mod 0x10 * 2 ^ 8 + t2; type = run_type v; code = run_code v; len = run_len v in
     if type < 4 then data \<noteq> i
     else if type = 4 then even len
     else if type = 5 then len = 3
     else if type = 6 then case_conv_ext ! nat (data mod 0x40) \<noteq> code
     else if type = 7 then len = 1 \<and> data \<noteq> code \<and> data + 0x20 \<noteq> code
     else if type = 8 then len = 1 \<and> case_conv_ext ! nat data \<noteq> code \<and> case_conv_ext ! nat data + 1 \<noteq> code
     else if type = 9 \<or> type = 10 then len = 1 \<and> case_conv_ext ! nat data \<noteq> code
     else type \<le> 13)"

fun all_move :: "int \<Rightarrow> (int \<times> int) list \<Rightarrow> bool" where
  "all_move i [] = True"
| "all_move i ((v, t2) # es) = (moves i v t2 \<and> all_move (i + 1) es)"

lemma case_table_moves: "all_move 0 (zip case_conv_table1 case_conv_table2)"
  unfolding case_conv_table1_def case_conv_table2_def
  by (simp add: moves_def run_type_def run_code_def run_len_def Let_def) (simp add: case_conv_ext_def)

lemma all_move_nth: "all_move i es \<Longrightarrow> j < length es \<Longrightarrow> moves (i + int j) (fst (es ! j)) (snd (es ! j))"
proof (induction i es arbitrary: j rule: all_move.induct)
  case (2 i v t2 es)
  then show ?case by (cases j) (auto simp: add.assoc)
qed simp

text \<open>Whether a run of a type changes its character number \<open>a\<close> in a conversion.\<close>

definition changes :: "int \<Rightarrow> int \<Rightarrow> int \<Rightarrow> bool" where
  "changes type k a \<longleftrightarrow>
     (if type = RUN_TYPE_UL then if k = 0 then odd a else even a
      else if type = RUN_TYPE_LSU then a = 1 \<or> (if k = 0 then a = 2 else a = 0)
      else if k = 0 then type \<in> {0, 2, 6, 7, 8, 9, 11, 13}
      else if k = 1 then type \<in> {1, 3, 6, 10, 12} else type \<in> {2, 3, 6, 7, 8, 10})"

lemma u32w_shift: "0 \<le> c - code \<Longrightarrow> c - code < 128 \<Longrightarrow> 0 \<le> e \<Longrightarrow> e < 2 ^ 17 \<Longrightarrow> u32w (c - code + e) = c - code + e"
  by (simp add: u32w_def)

lemma case_switch_changes:
  assumes k: "k \<in> {0, 1, 2}" and a: "0 \<le> c - code" "c - code < len" "len < 128" "0 \<le> code" "code < 2 ^ 17" and type: "0 \<le> type" "type \<le> 13"
    and t0: "type < 4 \<Longrightarrow> \<exists>w. rd_int case_conv_table1 data = Some w \<and> run_code w \<noteq> code \<and> 0 \<le> run_code w \<and> run_code w < 2 ^ 17"
    and t5: "type = 5 \<Longrightarrow> len = 3"
    and t6: "type = 6 \<Longrightarrow> \<exists>e f. rd_int case_conv_ext (data mod 0x40) = Some e \<and> e \<noteq> code \<and> 0 \<le> e \<and> e < 2 ^ 17 \<and> rd_int case_conv_ext (data div 2 ^ 6) = Some f"
    and t7: "type = 7 \<Longrightarrow> len = 1 \<and> data \<noteq> code \<and> data + 0x20 \<noteq> code"
    and t8: "type = 8 \<Longrightarrow> len = 1 \<and> (\<exists>e. rd_int case_conv_ext data = Some e \<and> e \<noteq> code \<and> e + 1 \<noteq> code)"
    and t9: "type = 9 \<or> type = 10 \<Longrightarrow> len = 1 \<and> (\<exists>e. rd_int case_conv_ext data = Some e \<and> e \<noteq> code)"
  shows "case_switch c k code type data \<noteq> Some [c] \<longleftrightarrow> changes type k (c - code)"
proof -
  note un = case_switch_def [of c k code type data, unfolded Let_def] changes_def
  consider "type \<in> {0, 1, 2, 3}" | "type = 4" | "type = 5" | "type = 6" | "type = 7" | "type = 8" | "type = 9 \<or> type = 10"
    | "type = 11 \<or> type = 12" | "type = 13"
  proof -
    have "type = 0 \<or> type = 1 \<or> type = 2 \<or> type = 3 \<or> type = 4 \<or> type = 5 \<or> type = 6 \<or> type = 7 \<or> type = 8 \<or>
      (type = 9 \<or> type = 10) \<or> (type = 11 \<or> type = 12) \<or> type = 13" using type by presburger
    then show thesis using that by blast
  qed
  then show ?thesis
  proof cases
    case 1
    then obtain w where w: "rd_int T1 data = Some w" "run_code w \<noteq> code" "0 \<le> run_code w" "run_code w < 2 ^ 17" using t0 by auto
    then have "u32w (c - code + run_code w) \<noteq> c" using a u32w_shift [of c code "run_code w"] by simp
    with w(1) 1 k show ?thesis unfolding un by (elim insertE emptyE; hypsubst) simp_all
  next
    case 2
    then show ?thesis using k unfolding un by (auto simp: even_iff_mod_2_eq_zero odd_iff_mod_2_eq_one split: if_splits)
  next
    case 3
    then have "c - code = 0 \<or> c - code = 1 \<or> c - code = 2" using t5 a by auto
    then show ?thesis using 3 k a(4,5) unfolding un u32w_def by auto
  next
    case 4
    then show ?thesis using k a t6 u32w_shift [of c code] unfolding un by auto
  next
    case 5
    then show ?thesis using k a t7 unfolding un by auto
  next
    case 6
    then show ?thesis using k a t8 unfolding un by auto
  next
    case 7
    then show ?thesis using k a t9 unfolding un by auto
  next
    case 8
    then show ?thesis using k unfolding un by (auto simp: bind_eq_Some_conv)
  next
    case 9
    then show ?thesis using k unfolding un by (auto simp: bind_eq_Some_conv)
  qed
qed

lemma entry_code: "entry_ok (v, t) \<Longrightarrow> 0 \<le> run_code v \<and> run_code v < 2 ^ 17"
  by (auto simp: entry_ok_def run_code_def Let_def)

lemma case_apply_changes:
  assumes i: "i < 361" and run: "in_run c (T1 ! i)" and k: "k \<in> {0, 1, 2}"
  shows "case_apply c k (int i) \<noteq> Some [c] \<longleftrightarrow> changes (run_type (T1 ! i)) k (c - run_code (T1 ! i))"
proof -
  let ?v = "T1 ! i" and ?t = "case_conv_table2 ! i"
  let ?d = "?v mod 16 * 256 + ?t"
  have e: "entry_ok (?v, ?t)" using case_table_entries i by (simp add: list_all_length case_table_lengths)
  have m: "moves (int i) ?v ?t" using all_move_nth [OF case_table_moves, of i] i by (simp add: case_table_lengths)
  have b: "0 \<le> ?v" "?v < 2 ^ 32" "0 \<le> ?t" "?t < 256" using e by (auto simp: entry_ok_def Let_def)
  have d: "0 \<le> ?d" "?d < 4096" "0 \<le> run_type ?v" "0 \<le> run_code ?v" "run_code ?v < 2 ^ 17" "run_len ?v < 128"
    using b by (auto simp: run_type_def run_code_def run_len_def)
  have type: "run_type ?v \<le> 13" using m by (auto simp: moves_def Let_def split: if_splits)
  have "case_apply c k (int i) = case_switch c k (run_code ?v) (run_type ?v) ?d"
    using i by (simp add: case_apply_def case_table_lengths)
  also have "\<dots> \<noteq> Some [c] \<longleftrightarrow> changes (run_type ?v) k (c - run_code ?v)"
  proof (rule case_switch_changes [OF k, where len = "run_len ?v"])
    show "0 \<le> c - run_code ?v" "c - run_code ?v < run_len ?v" using run by (auto simp: in_run_def)
    show "\<exists>w. rd_int T1 ?d = Some w \<and> run_code w \<noteq> run_code ?v \<and> 0 \<le> run_code w \<and> run_code w < 2 ^ 17" if "run_type ?v < 4"
    proof -
      have n: "?d < 361" "?d \<noteq> int i" using that e m by (auto simp: entry_ok_def moves_def Let_def)
      let ?w = "T1 ! nat ?d"
      have "entry_ok (?w, case_conv_table2 ! nat ?d)" using case_table_entries n d(1) by (simp add: list_all_length case_table_lengths)
      then have "0 \<le> run_code ?w" "run_code ?w < 2 ^ 17" using entry_code by blast+
      moreover have "run_code ?w \<noteq> run_code ?v"
      proof
        assume "run_code ?w = run_code ?v"
        moreover have "0 < run_len ?w" "0 < run_len ?v" using runs_ok_nth [OF case_table_runs] n d(1) i by (auto simp: case_table_lengths)
        ultimately have "in_run (run_code ?v) ?w" "in_run (run_code ?v) ?v" by (auto simp: in_run_def)
        then have "nat ?d = i" using in_run_unique n d(1) i by simp
        then show False using n(2) d(1) by simp
      qed
      ultimately show ?thesis using rd_T1 n d(1) by blast
    qed
    show "\<exists>e f. rd_int case_conv_ext (?d mod 64) = Some e \<and> e \<noteq> run_code ?v \<and> 0 \<le> e \<and> e < 2 ^ 17 \<and> rd_int case_conv_ext (?d div 2 ^ 6) = Some f"
      if "run_type ?v = 6"
    proof -
      have n: "?d div 64 < 58" "?d mod 64 < 58" "case_conv_ext ! nat (?d mod 64) \<noteq> run_code ?v" using that e m by (auto simp: entry_ok_def moves_def Let_def)
      have "0 \<le> ?d div 64" "0 \<le> ?d mod 64" using d(1) by (simp_all add: pos_imp_zdiv_nonneg_iff)
      then obtain e f where "rd_int case_conv_ext (?d mod 64) = Some e" "0 \<le> e" "e < 2 ^ 16" "rd_int case_conv_ext (?d div 64) = Some f"
        using rd_ext [OF _ n(1)] rd_ext [OF _ n(2)] by blast
      then show ?thesis using n(3) by (auto simp: rd_int_def rd_def split: if_splits)
    qed
    show "run_len ?v = 1 \<and> (\<exists>e. rd_int case_conv_ext ?d = Some e \<and> e \<noteq> run_code ?v \<and> e + 1 \<noteq> run_code ?v)" if "run_type ?v = 8"
      using that e m d(1) rd_ext [of ?d] by (auto simp: entry_ok_def moves_def Let_def rd_int_def rd_def split: if_splits)
    show "run_len ?v = 1 \<and> (\<exists>e. rd_int case_conv_ext ?d = Some e \<and> e \<noteq> run_code ?v)" if "run_type ?v = 9 \<or> run_type ?v = 10"
    proof -
      have "?d < 58 \<and> run_len ?v = 1 \<and> case_conv_ext ! nat ?d \<noteq> run_code ?v"
        using that e m by (elim disjE) (simp_all add: entry_ok_def moves_def Let_def)
      then show ?thesis using d(1) by (simp add: rd_int_def rd_def case_table_lengths nat_less_iff)
    qed
  qed (use d type m in \<open>auto simp: moves_def Let_def\<close>)
  finally show ?thesis .
qed

text \<open>The intervals of a run are the characters it changes.\<close>

lemma case_pieces_changes:
  assumes "in_run c v" and "run_type v = 4 \<Longrightarrow> even (run_len v)" and "run_type v = 5 \<Longrightarrow> run_len v = 3" and "0 \<le> run_type v" "run_type v \<le> 13"
  shows "in_intervals (case_pieces m v) c \<longleftrightarrow> (\<exists>k \<in> {0, 1, 2}. bit m (nat k) \<and> changes (run_type v) k (c - run_code v))"
proof -
  define a where "a = c - run_code v"
  have a: "c = run_code v + a" "0 \<le> a" "a < run_len v" using assms(1) by (auto simp: a_def in_run_def)
  have t: "run_type v = 0 \<or> run_type v = 1 \<or> run_type v = 2 \<or> run_type v = 3 \<or> run_type v = 4 \<or> run_type v = 5 \<or> run_type v = 6 \<or>
    run_type v = 7 \<or> run_type v = 8 \<or> run_type v = 9 \<or> run_type v = 10 \<or> run_type v = 11 \<or> run_type v = 12 \<or> run_type v = 13"
    using assms(4,5) by presburger
  show ?thesis
  proof (cases "run_type v = 4 \<or> run_type v = 5")
    case True
    then show ?thesis using a assms(2,3)
      by (cases "a = 0") (auto simp: case_pieces_def Let_def bit_case_run_mask changes_def in_alternates simp flip: a_def split: if_splits)
  next
    case False
    then have "in_intervals (case_pieces m v) c \<longleftrightarrow> bit (case_run_mask m) (nat (run_type v))"
      using a by (simp add: case_pieces_def Let_def)
    with t False show ?thesis by (elim disjE) (simp_all add: bit_case_run_mask changes_def)
  qed
qed

section \<open>The whole table\<close>

definition changed_set :: "u32 \<Rightarrow> int \<Rightarrow> bool" where
  "changed_set m c \<longleftrightarrow> (\<exists>k \<in> {0, 1, 2}. bit m (nat k) \<and> lre_case_conv c k \<noteq> Some [c])"

lemma case_pieces_in: "0 < run_len v \<Longrightarrow> (run_type v = 4 \<Longrightarrow> even (run_len v)) \<Longrightarrow> (run_type v = 5 \<Longrightarrow> run_len v = 3) \<Longrightarrow>
  intervals_in (run_code v) (case_pieces m v) (run_code v + run_len v)"
proof -
  assume l: "0 < run_len v" and 4: "run_type v = 4 \<Longrightarrow> even (run_len v)" and 5: "run_type v = 5 \<Longrightarrow> run_len v = 3"
  have "intervals_in (run_code v + 1) (alternates (run_code v + 1) (run_code v + 1 + run_len v)) (run_code v + run_len v)" if "even (run_len v)"
    using alternates_in [of "run_code v + 1" "run_code v + run_len v"] l that
      alternates_odd [of "run_code v + run_len v" "run_code v + 1"] by (simp add: algebra_simps)
  then show ?thesis using l 4 5 alternates_in [of "run_code v" "run_code v + run_len v"]
    by (auto simp: case_pieces_def Let_def intro: intervals_in_lower)
qed

definition run_shape :: "int \<Rightarrow> bool" where
  "run_shape v \<longleftrightarrow> (run_type v = 4 \<longrightarrow> even (run_len v)) \<and> (run_type v = 5 \<longrightarrow> run_len v = 3) \<and> 0 \<le> run_type v \<and> run_type v \<le> 13"

lemma case_all_pieces_in:
  "runs_ok k vs \<Longrightarrow> \<forall>v \<in> set vs. run_shape v \<and> run_code v + run_len v \<le> hi \<Longrightarrow> k \<le> hi \<Longrightarrow> intervals_in k (concat (map (case_pieces m) vs)) hi"
proof (induction k vs rule: runs_ok.induct)
  case (2 k v vs)
  then have "intervals_in (run_code v) (case_pieces m v) (run_code v + run_len v)"
    "intervals_in (run_code v + run_len v) (concat (map (case_pieces m) vs)) hi"
    using case_pieces_in [of v m] by (auto simp: run_shape_def)
  then show ?case using 2(2) by (auto intro: intervals_in_lower intervals_in_append)
qed simp

lemma in_case_pieces:
  "runs_ok k vs \<Longrightarrow> \<forall>v \<in> set vs. run_shape v \<Longrightarrow>
     in_intervals (concat (map (case_pieces m) vs)) c \<longleftrightarrow> (\<exists>v \<in> set vs. in_run c v \<and> in_intervals (case_pieces m v) c)"
proof (induction k vs rule: runs_ok.induct)
  case (2 k v vs)
  have "in_run c v" if "in_intervals (case_pieces m v) c"
    using that case_pieces_in [of v m] intervals_in_bound [OF _ that] 2(2,3) by (auto simp: run_shape_def in_run_def)
  then show ?case using 2 by auto
qed simp

lemma case_table_shape: "v \<in> set T1 \<Longrightarrow> run_shape v \<and> run_code v + run_len v \<le> 0x110000"
proof -
  assume "v \<in> set T1"
  then obtain i where i: "i < 361" "v = T1 ! i" by (auto simp: in_set_conv_nth case_table_lengths)
  have m: "moves (int i) v (case_conv_table2 ! i)" using all_move_nth [OF case_table_moves, of i] i by (simp add: case_table_lengths)
  have e: "entry_ok (v, case_conv_table2 ! i)" using case_table_entries i by (simp add: list_all_length case_table_lengths)
  have "0 \<le> run_type v" "run_len v < 128" using e by (auto simp: run_type_def run_len_def)
  then show ?thesis using m entry_code [OF e] by (auto simp: moves_def run_shape_def Let_def split: if_splits)
qed

lemma case_table_in: "intervals_in 0 (concat (map (case_pieces m) T1)) 0x110000"
  using case_table_shape by (intro case_all_pieces_in [OF case_table_runs]) auto

text \<open>The shortcut for ASCII letters agrees with the first two runs.\<close>

lemma ascii_runs: "T1 = 0x209a30 # 0x309a00 # 0x5a8173 # drop 3 T1"
  by (simp add: case_conv_table1_def)

lemma other_runs: "runs_ok 182 (drop 3 T1)"
  using case_table_runs by (subst (asm) ascii_runs) (simp add: run_code_def run_len_def)

lemma runs_ok_ge: "runs_ok k vs \<Longrightarrow> v \<in> set vs \<Longrightarrow> k \<le> run_code v"
  by (auto simp: in_set_conv_nth dest: runs_ok_nth)

lemma in_ascii_run: "c < 128 \<Longrightarrow> v \<in> set T1 \<Longrightarrow> in_run c v \<Longrightarrow> v = 0x209a30 \<or> v = 0x309a00"
  using runs_ok_ge [OF other_runs, of v] by (subst (asm) ascii_runs) (auto simp: in_run_def run_code_def)

lemma case_pieces_table: "v \<in> set T1 \<Longrightarrow> in_run c v \<Longrightarrow>
  in_intervals (case_pieces m v) c \<longleftrightarrow> (\<exists>k \<in> {0, 1, 2}. bit m (nat k) \<and> changes (run_type v) k (c - run_code v))"
  using case_table_shape [of v] by (intro case_pieces_changes) (auto simp: run_shape_def)

lemma case_pieces_changed:
  assumes "0 \<le> c"
  shows "in_intervals (concat (map (case_pieces m) T1)) c \<longleftrightarrow> changed_set m c"
proof -
  have L: "in_intervals (concat (map (case_pieces m) T1)) c \<longleftrightarrow> (\<exists>v \<in> set T1. in_run c v \<and> in_intervals (case_pieces m v) c)"
    using in_case_pieces [OF case_table_runs] case_table_shape by blast
  show ?thesis
  proof (cases "c < 128")
    case True
    have m: "0x209a30 \<in> set T1" "0x309a00 \<in> set T1" by (subst ascii_runs, simp)+
    have r: "in_run c 0x209a30 \<longleftrightarrow> 0x41 \<le> c \<and> c \<le> 0x5a" "in_run c 0x309a00 \<longleftrightarrow> 0x61 \<le> c \<and> c \<le> 0x7a" "run_type 0x209a30 = 3" "run_type 0x309a00 = 0"
      by (auto simp: in_run_def run_code_def run_len_def run_type_def)
    have "in_run c 0x209a30 \<Longrightarrow> in_intervals (case_pieces m 0x209a30) c \<longleftrightarrow> bit m 1 \<or> bit m 2"
      "in_run c 0x309a00 \<Longrightarrow> in_intervals (case_pieces m 0x309a00) c \<longleftrightarrow> bit m 0"
      using case_pieces_table [OF m(1), of c m] case_pieces_table [OF m(2), of c m] by (simp_all add: r(3,4) changes_def)
    then have "(\<exists>v \<in> set T1. in_run c v \<and> in_intervals (case_pieces m v) c) \<longleftrightarrow>
      in_run c 0x209a30 \<and> (bit m 1 \<or> bit m 2) \<or> in_run c 0x309a00 \<and> bit m 0"
      using in_ascii_run [OF True] m by blast
    then show ?thesis unfolding L r(1,2) using True by (auto simp: changed_set_def lre_case_conv_def)
  next
    case False
    show ?thesis
    proof (cases "case_lookup c")
      case None
      then have "\<not> in_run c v" if "v \<in> set T1" for v using that by (auto simp: case_lookup_def find_None_iff in_set_conv_nth)
      then show ?thesis using None False unfolding L by (simp add: changed_set_def lre_case_conv_def case_search_lookup)
    next
      case (Some i)
      then have i: "i < 361" "in_run c (T1 ! i)" by (auto simp: case_lookup_def find_Some_iff case_table_lengths)
      have "v = T1 ! i" if "v \<in> set T1" "in_run c v" for v
        using that in_run_unique i by (auto simp: in_set_conv_nth case_table_lengths)
      then have "(\<exists>v \<in> set T1. in_run c v \<and> in_intervals (case_pieces m v) c) \<longleftrightarrow> in_intervals (case_pieces m (T1 ! i)) c"
        using i by (metis case_table_lengths(1) nth_mem)
      also have "\<dots> \<longleftrightarrow> (\<exists>k \<in> {0, 1, 2}. bit m (nat k) \<and> case_apply c k (int i) \<noteq> Some [c])"
        using case_pieces_table [of "T1 ! i" c m] case_apply_changes [OF i] i(1) i(2) by (simp add: case_table_lengths)
      finally show ?thesis unfolding L using Some False by (simp add: changed_set_def lre_case_conv_def case_search_lookup)
    qed
  qed
qed

lemma unicode_case1_builds:
  assumes "cr_empty cr" and "points_alloc (cr_realloc_func cr)"
  shows "builds (unicode_case1 cr m) (cr_realloc_func cr) 0x220000 (changed_set m)"
proof -
  have "unicode_case1 cr m = add_intervals cr (concat (map (case_pieces m) T1))"
  proof (cases "m = 0")
    case True
    then have "case_pieces m v = []" for v by (simp add: case_pieces_def bit_case_run_mask)
    then have none: "concat (map (case_pieces m) T1) = []" by (simp only: concat_eq_Nil_conv) auto
    show ?thesis unfolding none using True by (simp add: unicode_case1_def)
  qed (simp add: unicode_case1_def case1_loop_intervals)
  moreover have "2 * length (concat (map (case_pieces m) T1)) \<le> 0x220000" using intervals_in_le [OF case_table_in, of m] by simp
  ultimately have "builds (unicode_case1 cr m) (cr_realloc_func cr) 0x220000 (in_intervals (concat (map (case_pieces m) T1)))"
    using add_intervals_builds [OF case_table_in _ _ assms] by simp
  then show ?thesis using case_pieces_changed by (auto intro: builds_cong)
qed

text \<open>
  C27. The set of characters changed by case conversion is read off the packed runs without converting
  a character, and it is exact: for any mask of conversions the range built holds a character exactly
  when \<open>lre_case_conv\<close> changes it for one of them.  The tables are not left, and it fails only if the
  allocator does.
\<close>

theorem unicode_case1_changed:
  assumes "cr_empty cr" and "points_alloc (cr_realloc_func cr)"
  shows "\<exists>cr' err. unicode_case1 cr case_mask = Some (cr', err) \<and> cr_wf cr' \<and>
    (if err then \<not> alloc_always (cr_realloc_func cr)
     else sorted (cr_live cr') \<and> even (cr_len cr') \<and>
       (\<forall>x. in_points (cr_live cr') x \<longleftrightarrow> changed_set case_mask (uint x)))"
proof -
  from unicode_case1_builds [OF assms, of case_mask] obtain cr' err where
    "unicode_case1 cr case_mask = Some (cr', err)" "cr_wf cr'"
    "if err then \<not> alloc_always (cr_realloc_func cr) else holds_set cr' (cr_realloc_func cr) 0x220000 (changed_set case_mask)"
    unfolding builds_def by blast
  then show ?thesis by (intro exI [of _ cr'] exI [of _ err]) (auto simp: holds_set_def)
qed

theorem unicode_case1_changed_witness:
  "\<exists>cr' err. unicode_case1 (cr_init test_realloc (Some test_realloc)) CASE_L = Some (cr', err) \<and> cr_wf cr'"
  using unicode_case1_changed [of "cr_init test_realloc (Some test_realloc)" CASE_L] test_realloc_ok
  by (auto simp: cr_empty_def cr_init_def cr_wf_def)

end
