(* ===== verification/Unicode_Names.thy ===== *)
theory Unicode_Names
  imports Unicode_Sets
begin

text \<open>
  The tables of names: \<open>unicode_find_name\<close> on a list of entries, each a comma separated list of
  aliases, finds the first entry that has the name among its aliases.
\<close>

function aliases :: "string \<Rightarrow> string list" where
  "aliases s = (let s1 = takeWhile (\<lambda>x. x \<noteq> CHR '','') s in
     if CHR '','' \<in> set s then s1 # aliases (drop (length s1 + 1) s) else [s1])"
  by pat_completeness auto
termination by (relation "measure length") (auto simp: length_pos_if_in_set intro!: diff_less)

declare aliases.simps [simp del]

fun name_pos :: "string list \<Rightarrow> string \<Rightarrow> int \<Rightarrow> int" where
  "name_pos [] name i = - 1"
| "name_pos (s # ss) name i = (if name \<in> set (aliases s) then i else name_pos ss name (i + 1))"

definition entry_name :: "string \<Rightarrow> bool" where
  "entry_name s \<longleftrightarrow> s \<noteq> [] \<and> CHR 0x00 \<notin> set s"

lemma takeWhile_neq_less: "x \<in> set s \<Longrightarrow> length (takeWhile (\<lambda>y. y \<noteq> x) s) < length s"
  by (induction s) auto

lemma find_alias_entry:
  "CHR 0x00 \<notin> set s \<Longrightarrow> (if name \<in> set (aliases s) then \<exists>q. find_alias (s @ CHR 0x00 # rest) name = Some (True, q)
     else find_alias (s @ CHR 0x00 # rest) name = Some (False, rest))"
proof (induction s rule: aliases.induct)
  case (1 s)
  let ?s1 = "takeWhile (\<lambda>x. x \<noteq> CHR '','') s" and ?p = "s @ CHR 0x00 # rest"
  let ?t = "drop (length ?s1 + 1) s"
  have cs: "c_string ?p = Some s" using "1.prems" by (auto simp: c_string_def takeWhile_append)
  have hit: "length ?s1 = length name \<and> take (length ?s1) ?p = name \<longleftrightarrow> name = ?s1"
  proof -
    have "?p = ?s1 @ (dropWhile (\<lambda>x. x \<noteq> CHR '','') s @ CHR 0x00 # rest)" by (metis append.assoc takeWhile_dropWhile_id)
    then have "take (length ?s1) ?p = ?s1" by (metis append_eq_conv_conj)
    then show ?thesis by auto
  qed
  show ?case
  proof (cases "CHR '','' \<in> set s")
    case True
    have "length ?s1 < length s" using takeWhile_neq_less [OF True] .
    then have d: "drop (length ?s1 + 1) ?p = ?t @ CHR 0x00 # rest" by simp
    have "find_alias ?p name = (if name = ?s1 then Some (True, ?p) else find_alias (?t @ CHR 0x00 # rest) name)"
      using True unfolding find_alias.simps [of ?p] cs Option.bind.simps Let_def hit d by simp
    moreover have "aliases s = ?s1 # aliases ?t" using True by (subst aliases.simps) (simp add: Let_def)
    moreover have "CHR 0x00 \<notin> set ?t" using "1.prems" by (auto dest: in_set_dropD)
    ultimately show ?thesis using "1.IH" [OF refl True] by (cases "name = ?s1") auto
  next
    case False
    then have s1: "?s1 = s" by auto
    have "find_alias ?p name = (if name = s then Some (True, ?p) else Some (False, rest))"
      using False unfolding find_alias.simps [of ?p] cs Option.bind.simps Let_def hit unfolding s1 by simp
    moreover have "aliases s = [s]" using False s1 by (subst aliases.simps) (simp add: Let_def)
    ultimately show ?thesis by auto
  qed
qed

lemma find_entry_loop_entries:
  "\<forall>s \<in> set ss. entry_name s \<Longrightarrow> find_entry_loop (zero_terminated ss) name i = Some (name_pos ss name i)"
proof (induction ss arbitrary: i)
  case Nil
  then show ?case by (simp add: zero_terminated_def find_entry_loop.simps)
next
  case (Cons s ss)
  obtain c s' where s: "s = c # s'" "c \<noteq> CHR 0x00" "CHR 0x00 \<notin> set s" using Cons.prems by (cases s) (auto simp: entry_name_def)
  have "zero_terminated (s # ss) = s @ CHR 0x00 # zero_terminated ss" by (simp add: zero_terminated_def)
  then show ?case using find_alias_entry [OF s(3), of name "zero_terminated ss"] s(1,2) Cons.IH [of "i + 1"] Cons.prems
    by (subst find_entry_loop.simps) (auto split: if_splits)
qed

lemma name_pos_range: "name_pos ss name i = - 1 \<or> i \<le> name_pos ss name i \<and> name_pos ss name i < i + int (length ss)"
proof (induction ss arbitrary: i)
  case (Cons s ss)
  from Cons.IH [of "i + 1"] show ?case by auto
qed simp

definition entries_ok :: "string list \<Rightarrow> nat \<Rightarrow> bool" where
  "entries_ok names n \<longleftrightarrow> list_all (\<lambda>s. s \<noteq> [] \<and> list_all (\<lambda>c. c \<noteq> CHR 0x00) s) names \<and> length names = n"

lemma gc_names: "\<exists>names. unicode_gc_name_table = zero_terminated names \<and> entries_ok names 38"
  unfolding unicode_gc_name_table_def by (rule exI, rule conjI, rule refl) code_simp

lemma script_names: "\<exists>names. unicode_script_name_table = zero_terminated names \<and> entries_ok names 156"
  unfolding unicode_script_name_table_def by (rule exI, rule conjI, rule refl) code_simp

lemma prop_names: "\<exists>names. unicode_prop_name_table = zero_terminated names \<and> entries_ok names 53"
  unfolding unicode_prop_name_table_def by (rule exI, rule conjI, rule refl) code_simp

text \<open>
  Looking a name up in a table of names (entries that end in a zero byte, each a comma separated
  list of aliases, closed by an empty entry) stays inside the table and returns the number of the
  first entry that has the name among its aliases, and -1 if no entry has it.
\<close>

theorem unicode_find_name_first:
  assumes "\<forall>s \<in> set names. entry_name s"
  shows "unicode_find_name (zero_terminated names) name = Some (name_pos names name 0)"
  using find_entry_loop_entries [OF assms] by (simp add: unicode_find_name_def)

theorem unicode_find_name_first_witness:
  "unicode_find_name (zero_terminated [''Zl,Line_Separator'', ''Cf,Format'', ''Cs,Surrogate'']) ''Format'' = Some 1"
  using unicode_find_name_first [of "[''Zl,Line_Separator'', ''Cf,Format'', ''Cs,Surrogate'']" "''Format''"]
  by (simp add: entry_name_def aliases.simps)

end
