(* ===== verification/Unicode_Norm.thy ===== *)
theory Unicode_Norm
  imports Unicode_Table Unicode_Norm_Data Dyn_Buf
begin

unbundle bit_operations_syntax

text \<open>
  Unicode normalization (\<open>unicode_normalize\<close> of \<^verbatim>\<open>libunicode.c\<close>): decomposition of characters,
  canonical ordering by combining class, and composition of pairs.

  Characters are integers below \<open>2\<^sup>3\<^sup>2\<close>.  \<open>None\<close> is a read outside a table or an array, a write outside
  an array, or the use of an uninitialised entry.  The or of disjoint bits is a sum.
\<close>

section \<open>Decomposition\<close>

abbreviation (input) "DECOMP_TYPE_C1 \<equiv> 0 :: int"
abbreviation (input) "DECOMP_TYPE_L1 \<equiv> 1 :: int"
abbreviation (input) "DECOMP_TYPE_L7 \<equiv> 7 :: int"
abbreviation (input) "DECOMP_TYPE_LL1 \<equiv> 8 :: int"
abbreviation (input) "DECOMP_TYPE_LL2 \<equiv> 9 :: int"
abbreviation (input) "DECOMP_TYPE_S1 \<equiv> 10 :: int"
abbreviation (input) "DECOMP_TYPE_S5 \<equiv> 14 :: int"
abbreviation (input) "DECOMP_TYPE_I1 \<equiv> 15 :: int"
abbreviation (input) "DECOMP_TYPE_I2_0 \<equiv> 16 :: int"
abbreviation (input) "DECOMP_TYPE_I4_2 \<equiv> 21 :: int"
abbreviation (input) "DECOMP_TYPE_B1 \<equiv> 22 :: int"
abbreviation (input) "DECOMP_TYPE_B8 \<equiv> 29 :: int"
abbreviation (input) "DECOMP_TYPE_B18 \<equiv> 30 :: int"
abbreviation (input) "DECOMP_TYPE_LS2 \<equiv> 31 :: int"
abbreviation (input) "DECOMP_TYPE_PAT3 \<equiv> 32 :: int"
abbreviation (input) "DECOMP_TYPE_S2_UL \<equiv> 33 :: int"
abbreviation (input) "DECOMP_TYPE_LS2_UL \<equiv> 34 :: int"

definition unicode_get_short_code :: "int \<Rightarrow> int option" where
  "unicode_get_short_code c =
     (if c < 0x80 then Some c
      else if c < 0x80 + 0x50 then Some (c - 0x80 + 0x300)
      else rd_int [0x2044, 0x2215] (c - 0x80 - 0x50))"

definition unicode_get_lower_simple :: "int \<Rightarrow> int" where
  "unicode_get_lower_simple c = (if c < 0x100 \<or> c \<ge> 0x410 \<and> c \<le> 0x42f then c + 0x20 else c + 1)"

text \<open>Reads at an offset of the decomposition data.\<close>

definition decomp_byte :: "int \<Rightarrow> int option" where
  "decomp_byte d = rd_int unicode_decomp_data d"

definition unicode_get16 :: "int \<Rightarrow> int option" where
  "unicode_get16 d = do { a \<leftarrow> decomp_byte d; b \<leftarrow> decomp_byte (d + 1); Some (a + b * 2 ^ 8) }"

text \<open>
  The loops of \<open>unicode_decomp_entry\<close> that store \<open>n\<close> characters from number \<open>i\<close> on and return 0 at a zero:
  the characters stored and whether no zero was met.
\<close>

fun store_until_zero :: "(int \<Rightarrow> int option) \<Rightarrow> bool \<Rightarrow> int \<Rightarrow> nat \<Rightarrow> (int list \<times> bool) option" where
  "store_until_zero get store_zero i 0 = Some ([], True)"
| "store_until_zero get store_zero i (Suc n) = do {
     c \<leftarrow> get i;
     if c = 0 then Some (if store_zero then [c] else [], False)
     else do { (cs, ok) \<leftarrow> store_until_zero get store_zero (i + 1) n; Some (c # cs, ok) }
   }"

fun store_all :: "(int \<Rightarrow> int option) \<Rightarrow> int \<Rightarrow> nat \<Rightarrow> int list option" where
  "store_all get i 0 = Some []"
| "store_all get i (Suc n) = do { c \<leftarrow> get i; cs \<leftarrow> store_all get (i + 1) n; Some (c # cs) }"

text \<open>A character of 18 bits: the low 16, and two more at bit \<open>2 (k mod 4)\<close> of a byte.\<close>

definition get18 :: "int \<Rightarrow> int \<Rightarrow> int \<Rightarrow> int option" where
  "get18 d p k = do {
     lo \<leftarrow> unicode_get16 (d + 2 * k);
     hi \<leftarrow> decomp_byte (d + p + k div 4);
     Some (lo + hi div 2 ^ nat (k mod 4 * 2) mod 4 * 2 ^ 16)
   }"

definition base_offset :: "int \<Rightarrow> int \<Rightarrow> int \<Rightarrow> int option" where
  "base_offset c_min d i = do { c1 \<leftarrow> decomp_byte (d + i); Some (if c1 = 0xff then 0x20 else c1 + c_min) }"

text \<open>The entries of \<open>res\<close> that were written, and the value returned.\<close>

definition all_or_zero :: "(int list \<times> bool) option \<Rightarrow> int \<Rightarrow> (int list \<times> int) option" where
  "all_or_zero r l = do { (res, ok) \<leftarrow> r; Some (res, if ok then l else 0) }"

definition whole :: "int list option \<Rightarrow> int \<Rightarrow> (int list \<times> int) option" where
  "whole r l = do { res \<leftarrow> r; Some (res, l) }"

definition decomp_i :: "int \<Rightarrow> int \<Rightarrow> int \<Rightarrow> int \<Rightarrow> int \<Rightarrow> (int list \<times> int) option" where
  "decomp_i d c code l p = whole (store_all (\<lambda>i. do {
     c1 \<leftarrow> unicode_get16 (d + 2 * i);
     Some (if i = p then c1 + (c - code) else c1)
   }) 0 (nat l)) l"

definition decomp_b :: "int \<Rightarrow> int \<Rightarrow> int \<Rightarrow> int \<Rightarrow> (int list \<times> int) option" where
  "decomp_b d c code l = do {
     c_min \<leftarrow> unicode_get16 d;
     whole (store_all (base_offset c_min (d + (2 + (c - code) * l))) 0 (nat l)) l
   }"

definition decomp_ul :: "int \<Rightarrow> int \<Rightarrow> int \<Rightarrow> bool \<Rightarrow> (int list \<times> int) option" where
  "decomp_ul d c code short = do {
     let c1 = c - code;
     (c, d) \<leftarrow> (if short then do {
         b \<leftarrow> decomp_byte (d + c1 div 2 * 2);
         c \<leftarrow> unicode_get_short_code b;
         Some (c, d + c1 div 2 * 2 + 1)
       }
       else do {
         c \<leftarrow> unicode_get16 (d + c1 div 2 * 3);
         Some (c, d + c1 div 2 * 3 + 2)
       });
     b \<leftarrow> decomp_byte d;
     r1 \<leftarrow> unicode_get_short_code b;
     Some ([if c1 mod 2 \<noteq> 0 then unicode_get_lower_simple c else c, r1], 2)
   }"

definition unicode_decomp_entry :: "int \<Rightarrow> int \<Rightarrow> int \<Rightarrow> int \<Rightarrow> int \<Rightarrow> (int list \<times> int) option" where
  "unicode_decomp_entry c idx code len type = do {
     t2 \<leftarrow> rd_int unicode_decomp_table2 idx;
     if type = DECOMP_TYPE_C1 then Some ([t2], 1)
     else
       let d = t2; k = c - code in
       if DECOMP_TYPE_L1 \<le> type \<and> type \<le> DECOMP_TYPE_L7
       then let l = type - DECOMP_TYPE_L1 + 1 in
         all_or_zero (store_until_zero (\<lambda>i. unicode_get16 (d + k * l * 2 + 2 * i)) True 0 (nat l)) l
       else if type = DECOMP_TYPE_LL1 \<or> type = DECOMP_TYPE_LL2
       then let l = type - DECOMP_TYPE_LL1 + 1 in
         all_or_zero (store_until_zero (\<lambda>i. get18 d (len * l * 2) (k * l + i)) False 0 (nat l)) l
       else if DECOMP_TYPE_S1 \<le> type \<and> type \<le> DECOMP_TYPE_S5
       then let l = type - DECOMP_TYPE_S1 + 1 in
         all_or_zero (store_until_zero (\<lambda>i. do { b \<leftarrow> decomp_byte (d + k * l + i); unicode_get_short_code b }) True 0 (nat l)) l
       else if type = DECOMP_TYPE_I1 then decomp_i d c code 1 0
       else if DECOMP_TYPE_I2_0 \<le> type \<and> type \<le> DECOMP_TYPE_I4_2
       then let l = 2 + (type - DECOMP_TYPE_I2_0) div 2 in
         decomp_i d c code l ((type - DECOMP_TYPE_I2_0) mod 2 + (if l > 2 then 1 else 0))
       else if type = DECOMP_TYPE_B18 then decomp_b d c code 18
       else if DECOMP_TYPE_B1 \<le> type \<and> type \<le> DECOMP_TYPE_B8 then decomp_b d c code (type - DECOMP_TYPE_B1 + 1)
       else if type = DECOMP_TYPE_LS2 then do {
         r0 \<leftarrow> unicode_get16 (d + k * 3);
         if r0 = 0 then Some ([r0], 0)
         else do {
           b \<leftarrow> decomp_byte (d + k * 3 + 2);
           r1 \<leftarrow> unicode_get_short_code b;
           Some ([r0, r1], 2)
         }
       }
       else if type = DECOMP_TYPE_PAT3 then do {
         r0 \<leftarrow> unicode_get16 d;
         r2 \<leftarrow> unicode_get16 (d + 2);
         r1 \<leftarrow> unicode_get16 (d + (4 + k * 2));
         Some ([r0, r1, r2], 3)
       }
       else if type = DECOMP_TYPE_S2_UL then decomp_ul d c code True
       else if type = DECOMP_TYPE_LS2_UL then decomp_ul d c code False
       else Some ([], 0)
   }"

text \<open>The fields of an entry of \<^verbatim>\<open>unicode_decomp_table1\<close>, and the binary search.\<close>

definition dc_code :: "int \<Rightarrow> int" where "dc_code v = v div 2 ^ (32 - 18)"
definition dc_len :: "int \<Rightarrow> int" where "dc_len v = v div 2 ^ (32 - 18 - 7) mod 0x80"
definition dc_type :: "int \<Rightarrow> int" where "dc_type v = v div 2 ^ (32 - 18 - 7 - 6) mod 0x40"

function decomp_search :: "int \<Rightarrow> bool \<Rightarrow> int \<Rightarrow> int \<Rightarrow> (int list \<times> int) option" where
  "decomp_search c is_compat1 idx_min idx_max =
     (if idx_min \<le> idx_max
      then do {
        let idx = (idx_max + idx_min) div 2;
        v \<leftarrow> rd_int unicode_decomp_table1 idx;
        if c < dc_code v then decomp_search c is_compat1 idx_min (idx - 1)
        else if c \<ge> dc_code v + dc_len v then decomp_search c is_compat1 (idx + 1) idx_max
        else if \<not> is_compat1 \<and> v mod 2 = 1 then Some ([], 0)
        else unicode_decomp_entry c idx (dc_code v) (dc_len v) (dc_type v)
      }
      else Some ([], 0))"
  by pat_completeness auto
termination by (relation "measure (\<lambda>(c, k, lo, hi). nat (hi - lo + 1))") auto

definition UNICODE_DECOMP_LEN_MAX :: nat where "UNICODE_DECOMP_LEN_MAX = 18"

definition unicode_decomp_char :: "int \<Rightarrow> bool \<Rightarrow> (int list \<times> int) option" where
  "unicode_decomp_char c is_compat1 = decomp_search c is_compat1 0 (int (length unicode_decomp_table1) - 1)"

section \<open>Composition\<close>

definition s32 :: "int \<Rightarrow> int" where "s32 x = (x + 2 ^ 31) mod 2 ^ 32 - 2 ^ 31"

function compose_search :: "int \<Rightarrow> int \<Rightarrow> int \<Rightarrow> int \<Rightarrow> int option" where
  "compose_search c0 c1 idx_min idx_max =
     (if idx_min \<le> idx_max
      then do {
        let idx = (idx_max + idx_min) div 2;
        idx1 \<leftarrow> rd_int unicode_comp_table idx;
        let d_idx = idx1 div 2 ^ 6;
        let d_offset = idx1 mod 0x40;
        v \<leftarrow> rd_int unicode_decomp_table1 d_idx;
        let ch = dc_code v + d_offset;
        (pair, l) \<leftarrow> unicode_decomp_entry ch d_idx (dc_code v) (dc_len v) (dc_type v);
        if length pair \<le> 2 then do {
          p0 \<leftarrow> rd pair 0;
          d \<leftarrow> (if s32 (c0 - p0) = 0 then do { p1 \<leftarrow> rd pair 1; Some (s32 (c1 - p1)) } else Some (s32 (c0 - p0)));
          if d < 0 then compose_search c0 c1 idx_min (idx - 1)
          else if d > 0 then compose_search c0 c1 (idx + 1) idx_max
          else Some ch
        }
        else None
      }
      else Some 0)"
  by pat_completeness auto
termination by (relation "measure (\<lambda>(c0, c1, lo, hi). nat (hi - lo + 1))") auto

declare decomp_search.simps [simp del] compose_search.simps [simp del]

definition unicode_compose_pair :: "int \<Rightarrow> int \<Rightarrow> int option" where
  "unicode_compose_pair c0 c1 = compose_search c0 c1 0 (int (length unicode_comp_table) - 1)"

definition compose_pair :: "int \<Rightarrow> int \<Rightarrow> int option" where
  "compose_pair c0 c1 =
     (if c0 \<ge> 0x1100 \<and> c0 < 0x1100 + 19 \<and> c1 \<ge> 0x1161 \<and> c1 < 0x1161 + 21
      then Some (0xac00 + (c0 - 0x1100) * 588 + (c1 - 0x1161) * 28)
      else if c0 \<ge> 0xac00 \<and> c0 < 0xac00 + 11172 \<and> (c0 - 0xac00) mod 28 = 0 \<and> c1 \<ge> 0x11a7 \<and> c1 < 0x11a7 + 28
      then Some (c0 + c1 - 0x11a7)
      else unicode_compose_pair c0 c1)"

section \<open>Combining classes\<close>

text \<open>A run of the table: its length, its type, the byte of types 0 and 1, and the rest of the table.\<close>

definition cc_run_length :: "int \<Rightarrow> int list \<Rightarrow> (int \<times> int list) option" where
  "cc_run_length n p =
     (if n < 48 then Some (n, p)
      else if n < 56 then (case p of b0 # p \<Rightarrow> Some ((n - 48) * 2 ^ 8 + b0 + 48, p) | [] \<Rightarrow> None)
      else (case p of b0 # b1 # p \<Rightarrow> Some (((n - 56) * 2 ^ 8 OR b0 * 2 ^ 8) + b1 + (48 + 2 ^ 11), p) | _ \<Rightarrow> None))"

definition cc_run :: "int list \<Rightarrow> (int \<times> (int \<times> int) \<times> int list) option" where
  "cc_run p = (case p of [] \<Rightarrow> None
     | b # p \<Rightarrow> let type = b div 2 ^ 6 in do {
         (n, p) \<leftarrow> cc_run_length (b mod 0x40) p;
         if type \<le> 1 then (case p of v # p \<Rightarrow> Some (n, (type, v), p) | [] \<Rightarrow> None)
         else Some (n, (type, 0), p)
       })"

definition cc_of_run :: "int \<Rightarrow> int \<times> int \<Rightarrow> int \<Rightarrow> int" where
  "cc_of_run code tv c = (case tv of (type, v) \<Rightarrow>
     if type = 0 then v else if type = 1 then v + c - code else if type = 2 then 0 else 230)"

lemma cc_run_length_shorter: "cc_run_length n p = Some (k, q) \<Longrightarrow> length q \<le> length p"
  by (auto simp: cc_run_length_def split: list.splits if_splits)

lemma cc_run_shorter: "cc_run p = Some (n, tv, q) \<Longrightarrow> length q < length p"
proof -
  assume r: "cc_run p = Some (n, tv, q)"
  then obtain b p1 k p2 where p: "p = b # p1" "cc_run_length (b mod 0x40) p1 = Some (k, p2)"
    by (cases p) (auto simp: cc_run_def Let_def bind_eq_Some_conv)
  then show ?thesis using r cc_run_length_shorter [OF p(2)] by (cases p2) (auto simp: cc_run_def Let_def split: if_splits)
qed

function cc_loop :: "int list \<Rightarrow> int \<Rightarrow> int \<Rightarrow> int option" where
  "cc_loop p code c = do {
     (n, tv, q) \<leftarrow> cc_run p;
     let c1 = code + n + 1;
     if c < c1 then Some (cc_of_run code tv c) else cc_loop q c1 c
   }"
  by pat_completeness auto
termination by (relation "measure (\<lambda>(p, code, c). length p)") (auto dest: cc_run_shorter)

declare cc_loop.simps [simp del]

definition unicode_get_cc :: "int \<Rightarrow> int option" where
  "unicode_get_cc c = do {
     r \<leftarrow> get_index_pos c unicode_cc_index (int (length unicode_cc_index) div 3);
     case r of None \<Rightarrow> Some 0 | Some (pos, code) \<Rightarrow> cc_loop (drop (nat pos) unicode_cc_table) code c
   }"

section \<open>Canonical ordering\<close>

text \<open>
  The three loops of \<open>sort_cc\<close>: the shift to the right, the insertions of a run, the runs.  The
  variable \<open>k\<close> of the source is \<open>m - 1\<close>, so that it is never negative.
\<close>

fun shift_cc :: "int list \<Rightarrow> nat \<Rightarrow> int \<Rightarrow> nat \<Rightarrow> (int list \<times> nat) option" where
  "shift_cc buf start cc1 m =
     (if m > start
      then do {
        x \<leftarrow> rd buf (m - 1);
        cc \<leftarrow> unicode_get_cc x;
        if cc \<le> cc1 then Some (buf, m)
        else do { buf \<leftarrow> wr buf m x; shift_cc buf start cc1 (m - 1) }
      }
      else Some (buf, m))"

function insert_cc :: "int list \<Rightarrow> nat \<Rightarrow> nat \<Rightarrow> nat \<Rightarrow> (int list \<times> nat) option" where
  "insert_cc buf len start j =
     (if j < len
      then do {
        ch1 \<leftarrow> rd buf j;
        cc1 \<leftarrow> unicode_get_cc ch1;
        if cc1 = 0 then Some (buf, j)
        else do {
          (buf, m) \<leftarrow> shift_cc buf start cc1 j;
          buf \<leftarrow> wr buf m ch1;
          insert_cc buf len start (j + 1)
        }
      }
      else Some (buf, j))"
  by pat_completeness auto
termination by (relation "measure (\<lambda>(buf, len, start, j). len - j)") auto

declare shift_cc.simps [simp del] insert_cc.simps [simp del]

lemma insert_cc_ge: "insert_cc buf len start j = Some (buf', j') \<Longrightarrow> j \<le> j'"
proof (induction "len - j" arbitrary: buf j rule: less_induct)
  case less
  show ?case
  proof (cases "j < len")
    case True
    from less.prems True consider "j' = j" | b where "insert_cc b len start (j + 1) = Some (buf', j')"
      by (subst (asm) insert_cc.simps) (auto simp: bind_eq_Some_conv split: if_splits)
    then show ?thesis using True less.hyps [of "j + 1"] by cases force+
  next
    case False
    then show ?thesis using less.prems by (simp add: insert_cc.simps)
  qed
qed

function sort_cc_loop :: "int list \<Rightarrow> nat \<Rightarrow> nat \<Rightarrow> int list option" where
  "sort_cc_loop buf len i =
     (if i < len
      then do {
        c \<leftarrow> rd buf i;
        cc \<leftarrow> unicode_get_cc c;
        if cc \<noteq> 0 then do {
          (buf, j) \<leftarrow> insert_cc buf len i (i + 1);
          sort_cc_loop buf len (j + 1)
        }
        else sort_cc_loop buf len (i + 1)
      }
      else Some buf)"
  by pat_completeness auto
termination by (relation "measure (\<lambda>(buf, len, i). len - i)") (auto dest: insert_cc_ge)

declare sort_cc_loop.simps [simp del]

definition sort_cc :: "int list \<Rightarrow> nat \<Rightarrow> int list option" where
  "sort_cc buf len = sort_cc_loop buf len 0"

section \<open>Normalization\<close>

definition put_char :: "DynBuf \<Rightarrow> int \<Rightarrow> DynBuf option" where
  "put_char dbuf c = do { (dbuf, err) \<leftarrow> dbuf_put_u32 dbuf (of_int c); Some dbuf }"

definition put_hangul :: "DynBuf \<Rightarrow> int \<Rightarrow> DynBuf option" where
  "put_hangul dbuf c = do {
     let c = c - 0xac00;
     dbuf \<leftarrow> put_char dbuf (0x1100 + c div 588);
     dbuf \<leftarrow> put_char dbuf (0x1161 + (c mod 588) div 28);
     let v = c mod 28;
     if v \<noteq> 0 then put_char dbuf (0x11a7 + v) else Some dbuf
   }"

text \<open>The recursion is bounded by fuel; \<open>None\<close> is also the end of the fuel.\<close>

fun to_nfd_rec :: "nat \<Rightarrow> DynBuf \<Rightarrow> int list \<Rightarrow> bool \<Rightarrow> DynBuf option" where
  "to_nfd_rec fuel dbuf [] is_compat = Some dbuf"
| "to_nfd_rec fuel dbuf (c # src) is_compat = do {
     dbuf \<leftarrow> (if c \<ge> 0xac00 \<and> c < 0xd7a4 then put_hangul dbuf c
       else do {
         (res, l) \<leftarrow> unicode_decomp_char c is_compat;
         if length res > UNICODE_DECOMP_LEN_MAX then None
         else if l \<noteq> 0 then (case fuel of 0 \<Rightarrow> None | Suc fuel \<Rightarrow> to_nfd_rec fuel dbuf (take (nat l) res) is_compat)
         else put_char dbuf c
       });
     to_nfd_rec fuel dbuf src is_compat
   }"

datatype UnicodeNormalizationEnum = UNICODE_NFC | UNICODE_NFD | UNICODE_NFKC | UNICODE_NFKD

definition is_compat_form :: "UnicodeNormalizationEnum \<Rightarrow> bool" where
  "is_compat_form t \<longleftrightarrow> t = UNICODE_NFKC \<or> t = UNICODE_NFKD"

definition is_decomposed_form :: "UnicodeNormalizationEnum \<Rightarrow> bool" where
  "is_decomposed_form t \<longleftrightarrow> t = UNICODE_NFD \<or> t = UNICODE_NFKD"

text \<open>The buffer read as an array of integers.\<close>

fun le_words :: "byte list \<Rightarrow> int list" where
  "le_words (a # b # c # d # r) = (uint a + uint b * 2 ^ 8 + uint c * 2 ^ 16 + uint d * 2 ^ 24) # le_words r"
| "le_words _ = []"

text \<open>The search for the starter of the character at \<open>i\<close>; \<open>None\<close> inside when it is blocked or there is none.\<close>

fun find_starter :: "int list \<Rightarrow> int \<Rightarrow> nat \<Rightarrow> nat option option" where
  "find_starter buf last_cc 0 = Some None"
| "find_starter buf last_cc (Suc starter_pos) = do {
     x \<leftarrow> rd buf starter_pos;
     cc \<leftarrow> unicode_get_cc x;
     if cc = 0 then Some (Some starter_pos)
     else if cc \<ge> last_cc then Some None
     else find_starter buf 256 starter_pos
   }"

function compose_loop :: "int list \<Rightarrow> nat \<Rightarrow> nat \<Rightarrow> nat \<Rightarrow> int list option" where
  "compose_loop buf buf_len i out_len =
     (if i < buf_len
      then do {
        x \<leftarrow> rd buf i;
        last_cc \<leftarrow> unicode_get_cc x;
        starter \<leftarrow> find_starter buf last_cc out_len;
        r \<leftarrow> (case starter of None \<Rightarrow> Some None
          | Some starter_pos \<Rightarrow> do {
              y \<leftarrow> rd buf starter_pos;
              p \<leftarrow> compose_pair y x;
              Some (if p \<noteq> 0 then Some (starter_pos, p) else None)
            });
        case r of
          Some (starter_pos, p) \<Rightarrow> do { buf \<leftarrow> wr buf starter_pos p; compose_loop buf buf_len (i + 1) out_len }
        | None \<Rightarrow> do { buf \<leftarrow> wr buf out_len x; compose_loop buf buf_len (i + 1) (out_len + 1) }
      }
      else Some (take out_len buf))"
  by pat_completeness auto
termination by (relation "measure (\<lambda>(buf, len, i, out). len - i)") auto

declare compose_loop.simps [simp del]

text \<open>
  The result is the characters written, or \<open>None\<close> inside when it is -1.  \<open>libc_realloc\<close> stands for the
  \<open>realloc\<close> of the C library.
\<close>

definition unicode_normalize ::
    "nat \<Rightarrow> realloc_func \<Rightarrow> realloc_func option \<Rightarrow> int list \<Rightarrow> UnicodeNormalizationEnum \<Rightarrow> int list option option" where
  "unicode_normalize fuel libc_realloc realloc_func src n_type = do {
     (dbuf, err) \<leftarrow> dbuf_realloc (dbuf_init2 libc_realloc realloc_func) (szt (4 * length src));
     if err then Some None
     else if n_type = UNICODE_NFC \<and> list_all (\<lambda>c. c < 0x100) src
     then if 4 * length src \<le> length (dbuf_mem dbuf) then Some (Some src) else None
     else do {
       dbuf \<leftarrow> to_nfd_rec fuel dbuf src (is_compat_form n_type);
       if dbuf_error dbuf then Some None
       else do {
         let buf_len = dbuf_size dbuf div 4;
         buf \<leftarrow> sort_cc (le_words (take (dbuf_size dbuf) (dbuf_mem dbuf))) buf_len;
         if buf_len \<le> 1 \<or> is_decomposed_form n_type then Some (Some (take buf_len buf))
         else do { out \<leftarrow> compose_loop buf buf_len 1 1; Some (Some out) }
       }
     }
   }"

end
