(* ===== verification/Unicode_Order.thy ===== *)
theory Unicode_Order
  imports Unicode_Norm Unicode_Intervals "HOL-Library.Multiset" "HOL-Library.Code_Target_Numeral"
begin

text \<open>
  Combining classes and canonical ordering: the indexed lookup of a combining class is total and
  agrees with a scan of the whole table, and \<open>sort_cc\<close> sorts every run of combining characters by
  class, keeping the order of characters of one class.
\<close>

section \<open>The index\<close>

lemma get_index_pos_ok:
  assumes "2 \<le> length (le24s ind)" and "length ind = 3 * length (le24s ind)" and "hd (le24s ind) mod 2 ^ 21 \<le> last (le24s ind)" and "0 \<le> c"
  shows "if last (le24s ind) \<le> c then get_index_pos c ind (int (length ind) div 3) = Some None
    else \<exists>p k. get_index_pos c ind (int (length ind) div 3) = Some (Some (p, k)) \<and> (p, k) \<in> set ((0, 0) # index_anchors 0 (le24s ind)) \<and> k \<le> c"
proof -
  let ?vs = "le24s ind" and ?n = "length (le24s ind)" and ?L = "last (le24s ind)"
  have n: "int (length ind) div 3 = int ?n" and ne: "?vs \<noteq> []" using assms(1,2) by auto
  have lst: "?vs ! (?n - 1) = ?L" using ne by (subst last_conv_nth) auto
  have g0: "get_le24 ind 0 = Some (?vs ! 0)" using get_le24_nth [of 0 ind] ne by simp
  have gl: "get_le24 ind ((int ?n - 1) * 3) = Some ?L" using get_le24_nth [of "?n - 1" ind] assms(1) lst by (simp add: of_nat_diff)
  show ?thesis
  proof (cases "c < ?vs ! 0 mod 2 ^ 21")
    case True
    then have "\<not> ?L \<le> c" using assms(3) ne by (simp add: hd_conv_nth)
    then show ?thesis using True g0 assms(4) by (simp add: get_index_pos_def Let_def)
  next
    case ge: False
    show ?thesis
    proof (cases "?L \<le> c")
      case True
      then show ?thesis using ge g0 gl n by (simp add: get_index_pos_def Let_def)
    next
      case False
      from index_search_ok [of 0 "int ?n - 1" ind c] ge assms(1) obtain idx where
        idx: "index_search ind c 0 (int ?n - 1) = Some idx" "0 \<le> idx" "idx < int ?n - 1" "?vs ! nat idx mod 2 ^ 21 \<le> c" by auto
      have gi: "get_le24 ind (idx * 3) = Some (?vs ! nat idx)" using get_le24_nth [of "nat idx" ind] idx by simp
      have "((idx + 1) * 32 + ?vs ! nat idx div 2 ^ 21, ?vs ! nat idx mod 2 ^ 21) \<in> set (index_anchors 0 ?vs)"
        using index_anchors_mem [of "nat idx" ?vs 0] idx by simp
      then show ?thesis using g0 gl gi idx(1,4) ge False n by (simp add: get_index_pos_def Let_def UNICODE_INDEX_BLOCK_LEN_def)
    qed
  qed
qed

section \<open>The table of combining classes\<close>

lemma cc_run_length_append: "cc_run_length n p = Some (k, q) \<Longrightarrow> cc_run_length n (p @ r) = Some (k, q @ r)"
  by (cases p rule: remdups_adj.cases) (auto simp: cc_run_length_def split: if_splits)

lemma cc_run_append:
  assumes "cc_run p = Some (n, tv, q)"
  shows "cc_run (p @ r) = Some (n, tv, q @ r)"
proof -
  obtain b p1 k p2 where p: "p = b # p1" "cc_run_length (b mod 0x40) p1 = Some (k, p2)"
    using assms by (cases p) (auto simp: cc_run_def Let_def bind_eq_Some_conv)
  then show ?thesis using assms cc_run_length_append [OF p(2), of r] by (cases p2) (auto simp: cc_run_def Let_def split: if_splits)
qed

interpretation cc_decoder: run_decoder cc_run
  by unfold_locales (rule cc_run_append)

text \<open>The blocks of the index: each starts where the index says, with the code it says.\<close>

fun cc_blocks :: "int list list \<Rightarrow> int \<Rightarrow> int \<Rightarrow> (int \<times> int) list \<Rightarrow> int \<Rightarrow> bool" where
  "cc_blocks [] p code as limit = (as = [] \<and> code = limit)"
| "cc_blocks (blk # blks) p code as limit =
     (case as of [] \<Rightarrow> False
      | a # as' \<Rightarrow> a = (p, code) \<and>
          (case piece_codes cc_run blk of
             None \<Rightarrow> False
           | Some k \<Rightarrow> 0 \<le> k \<and> cc_blocks blks (p + int_length blk) (code + k) as' limit))"

definition cc_anchor :: "int list \<Rightarrow> (int \<times> int \<times> int \<times> int) list \<Rightarrow> int \<Rightarrow> int \<Rightarrow> int \<Rightarrow> bool" where
  "cc_anchor tab rs limit q k \<longleftrightarrow> 0 \<le> q \<and> (\<exists>pre suf. rs = pre @ suf \<and> runs_cover 0 pre k \<and> runs_cover k suf limit \<and>
     decode_runs cc_run (drop (nat q) tab) k = Some suf)"

lemma cc_blocks_anchors:
  "cc_blocks blks p code as limit \<Longrightarrow> 0 \<le> p \<Longrightarrow> runs_cover 0 pre code \<Longrightarrow> drop (nat p) tab = concat blks \<Longrightarrow>
     \<exists>suf. decode_runs cc_run (concat blks) code = Some suf \<and> runs_cover code suf limit \<and>
       (\<forall>(q, k) \<in> set as. cc_anchor tab (pre @ suf) limit q k)"
proof (induction blks arbitrary: p code as pre)
  case Nil
  then show ?case by (simp add: decode_runs.simps)
next
  case (Cons blk blks)
  from Cons.prems(1) obtain as' k where
    c: "as = (p, code) # as'" "piece_codes cc_run blk = Some k" "cc_blocks blks (p + int_length blk) (code + k) as' limit"
    by (auto split: list.splits option.splits)
  from cc_decoder.piece_codes_decode [OF c(2) refl, of code] obtain rs where
    rs: "runs_cover code rs (code + k)" "\<And>r rs'. decode_runs cc_run r (code + k) = Some rs' \<Longrightarrow> decode_runs cc_run (blk @ r) code = Some (rs @ rs')" by blast
  have "drop (nat (p + int_length blk)) tab = drop (length blk) (drop (nat p) tab)"
    using Cons.prems(2) by (simp add: int_length nat_add_distrib add.commute)
  then have "drop (nat (p + int_length blk)) tab = concat blks" using Cons.prems(4) by simp
  from Cons.IH [OF c(3) _ runs_cover_append [OF Cons.prems(3) rs(1)] this] Cons.prems(2) obtain suf where
    suf: "decode_runs cc_run (concat blks) (code + k) = Some suf" "runs_cover (code + k) suf limit"
      "\<forall>(q, k) \<in> set as'. cc_anchor tab ((pre @ rs) @ suf) limit q k" by (auto simp: int_length)
  have "decode_runs cc_run (concat (blk # blks)) code = Some (rs @ suf)" using rs(2) [OF suf(1)] by simp
  moreover have "runs_cover code (rs @ suf) limit" using runs_cover_append [OF rs(1) suf(2)] .
  ultimately show ?case using suf(3) c(1) Cons.prems(2-4) by (intro exI [of _ "rs @ suf"]) (auto simp: cc_anchor_def)
qed

lemma run_at_append: "runs_cover lo pre k \<Longrightarrow> k \<le> c \<Longrightarrow> run_at (pre @ suf) c = run_at suf c"
proof (induction lo pre k rule: runs_cover.induct)
  case (2 lo a b v rs hi)
  then show ?case using runs_cover_le [of b rs hi] by auto
qed simp

lemma cc_loop_runs:
  "decode_runs cc_run p code = Some rs \<Longrightarrow> runs_cover code rs hi \<Longrightarrow> code \<le> c \<Longrightarrow> c < hi \<Longrightarrow>
     \<exists>a tv. run_at rs c = Some (a, tv) \<and> cc_loop p code c = Some (cc_of_run a tv c)"
proof (induction rs arbitrary: p code)
  case (Cons r rs)
  from Cons.prems(1) obtain n v q where r: "p \<noteq> []" "cc_run p = Some (n, v, q)" "decode_runs cc_run q (code + n + 1) = Some rs" "r = (code, code + n + 1, v)"
    by (subst (asm) decode_runs.simps) (auto simp: bind_eq_Some_conv split: if_splits)
  then show ?case using Cons.IH [of q "code + n + 1"] Cons.prems by (cases "c < code + n + 1") (auto simp: cc_loop.simps [of p])
qed simp

text \<open>The combining class of a character, by the run that holds it.\<close>

definition combining_class :: "int \<Rightarrow> int" where
  "combining_class c = (case do { rs \<leftarrow> decode_runs cc_run unicode_cc_table 0; run_at rs c } of
     None \<Rightarrow> 0 | Some (a, tv) \<Rightarrow> cc_of_run a tv c)"

definition is_cc_table :: "int list \<Rightarrow> int list \<Rightarrow> bool" where
  "is_cc_table tab ind \<longleftrightarrow> (\<exists>blks. cc_blocks blks 0 0 ((0, 0) # index_anchors 0 (le24s ind)) (last (le24s ind)) \<and> tab = concat blks)"

lemma cc_table_blocks: "is_cc_table unicode_cc_table unicode_cc_index"
  unfolding is_cc_table_def unicode_cc_table_def by (rule exI, rule conjI [OF _ refl]) code_simp

lemma cc_index_shape: "2 \<le> length (le24s unicode_cc_index)" "length unicode_cc_index = 3 * length (le24s unicode_cc_index)"
  "hd (le24s unicode_cc_index) mod 2 ^ 21 \<le> last (le24s unicode_cc_index)"
  by (simp_all add: unicode_cc_index_def)

lemma cc_runs:
  "\<exists>rs. decode_runs cc_run unicode_cc_table 0 = Some rs \<and> runs_cover 0 rs (last (le24s unicode_cc_index)) \<and>
     (\<forall>(q, k) \<in> set ((0, 0) # index_anchors 0 (le24s unicode_cc_index)). cc_anchor unicode_cc_table rs (last (le24s unicode_cc_index)) q k)"
proof -
  from cc_table_blocks obtain blks where
    b: "cc_blocks blks 0 0 ((0, 0) # index_anchors 0 (le24s unicode_cc_index)) (last (le24s unicode_cc_index))" "unicode_cc_table = concat blks"
    by (auto simp: is_cc_table_def)
  from cc_blocks_anchors [OF b(1), of "[]" unicode_cc_table] b(2) show ?thesis by auto
qed

lemma unicode_get_cc_class: "0 \<le> c \<Longrightarrow> unicode_get_cc c = Some (combining_class c)"
proof -
  assume c: "0 \<le> c"
  let ?L = "last (le24s unicode_cc_index)"
  from cc_runs obtain rs where
    rs: "decode_runs cc_run unicode_cc_table 0 = Some rs" "runs_cover 0 rs ?L"
      "\<forall>(q, k) \<in> set ((0, 0) # index_anchors 0 (le24s unicode_cc_index)). cc_anchor unicode_cc_table rs ?L q k" by blast
  note gp = get_index_pos_ok [OF cc_index_shape c]
  show ?thesis
  proof (cases "?L \<le> c")
    case True
    then have "run_at rs c = None" using run_at_Some [OF rs(2), of c] by (cases "run_at rs c") auto
    then show ?thesis using True gp rs(1) by (simp add: unicode_get_cc_def combining_class_def)
  next
    case False
    with gp obtain p k where pk: "get_index_pos c unicode_cc_index (int (length unicode_cc_index) div 3) = Some (Some (p, k))"
      "(p, k) \<in> set ((0, 0) # index_anchors 0 (le24s unicode_cc_index))" "k \<le> c" by auto
    with rs(3) obtain pre suf where ps: "rs = pre @ suf" "runs_cover 0 pre k" "runs_cover k suf ?L"
      "decode_runs cc_run (drop (nat p) unicode_cc_table) k = Some suf" unfolding cc_anchor_def by blast
    from cc_loop_runs [OF ps(4,3) pk(3)] False obtain a tv where
      "run_at suf c = Some (a, tv)" "cc_loop (drop (nat p) unicode_cc_table) k c = Some (cc_of_run a tv c)" by auto
    then show ?thesis using pk(1) run_at_append [OF ps(2) pk(3), of suf] ps(1) rs(1)
      by (simp add: unicode_get_cc_def combining_class_def)
  qed
qed

section \<open>Canonical ordering\<close>

text \<open>
  The canonical order of a text: starters (class 0) stay where they are, and each run of combining
  characters between them is sorted by class, stably.
\<close>

function canonical_order :: "int list \<Rightarrow> int list" where
  "canonical_order [] = []"
| "canonical_order (c # cs) =
     (if combining_class c = 0 then c # canonical_order cs
      else sort_key combining_class (c # takeWhile (\<lambda>x. combining_class x \<noteq> 0) cs) @
        canonical_order (dropWhile (\<lambda>x. combining_class x \<noteq> 0) cs))"
  by pat_completeness auto
termination by (relation "measure length") (auto simp: le_imp_less_Suc length_dropWhile_le)

lemma rd_mid: "rd (xs @ y # ys) (length xs) = Some y"
  by (simp add: rd_def nth_append)

lemma wr_mid: "wr (xs @ y # ys) (length xs) z = Some (xs @ z # ys)"
  by (simp add: wr_def)

lemma shift_cc_run:
  assumes "list_all (\<lambda>c. 0 \<le> c) (A @ B)" and "list_all (\<lambda>c. cc1 < combining_class c) B" and "A \<noteq> [] \<Longrightarrow> combining_class (last A) \<le> cc1"
  shows "\<exists>h'. shift_cc (pre @ A @ B @ h # post) (length pre) cc1 (length (pre @ A @ B)) = Some (pre @ A @ h' # B @ post, length (pre @ A))"
  using assms
proof (induction B arbitrary: h post rule: rev_induct)
  case Nil
  show ?case
  proof (cases A rule: rev_cases)
    case (snoc A' a)
    then show ?thesis using Nil rd_mid [of "pre @ A'" a "h # post"] by (subst shift_cc.simps) (simp add: unicode_get_cc_class)
  qed (simp add: shift_cc.simps)
next
  case (snoc x B)
  have "rd (pre @ A @ (B @ [x]) @ h # post) (length (pre @ A @ B @ [x]) - 1) = Some x"
    using rd_mid [of "pre @ A @ B" x "h # post"] by simp
  moreover have "wr (pre @ A @ (B @ [x]) @ h # post) (length (pre @ A @ B @ [x])) x = Some (pre @ A @ B @ x # x # post)"
    using wr_mid [of "pre @ A @ B @ [x]" h post x] by simp
  moreover have "unicode_get_cc x = Some (combining_class x)" "cc1 < combining_class x"
    using snoc.prems by (simp_all add: unicode_get_cc_class)
  ultimately show ?case using snoc.IH [of x "x # post"] snoc.prems by (subst shift_cc.simps) simp
qed

lemma insort_key_insert:
  "takeWhile (\<lambda>x. f x \<le> f c) (insort_key f z S) @ c # dropWhile (\<lambda>x. f x \<le> f c) (insort_key f z S) =
     insort_key f z (takeWhile (\<lambda>x. f x \<le> f c) S @ c # dropWhile (\<lambda>x. f x \<le> f c) S)"
  for c :: 'a and f :: "'a \<Rightarrow> 'b::linorder"
  by (induction S) auto

lemma sort_key_insert:
  "sort_key f (zs @ [c]) = takeWhile (\<lambda>x. f x \<le> f c) (sort_key f zs) @ c # dropWhile (\<lambda>x. f x \<le> f c) (sort_key f zs)"
  for c :: 'a and f :: "'a \<Rightarrow> 'b::linorder"
  by (induction zs) (simp_all add: insort_key_insert)

lemma sorted_dropWhile_gt: "sorted (map f S) \<Longrightarrow> list_all (\<lambda>x. k < f x) (dropWhile (\<lambda>x. f x \<le> k) S)"
  for k :: "'b::linorder"
  by (induction S) (auto simp: list_all_iff)

lemma shift_cc_sorted:
  assumes "list_all (\<lambda>c. 0 \<le> c) zs"
  shows "\<exists>h'. shift_cc (pre @ sort_key combining_class zs @ c # post) (length pre) (combining_class c) (length (pre @ zs)) =
    Some (pre @ takeWhile (\<lambda>x. combining_class x \<le> combining_class c) (sort_key combining_class zs) @ h' #
        dropWhile (\<lambda>x. combining_class x \<le> combining_class c) (sort_key combining_class zs) @ post,
      length (pre @ takeWhile (\<lambda>x. combining_class x \<le> combining_class c) (sort_key combining_class zs)))"
proof -
  let ?P = "\<lambda>x. combining_class x \<le> combining_class c" and ?S = "sort_key combining_class zs"
  have "length (takeWhile ?P ?S @ dropWhile ?P ?S) = length zs" by (simp only: takeWhile_dropWhile_id length_sort)
  moreover have "?P (last (takeWhile ?P ?S))" if "takeWhile ?P ?S \<noteq> []" using set_takeWhileD [OF last_in_set [OF that]] by simp
  moreover have "list_all (\<lambda>c. 0 \<le> c) (takeWhile ?P ?S @ dropWhile ?P ?S)" using assms by (simp only: takeWhile_dropWhile_id list_all_iff set_sort)
  ultimately show ?thesis
    using shift_cc_run [of "takeWhile ?P ?S" "dropWhile ?P ?S" "combining_class c" pre c post] sorted_dropWhile_gt [of combining_class ?S "combining_class c"]
    by (simp flip: append_assoc)
qed

lemma insert_cc_run:
  assumes "list_all (\<lambda>c. 0 \<le> c) (zs @ rest @ post)" and "list_all (\<lambda>c. combining_class c \<noteq> 0) rest" and "post \<noteq> [] \<Longrightarrow> combining_class (hd post) = 0"
  shows "insert_cc (pre @ sort_key combining_class zs @ rest @ post) (length (pre @ zs @ rest @ post)) (length pre) (length (pre @ zs)) =
    Some (pre @ sort_key combining_class (zs @ rest) @ post, length (pre @ zs @ rest))"
  using assms
proof (induction rest arbitrary: zs)
  case Nil
  show ?case
  proof (cases post)
    case (Cons d ds)
    then show ?thesis using Nil rd_mid [of "pre @ sort_key combining_class zs" d ds] by (subst insert_cc.simps) (simp add: unicode_get_cc_class)
  qed (simp add: insert_cc.simps)
next
  case (Cons c rest)
  let ?P = "\<lambda>x. combining_class x \<le> combining_class c" and ?S = "sort_key combining_class zs"
  have rd: "rd (pre @ ?S @ c # rest @ post) (length pre + length zs) = Some c" using rd_mid [of "pre @ ?S" c "rest @ post"] by simp
  from shift_cc_sorted [of zs pre c "rest @ post"] Cons.prems obtain h' where
    h: "shift_cc (pre @ ?S @ c # rest @ post) (length pre) (combining_class c) (length pre + length zs) =
      Some (pre @ takeWhile ?P ?S @ h' # dropWhile ?P ?S @ rest @ post, length (pre @ takeWhile ?P ?S))" by auto
  have wr: "wr (pre @ takeWhile ?P ?S @ h' # dropWhile ?P ?S @ rest @ post) (length (pre @ takeWhile ?P ?S)) c =
    Some (pre @ sort_key combining_class (zs @ [c]) @ rest @ post)"
    using wr_mid [of "pre @ takeWhile ?P ?S" h' "dropWhile ?P ?S @ rest @ post" c] by (simp add: sort_key_insert)
  have "unicode_get_cc c = Some (combining_class c)" "combining_class c \<noteq> 0" using Cons.prems by (simp_all add: unicode_get_cc_class)
  then have "insert_cc (pre @ ?S @ (c # rest) @ post) (length (pre @ zs @ (c # rest) @ post)) (length pre) (length (pre @ zs)) =
    insert_cc (pre @ sort_key combining_class (zs @ [c]) @ rest @ post) (length (pre @ (zs @ [c]) @ rest @ post)) (length pre) (length (pre @ zs @ [c]))"
    using rd h wr by (subst insert_cc.simps) (simp del: sort_key_simps)
  then show ?case using Cons.IH [of "zs @ [c]"] Cons.prems by simp
qed

lemma sort_cc_loop_order:
  "list_all (\<lambda>c. 0 \<le> c) xs \<Longrightarrow> sort_cc_loop (pre @ xs) (length (pre @ xs)) (length pre) = Some (pre @ canonical_order xs)"
proof (induction "length xs" arbitrary: pre xs rule: less_induct)
  case less
  show ?case
  proof (cases xs)
    case (Cons c cs)
    then have cc: "unicode_get_cc c = Some (combining_class c)" using less.prems by (simp add: unicode_get_cc_class)
    show ?thesis
    proof (cases "combining_class c = 0")
      case True
      then show ?thesis using cc Cons less.hyps [of cs "pre @ [c]"] less.prems by (subst sort_cc_loop.simps) simp
    next
      case False
      define run where "run = takeWhile (\<lambda>x. combining_class x \<noteq> 0) cs"
      define post where "post = dropWhile (\<lambda>x. combining_class x \<noteq> 0) cs"
      let ?s = "sort_key combining_class (c # run)"
      have cs: "cs = run @ post" by (simp add: run_def post_def)
      have order: "canonical_order xs = ?s @ canonical_order post" using Cons False by (simp add: run_def post_def)
      have hd: "combining_class (hd post) = 0" if "post \<noteq> []" using hd_dropWhile [of "\<lambda>x. combining_class x \<noteq> 0" cs] that unfolding post_def by blast
      have all: "list_all (\<lambda>c. 0 \<le> c) ([c] @ run @ post)" using less.prems Cons cs by simp
      have run: "list_all (\<lambda>c. combining_class c \<noteq> 0) run" by (auto simp: run_def list_all_iff dest: set_takeWhileD)
      have sort1: "sort_key combining_class [c] = [c]" by simp
      have ins: "insert_cc (pre @ c # cs) (Suc (length pre + length cs)) (length pre) (Suc (length pre)) = Some (pre @ ?s @ post, Suc (length pre + length run))"
        using insert_cc_run [OF all run hd, of pre] by (simp add: cs sort1 del: sort_key_simps)
      have step: "sort_cc_loop (pre @ xs) (length (pre @ xs)) (length pre) =
        sort_cc_loop (pre @ ?s @ post) (length (pre @ ?s @ post)) (Suc (length (pre @ ?s)))"
        using cc Cons False ins cs by (subst sort_cc_loop.simps) (simp del: sort_key_simps)
      show ?thesis
      proof (cases post)
        case Nil
        then show ?thesis using step order by (simp add: sort_cc_loop.simps [of "pre @ sort_key f ys" for f ys] del: sort_key_simps)
      next
        case p: (Cons d ds)
        have "length ds < length xs" using p Cons cs by simp
        then show ?thesis using step less.hyps [of ds "pre @ ?s @ [d]"] all hd p order by (simp del: sort_key_simps)
      qed
    qed
  qed (simp add: sort_cc_loop.simps)
qed

lemma mset_canonical_order: "mset (canonical_order xs) = mset xs"
proof (induction xs rule: canonical_order.induct)
  case (2 c cs)
  have "mset (takeWhile (\<lambda>x. combining_class x \<noteq> 0) cs) + mset (dropWhile (\<lambda>x. combining_class x \<noteq> 0) cs) = mset cs"
    by (metis mset_append takeWhile_dropWhile_id)
  then show ?case using 2 by (simp add: ac_simps)
qed simp

text \<open>C30. \<open>sort_cc\<close> puts a text in canonical order: the starters keep their places, and each run of combining characters
  is sorted by combining class with characters of one class in their order.  No read is out of bounds and no character is lost or duplicated.\<close>
theorem sort_cc_canonical:
  assumes "list_all (\<lambda>c. 0 \<le> c) buf"
  shows "sort_cc buf (length buf) = Some (canonical_order buf) \<and> mset (canonical_order buf) = mset buf"
  using sort_cc_loop_order [OF assms, of "[]"] by (simp add: sort_cc_def mset_canonical_order)

theorem sort_cc_canonical_witness:
  "sort_cc [0x61, 0x301, 0x327, 0x300, 0x62] (length [0x61, 0x301, 0x327, 0x300, 0x62 :: int]) = Some [0x61, 0x327, 0x301, 0x300, 0x62]"
proof -
  have "unicode_get_cc 0x61 = Some 0" "unicode_get_cc 0x62 = Some 0" "unicode_get_cc 0x300 = Some 230" "unicode_get_cc 0x301 = Some 230" "unicode_get_cc 0x327 = Some 202"
    by code_simp+
  then have "combining_class 0x61 = 0" "combining_class 0x62 = 0" "combining_class 0x300 = 230" "combining_class 0x301 = 230" "combining_class 0x327 = 202"
    by (simp_all add: unicode_get_cc_class)
  then have "canonical_order [0x61, 0x301, 0x327, 0x300, 0x62] = [0x61, 0x327, 0x301, 0x300, 0x62]" by simp
  then show ?thesis using sort_cc_canonical [of "[0x61, 0x301, 0x327, 0x300, 0x62]"] by simp
qed

end
