(* ===== verification/Unicode_Decomp.thy ===== *)
theory Unicode_Decomp
  imports Unicode_Order
begin

text \<open>
  Decomposition: the binary search of the table of decompositions agrees with a scan of it, and the
  decomposing forms of \<open>unicode_normalize\<close> refine the recursive replacement of characters by their
  decompositions followed by canonical ordering.
\<close>

section \<open>The search of the table\<close>

definition covers :: "int \<Rightarrow> int \<Rightarrow> bool" where
  "covers c v \<longleftrightarrow> dc_code v \<le> c \<and> c < dc_code v + dc_len v"

text \<open>The entry of the table that holds a character, with its number.\<close>

fun entry_from :: "int \<Rightarrow> int \<Rightarrow> int list \<Rightarrow> (int \<times> int) option" where
  "entry_from c i [] = None"
| "entry_from c i (v # vs) = (if covers c v then Some (i, v) else entry_from c (i + 1) vs)"

definition decomposition :: "int \<Rightarrow> bool \<Rightarrow> (int list \<times> int) option" where
  "decomposition c is_compat = (case entry_from c 0 unicode_decomp_table1 of
     None \<Rightarrow> Some ([], 0)
   | Some (i, v) \<Rightarrow> if \<not> is_compat \<and> v mod 2 = 1 then Some ([], 0) else unicode_decomp_entry c i (dc_code v) (dc_len v) (dc_type v))"

lemma dc_len_nonneg: "0 \<le> dc_len v"
  by (simp add: dc_len_def)

lemma decomp_table_apart:
  "sorted_wrt (\<lambda>v w. dc_code v + dc_len v \<le> dc_code w) unicode_decomp_table1"
proof -
  have "successively (\<lambda>v w. dc_code v + dc_len v \<le> dc_code w) unicode_decomp_table1" by code_simp
  moreover have "transp (\<lambda>v w. dc_code v + dc_len v \<le> dc_code w)" using dc_len_nonneg by (intro transpI) (smt (verit))
  ultimately show ?thesis by (simp only: successively_conv_sorted_wrt)
qed

lemma entry_from_None: "(\<And>v. v \<in> set vs \<Longrightarrow> \<not> covers c v) \<Longrightarrow> entry_from c i vs = None"
  by (induction vs arbitrary: i) auto

lemma entry_from_nth:
  "k < length vs \<Longrightarrow> covers c (vs ! k) \<Longrightarrow> (\<And>j. j < k \<Longrightarrow> \<not> covers c (vs ! j)) \<Longrightarrow> entry_from c i vs = Some (i + int k, vs ! k)"
proof (induction vs arbitrary: i k)
  case (Cons v vs)
  show ?case
  proof (cases k)
    case (Suc k')
    then show ?thesis using Cons.IH [of k' "i + 1"] Cons.prems(1,2) Cons.prems(3) [of 0] Cons.prems(3) [of "Suc j" for j] by auto
  qed (use Cons.prems in simp)
qed simp

lemma decomp_search_entry:
  assumes "0 \<le> lo" and "hi < int (length unicode_decomp_table1)"
    and "\<And>k. int k < lo \<Longrightarrow> \<not> covers c (unicode_decomp_table1 ! k)"
    and "\<And>k. hi < int k \<Longrightarrow> k < length unicode_decomp_table1 \<Longrightarrow> \<not> covers c (unicode_decomp_table1 ! k)"
  shows "decomp_search c is_compat lo hi = decomposition c is_compat"
  using assms
proof (induction "nat (hi - lo + 1)" arbitrary: lo hi rule: less_induct)
  case less
  let ?t = unicode_decomp_table1
  show ?case
  proof (cases "lo \<le> hi")
    case False
    then have "\<not> covers c v" if "v \<in> set ?t" for v
      using that less.prems(3,4) unfolding in_set_conv_nth by (metis linorder_not_less order_less_le_trans)
    then show ?thesis using False by (simp add: decomp_search.simps decomposition_def entry_from_None)
  next
    case True
    define k where "k = nat ((hi + lo) div 2)"
    have k: "int k = (hi + lo) div 2" "lo \<le> int k" "int k \<le> hi" "k < length ?t" using True less.prems(1,2) by (auto simp: k_def)
    have before: "dc_code (?t ! j) + dc_len (?t ! j) \<le> dc_code (?t ! i)" if "j < i" "i < length ?t" for i j
      using sorted_wrt_nth_less [OF decomp_table_apart that] .
    have rd: "rd_int ?t ((hi + lo) div 2) = Some (?t ! k)" using k by (metis rd_Some rd_int_of_nat)
    note step = decomp_search.simps [of c is_compat lo hi]
    consider "c < dc_code (?t ! k)" | "dc_code (?t ! k) + dc_len (?t ! k) \<le> c" "dc_code (?t ! k) \<le> c" | "covers c (?t ! k)"
      unfolding covers_def by linarith
    then show ?thesis
    proof cases
      case 1
      have "\<not> covers c (?t ! i)" if "int k - 1 < int i" "i < length ?t" for i
        using before [of k i] that 1 dc_len_nonneg [of "?t ! k"] by (cases "i = k") (auto simp: covers_def)
      then have "decomp_search c is_compat lo (int k - 1) = decomposition c is_compat"
        using less.hyps [of "int k - 1" lo] less.prems(1-3) k by auto
      then show ?thesis using step True rd 1 k(1) by (simp add: Let_def)
    next
      case 2
      have "\<not> covers c (?t ! i)" if "int i < int k + 1" for i
        using before [of i k] that 2 k(4) dc_len_nonneg [of "?t ! k"] by (cases "i = k") (auto simp: covers_def)
      then have "decomp_search c is_compat (int k + 1) hi = decomposition c is_compat"
        using less.hyps [of hi "int k + 1"] less.prems(1,2,4) k by auto
      then show ?thesis using step True rd 2 k(1) by (simp add: Let_def)
    next
      case 3
      have "\<not> covers c (?t ! j)" if "j < k" for j using before [OF that k(4)] 3 by (auto simp: covers_def)
      then have "entry_from c 0 ?t = Some (int k, ?t ! k)" using entry_from_nth [OF k(4) 3] by simp
      then show ?thesis using step True rd 3 k(1) by (auto simp: Let_def decomposition_def covers_def)
    qed
  qed
qed

text \<open>The binary search of \<open>unicode_decomp_char\<close> gives every character the decomposition that a scan of the table
  for the entry holding it gives, and none where there is no entry or only a compatibility one that is not asked for.\<close>

lemma unicode_decomp_char_eq: "unicode_decomp_char c is_compat = decomposition c is_compat"
  unfolding unicode_decomp_char_def by (rule decomp_search_entry) auto

section \<open>The buffer of characters\<close>

definition char_bytes :: "int \<Rightarrow> byte list" where
  "char_bytes c = le_bytes 4 (unat (of_int c :: u32))"

lemma le_words_le_bytes:
  assumes "n < 2 ^ 32"
  shows "le_words (le_bytes 4 n @ r) = int n # le_words r"
proof -
  have byte: "uint (of_nat k :: byte) = int (k mod 256)" for k by (simp add: unsigned_of_nat take_bit_eq_mod zmod_int)
  have "n = 256 * (n div 256) + n mod 256" "n div 256 = 256 * (n div 256 div 256) + n div 256 mod 256"
    "n div 256 div 256 = 256 * (n div 256 div 256 div 256) + n div 256 div 256 mod 256" by presburger+
  moreover have "n div 256 div 256 div 256 mod 256 = n div 256 div 256 div 256" using assms by (simp add: div_mult2_eq [symmetric])
  ultimately have "n mod 256 + n div 256 mod 256 * 256 + n div 256 div 256 mod 256 * 65536 + n div 256 div 256 div 256 mod 256 * 16777216 = n" by linarith
  then have "int (n mod 256 + n div 256 mod 256 * 256 + n div 256 div 256 mod 256 * 65536 + n div 256 div 256 div 256 mod 256 * 16777216) = int n" by simp
  then have "int (n mod 256) + int (n div 256 mod 256) * 2 ^ 8 + int (n div 256 div 256 mod 256) * 2 ^ 16 + int (n div 256 div 256 div 256 mod 256) * 2 ^ 24 = int n"
    by (simp only: of_nat_add of_nat_mult of_nat_numeral) simp
  moreover have four: "(4 :: nat) = Suc (Suc (Suc (Suc 0)))" by simp
  have "le_bytes 4 n = [of_nat n, of_nat (n div 256), of_nat (n div 256 div 256), of_nat (n div 256 div 256 div 256)]"
    unfolding four by (simp only: le_bytes.simps)
  ultimately show ?thesis by (simp only: append_Cons append_Nil le_words.simps byte)
qed

lemma le_words_char_bytes: "le_words (concat (map char_bytes xs)) = map (\<lambda>c. c mod 2 ^ 32) xs"
proof (induction xs)
  case (Cons c xs)
  have "int (unat (of_int c :: u32)) = c mod 2 ^ 32" by (simp add: uint_word_of_int)
  moreover have "unat (of_int c :: u32) < 2 ^ 32" using unsigned_less [of "of_int c :: u32", where ?'a = nat] by simp
  ultimately show ?case using Cons le_words_le_bytes [of "unat (of_int c :: u32)"] by (simp add: char_bytes_def del: le_bytes.simps)
qed simp

text \<open>The state after the characters \<open>xs\<close> were put: they are in the buffer unless an allocation failed.\<close>

definition never_fails :: "DynBuf \<Rightarrow> bool" where
  "never_fails s \<longleftrightarrow> (\<exists>f. dbuf_realloc_func s = Some f \<and> (\<forall>p n. \<exists>p'. f p n = Some p'))"

definition has_put :: "DynBuf \<Rightarrow> int list \<Rightarrow> DynBuf \<Rightarrow> bool" where
  "has_put s xs s' \<longleftrightarrow> dbuf_ok s' \<and> dbuf_size s' \<le> dbuf_size s + 4 * length xs \<and>
     (\<not> dbuf_error s' \<longrightarrow> dbuf_contents s' = dbuf_contents s @ concat (map char_bytes xs)) \<and>
     (dbuf_error s \<longrightarrow> dbuf_error s') \<and> (never_fails s \<longrightarrow> never_fails s' \<and> dbuf_error s' = dbuf_error s)"

lemma has_put_nil: "dbuf_ok s \<Longrightarrow> has_put s [] s"
  by (simp add: has_put_def)

lemma has_put_append: "has_put s xs s1 \<Longrightarrow> has_put s1 ys s2 \<Longrightarrow> has_put s (xs @ ys) s2"
  unfolding has_put_def by auto

lemma dbuf_realloc_never_fails:
  assumes "never_fails s" and "dbuf_realloc s n = Some (s', e)"
  shows "never_fails s' \<and> dbuf_error s' = dbuf_error s"
proof -
  obtain f where f: "dbuf_realloc_func s = Some f" "\<And>p n. \<exists>p'. f p n = Some p'" using assms(1) by (auto simp: never_fails_def)
  obtain p' where "f (dbuf_mem s) (if n < szt (dbuf_allocated s * 3) div 2 then szt (dbuf_allocated s * 3) div 2 else n) = Some p'" using f(2) by blast
  then show ?thesis using assms f by (auto simp: dbuf_realloc_def never_fails_def Let_def split: if_splits)
qed

lemma dbuf_put_never_fails:
  "never_fails s \<Longrightarrow> dbuf_put s d n = Some (s', e) \<Longrightarrow> never_fails s' \<and> dbuf_error s' = dbuf_error s"
  by (auto simp: dbuf_put_def dbuf_grow_def bind_eq_Some_conv never_fails_def split: if_splits dest!: dbuf_realloc_never_fails [unfolded never_fails_def, rotated])

lemma put_char_puts:
  assumes "dbuf_ok s" and "dbuf_size s + 4 < 2 ^ 32"
  shows "\<exists>s'. put_char s c = Some s' \<and> has_put s [c] s'"
proof -
  obtain s' e where s': "dbuf_put s (char_bytes c) 4 = Some (s', e)" "dbuf_ok s'" "e \<longrightarrow> dbuf_contents s' = dbuf_contents s \<and> dbuf_error s'"
    "\<not> e \<longrightarrow> dbuf_contents s' = dbuf_contents s @ take 4 (char_bytes c) \<and> dbuf_error s' = dbuf_error s"
    by (rule dbuf_put_spec [OF assms, of "char_bytes c"]) (auto simp: char_bytes_def)
  have "length (dbuf_contents s') \<le> length (dbuf_contents s) + 4" using s'(3,4) by (cases e) (auto simp: char_bytes_def)
  then have "dbuf_size s' \<le> dbuf_size s + 4" using assms(1) s'(2) by simp
  then show ?thesis using s' dbuf_put_never_fails [OF _ s'(1)]
    by (cases e) (auto simp: put_char_def dbuf_put_u32_def has_put_def char_bytes_def)
qed

definition hangul :: "int \<Rightarrow> bool" where
  "hangul c \<longleftrightarrow> 0xac00 \<le> c \<and> c < 0xd7a4"

text \<open>A Hangul syllable: the leading consonant, the vowel, and the trailing consonant when it has one.\<close>

definition jamo :: "int \<Rightarrow> int list" where
  "jamo c = (let s = c - 0xac00 in
     [0x1100 + s div 588, 0x1161 + s mod 588 div 28] @ (if s mod 28 = 0 then [] else [0x11a7 + s mod 28]))"

lemma put_hangul_puts:
  assumes "dbuf_ok s" and "dbuf_size s + 4 * length (jamo c) < 2 ^ 32"
  shows "\<exists>s'. put_hangul s c = Some s' \<and> has_put s (jamo c) s'"
proof -
  let ?s = "c - 0xac00"
  let ?l = "0x1100 + ?s div 588" and ?v = "0x1161 + ?s mod 588 div 28" and ?t = "0x11a7 + ?s mod 28"
  from put_char_puts [OF assms(1), of ?l] assms(2) obtain s1 where s1: "put_char s ?l = Some s1" "has_put s [?l] s1"
    by (auto simp: jamo_def Let_def)
  from put_char_puts [of s1 ?v] assms(2) s1(2) obtain s2 where s2: "put_char s1 ?v = Some s2" "has_put s1 [?v] s2"
    by (auto simp: jamo_def Let_def has_put_def)
  have s12: "has_put s [?l, ?v] s2" using has_put_append [OF s1(2) s2(2)] by simp
  show ?thesis
  proof (cases "?s mod 28 = 0")
    case True
    then show ?thesis using s1(1) s2(1) s12 by (simp add: put_hangul_def jamo_def Let_def)
  next
    case False
    from put_char_puts [of s2 ?t] assms(2) s12 False obtain s3 where s3: "put_char s2 ?t = Some s3" "has_put s2 [?t] s3"
      by (auto simp: jamo_def Let_def has_put_def)
    then show ?thesis using s1(1) s2(1) False has_put_append [OF s12 s3(2)] by (simp add: put_hangul_def jamo_def Let_def)
  qed
qed

section \<open>Full decomposition\<close>

text \<open>
  The characters a text decomposes to, with no buffer: a syllable to its jamo, a character with an entry
  to the decomposition of the characters of the entry, and any other to itself.  The fuel bounds the depth.
\<close>

fun decompose :: "nat \<Rightarrow> int list \<Rightarrow> bool \<Rightarrow> int list option" where
  "decompose fuel [] is_compat = Some []"
| "decompose fuel (c # src) is_compat = do {
     xs \<leftarrow> (if hangul c then Some (jamo c)
       else do {
         (res, l) \<leftarrow> decomposition c is_compat;
         if UNICODE_DECOMP_LEN_MAX < length res then None
         else if l = 0 then Some [c mod 2 ^ 32]
         else (case fuel of 0 \<Rightarrow> None | Suc fuel \<Rightarrow> decompose fuel (take (nat l) res) is_compat)
       });
     ys \<leftarrow> decompose fuel src is_compat;
     Some (xs @ ys)
   }"

lemma has_put_mod: "has_put s [c] s' = has_put s [c mod 2 ^ 32] s'"
proof -
  have "(of_int (c mod 2 ^ 32) :: u32) = of_int c" by (simp add: word_of_int_eq_iff take_bit_eq_mod)
  then show ?thesis by (simp add: has_put_def char_bytes_def)
qed

lemma to_nfd_rec_puts:
  "decompose fuel src is_compat = Some xs \<Longrightarrow> dbuf_ok s \<Longrightarrow> dbuf_size s + 4 * length xs < 2 ^ 32 \<Longrightarrow>
     \<exists>s'. to_nfd_rec fuel s src is_compat = Some s' \<and> has_put s xs s'"
proof (induction fuel src is_compat arbitrary: xs s rule: decompose.induct)
  case (2 fuel c src is_compat)
  from 2(3) obtain ys zs where yz: "xs = ys @ zs" "decompose fuel src is_compat = Some zs"
    and ys: "(if hangul c then Some (jamo c) else do {
         (res, l) \<leftarrow> decomposition c is_compat;
         if UNICODE_DECOMP_LEN_MAX < length res then None
         else if l = 0 then Some [c mod 2 ^ 32]
         else (case fuel of 0 \<Rightarrow> None | Suc fuel \<Rightarrow> decompose fuel (take (nat l) res) is_compat)
       }) = Some ys" by (auto simp: bind_eq_Some_conv)
  have "\<exists>s1. (if c \<ge> 0xac00 \<and> c < 0xd7a4 then put_hangul s c
       else do {
         (res, l) \<leftarrow> decomposition c is_compat;
         if length res > UNICODE_DECOMP_LEN_MAX then None
         else if l \<noteq> 0 then (case fuel of 0 \<Rightarrow> None | Suc fuel \<Rightarrow> to_nfd_rec fuel s (take (nat l) res) is_compat)
         else put_char s c
       }) = Some s1 \<and> has_put s ys s1" (is "\<exists>s1. ?step = Some s1 \<and> _")
  proof (cases "hangul c")
    case True
    then show ?thesis using put_hangul_puts [OF 2(4), of c] 2(5) yz(1) ys by (auto simp: hangul_def)
  next
    case False
    with ys obtain res l where r: "decomposition c is_compat = Some (res, l)" "\<not> UNICODE_DECOMP_LEN_MAX < length res"
      "(if l = 0 then Some [c mod 2 ^ 32] else (case fuel of 0 \<Rightarrow> None | Suc fuel \<Rightarrow> decompose fuel (take (nat l) res) is_compat)) = Some ys"
      by (auto simp: bind_eq_Some_conv split: if_splits)
    show ?thesis
    proof (cases "l = 0")
      case True
      then show ?thesis using put_char_puts [OF 2(4), of c] 2(5) yz(1) r False has_put_mod [of s c] by (auto simp: hangul_def)
    next
      case l: False
      with r obtain f where f: "fuel = Suc f" "decompose f (take (nat l) res) is_compat = Some ys" by (cases fuel) auto
      then show ?thesis using 2(1) [OF False r(1) refl r(2) l f(1,2) 2(4)] 2(5) yz(1) r l False by (auto simp: hangul_def)
    qed
  qed
  then obtain s1 where s1: "?step = Some s1" "has_put s ys s1" by blast
  have step: "to_nfd_rec fuel s (c # src) is_compat = to_nfd_rec fuel s1 src is_compat"
    by (simp only: to_nfd_rec.simps unicode_decomp_char_eq s1(1) Option.bind.bind_lunit)
  have "dbuf_ok s1" "dbuf_size s1 + 4 * length zs < 2 ^ 32" using 2(5) yz(1) s1(2) by (auto simp: has_put_def)
  from 2(2) [OF ys yz(2) this] obtain s2 where "to_nfd_rec fuel s1 src is_compat = Some s2" "has_put s1 zs s2" by blast
  then show ?case using has_put_append [OF s1(2)] yz(1) step by auto
qed (simp add: has_put_nil)

lemma decompose_range: "decompose fuel src is_compat = Some xs \<Longrightarrow> list_all (\<lambda>c. 0 \<le> c \<and> c < 2 ^ 32) xs"
proof (induction fuel src is_compat arbitrary: xs rule: decompose.induct)
  case (2 fuel c src is_compat)
  have jamo: "list_all (\<lambda>c. 0 \<le> c \<and> c < 2 ^ 32) (jamo c)" if "hangul c"
  proof -
    have "0 \<le> c - 0xac00" "c - 0xac00 < 0x2ba4" using that by (auto simp: hangul_def)
    then show ?thesis by (auto simp: jamo_def Let_def intro: pos_imp_zdiv_nonneg_iff [THEN iffD2])
  qed
  show ?case using 2 jamo by (auto simp: bind_eq_Some_conv split: if_splits nat.splits)
qed simp

section \<open>Classes of a whole run\<close>

text \<open>The run of the table of combining classes that holds a character: its first code, the code after it, and its class.\<close>

function cc_span_loop :: "int list \<Rightarrow> int \<Rightarrow> int \<Rightarrow> (int \<times> int \<times> int \<times> int) option" where
  "cc_span_loop p code c = do {
     (n, tv, q) \<leftarrow> cc_run p;
     if c < code + n + 1 then Some (code, code + n + 1, tv) else cc_span_loop q (code + n + 1) c
   }"
  by pat_completeness auto
termination by (relation "measure (\<lambda>(p, code, c). length p)") (auto dest: cc_run_shorter)

declare cc_span_loop.simps [simp del]

definition cc_span :: "int \<Rightarrow> (int \<times> int \<times> int \<times> int) option" where
  "cc_span c = do {
     r \<leftarrow> get_index_pos c unicode_cc_index (int (length unicode_cc_index) div 3);
     case r of None \<Rightarrow> None | Some (pos, code) \<Rightarrow> cc_span_loop (drop (nat pos) unicode_cc_table) code c
   }"

lemma cc_span_loop_run:
  "decode_runs cc_run p code = Some rs \<Longrightarrow> runs_cover code rs hi \<Longrightarrow> code \<le> c \<Longrightarrow> cc_span_loop p code c = Some (a, b, tv) \<Longrightarrow> a \<le> x \<Longrightarrow> x < b \<Longrightarrow>
     code \<le> a \<and> run_at rs x = Some (a, tv)"
proof (induction rs arbitrary: p code)
  case Nil
  then have "p = []" by (subst (asm) decode_runs.simps) (auto simp: bind_eq_Some_conv split: if_splits)
  then show ?case using Nil.prems(4) by (simp add: cc_span_loop.simps cc_run_def)
next
  case (Cons r rs)
  from Cons.prems(1) obtain n v q where r: "p \<noteq> []" "cc_run p = Some (n, v, q)" "decode_runs cc_run q (code + n + 1) = Some rs" "r = (code, code + n + 1, v)"
    by (subst (asm) decode_runs.simps) (auto simp: bind_eq_Some_conv split: if_splits)
  then show ?case using Cons.IH [of q "code + n + 1"] Cons.prems by (cases "c < code + n + 1") (auto simp: cc_span_loop.simps [of p])
qed

lemma cc_span_class:
  assumes "cc_span c = Some (a, b, tv)" and "0 \<le> c" and "a \<le> x" and "x < b"
  shows "combining_class x = cc_of_run a tv x"
proof -
  let ?L = "last (le24s unicode_cc_index)"
  from cc_runs obtain rs where
    rs: "decode_runs cc_run unicode_cc_table 0 = Some rs" "runs_cover 0 rs ?L"
      "\<forall>(q, k) \<in> set ((0, 0) # index_anchors 0 (le24s unicode_cc_index)). cc_anchor unicode_cc_table rs ?L q k" by blast
  from get_index_pos_ok [OF cc_index_shape assms(2)] assms(1) obtain p k where
    pk: "get_index_pos c unicode_cc_index (int (length unicode_cc_index) div 3) = Some (Some (p, k))"
      "(p, k) \<in> set ((0, 0) # index_anchors 0 (le24s unicode_cc_index))" "k \<le> c" by (auto simp: cc_span_def split: if_splits)
  with rs(3) obtain pre suf where ps: "rs = pre @ suf" "runs_cover 0 pre k" "runs_cover k suf ?L"
    "decode_runs cc_run (drop (nat p) unicode_cc_table) k = Some suf" unfolding cc_anchor_def by blast
  have "cc_span_loop (drop (nat p) unicode_cc_table) k c = Some (a, b, tv)" using assms(1) pk(1) by (simp add: cc_span_def)
  from cc_span_loop_run [OF ps(4,3) pk(3) this assms(3,4)] have "k \<le> a" "run_at suf x = Some (a, tv)" by simp_all
  then show ?thesis using run_at_append [OF ps(2), of x suf] assms(3) ps(1) rs(1) by (simp add: combining_class_def)
qed

lemma hangul_span: "cc_span 0xac00 = Some (44014, 64286, 2, 0)"
  by code_simp

lemma jamo_span: "cc_span 0x1100 = Some (4238, 4957, 2, 0)"
  by code_simp

lemma hangul_class: "44014 \<le> x \<Longrightarrow> x < 64286 \<Longrightarrow> combining_class x = 0" "4238 \<le> x \<Longrightarrow> x < 4957 \<Longrightarrow> combining_class x = 0"
  using cc_span_class [OF hangul_span, of x] cc_span_class [OF jamo_span, of x] by (simp_all add: cc_of_run_def)

section \<open>Normalization\<close>

text \<open>The forms: canonical order, and composition after it in the composing forms.\<close>

definition normal_form :: "UnicodeNormalizationEnum \<Rightarrow> int list \<Rightarrow> int list option" where
  "normal_form n_type xs =
     (if length xs \<le> 1 \<or> is_decomposed_form n_type then Some (canonical_order xs)
      else compose_loop (canonical_order xs) (length xs) 1 1)"

definition callback :: "realloc_func \<Rightarrow> realloc_func option \<Rightarrow> realloc_func" where
  "callback libc_realloc realloc_func = (case realloc_func of None \<Rightarrow> dbuf_default_realloc libc_realloc | Some f \<Rightarrow> f)"

lemma length_canonical_order [simp]: "length (canonical_order xs) = length xs"
  using mset_canonical_order [of xs] by (metis size_mset)

lemma normalize_cases:
  assumes "realloc_law (callback libc_realloc realloc_func)" and "4 * length src < 2 ^ 32"
    and "decompose fuel src (is_compat_form n_type) = Some xs" and "4 * length xs < 2 ^ 32"
    and "\<not> (n_type = UNICODE_NFC \<and> list_all (\<lambda>c. c < 0x100) src)"
  shows "(unicode_normalize fuel libc_realloc realloc_func src n_type = Some None \<and> \<not> never_fails (dbuf_init2 libc_realloc realloc_func)) \<or>
    unicode_normalize fuel libc_realloc realloc_func src n_type = map_option Some (normal_form n_type xs)"
proof -
  let ?s = "dbuf_init2 libc_realloc realloc_func"
  have ok: "dbuf_ok ?s" "dbuf_size ?s = 0" "\<not> dbuf_error ?s" "dbuf_contents ?s = []"
    using assms(1) by (auto simp: dbuf_init2_def dbuf_ok_def callback_def dbuf_contents_def)
  obtain s0 e where s0: "dbuf_realloc ?s (4 * length src) = Some (s0, e)" "dbuf_ok s0" "dbuf_contents s0 = []" "dbuf_size s0 = 0"
    "e \<longrightarrow> dbuf_error s0" "\<not> e \<longrightarrow> 4 * length src \<le> length (dbuf_mem s0) \<and> \<not> dbuf_error s0"
    using dbuf_realloc_ok [OF ok(1) assms(2)] ok by metis
  have nf: "never_fails s0 \<and> \<not> dbuf_error s0" if "never_fails ?s" using dbuf_realloc_never_fails [OF that s0(1)] ok(3) by simp
  show ?thesis
  proof (cases e)
    case True
    then show ?thesis using s0 nf assms(2) by (auto simp: unicode_normalize_def)
  next
    case False
    from to_nfd_rec_puts [OF assms(3) s0(2)] s0(4) assms(4) obtain s1 where
      s1: "to_nfd_rec fuel s0 src (is_compat_form n_type) = Some s1" "has_put s0 xs s1" by auto
    show ?thesis
    proof (cases "dbuf_error s1")
      case True
      then have "\<not> never_fails ?s" using nf s1(2) by (auto simp: has_put_def)
      then show ?thesis using True False s0(1) s1(1) assms(2,5) by (auto simp: unicode_normalize_def)
    next
      case ok1: False
      with s1(2) s0(3) have c: "dbuf_contents s1 = concat (map char_bytes xs)" "dbuf_ok s1" by (auto simp: has_put_def)
      then have size: "dbuf_size s1 = 4 * length xs"
        using length_dbuf_contents [of s1] by (simp add: char_bytes_def length_concat comp_def sum_list_triv)
      have range: "list_all (\<lambda>c. 0 \<le> c \<and> c < 2 ^ 32) xs" using decompose_range [OF assms(3)] .
      then have "map (\<lambda>c. c mod 2 ^ 32) xs = xs" by (auto simp: list_all_iff intro: map_idI)
      then have words: "le_words (take (dbuf_size s1) (dbuf_mem s1)) = xs" using le_words_char_bytes [of xs] c(1) by (simp add: dbuf_contents_def)
      have "sort_cc xs (length xs) = Some (canonical_order xs)"
        using sort_cc_loop_order [of xs "[]"] range by (simp add: sort_cc_def list_all_iff)
      then have "unicode_normalize fuel libc_realloc realloc_func src n_type = map_option Some (normal_form n_type xs)"
        using False s0(1) s1(1) assms(2,5) ok1 words size
        by (auto simp: unicode_normalize_def normal_form_def Let_def map_option_case bind_eq_Some_conv split: option.splits)
      then show ?thesis by simp
    qed
  qed
qed

text \<open>A \<open>realloc\<close> that always succeeds.\<close>

definition full_realloc :: realloc_func where
  "full_realloc p n = Some (take n p @ replicate (n - length p) 0)"

lemma realloc_law_full: "realloc_law (callback full_realloc (Some full_realloc))"
  by (auto simp: realloc_law_def callback_def full_realloc_def)

lemma class_of: "unicode_get_cc c = Some k \<Longrightarrow> 0 \<le> c \<Longrightarrow> combining_class c = k"
  using unicode_get_cc_class [of c] by simp

lemma decomposition_between:
  assumes "Suc k < length unicode_decomp_table1" and "dc_code (unicode_decomp_table1 ! k) + dc_len (unicode_decomp_table1 ! k) \<le> c"
    and "c < dc_code (unicode_decomp_table1 ! Suc k)"
  shows "decomposition c is_compat = Some ([], 0)"
proof -
  let ?t = unicode_decomp_table1
  have before: "dc_code (?t ! j) + dc_len (?t ! j) \<le> dc_code (?t ! i)" if "j < i" "i < length ?t" for i j
    using sorted_wrt_nth_less [OF decomp_table_apart that] .
  have "\<not> covers c (?t ! i)" if "i < length ?t" for i
  proof (cases "i \<le> k")
    case True
    then show ?thesis using before [of i k] assms dc_len_nonneg [of "?t ! k"] by (cases "i = k") (auto simp: covers_def)
  next
    case False
    then show ?thesis using before [of "Suc k" i] assms(3) that dc_len_nonneg [of "?t ! Suc k"] by (cases "i = Suc k") (auto simp: covers_def)
  qed
  then have "entry_from c 0 ?t = None" by (intro entry_from_None) (auto simp: in_set_conv_nth)
  then show ?thesis by (simp add: decomposition_def)
qed

lemma no_decomposition: "decomposition 0x301 is_compat = Some ([], 0)" "decomposition 0x327 is_compat = Some ([], 0)" "decomposition 0x11a7 is_compat = Some ([], 0)"
proof -
  have t: "take 2 (drop 43 unicode_decomp_table1) = [12059267, 13632020]" "take 2 (drop 127 unicode_decomp_table1) = [71237761, 113345668]" "length unicode_decomp_table1 = 690"
    by code_simp+
  have nth: "xs ! k = a \<and> xs ! Suc k = b" if "take 2 (drop k xs) = [a, b]" "Suc k < length xs" for k a b and xs :: "int list"
    using that by (simp flip: Cons_nth_drop_Suc add: Cons_nth_drop_Suc [symmetric, of k xs] Cons_nth_drop_Suc [symmetric, of "Suc k" xs])
  show "decomposition 0x301 is_compat = Some ([], 0)" "decomposition 0x327 is_compat = Some ([], 0)" "decomposition 0x11a7 is_compat = Some ([], 0)"
    using nth [OF t(1)] nth [OF t(2)] t(3) by (intro decomposition_between [of 43] decomposition_between [of 127]; simp add: dc_code_def dc_len_def)+
qed

text \<open>C31. U+11A7 is the code before the first trailing consonant of Hangul, and no syllable is composed with it.  The code takes it
  for a trailing consonant: after any syllable that has none (a leading consonant and a vowel), NFC
  composes it to the syllable alone, and the character is lost.\<close>
theorem hangul_trailing_lost:
  assumes "0xac00 \<le> c" and "c < 0xd7a4" and "(c - 0xac00) mod 28 = 0"
  shows "unicode_normalize 0 full_realloc (Some full_realloc) [c, 0x11a7] UNICODE_NFC = Some (Some [c])"
proof -
  let ?s = "c - 0xac00"
  let ?l = "0x1100 + ?s div 588" and ?v = "0x1161 + ?s mod 588 div 28"
  have d: "decompose 0 [c, 0x11a7] False = Some [?l, ?v, 0x11a7]" using assms by (simp add: hangul_def jamo_def no_decomposition Let_def)
  have l: "0x1100 \<le> ?l" "?l < 0x1100 + 19" and v: "0x1161 \<le> ?v" "?v < 0x1161 + 21" using assms(1,2) by auto
  have comb: "0xac00 + (0x1100 + q - 0x1100) * 588 + (0x1161 + r - 0x1161) * 28 = x"
    if "x - 0xac00 = 588 * q + m" "m = 28 * r" for q r m x :: int using that by (simp add: mult.commute)
  have "?s = 588 * (?s div 588) + ?s mod 588" by simp
  moreover have "?s mod 588 mod 28 = 0" using assms(3) by (simp add: mod_mod_cancel)
  then have "?s mod 588 = 28 * (?s mod 588 div 28)" using mult_div_mod_eq [of 28 "?s mod 588"] by linarith
  ultimately have "0xac00 + (?l - 0x1100) * 588 + (?v - 0x1161) * 28 = c" by (rule comb)
  then have lv: "compose_pair ?l ?v = Some c" using l v by (simp add: compose_pair_def)
  have lvt: "compose_pair c 0x11a7 = Some c" using assms by (simp add: compose_pair_def)
  have cls: "unicode_get_cc ?l = Some 0" "unicode_get_cc ?v = Some 0" "unicode_get_cc c = Some 0" "unicode_get_cc 0x11a7 = Some 0"
    "combining_class ?l = 0" "combining_class ?v = 0" "combining_class 0x11a7 = 0"
    using l v assms(1,2) by (simp_all add: unicode_get_cc_class hangul_class)
  have "compose_loop [?l, ?v, 0x11a7] 3 1 1 = Some [c]"
    using lv lvt cls assms(1) by (simp add: compose_loop.simps find_starter.simps del: add_diff_eq)
  then have "normal_form UNICODE_NFC [?l, ?v, 0x11a7] = Some [c]"
    using cls by (simp add: normal_form_def is_decomposed_form_def numeral_3_eq_3)
  then show ?thesis
    using normalize_cases [OF realloc_law_full, of "[c, 0x11a7]" 0 UNICODE_NFC "[?l, ?v, 0x11a7]"] d
    by (auto simp: never_fails_def dbuf_init2_def full_realloc_def is_compat_form_def)
qed

theorem hangul_trailing_lost_witness:
  "unicode_normalize 0 full_realloc (Some full_realloc) [0xae30, 0x11a7] UNICODE_NFC = Some (Some [0xae30])"
  by (rule hangul_trailing_lost) simp_all

end
