(* ===== verification/Lre_Exec.thy ===== *)
theory Lre_Exec
  imports Unicode_Case Cutils_Num
begin

text \<open>
  The regular expression interpreter of \<^verbatim>\<open>libregexp.c\<close>: \<open>lre_exec\<close> and the backtracking machine
  \<open>lre_exec_backtrack\<close>.

  The byte code is the object \<open>ctx_code\<close> and a program pointer is an index into it.  The subject is a
  list of code units (8 or 16 bits, as \<open>cbuf_type\<close> says) and a character pointer is an index into it.
  The stack of saved states has its top first.  \<open>None\<close> stands for undefined behaviour: a read or
  write outside an object, a pointer before the start of one, a failed assertion or \<open>abort\<close>.
\<close>

section \<open>Opcodes\<close>

datatype REOPCodeEnum = REOP_invalid | REOP_char | REOP_char32 | REOP_dot | REOP_any | REOP_line_start
  | REOP_line_end | REOP_goto | REOP_split_goto_first | REOP_split_next_first | REOP_match | REOP_save_start
  | REOP_save_end | REOP_save_reset | REOP_loop | REOP_push_i32 | REOP_drop | REOP_word_boundary
  | REOP_not_word_boundary | REOP_back_reference | REOP_backward_back_reference | REOP_range | REOP_range32
  | REOP_lookahead | REOP_negative_lookahead | REOP_push_char_pos | REOP_bne_char_pos | REOP_prev
  | REOP_simple_greedy_quant

definition reop_list :: "REOPCodeEnum list" where
  "reop_list = [REOP_invalid, REOP_char, REOP_char32, REOP_dot, REOP_any, REOP_line_start,
     REOP_line_end, REOP_goto, REOP_split_goto_first, REOP_split_next_first, REOP_match, REOP_save_start,
     REOP_save_end, REOP_save_reset, REOP_loop, REOP_push_i32, REOP_drop, REOP_word_boundary,
     REOP_not_word_boundary, REOP_back_reference, REOP_backward_back_reference, REOP_range, REOP_range32,
     REOP_lookahead, REOP_negative_lookahead, REOP_push_char_pos, REOP_bne_char_pos, REOP_prev,
     REOP_simple_greedy_quant]"

fun reopcode_size :: "REOPCodeEnum \<Rightarrow> nat" where
  "reopcode_size REOP_char = 3"
| "reopcode_size REOP_char32 = 5"
| "reopcode_size REOP_goto = 5"
| "reopcode_size REOP_split_goto_first = 5"
| "reopcode_size REOP_split_next_first = 5"
| "reopcode_size REOP_save_start = 2"
| "reopcode_size REOP_save_end = 2"
| "reopcode_size REOP_save_reset = 3"
| "reopcode_size REOP_loop = 5"
| "reopcode_size REOP_push_i32 = 5"
| "reopcode_size REOP_back_reference = 2"
| "reopcode_size REOP_backward_back_reference = 2"
| "reopcode_size REOP_range = 3"
| "reopcode_size REOP_range32 = 3"
| "reopcode_size REOP_lookahead = 5"
| "reopcode_size REOP_negative_lookahead = 5"
| "reopcode_size REOP_bne_char_pos = 5"
| "reopcode_size REOP_simple_greedy_quant = 17"
| "reopcode_size _ = 1"

definition reop_of :: "byte \<Rightarrow> REOPCodeEnum option" where
  "reop_of b = (if unat b < length reop_list then Some (reop_list ! unat b) else None)"

section \<open>Data\<close>

text \<open>
  A \<open>StackInt\<close> is a \<open>uintptr_t\<close>, 32 bits on wasm32, that holds a loop counter or a character
  pointer; \<open>SUndef\<close> is a slot of the \<open>alloca\<close> area that has not been written.
\<close>

datatype StackInt = SUndef | SInt u32 | SPos nat

datatype REExecStateEnum = RE_EXEC_STATE_SPLIT | RE_EXEC_STATE_LOOKAHEAD | RE_EXEC_STATE_NEGATIVE_LOOKAHEAD
  | RE_EXEC_STATE_GREEDY_QUANT

record REExecState =
  rs_type :: REExecStateEnum
  rs_stack_len :: nat
  rs_count :: nat
  rs_cptr :: nat
  rs_pc :: nat
  rs_capture :: "nat option list"
  rs_stack :: "StackInt list"

text \<open>
  What does not change during a run; \<open>state_alloc n\<close> says whether \<open>lre_realloc\<close> succeeds for \<open>n\<close> states.
\<close>

record REExecContext =
  ctx_code :: "byte list"
  cbuf :: "int list"
  cbuf_type :: nat
  capture_count :: nat
  stack_size_max :: nat
  multi_line :: bool
  ignore_case :: bool
  is_utf16 :: bool
  state_alloc :: "nat \<Rightarrow> bool"

text \<open>
  What does: the capture array, the stack array with its length, the pointers, the saved states
  (the last pushed first) and the number of states the state stack has room for.
\<close>

record vm =
  vm_capture :: "nat option list"
  vm_stack :: "StackInt list"
  vm_stack_len :: nat
  vm_pc :: nat
  vm_cptr :: nat
  state_stack :: "REExecState list"
  state_stack_size :: nat

text \<open>
  The returned \<open>intptr_t\<close>: 1, 0, -1, or the character pointer of a run with \<open>no_recurse\<close>.
\<close>

datatype exec_ret = Ret_match | Ret_no_match | Ret_error | Ret_ptr nat

text \<open>
  What one turn of the interpreter loop does: go on, return, or start the nested runs of a greedy
  quantifier (the program pointer of the atom, the two bounds).
\<close>

datatype step_res = Cont vm | Halt exec_ret vm | Greedy nat u32 u32 vm

section \<open>Characters\<close>

definition is_line_terminator :: "int \<Rightarrow> bool" where
  "is_line_terminator c \<longleftrightarrow> c = 0x0a \<or> c = 0x0d \<or> c = 0x2028 \<or> c = 0x2029"

definition is_word_char :: "int \<Rightarrow> bool" where
  "is_word_char c \<longleftrightarrow> 0x30 \<le> c \<and> c \<le> 0x39 \<or> 0x61 \<le> c \<and> c \<le> 0x7a \<or> 0x41 \<le> c \<and> c \<le> 0x5a \<or> c = 0x5f"

definition is_high :: "int \<Rightarrow> bool" where "is_high c \<longleftrightarrow> 0xd800 \<le> c \<and> c < 0xdc00"
definition is_low :: "int \<Rightarrow> bool" where "is_low c \<longleftrightarrow> 0xdc00 \<le> c \<and> c < 0xe000"

definition surrogate_pair :: "int \<Rightarrow> int \<Rightarrow> int" where
  "surrogate_pair hi lo = (hi mod 0x400 * 2 ^ 10 + lo mod 0x400) + 0x10000"

definition get_char :: "REExecContext \<Rightarrow> nat \<Rightarrow> nat \<Rightarrow> (int \<times> nat) option" where
  "get_char s cp ce = do {
     c \<leftarrow> rd (cbuf s) cp;
     if cbuf_type s = 2 \<and> is_high c \<and> cp + 1 < ce
     then do {
       c1 \<leftarrow> rd (cbuf s) (cp + 1);
       Some (if is_low c1 then (surrogate_pair c c1, cp + 2) else (c, cp + 1))
     }
     else Some (c, cp + 1)
   }"

definition peek_char :: "REExecContext \<Rightarrow> nat \<Rightarrow> nat \<Rightarrow> int option" where
  "peek_char s cp ce = do {
     c \<leftarrow> rd (cbuf s) cp;
     if cbuf_type s = 2 \<and> is_high c \<and> cp + 1 < ce
     then do { c1 \<leftarrow> rd (cbuf s) (cp + 1); Some (if is_low c1 then surrogate_pair c c1 else c) }
     else Some c
   }"

definition get_prev_char :: "REExecContext \<Rightarrow> nat \<Rightarrow> nat \<Rightarrow> (int \<times> nat) option" where
  "get_prev_char s cp0 cs =
     (if cp0 = 0 then None
      else do {
        let cp = cp0 - 1;
        c \<leftarrow> rd (cbuf s) cp;
        if cbuf_type s = 2 \<and> is_low c \<and> cp > cs
        then do {
          c1 \<leftarrow> rd (cbuf s) (cp - 1);
          Some (if is_high c1 then (surrogate_pair c1 c, cp - 1) else (c, cp))
        }
        else Some (c, cp)
      })"

definition peek_prev_char :: "REExecContext \<Rightarrow> nat \<Rightarrow> nat \<Rightarrow> int option" where
  "peek_prev_char s cp cs =
     (if cp = 0 then None
      else do {
        c \<leftarrow> rd (cbuf s) (cp - 1);
        if cbuf_type s = 2 \<and> is_low c \<and> cp \<ge> cs + 2
        then do { c1 \<leftarrow> rd (cbuf s) (cp - 2); Some (if is_high c1 then surrogate_pair c1 c else c) }
        else Some c
      })"

definition prev_char :: "REExecContext \<Rightarrow> nat \<Rightarrow> nat \<Rightarrow> nat option" where
  "prev_char s cp0 cs =
     (if cp0 = 0 then None
      else do {
        let cp = cp0 - 1;
        if cbuf_type s = 2
        then do {
          c \<leftarrow> rd (cbuf s) cp;
          if is_low c \<and> cp > cs
          then do { c1 \<leftarrow> rd (cbuf s) (cp - 1); Some (if is_high c1 then cp - 1 else cp) }
          else Some cp
        }
        else Some cp
      })"

fun prev_chars :: "REExecContext \<Rightarrow> nat \<Rightarrow> nat \<Rightarrow> nat option" where
  "prev_chars s 0 cp = Some cp"
| "prev_chars s (Suc n) cp = do { cp' \<leftarrow> prev_char s cp 0; prev_chars s n cp' }"

definition canon :: "REExecContext \<Rightarrow> int \<Rightarrow> int option" where
  "canon s c = (if ignore_case s then lre_canonicalize c (is_utf16 s) else Some c)"

section \<open>Saved states\<close>

definition push_state :: "REExecContext \<Rightarrow> vm \<Rightarrow> nat \<Rightarrow> nat \<Rightarrow> REExecStateEnum \<Rightarrow> nat \<Rightarrow> (vm \<times> bool) option" where
  "push_state s m pc1 cp1 type count =
     (let len = length (state_stack m);
          grow = (len + 1 > state_stack_size m);
          new_size = (let n = state_stack_size m * 3 div 2 in if n < 8 then 8 else n) in
      if grow \<and> \<not> state_alloc s new_size then Some (m, True)
      else if 2 * capture_count s \<le> length (vm_capture m) \<and> vm_stack_len m \<le> length (vm_stack m)
      then Some (m\<lparr>state_stack := \<lparr>rs_type = type, rs_stack_len = vm_stack_len m mod 256, rs_count = count, rs_cptr = cp1, rs_pc = pc1,
                rs_capture = take (2 * capture_count s) (vm_capture m), rs_stack = take (vm_stack_len m) (vm_stack m)\<rparr> # state_stack m,
              state_stack_size := (if grow then new_size else state_stack_size m)\<rparr>, False)
      else None)"

definition restore_capture :: "vm \<Rightarrow> REExecState \<Rightarrow> vm" where
  "restore_capture m rs = m\<lparr>vm_capture := rs_capture rs @ drop (length (rs_capture rs)) (vm_capture m)\<rparr>"

definition restore_stack :: "vm \<Rightarrow> REExecState \<Rightarrow> vm" where
  "restore_stack m rs = m\<lparr>vm_stack_len := rs_stack_len rs,
     vm_stack := take (rs_stack_len rs) (rs_stack rs) @ drop (rs_stack_len rs) (vm_stack m)\<rparr>"

definition pop_state1 :: "vm \<Rightarrow> REExecState \<Rightarrow> REExecState list \<Rightarrow> vm" where
  "pop_state1 m rs rest = (restore_stack m rs)\<lparr>vm_pc := rs_pc rs, vm_cptr := rs_cptr rs, state_stack := rest\<rparr>"

definition jump :: "nat \<Rightarrow> u32 \<Rightarrow> nat option" where
  "jump p off = (let q = int p + sint off in if q < 0 then None else Some (nat q))"

text \<open>The loop at the label \<open>recurse\<close>.\<close>

fun re_recurse :: "REExecContext \<Rightarrow> bool \<Rightarrow> vm \<Rightarrow> REExecState list \<Rightarrow> step_res option" where
  "re_recurse s ret m [] = Some (Halt (if ret then Ret_match else Ret_no_match) (m\<lparr>state_stack := []\<rparr>))"
| "re_recurse s ret m (rs # rest) =
     (case rs_type rs of
        RE_EXEC_STATE_SPLIT \<Rightarrow>
          if \<not> ret then Some (Cont (pop_state1 (restore_capture m rs) rs rest)) else re_recurse s ret m rest
      | RE_EXEC_STATE_GREEDY_QUANT \<Rightarrow>
          if \<not> ret
          then do {
            char_count \<leftarrow> get_u32 (ctx_code s) (rs_pc rs + 12);
            cp' \<leftarrow> prev_chars s (unat char_count) (rs_cptr rs);
            off \<leftarrow> get_u32 (ctx_code s) (rs_pc rs);
            pc' \<leftarrow> jump (rs_pc rs + 16) off;
            let rs' = rs\<lparr>rs_cptr := cp', rs_count := rs_count rs - 1\<rparr>;
            Some (Cont ((restore_stack (restore_capture m rs) rs)\<lparr>vm_pc := pc', vm_cptr := cp',
              state_stack := (if rs_count rs' = 0 then rest else rs' # rest)\<rparr>))
          }
          else re_recurse s ret m rest
      | RE_EXEC_STATE_LOOKAHEAD \<Rightarrow>
          if ret then Some (Cont (pop_state1 m rs rest)) else re_recurse s False m rest
      | RE_EXEC_STATE_NEGATIVE_LOOKAHEAD \<Rightarrow>
          if \<not> ret then Some (Cont (pop_state1 (restore_capture m rs) rs rest)) else re_recurse s False m rest)"

definition no_match :: "REExecContext \<Rightarrow> bool \<Rightarrow> vm \<Rightarrow> step_res option" where
  "no_match s no_recurse m = (if no_recurse then Some (Halt Ret_no_match m) else re_recurse s False m (state_stack m))"


section \<open>Opcode handlers\<close>

text \<open>
  Each handler runs with \<open>vm_pc\<close> after the opcode byte.  \<open>nr\<close> is the argument \<open>no_recurse\<close>.
\<close>

definition next_pc :: "nat \<Rightarrow> vm \<Rightarrow> vm" where "next_pc n m = m\<lparr>vm_pc := vm_pc m + n\<rparr>"

definition test_char :: "REExecContext \<Rightarrow> bool \<Rightarrow> u32 \<Rightarrow> vm \<Rightarrow> step_res option" where
  "test_char s nr val m =
     (if vm_cptr m \<ge> length (cbuf s) then no_match s nr m
      else do {
        (c, cp) \<leftarrow> get_char s (vm_cptr m) (length (cbuf s));
        c \<leftarrow> canon s c;
        let m = m\<lparr>vm_cptr := cp\<rparr>;
        if uint val \<noteq> c then no_match s nr m else Some (Cont m)
      })"

definition op_char32 :: "REExecContext \<Rightarrow> bool \<Rightarrow> vm \<Rightarrow> step_res option" where
  "op_char32 s nr m = do { val \<leftarrow> get_u32 (ctx_code s) (vm_pc m); test_char s nr val (next_pc 4 m) }"

definition op_char :: "REExecContext \<Rightarrow> bool \<Rightarrow> vm \<Rightarrow> step_res option" where
  "op_char s nr m = do { val \<leftarrow> get_u16 (ctx_code s) (vm_pc m); test_char s nr val (next_pc 2 m) }"

definition push_or_fail :: "REExecContext \<Rightarrow> vm \<Rightarrow> nat \<Rightarrow> nat \<Rightarrow> REExecStateEnum \<Rightarrow> nat \<Rightarrow> step_res option" where
  "push_or_fail s m pc1 cp1 type count = do {
     (m', failed) \<leftarrow> push_state s m pc1 cp1 type count;
     Some (if failed then Halt Ret_error m' else Cont m')
   }"

definition op_split :: "REExecContext \<Rightarrow> bool \<Rightarrow> vm \<Rightarrow> step_res option" where
  "op_split s next_first m = do {
     val \<leftarrow> get_u32 (ctx_code s) (vm_pc m);
     let p = vm_pc m + 4;
     q \<leftarrow> jump p val;
     if next_first
     then push_or_fail s (m\<lparr>vm_pc := p\<rparr>) q (vm_cptr m) RE_EXEC_STATE_SPLIT 0
     else push_or_fail s (m\<lparr>vm_pc := q\<rparr>) p (vm_cptr m) RE_EXEC_STATE_SPLIT 0
   }"

definition op_lookahead :: "REExecContext \<Rightarrow> REExecStateEnum \<Rightarrow> vm \<Rightarrow> step_res option" where
  "op_lookahead s type m = do {
     val \<leftarrow> get_u32 (ctx_code s) (vm_pc m);
     let p = vm_pc m + 4;
     q \<leftarrow> jump p val;
     push_or_fail s (m\<lparr>vm_pc := p\<rparr>) q (vm_cptr m) type 0
   }"

definition op_goto :: "REExecContext \<Rightarrow> vm \<Rightarrow> step_res option" where
  "op_goto s m = do {
     val \<leftarrow> get_u32 (ctx_code s) (vm_pc m);
     q \<leftarrow> jump (vm_pc m + 4) val;
     Some (Cont (m\<lparr>vm_pc := q\<rparr>))
   }"

definition op_line_start :: "REExecContext \<Rightarrow> bool \<Rightarrow> vm \<Rightarrow> step_res option" where
  "op_line_start s nr m =
     (if vm_cptr m = 0 then Some (Cont m)
      else if \<not> multi_line s then no_match s nr m
      else do {
        c \<leftarrow> peek_prev_char s (vm_cptr m) 0;
        if \<not> is_line_terminator c then no_match s nr m else Some (Cont m)
      })"

definition op_line_end :: "REExecContext \<Rightarrow> bool \<Rightarrow> vm \<Rightarrow> step_res option" where
  "op_line_end s nr m =
     (if vm_cptr m = length (cbuf s) then Some (Cont m)
      else if \<not> multi_line s then no_match s nr m
      else do {
        c \<leftarrow> peek_char s (vm_cptr m) (length (cbuf s));
        if \<not> is_line_terminator c then no_match s nr m else Some (Cont m)
      })"

definition op_dot :: "REExecContext \<Rightarrow> bool \<Rightarrow> vm \<Rightarrow> step_res option" where
  "op_dot s nr m =
     (if vm_cptr m = length (cbuf s) then no_match s nr m
      else do {
        (c, cp) \<leftarrow> get_char s (vm_cptr m) (length (cbuf s));
        let m = m\<lparr>vm_cptr := cp\<rparr>;
        if is_line_terminator c then no_match s nr m else Some (Cont m)
      })"

definition op_any :: "REExecContext \<Rightarrow> bool \<Rightarrow> vm \<Rightarrow> step_res option" where
  "op_any s nr m =
     (if vm_cptr m = length (cbuf s) then no_match s nr m
      else do {
        (c, cp) \<leftarrow> get_char s (vm_cptr m) (length (cbuf s));
        Some (Cont (m\<lparr>vm_cptr := cp\<rparr>))
      })"

text \<open>\<open>is_end\<close> is \<open>opcode - REOP_save_start\<close>.\<close>

definition op_save :: "REExecContext \<Rightarrow> nat \<Rightarrow> vm \<Rightarrow> step_res option" where
  "op_save s is_end m = do {
     b \<leftarrow> rd (ctx_code s) (vm_pc m);
     let val = unat b;
     if val < capture_count s
     then do {
       cap \<leftarrow> wr (vm_capture m) (2 * val + is_end) (Some (vm_cptr m));
       Some (Cont (next_pc 1 (m\<lparr>vm_capture := cap\<rparr>)))
     }
     else None
   }"

function reset_captures :: "nat option list \<Rightarrow> nat \<Rightarrow> nat \<Rightarrow> nat option list option" where
  "reset_captures cap val val2 =
     (if val \<le> val2
      then do {
        cap \<leftarrow> wr cap (2 * val) None;
        cap \<leftarrow> wr cap (2 * val + 1) None;
        reset_captures cap (val + 1) val2
      }
      else Some cap)"
  by pat_completeness auto
termination by (relation "measure (\<lambda>(cap, val, val2). Suc val2 - val)") auto

declare reset_captures.simps [simp del]

definition op_save_reset :: "REExecContext \<Rightarrow> vm \<Rightarrow> step_res option" where
  "op_save_reset s m = do {
     b \<leftarrow> rd (ctx_code s) (vm_pc m);
     b2 \<leftarrow> rd (ctx_code s) (vm_pc m + 1);
     if unat b2 < capture_count s
     then do {
       cap \<leftarrow> reset_captures (vm_capture m) (unat b) (unat b2);
       Some (Cont (next_pc 2 (m\<lparr>vm_capture := cap\<rparr>)))
     }
     else None
   }"

text \<open>Pushing on the evaluation stack; a pop of the empty stack is outside the array.\<close>

definition push_stack :: "StackInt \<Rightarrow> vm \<Rightarrow> step_res option" where
  "push_stack v m = do {
     st \<leftarrow> wr (vm_stack m) (vm_stack_len m) v;
     Some (Cont (m\<lparr>vm_stack := st, vm_stack_len := vm_stack_len m + 1\<rparr>))
   }"

definition op_push_i32 :: "REExecContext \<Rightarrow> vm \<Rightarrow> step_res option" where
  "op_push_i32 s m = do { val \<leftarrow> get_u32 (ctx_code s) (vm_pc m); push_stack (SInt val) (next_pc 4 m) }"

definition op_drop :: "vm \<Rightarrow> step_res option" where
  "op_drop m = (if vm_stack_len m = 0 then None else Some (Cont (m\<lparr>vm_stack_len := vm_stack_len m - 1\<rparr>)))"

definition branch :: "bool \<Rightarrow> u32 \<Rightarrow> vm \<Rightarrow> step_res option" where
  "branch taken val m =
     (if taken then do { q \<leftarrow> jump (vm_pc m) val; Some (Cont (m\<lparr>vm_pc := q\<rparr>)) } else Some (Cont m))"

definition op_loop :: "REExecContext \<Rightarrow> vm \<Rightarrow> step_res option" where
  "op_loop s m = do {
     val \<leftarrow> get_u32 (ctx_code s) (vm_pc m);
     if vm_stack_len m = 0 then None
     else do {
       v \<leftarrow> rd (vm_stack m) (vm_stack_len m - 1);
       case v of
         SInt n \<Rightarrow> branch (n - 1 \<noteq> 0) val (next_pc 4 (m\<lparr>vm_stack := (vm_stack m)[vm_stack_len m - 1 := SInt (n - 1)]\<rparr>))
       | _ \<Rightarrow> None
     }
   }"

definition op_push_char_pos :: "vm \<Rightarrow> step_res option" where
  "op_push_char_pos m = push_stack (SPos (vm_cptr m)) m"

definition op_bne_char_pos :: "REExecContext \<Rightarrow> vm \<Rightarrow> step_res option" where
  "op_bne_char_pos s m = do {
     val \<leftarrow> get_u32 (ctx_code s) (vm_pc m);
     if vm_stack_len m = 0 then None
     else do {
       v \<leftarrow> rd (vm_stack m) (vm_stack_len m - 1);
       case v of
         SPos p \<Rightarrow> branch (p \<noteq> vm_cptr m) val (next_pc 4 (m\<lparr>vm_stack_len := vm_stack_len m - 1\<rparr>))
       | _ \<Rightarrow> None
     }
   }"

definition op_word_boundary :: "REExecContext \<Rightarrow> bool \<Rightarrow> bool \<Rightarrow> vm \<Rightarrow> step_res option" where
  "op_word_boundary s nr negated m = do {
     v1 \<leftarrow> (if vm_cptr m = 0 then Some False
           else do { c \<leftarrow> peek_prev_char s (vm_cptr m) 0; Some (is_word_char c) });
     v2 \<leftarrow> (if vm_cptr m \<ge> length (cbuf s) then Some False
           else do { c \<leftarrow> peek_char s (vm_cptr m) (length (cbuf s)); Some (is_word_char c) });
     if (v1 \<noteq> v2) = negated then no_match s nr m else Some (Cont m)
   }"

lemma get_char_advances: "get_char s p e = Some (c, p') \<Longrightarrow> p < p' \<and> p' \<le> p + 2"
  by (auto simp: get_char_def split: if_splits bind_splits)

lemma get_prev_char_retreats: "get_prev_char s p e = Some (c, p') \<Longrightarrow> p' < p"
  by (auto simp: get_prev_char_def Let_def split: if_splits bind_splits)

text \<open>
  The two loops of a back reference; the result is the character pointer after the copy, or
  \<open>Some None\<close> for a jump to \<open>no_match\<close>.
\<close>

function back_ref :: "REExecContext \<Rightarrow> nat \<Rightarrow> nat \<Rightarrow> nat \<Rightarrow> nat option option" where
  "back_ref s cp1 cp1_end cp =
     (if cp1 < cp1_end
      then if cp \<ge> length (cbuf s) then Some None
      else do {
        (c1, cp1') \<leftarrow> get_char s cp1 cp1_end;
        (c2, cp') \<leftarrow> get_char s cp (length (cbuf s));
        c1 \<leftarrow> canon s c1;
        c2 \<leftarrow> canon s c2;
        if c1 \<noteq> c2 then Some None else back_ref s cp1' cp1_end cp'
      }
      else Some (Some cp))"
  by pat_completeness auto
termination
  by (relation "measure (\<lambda>(s, cp1, cp1_end, cp). cp1_end - cp1)") (auto dest!: get_char_advances)

function backward_back_ref :: "REExecContext \<Rightarrow> nat \<Rightarrow> nat \<Rightarrow> nat \<Rightarrow> nat option option" where
  "backward_back_ref s cp1 cp1_start cp =
     (if cp1 > cp1_start
      then if cp = 0 then Some None
      else do {
        (c1, cp1') \<leftarrow> get_prev_char s cp1 cp1_start;
        (c2, cp') \<leftarrow> get_prev_char s cp 0;
        c1 \<leftarrow> canon s c1;
        c2 \<leftarrow> canon s c2;
        if c1 \<noteq> c2 then Some None else backward_back_ref s cp1' cp1_start cp'
      }
      else Some (Some cp))"
  by pat_completeness auto
termination
  by (relation "measure (\<lambda>(s, cp1, cp1_start, cp). cp1)") (auto dest!: get_prev_char_retreats)

declare back_ref.simps [simp del] backward_back_ref.simps [simp del]

definition op_back_reference :: "REExecContext \<Rightarrow> bool \<Rightarrow> bool \<Rightarrow> vm \<Rightarrow> step_res option" where
  "op_back_reference s nr backward m = do {
     b \<leftarrow> rd (ctx_code s) (vm_pc m);
     let m = next_pc 1 m;
     let val = unat b;
     if val \<ge> capture_count s then no_match s nr m
     else do {
       c0 \<leftarrow> rd (vm_capture m) (2 * val);
       c1 \<leftarrow> rd (vm_capture m) (2 * val + 1);
       case (c0, c1) of
         (Some cp1_start, Some cp1_end) \<Rightarrow> do {
           r \<leftarrow> (if backward then backward_back_ref s cp1_end cp1_start (vm_cptr m)
                else back_ref s cp1_start cp1_end (vm_cptr m));
           case r of None \<Rightarrow> no_match s nr m | Some cp \<Rightarrow> Some (Cont (m\<lparr>vm_cptr := cp\<rparr>))
         }
       | _ \<Rightarrow> Some (Cont m)
     }
   }"

text \<open>
  The binary search of the range opcodes, on unsigned 32 bit indices: \<open>get\<close> reads a bound and an
  entry takes \<open>2 * w\<close> bytes.
\<close>

partial_function (option) range_search ::
  "(nat \<Rightarrow> u32 option) \<Rightarrow> nat \<Rightarrow> nat \<Rightarrow> int \<Rightarrow> nat \<Rightarrow> nat \<Rightarrow> bool option" where
  "range_search get w p c idx_min idx_max =
     (if idx_min \<le> idx_max
      then do {
        let idx = (idx_min + idx_max) mod 2 ^ 32 div 2;
        low \<leftarrow> get (p + (idx * (2 * w)) mod 2 ^ 32);
        high \<leftarrow> get (p + (idx * (2 * w)) mod 2 ^ 32 + w);
        if c < uint low then range_search get w p c idx_min ((idx + (2 ^ 32 - 1)) mod 2 ^ 32)
        else if c > uint high then range_search get w p c (idx + 1) idx_max
        else Some True
      }
      else Some False)"

declare range_search.simps [code]

definition range_match16 :: "byte list \<Rightarrow> nat \<Rightarrow> nat \<Rightarrow> int \<Rightarrow> bool option" where
  "range_match16 code p n c = do {
     low \<leftarrow> get_u16 code p;
     if c < uint low then Some False
     else do {
       let idx_max = (n + (2 ^ 32 - 1)) mod 2 ^ 32;
       high \<leftarrow> get_u16 code (p + (idx_max * 4) mod 2 ^ 32 + 2);
       if c \<ge> 0xffff \<and> high = 0xffff then Some True
       else if c > uint high then Some False
       else range_search (get_u16 code) 2 p c 0 idx_max
     }
   }"

definition range_match32 :: "byte list \<Rightarrow> nat \<Rightarrow> nat \<Rightarrow> int \<Rightarrow> bool option" where
  "range_match32 code p n c = do {
     low \<leftarrow> get_u32 code p;
     if c < uint low then Some False
     else do {
       let idx_max = (n + (2 ^ 32 - 1)) mod 2 ^ 32;
       high \<leftarrow> get_u32 code (p + (idx_max * 8) mod 2 ^ 32 + 4);
       if c > uint high then Some False
       else range_search (get_u32 code) 4 p c 0 idx_max
     }
   }"

definition op_range_with :: "(byte list \<Rightarrow> nat \<Rightarrow> nat \<Rightarrow> int \<Rightarrow> bool option) \<Rightarrow> nat \<Rightarrow> REExecContext \<Rightarrow> bool \<Rightarrow> vm \<Rightarrow> step_res option" where
  "op_range_with range_match w s nr m = do {
     n \<leftarrow> get_u16 (ctx_code s) (vm_pc m);
     let m = next_pc 2 m;
     if vm_cptr m \<ge> length (cbuf s) then no_match s nr m
     else do {
       (c, cp) \<leftarrow> get_char s (vm_cptr m) (length (cbuf s));
       c \<leftarrow> canon s c;
       let m = m\<lparr>vm_cptr := cp\<rparr>;
       matched \<leftarrow> range_match (ctx_code s) (vm_pc m) (unat n) c;
       if matched then Some (Cont (next_pc (2 * w * unat n) m)) else no_match s nr m
     }
   }"

definition op_range :: "REExecContext \<Rightarrow> bool \<Rightarrow> vm \<Rightarrow> step_res option" where
  "op_range s nr m = op_range_with range_match16 2 s nr m"

definition op_range32 :: "REExecContext \<Rightarrow> bool \<Rightarrow> vm \<Rightarrow> step_res option" where
  "op_range32 s nr m = op_range_with range_match32 4 s nr m"

definition op_prev :: "REExecContext \<Rightarrow> bool \<Rightarrow> vm \<Rightarrow> step_res option" where
  "op_prev s nr m =
     (if vm_cptr m = 0 then no_match s nr m
      else do { cp \<leftarrow> prev_char s (vm_cptr m) 0; Some (Cont (m\<lparr>vm_cptr := cp\<rparr>)) })"

definition op_simple_greedy_quant :: "REExecContext \<Rightarrow> vm \<Rightarrow> step_res option" where
  "op_simple_greedy_quant s m = do {
     next_pos \<leftarrow> get_u32 (ctx_code s) (vm_pc m);
     quant_min \<leftarrow> get_u32 (ctx_code s) (vm_pc m + 4);
     quant_max \<leftarrow> get_u32 (ctx_code s) (vm_pc m + 8);
     let pc1 = vm_pc m + 16;
     q \<leftarrow> jump pc1 next_pos;
     Some (Greedy pc1 quant_min quant_max (m\<lparr>vm_pc := q\<rparr>))
   }"

definition op_match :: "REExecContext \<Rightarrow> bool \<Rightarrow> vm \<Rightarrow> step_res option" where
  "op_match s nr m = (if nr then Some (Halt (Ret_ptr (vm_cptr m)) m) else re_recurse s True m (state_stack m))"

section \<open>The interpreter\<close>

text \<open>The switch of \<open>lre_exec_backtrack\<close>.\<close>

definition re_dispatch :: "REExecContext \<Rightarrow> bool \<Rightarrow> REOPCodeEnum \<Rightarrow> vm \<Rightarrow> step_res option" where
  "re_dispatch s nr opcode m =
     (case opcode of
        REOP_match \<Rightarrow> op_match s nr m
      | REOP_char32 \<Rightarrow> op_char32 s nr m
      | REOP_char \<Rightarrow> op_char s nr m
      | REOP_split_goto_first \<Rightarrow> op_split s False m
      | REOP_split_next_first \<Rightarrow> op_split s True m
      | REOP_lookahead \<Rightarrow> op_lookahead s RE_EXEC_STATE_LOOKAHEAD m
      | REOP_negative_lookahead \<Rightarrow> op_lookahead s RE_EXEC_STATE_NEGATIVE_LOOKAHEAD m
      | REOP_goto \<Rightarrow> op_goto s m
      | REOP_line_start \<Rightarrow> op_line_start s nr m
      | REOP_line_end \<Rightarrow> op_line_end s nr m
      | REOP_dot \<Rightarrow> op_dot s nr m
      | REOP_any \<Rightarrow> op_any s nr m
      | REOP_save_start \<Rightarrow> op_save s 0 m
      | REOP_save_end \<Rightarrow> op_save s 1 m
      | REOP_save_reset \<Rightarrow> op_save_reset s m
      | REOP_push_i32 \<Rightarrow> op_push_i32 s m
      | REOP_drop \<Rightarrow> op_drop m
      | REOP_loop \<Rightarrow> op_loop s m
      | REOP_push_char_pos \<Rightarrow> op_push_char_pos m
      | REOP_bne_char_pos \<Rightarrow> op_bne_char_pos s m
      | REOP_word_boundary \<Rightarrow> op_word_boundary s nr False m
      | REOP_not_word_boundary \<Rightarrow> op_word_boundary s nr True m
      | REOP_back_reference \<Rightarrow> op_back_reference s nr False m
      | REOP_backward_back_reference \<Rightarrow> op_back_reference s nr True m
      | REOP_range \<Rightarrow> op_range s nr m
      | REOP_range32 \<Rightarrow> op_range32 s nr m
      | REOP_prev \<Rightarrow> op_prev s nr m
      | REOP_simple_greedy_quant \<Rightarrow> op_simple_greedy_quant s m
      | REOP_invalid \<Rightarrow> None)"

definition re_step :: "REExecContext \<Rightarrow> bool \<Rightarrow> vm \<Rightarrow> step_res option" where
  "re_step s nr m = do {
     b \<leftarrow> rd (ctx_code s) (vm_pc m);
     opcode \<leftarrow> reop_of b;
     re_dispatch s nr opcode (next_pc 1 m)
   }"

text \<open>The end of \<open>REOP_simple_greedy_quant\<close>, after \<open>q\<close> copies of the atom.\<close>

definition greedy_end :: "REExecContext \<Rightarrow> bool \<Rightarrow> nat \<Rightarrow> u32 \<Rightarrow> nat \<Rightarrow> vm \<Rightarrow> step_res option" where
  "greedy_end s nr pc1 quant_min q m =
     (if q < unat quant_min then no_match s nr m
      else if q > unat quant_min
      then push_or_fail s m (pc1 - 16) (vm_cptr m) RE_EXEC_STATE_GREEDY_QUANT (q - unat quant_min)
      else Some (Cont m))"

text \<open>
  Runs are bounded by fuel: \<open>Timeout\<close> when it is used up, \<open>Undefined\<close> for undefined behaviour.
\<close>

datatype 'a run = Timeout | Undefined | Done 'a

fun exec_backtrack :: "nat \<Rightarrow> REExecContext \<Rightarrow> bool \<Rightarrow> vm \<Rightarrow> (exec_ret \<times> vm) run"
  and greedy_loop :: "nat \<Rightarrow> REExecContext \<Rightarrow> nat \<Rightarrow> u32 \<Rightarrow> nat \<Rightarrow> vm \<Rightarrow> (nat option \<times> vm) run" where
  "exec_backtrack 0 s nr m = Timeout"
| "exec_backtrack (Suc n) s nr m =
     (case re_step s nr m of
        None \<Rightarrow> Undefined
      | Some (Cont m') \<Rightarrow> exec_backtrack n s nr m'
      | Some (Halt r m') \<Rightarrow> Done (r, m')
      | Some (Greedy pc1 quant_min quant_max m') \<Rightarrow>
          (case greedy_loop n s pc1 quant_max 0 m' of
             Timeout \<Rightarrow> Timeout
           | Undefined \<Rightarrow> Undefined
           | Done (None, m'') \<Rightarrow> Done (Ret_error, m'')
           | Done (Some q, m'') \<Rightarrow>
               (case greedy_end s nr pc1 quant_min q m'' of
                  None \<Rightarrow> Undefined
                | Some (Halt r m3) \<Rightarrow> Done (r, m3)
                | Some (Cont m3) \<Rightarrow> exec_backtrack n s nr m3
                | Some (Greedy _ _ _ _) \<Rightarrow> Undefined)))"
| "greedy_loop 0 s pc1 quant_max q m = Timeout"
| "greedy_loop (Suc n) s pc1 quant_max q m =
     (case exec_backtrack n s True (m\<lparr>vm_pc := pc1\<rparr>) of
        Timeout \<Rightarrow> Timeout
      | Undefined \<Rightarrow> Undefined
      | Done (r, m') \<Rightarrow>
          (let restored = m'\<lparr>vm_pc := vm_pc m, vm_stack_len := vm_stack_len m, vm_cptr := vm_cptr m\<rparr> in
           case r of
             Ret_error \<Rightarrow> Done (None, restored)
           | Ret_no_match \<Rightarrow> Done (Some q, restored)
           | Ret_ptr p \<Rightarrow>
               if q + 1 \<ge> unat quant_max \<and> quant_max \<noteq> 0x7fffffff
               then Done (Some (q + 1), restored\<lparr>vm_cptr := p\<rparr>)
               else greedy_loop n s pc1 quant_max (q + 1) (restored\<lparr>vm_cptr := p\<rparr>)
           | Ret_match \<Rightarrow> Undefined))"

definition RE_HEADER_FLAGS :: nat where "RE_HEADER_FLAGS = 0"
definition RE_HEADER_CAPTURE_COUNT :: nat where "RE_HEADER_CAPTURE_COUNT = 1"
definition RE_HEADER_STACK_SIZE :: nat where "RE_HEADER_STACK_SIZE = 2"
definition RE_HEADER_LEN :: nat where "RE_HEADER_LEN = 7"

definition lre_context :: "byte list \<Rightarrow> int list \<Rightarrow> nat \<Rightarrow> (nat \<Rightarrow> bool) \<Rightarrow> REExecContext option" where
  "lre_context bc_buf buf ctype alloc = do {
     re_flags \<leftarrow> rd bc_buf RE_HEADER_FLAGS;
     count \<leftarrow> rd bc_buf RE_HEADER_CAPTURE_COUNT;
     stack_size \<leftarrow> rd bc_buf RE_HEADER_STACK_SIZE;
     let utf16 = bit re_flags 4;
     Some \<lparr>ctx_code = bc_buf, cbuf = buf, cbuf_type = (if ctype = 1 \<and> utf16 then 2 else ctype),
       capture_count = unat count, stack_size_max = unat stack_size, multi_line = bit re_flags 2,
       ignore_case = bit re_flags 1, is_utf16 = utf16, state_alloc = alloc\<rparr>
   }"

definition init_vm :: "REExecContext \<Rightarrow> nat \<Rightarrow> vm" where
  "init_vm s cindex = \<lparr>vm_capture = replicate (2 * capture_count s) None,
     vm_stack = replicate (stack_size_max s) SUndef, vm_stack_len = 0, vm_pc = RE_HEADER_LEN,
     vm_cptr = cindex, state_stack = [], state_stack_size = 0\<rparr>"

definition lre_exec :: "nat \<Rightarrow> byte list \<Rightarrow> int list \<Rightarrow> nat \<Rightarrow> nat \<Rightarrow> (nat \<Rightarrow> bool) \<Rightarrow> (exec_ret \<times> nat option list) run" where
  "lre_exec fuel bc_buf buf cindex ctype alloc =
     (case lre_context bc_buf buf ctype alloc of
        None \<Rightarrow> Undefined
      | Some s \<Rightarrow>
          (case exec_backtrack fuel s False (init_vm s cindex) of
             Timeout \<Rightarrow> Timeout
           | Undefined \<Rightarrow> Undefined
           | Done (r, m) \<Rightarrow> Done (r, vm_capture m)))"

definition lre_get_capture_count :: "byte list \<Rightarrow> byte option" where
  "lre_get_capture_count bc_buf = rd bc_buf RE_HEADER_CAPTURE_COUNT"

definition lre_get_flags :: "byte list \<Rightarrow> byte option" where
  "lre_get_flags bc_buf = rd bc_buf RE_HEADER_FLAGS"

end
