(* ===== verification/Lre_Safe.thy ===== *)
theory Lre_Safe
  imports Lre_Exec
begin

text \<open>
  A byte code verifier for the regular expression machine and its soundness: checked code never
  leaves the objects it works on, whatever the subject, the flags and the number of steps.

  The verifier assigns to each program point the types of the evaluation stack, as a Java byte code
  verifier does; \<open>None\<close> marks points the code does not reach.
\<close>

section \<open>The verifier\<close>

datatype sty = TInt | TPos

type_synonym typing = "nat \<Rightarrow> sty list option"

fun has_sty :: "StackInt \<Rightarrow> sty \<Rightarrow> bool" where
  "has_sty (SInt v) TInt = True"
| "has_sty (SPos p) TPos = True"
| "has_sty _ _ = False"

text \<open>The number of characters a straight-line atom consumes, up to its \<open>REOP_match\<close>.\<close>

definition range_size :: "byte list \<Rightarrow> nat \<Rightarrow> nat \<Rightarrow> nat option" where
  "range_size code p w =
     (case get_u16 code (p + 1) of
        None \<Rightarrow> None
      | Some n \<Rightarrow> if 1 \<le> unat n \<and> p + 3 + w * unat n \<le> length code then Some (3 + w * unat n) else None)"

definition simple_size :: "byte list \<Rightarrow> nat \<Rightarrow> (nat \<times> nat) option" where
  "simple_size code p =
     (case Option.bind (rd code p) reop_of of
        Some REOP_char \<Rightarrow> if p + 3 \<le> length code then Some (3, 1) else None
      | Some REOP_char32 \<Rightarrow> if p + 5 \<le> length code then Some (5, 1) else None
      | Some REOP_dot \<Rightarrow> Some (1, 1)
      | Some REOP_any \<Rightarrow> Some (1, 1)
      | Some REOP_range \<Rightarrow> map_option (\<lambda>n. (n, 1)) (range_size code p 4)
      | Some REOP_range32 \<Rightarrow> map_option (\<lambda>n. (n, 1)) (range_size code p 8)
      | Some REOP_line_start \<Rightarrow> Some (1, 0)
      | Some REOP_line_end \<Rightarrow> Some (1, 0)
      | Some REOP_word_boundary \<Rightarrow> Some (1, 0)
      | Some REOP_not_word_boundary \<Rightarrow> Some (1, 0)
      | _ \<Rightarrow> None)"

lemma simple_size_pos: "simple_size code p = Some (n, k) \<Longrightarrow> 0 < n \<and> p < length code"
  by (auto simp: simple_size_def range_size_def rd_def split: option.splits REOPCodeEnum.splits if_splits bind_splits)

function simple_chars :: "byte list \<Rightarrow> nat \<Rightarrow> nat option" where
  "simple_chars code p =
     (if Option.bind (rd code p) reop_of = Some REOP_match then Some 0
      else case simple_size code p of
        None \<Rightarrow> None
      | Some (n, k) \<Rightarrow> map_option (\<lambda>r. k + r) (simple_chars code (p + n)))"
  by pat_completeness auto
termination by (relation "measure (\<lambda>(code, p). length code - p)") (auto dest: simple_size_pos)

declare simple_chars.simps [simp del]

definition target :: "byte list \<Rightarrow> nat \<Rightarrow> nat \<Rightarrow> nat option" where
  "target code p q = (case get_u32 code p of None \<Rightarrow> None | Some v \<Rightarrow> jump q v)"

definition goes :: "typing \<Rightarrow> nat option \<Rightarrow> sty list \<Rightarrow> bool" where
  "goes ty q T = (case q of None \<Rightarrow> False | Some p \<Rightarrow> ty p = Some T)"

definition greedy_ok :: "byte list \<Rightarrow> nat \<Rightarrow> bool" where
  "greedy_ok code p \<longleftrightarrow> p + 16 \<le> length code \<and>
     (case get_u32 code (p + 12) of None \<Rightarrow> False | Some cc \<Rightarrow> simple_chars code (p + 16) = Some (unat cc))"

definition check_op :: "REExecContext \<Rightarrow> typing \<Rightarrow> nat \<Rightarrow> sty list \<Rightarrow> REOPCodeEnum \<Rightarrow> bool" where
  "check_op s ty p T opcode =
     (let code = ctx_code s; arg5 = (p + 5 \<le> length code) in
      case opcode of
        REOP_match \<Rightarrow> True
      | REOP_goto \<Rightarrow> arg5 \<and> goes ty (target code (p + 1) (p + 5)) T
      | REOP_split_goto_first \<Rightarrow> arg5 \<and> ty (p + 5) = Some T \<and> goes ty (target code (p + 1) (p + 5)) T
      | REOP_split_next_first \<Rightarrow> arg5 \<and> ty (p + 5) = Some T \<and> goes ty (target code (p + 1) (p + 5)) T
      | REOP_lookahead \<Rightarrow> arg5 \<and> ty (p + 5) = Some T \<and> goes ty (target code (p + 1) (p + 5)) T
      | REOP_negative_lookahead \<Rightarrow> arg5 \<and> ty (p + 5) = Some T \<and> goes ty (target code (p + 1) (p + 5)) T
      | REOP_prev \<Rightarrow> ty (p + 1) = Some T
      | REOP_save_start \<Rightarrow> p + 2 \<le> length code \<and> unat (code ! (p + 1)) < capture_count s \<and> ty (p + 2) = Some T
      | REOP_save_end \<Rightarrow> p + 2 \<le> length code \<and> unat (code ! (p + 1)) < capture_count s \<and> ty (p + 2) = Some T
      | REOP_save_reset \<Rightarrow> p + 3 \<le> length code \<and> unat (code ! (p + 2)) < capture_count s \<and> ty (p + 3) = Some T
      | REOP_push_i32 \<Rightarrow> arg5 \<and> length T < stack_size_max s \<and> ty (p + 5) = Some (T @ [TInt])
      | REOP_push_char_pos \<Rightarrow> length T < stack_size_max s \<and> ty (p + 1) = Some (T @ [TPos])
      | REOP_drop \<Rightarrow> T \<noteq> [] \<and> ty (p + 1) = Some (butlast T)
      | REOP_loop \<Rightarrow> arg5 \<and> T \<noteq> [] \<and> last T = TInt \<and> ty (p + 5) = Some T \<and> goes ty (target code (p + 1) (p + 5)) T
      | REOP_bne_char_pos \<Rightarrow> arg5 \<and> T \<noteq> [] \<and> last T = TPos \<and> ty (p + 5) = Some (butlast T) \<and>
          goes ty (target code (p + 1) (p + 5)) (butlast T)
      | REOP_back_reference \<Rightarrow> p + 2 \<le> length code \<and> ty (p + 2) = Some T
      | REOP_backward_back_reference \<Rightarrow> p + 2 \<le> length code \<and> ty (p + 2) = Some T
      | REOP_simple_greedy_quant \<Rightarrow> greedy_ok code (p + 1) \<and> goes ty (target code (p + 1) (p + 17)) T
      | REOP_invalid \<Rightarrow> False
      | _ \<Rightarrow> (case simple_size code p of None \<Rightarrow> False | Some (n, k) \<Rightarrow> ty (p + n) = Some T))"

definition check_pc :: "REExecContext \<Rightarrow> typing \<Rightarrow> nat \<Rightarrow> bool" where
  "check_pc s ty p =
     (case ty p of
        None \<Rightarrow> True
      | Some T \<Rightarrow> (case Option.bind (rd (ctx_code s) p) reop_of of None \<Rightarrow> False | Some opcode \<Rightarrow> check_op s ty p T opcode))"

text \<open>
  The typing is a finite table, so the check is a computation.
\<close>

definition check_code :: "REExecContext \<Rightarrow> (nat \<times> sty list) list \<Rightarrow> bool" where
  "check_code s tab \<longleftrightarrow> map_of tab RE_HEADER_LEN = Some [] \<and> list_all (\<lambda>(p, T). check_pc s (map_of tab) p) tab"

lemma check_code_pc: "check_code s tab \<Longrightarrow> check_pc s (map_of tab) p"
proof (cases "map_of tab p")
  case (Some T)
  assume "check_code s tab"
  then show ?thesis using map_of_SomeD [OF Some] unfolding check_code_def list_all_iff by blast
qed (simp add: check_pc_def)

section \<open>Walking through the subject\<close>

definition subject_ok :: "REExecContext \<Rightarrow> bool" where
  "subject_ok s \<longleftrightarrow> list_all (\<lambda>c. 0 \<le> c \<and> c < 2 ^ 16) (cbuf s) \<and> cbuf_type s \<le> 2 \<and>
     capture_count s \<le> 255 \<and> stack_size_max s \<le> 255"

lemma unit_range: "subject_ok s \<Longrightarrow> p < length (cbuf s) \<Longrightarrow> 0 \<le> cbuf s ! p \<and> cbuf s ! p < 2 ^ 16"
  by (simp add: subject_ok_def list_all_length)

lemma surrogate_pair_range: "0 \<le> surrogate_pair a b \<and> surrogate_pair a b < 2 ^ 32"
proof -
  have "0 \<le> a mod 1024" "a mod 1024 < 1024" "0 \<le> b mod 1024" "b mod 1024 < 1024" by auto
  then show ?thesis by (simp add: surrogate_pair_def)
qed

text \<open>The number of times \<open>PREV_CHAR\<close> can be applied.\<close>

lemma prev_char_less: "prev_char s p e = Some p' \<Longrightarrow> p' < p"
  by (auto simp: prev_char_def Let_def split: if_splits bind_splits)

function prevs :: "REExecContext \<Rightarrow> nat \<Rightarrow> nat" where
  "prevs s p = (case prev_char s p 0 of None \<Rightarrow> 0 | Some p' \<Rightarrow> Suc (prevs s p'))"
  by pat_completeness auto
termination by (relation "measure snd") (auto dest: prev_char_less)

declare prevs.simps [simp del]

lemma prev_char_eq:
  assumes "0 < p" "p \<le> length (cbuf s)"
  shows "prev_char s p 0 = Some (if cbuf_type s = 2 \<and> is_low (cbuf s ! (p - 1)) \<and> 1 < p \<and> is_high (cbuf s ! (p - 2))
    then p - 2 else p - 1)"
proof -
  have "rd (cbuf s) (p - 1) = Some (cbuf s ! (p - 1))" "rd (cbuf s) (p - 2) = Some (cbuf s ! (p - 2))" "p - 1 - 1 = p - 2"
    using assms by (simp_all add: rd_def)
  then show ?thesis using assms(1) by (simp add: prev_char_def Let_def)
qed

lemma prev_char_Some: "0 < p \<Longrightarrow> p \<le> length (cbuf s) \<Longrightarrow> \<exists>p'. prev_char s p 0 = Some p' \<and> p' < p"
  by (simp add: prev_char_eq)

lemma prevs_0 [simp]: "prevs s 0 = 0"
  by (simp add: prevs.simps prev_char_def)

lemma prev_chars_Some:
  "n \<le> prevs s p \<Longrightarrow> p \<le> length (cbuf s) \<Longrightarrow> \<exists>p'. prev_chars s n p = Some p' \<and> p' \<le> p \<and> prevs s p' = prevs s p - n"
proof (induction n arbitrary: p)
  case (Suc n)
  then have "0 < p" by (cases p) auto
  with Suc.prems obtain p1 where p1: "prev_char s p 0 = Some p1" "p1 < p" using prev_char_Some by blast
  then have "prevs s p = Suc (prevs s p1)" by (simp add: prevs.simps [of s p])
  with Suc p1 show ?case by (fastforce intro: Suc.IH [THEN exE])
qed simp

definition mid_pair :: "REExecContext \<Rightarrow> nat \<Rightarrow> bool" where
  "mid_pair s p \<longleftrightarrow> cbuf_type s = 2 \<and> 0 < p \<and> p < length (cbuf s) \<and> is_high (cbuf s ! (p - 1)) \<and> is_low (cbuf s ! p)"

definition chars_to :: "REExecContext \<Rightarrow> nat \<Rightarrow> int" where
  "chars_to s p = int (prevs s p) - of_bool (mid_pair s p)"

lemma high_not_low [simp]: "is_high c \<Longrightarrow> \<not> is_low c" "is_low c \<Longrightarrow> \<not> is_high c"
  by (auto simp: is_high_def is_low_def)

lemma prevs_mid: "mid_pair s p \<Longrightarrow> prevs s p = Suc (prevs s (p - 1))"
  by (subst prevs.simps) (auto simp: mid_pair_def prev_char_eq)

lemma chars_to_bounds: "0 \<le> chars_to s p \<and> chars_to s p \<le> int (prevs s p)"
  by (auto simp: chars_to_def prevs_mid)

lemma prevs_Suc:
  "p < length (cbuf s) \<Longrightarrow> prevs s (Suc p) = Suc (prevs s (if mid_pair s p then p - 1 else p))"
  by (subst prevs.simps) (auto simp: mid_pair_def prev_char_eq)

lemma get_char_ok:
  assumes "subject_ok s" "p < length (cbuf s)"
  shows "\<exists>c p'. get_char s p (length (cbuf s)) = Some (c, p') \<and> 0 \<le> c \<and> c < 2 ^ 32 \<and> p < p' \<and> p' \<le> length (cbuf s) \<and>
    chars_to s p' = chars_to s p + 1"
proof -
  define pair where "pair \<longleftrightarrow> cbuf_type s = 2 \<and> is_high (cbuf s ! p) \<and> p + 1 < length (cbuf s) \<and> is_low (cbuf s ! (p + 1))"
  have c: "0 \<le> cbuf s ! p" "cbuf s ! p < 2 ^ 32" using unit_range [OF assms] by auto
  show ?thesis
  proof (cases pair)
    case True
    then have "\<not> mid_pair s p" "mid_pair s (p + 1)" "\<not> mid_pair s (p + 2)"
      by (auto simp: pair_def mid_pair_def)
    moreover have "get_char s p (length (cbuf s)) = Some (surrogate_pair (cbuf s ! p) (cbuf s ! (p + 1)), p + 2)"
      using True by (simp add: pair_def get_char_def rd_def)
    moreover have "prevs s (p + 2) = Suc (prevs s p)"
      using True prevs_Suc [of "p + 1" s] calculation by (simp add: pair_def)
    ultimately show ?thesis using surrogate_pair_range True by (auto simp: chars_to_def pair_def)
  next
    case False
    then have "\<not> mid_pair s (p + 1)" by (auto simp: pair_def mid_pair_def)
    moreover have "get_char s p (length (cbuf s)) = Some (cbuf s ! p, p + 1)"
      using False assms by (auto simp: pair_def get_char_def rd_def)
    moreover have "chars_to s (p + 1) = chars_to s p + 1"
      using prevs_Suc [of p s] assms calculation prevs_mid [of s p] by (auto simp: chars_to_def)
    ultimately show ?thesis using c assms by auto
  qed
qed

lemma canon_ok: "0 \<le> c \<Longrightarrow> c < 2 ^ 32 \<Longrightarrow> \<exists>c'. canon s c = Some c'"
  using lre_canonicalize_total [of c "is_utf16 s"] by (auto simp: canon_def)

lemma peek_char_ok: "p < length (cbuf s) \<Longrightarrow> \<exists>c. peek_char s p (length (cbuf s)) = Some c"
  by (auto simp: peek_char_def rd_def)

lemma peek_prev_char_ok: "0 < p \<Longrightarrow> p \<le> length (cbuf s) \<Longrightarrow> \<exists>c. peek_prev_char s p 0 = Some c"
  by (auto simp: peek_prev_char_def rd_def)

section \<open>Well-typed states\<close>

definition captures_ok :: "REExecContext \<Rightarrow> nat option list \<Rightarrow> bool" where
  "captures_ok s cap \<longleftrightarrow> length cap = 2 * capture_count s \<and>
     (\<forall>i < length cap. case cap ! i of None \<Rightarrow> True | Some p \<Rightarrow> p \<le> length (cbuf s))"

definition stack_ok :: "REExecContext \<Rightarrow> StackInt list \<Rightarrow> nat \<Rightarrow> sty list \<Rightarrow> bool" where
  "stack_ok s st n T \<longleftrightarrow> n = length T \<and> n \<le> stack_size_max s \<and> n \<le> length st \<and>
     (\<forall>i < n. has_sty (st ! i) (T ! i))"

definition greedy_state_ok :: "REExecContext \<Rightarrow> typing \<Rightarrow> REExecState \<Rightarrow> sty list \<Rightarrow> bool" where
  "greedy_state_ok s ty rs T \<longleftrightarrow> greedy_ok (ctx_code s) (rs_pc rs) \<and> 0 < rs_count rs \<and>
     goes ty (target (ctx_code s) (rs_pc rs) (rs_pc rs + 16)) T \<and>
     (\<forall>cc. simple_chars (ctx_code s) (rs_pc rs + 16) = Some cc \<longrightarrow> rs_count rs * cc \<le> prevs s (rs_cptr rs))"

definition saved_ok :: "REExecContext \<Rightarrow> typing \<Rightarrow> REExecState \<Rightarrow> bool" where
  "saved_ok s ty rs \<longleftrightarrow> rs_cptr rs \<le> length (cbuf s) \<and> captures_ok s (rs_capture rs) \<and>
     (\<exists>T. stack_ok s (rs_stack rs) (rs_stack_len rs) T \<and>
       (if rs_type rs = RE_EXEC_STATE_GREEDY_QUANT then greedy_state_ok s ty rs T else ty (rs_pc rs) = Some T))"

definition frame_ok :: "REExecContext \<Rightarrow> typing \<Rightarrow> vm \<Rightarrow> bool" where
  "frame_ok s ty m \<longleftrightarrow> captures_ok s (vm_capture m) \<and> length (vm_stack m) = stack_size_max s \<and>
     (\<forall>rs \<in> set (state_stack m). saved_ok s ty rs)"

definition vm_ok :: "REExecContext \<Rightarrow> typing \<Rightarrow> vm \<Rightarrow> bool" where
  "vm_ok s ty m \<longleftrightarrow> frame_ok s ty m \<and> vm_cptr m \<le> length (cbuf s) \<and>
     (\<exists>T. ty (vm_pc m) = Some T \<and> stack_ok s (vm_stack m) (vm_stack_len m) T)"

text \<open>What a step may return.\<close>

fun step_ok :: "REExecContext \<Rightarrow> typing \<Rightarrow> step_res option \<Rightarrow> bool" where
  "step_ok s ty None = False"
| "step_ok s ty (Some (Cont m)) = vm_ok s ty m"
| "step_ok s ty (Some (Halt r m)) = captures_ok s (vm_capture m)"
| "step_ok s ty (Some (Greedy pc1 quant_min quant_max m)) =
     (vm_ok s ty m \<and> 16 \<le> pc1 \<and> greedy_ok (ctx_code s) (pc1 - 16) \<and>
      (\<exists>T. goes ty (target (ctx_code s) (pc1 - 16) pc1) T \<and> stack_ok s (vm_stack m) (vm_stack_len m) T))"

section \<open>Backtracking\<close>

lemma stack_restored:
  assumes "stack_ok s st n T" "length st' = stack_size_max s"
  shows "stack_ok s (take n st @ drop n st') n T" "length (take n st @ drop n st') = stack_size_max s"
  using assms by (auto simp: stack_ok_def nth_append)

lemma captures_restored:
  "captures_ok s cap \<Longrightarrow> captures_ok s cap' \<Longrightarrow> captures_ok s (cap @ drop (length cap) cap')"
  by (simp add: captures_ok_def)

lemma frame_restore_capture:
  "frame_ok s ty m \<Longrightarrow> saved_ok s ty rs \<Longrightarrow> frame_ok s ty (restore_capture m rs)"
  by (simp add: frame_ok_def restore_capture_def saved_ok_def captures_restored)

lemma frame_restore_stack:
  assumes "frame_ok s ty m" "stack_ok s (rs_stack rs) (rs_stack_len rs) T"
  shows "frame_ok s ty (restore_stack m rs) \<and>
    stack_ok s (vm_stack (restore_stack m rs)) (vm_stack_len (restore_stack m rs)) T"
  using assms stack_restored [OF assms(2), of "vm_stack m"] by (simp add: frame_ok_def restore_stack_def)

lemma frame_ok_tl: "frame_ok s ty m \<Longrightarrow> set rest \<subseteq> set (state_stack m) \<Longrightarrow> frame_ok s ty (m\<lparr>state_stack := rest\<rparr>)"
  by (auto simp: frame_ok_def)

lemma frame_ok_more [simp]:
  "frame_ok s ty (m\<lparr>vm_pc := p\<rparr>) = frame_ok s ty m"
  "frame_ok s ty (m\<lparr>vm_cptr := c\<rparr>) = frame_ok s ty m"
  "frame_ok s ty (m\<lparr>vm_stack_len := n\<rparr>) = frame_ok s ty m"
  by (simp_all add: frame_ok_def)

lemma pop_state1_ok:
  assumes "frame_ok s ty m" "saved_ok s ty rs" "rs_type rs \<noteq> RE_EXEC_STATE_GREEDY_QUANT" "\<forall>rs \<in> set rest. saved_ok s ty rs"
  shows "vm_ok s ty (pop_state1 m rs rest)"
proof -
  obtain T where T: "stack_ok s (rs_stack rs) (rs_stack_len rs) T" "ty (rs_pc rs) = Some T" "rs_cptr rs \<le> length (cbuf s)"
    using assms(2,3) by (auto simp: saved_ok_def)
  then show ?thesis using frame_restore_stack [OF assms(1) T(1)] assms(4)
    by (simp add: vm_ok_def pop_state1_def frame_ok_def)
qed

lemma simple_chars_unat:
  assumes "greedy_ok code p"
  obtains cc where "get_u32 code (p + 12) = Some cc" "simple_chars code (p + 16) = Some (unat cc)" "p + 16 \<le> length code"
  using assms by (auto simp: greedy_ok_def split: option.splits)

text \<open>Going back one copy of the atom of a greedy quantifier.\<close>

lemma greedy_state_back:
  assumes "saved_ok s ty rs" "rs_type rs = RE_EXEC_STATE_GREEDY_QUANT"
  obtains cc cp off pc T where
    "get_u32 (ctx_code s) (rs_pc rs + 12) = Some cc" "prev_chars s (unat cc) (rs_cptr rs) = Some cp"
    "get_u32 (ctx_code s) (rs_pc rs) = Some off" "jump (rs_pc rs + 16) off = Some pc"
    "ty pc = Some T" "stack_ok s (rs_stack rs) (rs_stack_len rs) T" "cp \<le> length (cbuf s)"
    "rs_count rs - 1 \<noteq> 0 \<Longrightarrow> saved_ok s ty (rs\<lparr>rs_cptr := cp, rs_count := rs_count rs - 1\<rparr>)"
proof -
  obtain T where T: "stack_ok s (rs_stack rs) (rs_stack_len rs) T" "greedy_state_ok s ty rs T"
    using assms by (auto simp: saved_ok_def)
  obtain cc where cc: "get_u32 (ctx_code s) (rs_pc rs + 12) = Some cc"
    "simple_chars (ctx_code s) (rs_pc rs + 16) = Some (unat cc)"
    using T(2) simple_chars_unat [of "ctx_code s" "rs_pc rs"] by (metis greedy_state_ok_def)
  obtain off pc where j: "get_u32 (ctx_code s) (rs_pc rs) = Some off" "jump (rs_pc rs + 16) off = Some pc" "ty pc = Some T"
    using T(2) by (auto simp: greedy_state_ok_def goes_def target_def split: option.splits)
  have n: "rs_count rs * unat cc \<le> prevs s (rs_cptr rs)" "0 < rs_count rs"
    using T(2) cc(2) by (auto simp: greedy_state_ok_def)
  then have "unat cc \<le> prevs s (rs_cptr rs)"
    by (metis One_nat_def Suc_leI le_trans mult.commute mult_le_mono2 mult.right_neutral)
  then obtain cp where cp: "prev_chars s (unat cc) (rs_cptr rs) = Some cp" "cp \<le> rs_cptr rs"
    "prevs s cp = prevs s (rs_cptr rs) - unat cc"
    using prev_chars_Some assms(1) by (metis saved_ok_def)
  have "(rs_count rs - 1) * unat cc \<le> prevs s cp"
    using n cp(3) by (simp add: diff_mult_distrib)
  then have "greedy_state_ok s ty (rs\<lparr>rs_cptr := cp, rs_count := rs_count rs - 1\<rparr>) T" if "rs_count rs - 1 \<noteq> 0"
    using T(2) cc that by (simp add: greedy_state_ok_def)
  then have "saved_ok s ty (rs\<lparr>rs_cptr := cp, rs_count := rs_count rs - 1\<rparr>)" if "rs_count rs - 1 \<noteq> 0"
    using that assms T(1) cp(2) by (auto simp: saved_ok_def)
  then show thesis using that [OF cc(1) cp(1) j T(1)] cp(2) assms(1) by (auto simp: saved_ok_def)
qed

lemma re_recurse_ok:
  assumes "frame_ok s ty m" "\<forall>rs \<in> set rest. saved_ok s ty rs"
  shows "step_ok s ty (re_recurse s ret m rest)"
  using assms(2)
proof (induction rest arbitrary: ret)
  case Nil
  then show ?case using assms(1) by (simp add: frame_ok_def)
next
  case (Cons rs rest)
  have rs: "saved_ok s ty rs" and rest: "\<forall>rs \<in> set rest. saved_ok s ty rs" using Cons.prems by auto
  have cap: "frame_ok s ty (restore_capture m rs)" using frame_restore_capture [OF assms(1) rs] .
  show ?case
  proof (cases "rs_type rs = RE_EXEC_STATE_GREEDY_QUANT \<and> \<not> ret")
    case True
    then obtain cc cp off pc T where b:
      "get_u32 (ctx_code s) (rs_pc rs + 12) = Some cc" "prev_chars s (unat cc) (rs_cptr rs) = Some cp"
      "get_u32 (ctx_code s) (rs_pc rs) = Some off" "jump (rs_pc rs + 16) off = Some pc"
      "ty pc = Some T" "stack_ok s (rs_stack rs) (rs_stack_len rs) T" "cp \<le> length (cbuf s)"
      "rs_count rs - 1 \<noteq> 0 \<Longrightarrow> saved_ok s ty (rs\<lparr>rs_cptr := cp, rs_count := rs_count rs - 1\<rparr>)"
      using greedy_state_back [OF rs] by metis
    show ?thesis using True b(1-5,7) frame_restore_stack [OF cap b(6)] b(8) rest
      by (auto simp: vm_ok_def frame_ok_def Let_def)
  next
    case False
    then show ?thesis using Cons.IH [OF rest] pop_state1_ok [OF assms(1) rs _ rest] pop_state1_ok [OF cap rs _ rest]
      by (auto split: REExecStateEnum.split)
  qed
qed

lemma no_match_ok: "frame_ok s ty m \<Longrightarrow> step_ok s ty (no_match s False m)"
  using re_recurse_ok [of s ty m "state_stack m"] by (simp add: no_match_def frame_ok_def)


section \<open>Straight-line steps\<close>

lemma load_Some: "p + n \<le> length code \<Longrightarrow> \<exists>v. load code p n = Some v"
  by (simp add: load_def)

lemma get_u16_Some: "p + 2 \<le> length code \<Longrightarrow> \<exists>v. get_u16 code p = Some v"
  using load_Some by (force simp: get_u16_def)

lemma get_u32_Some: "p + 4 \<le> length code \<Longrightarrow> \<exists>v. get_u32 code p = Some v"
  using load_Some by (force simp: get_u32_def)

text \<open>
  An opcode of a simple atom either fails, or goes on after its operands having consumed \<open>k\<close> characters.
\<close>

definition simple_out :: "REExecContext \<Rightarrow> bool \<Rightarrow> nat \<Rightarrow> vm \<Rightarrow> nat \<Rightarrow> step_res option \<Rightarrow> bool" where
  "simple_out s nr k m p' r \<longleftrightarrow>
     (\<exists>p cp. r = no_match s nr (m\<lparr>vm_pc := p, vm_cptr := cp\<rparr>)) \<or>
     (\<exists>cp. r = Some (Cont (m\<lparr>vm_pc := p', vm_cptr := cp\<rparr>)) \<and> cp \<le> length (cbuf s) \<and>
        chars_to s cp = chars_to s (vm_cptr m) + int k)"

lemma simple_fails: "simple_out s nr k m p' (no_match s nr (m\<lparr>vm_pc := p, vm_cptr := cp\<rparr>))"
  by (auto simp: simple_out_def)

lemma simple_fails0: "simple_out s nr k m p' (no_match s nr (m\<lparr>vm_pc := p\<rparr>))"
  using simple_fails [where m = m and p = p and cp = "vm_cptr m"] by simp

lemma simple_goes: "cp \<le> length (cbuf s) \<Longrightarrow> chars_to s cp = chars_to s (vm_cptr m) + int k \<Longrightarrow>
    simple_out s nr k m p' (Some (Cont (m\<lparr>vm_pc := p', vm_cptr := cp\<rparr>)))"
  by (auto simp: simple_out_def)

lemma simple_goes0: "vm_cptr m \<le> length (cbuf s) \<Longrightarrow> simple_out s nr 0 m p' (Some (Cont (m\<lparr>vm_pc := p'\<rparr>)))"
  using simple_goes [of "vm_cptr m" s m 0 nr p'] by simp

lemma simple_goes_at: "cp \<le> length (cbuf s) \<Longrightarrow> chars_to s cp = chars_to s (vm_cptr m) + int k \<Longrightarrow>
    simple_out s nr k m p' (Some (Cont (m\<lparr>vm_cptr := cp, vm_pc := p'\<rparr>)))"
proof -
  assume "cp \<le> length (cbuf s)" "chars_to s cp = chars_to s (vm_cptr m) + int k"
  moreover have "m\<lparr>vm_cptr := cp, vm_pc := p'\<rparr> = m\<lparr>vm_pc := p', vm_cptr := cp\<rparr>" by simp
  ultimately show ?thesis using simple_goes [of cp s m k nr p'] by (simp only:)
qed

lemmas simple_outs = simple_goes_at simple_fails simple_fails0 simple_goes simple_goes0

lemma test_char_simple:
  assumes "subject_ok s" "vm_cptr m \<le> length (cbuf s)"
  shows "simple_out s nr 1 m p (test_char s nr val (m\<lparr>vm_pc := p\<rparr>))"
proof (cases "vm_cptr m < length (cbuf s)")
  case True
  then obtain c cp where c: "get_char s (vm_cptr m) (length (cbuf s)) = Some (c, cp)" "0 \<le> c" "c < 2 ^ 32"
    "cp \<le> length (cbuf s)" "chars_to s cp = chars_to s (vm_cptr m) + 1"
    using get_char_ok [OF assms(1)] by blast
  moreover obtain c' where "canon s c = Some c'" using canon_ok c(2,3) by blast
  ultimately show ?thesis using True by (simp add: test_char_def Let_def simple_outs)
qed (simp add: test_char_def simple_outs)

lemma op_dot_any_simple:
  assumes "subject_ok s" "vm_cptr m \<le> length (cbuf s)"
  shows "simple_out s nr 1 m p (op_dot s nr (m\<lparr>vm_pc := p\<rparr>))" "simple_out s nr 1 m p (op_any s nr (m\<lparr>vm_pc := p\<rparr>))"
proof -
  have "simple_out s nr 1 m p (op_dot s nr (m\<lparr>vm_pc := p\<rparr>)) \<and> simple_out s nr 1 m p (op_any s nr (m\<lparr>vm_pc := p\<rparr>))"
  proof (cases "vm_cptr m < length (cbuf s)")
    case True
    then obtain c cp where "get_char s (vm_cptr m) (length (cbuf s)) = Some (c, cp)"
      "cp \<le> length (cbuf s)" "chars_to s cp = chars_to s (vm_cptr m) + 1"
      using get_char_ok [OF assms(1)] by blast
    then show ?thesis using True by (simp add: op_dot_def op_any_def Let_def simple_outs)
  qed (use assms in \<open>simp add: op_dot_def op_any_def simple_outs\<close>)
  then show "simple_out s nr 1 m p (op_dot s nr (m\<lparr>vm_pc := p\<rparr>))" "simple_out s nr 1 m p (op_any s nr (m\<lparr>vm_pc := p\<rparr>))"
    by auto
qed

lemma op_line_simple:
  assumes "vm_cptr m \<le> length (cbuf s)"
  shows "simple_out s nr 0 m p (op_line_start s nr (m\<lparr>vm_pc := p\<rparr>))" "simple_out s nr 0 m p (op_line_end s nr (m\<lparr>vm_pc := p\<rparr>))"
proof -
  show "simple_out s nr 0 m p (op_line_start s nr (m\<lparr>vm_pc := p\<rparr>))"
    using assms peek_prev_char_ok [of "vm_cptr m" s] by (cases "vm_cptr m = 0") (auto simp: op_line_start_def simple_outs)
  show "simple_out s nr 0 m p (op_line_end s nr (m\<lparr>vm_pc := p\<rparr>))"
    using assms peek_char_ok [of "vm_cptr m" s] by (cases "vm_cptr m = length (cbuf s)") (auto simp: op_line_end_def simple_outs)
qed

lemma op_word_boundary_simple:
  assumes "vm_cptr m \<le> length (cbuf s)"
  shows "simple_out s nr 0 m p (op_word_boundary s nr negated (m\<lparr>vm_pc := p\<rparr>))"
proof -
  have "simple_out s nr 0 m p (no_match s nr (m\<lparr>vm_pc := p\<rparr>))" "simple_out s nr 0 m p (Some (Cont (m\<lparr>vm_pc := p\<rparr>)))"
    using assms by (simp_all add: simple_outs)
  moreover have "\<exists>c. peek_prev_char s (vm_cptr m) 0 = Some c" if "vm_cptr m \<noteq> 0"
    using that assms peek_prev_char_ok by simp
  moreover have "\<exists>c. peek_char s (vm_cptr m) (length (cbuf s)) = Some c" if "\<not> vm_cptr m \<ge> length (cbuf s)"
    using that peek_char_ok by simp
  ultimately show ?thesis
    by (cases "vm_cptr m = 0"; cases "vm_cptr m \<ge> length (cbuf s)") (auto simp: op_word_boundary_def simp del: not_less)
qed


text \<open>The binary search only looks at the \<open>n\<close> entries.\<close>

lemma range_search_total:
  assumes get: "\<And>i. i < n \<Longrightarrow> \<exists>lo hi. get (p + i * (2 * w)) = Some lo \<and> get (p + i * (2 * w) + w) = Some hi"
    and small: "n < 2 ^ 16" "0 < w" "w \<le> 4"
    and low: "\<And>lo. get p = Some lo \<Longrightarrow> uint lo \<le> c"
  shows "j < n \<Longrightarrow> i \<le> n \<Longrightarrow> \<exists>r. range_search get w p c i j = Some r"
proof (induction "Suc j - i" arbitrary: i j rule: less_induct)
  case less
  show ?case
  proof (cases "i \<le> j")
    case True
    define x where "x = (i + j) div 2"
    have x: "i \<le> x" "x \<le> j" using True by (auto simp: x_def)
    have ix: "(i + j) mod 2 ^ 32 div 2 = x" using less.prems small(1) by (simp add: x_def)
    have "x * (2 * w) \<le> x * 8" using small by simp
    also have "x * 8 < 2 ^ 32" using x less.prems small by simp
    finally have wx: "(x * (2 * w)) mod 2 ^ 32 = x * (2 * w)" by simp
    obtain lo hi where g: "get (p + x * (2 * w)) = Some lo" "get (p + x * (2 * w) + w) = Some hi"
      using get [of x] x less.prems by auto
    have pos: "0 < x" if "c < uint lo" using low [of lo] that g(1) by (cases x) auto
    then have dec: "(x + 4294967295) mod 4294967296 = x - 1" if "c < uint lo"
      using that x less.prems small(1) by (cases x) (auto simp: mod_if)
    have "\<exists>r. range_search get w p c i (x - 1) = Some r" if "c < uint lo"
      using less.hyps [of "x - 1" i] pos [OF that] x less.prems by auto
    moreover have "\<exists>r. range_search get w p c (x + 1) j = Some r"
      using less.hyps [of j "x + 1"] x less.prems by auto
    ultimately show ?thesis using True dec
      by (subst range_search.simps) (auto simp add: ix [simplified] wx [simplified] g Let_def)
  qed (subst range_search.simps, auto)
qed


lemma unat_get_u16: "get_u16 code p = Some n \<Longrightarrow> unat n < 2 ^ 16"
proof -
  have "le_val bs < 256 ^ length bs" for bs
  proof (induction bs)
    case (Cons b bs)
    have "unat b < 256" using unsigned_less [of b, where 'a = nat] by simp
    moreover have "le_val bs + 1 \<le> 256 ^ length bs" using Cons by simp
    then have "256 * (le_val bs + 1) \<le> 256 * 256 ^ length bs" using mult_le_mono2 by blast
    ultimately show ?case by simp
  qed simp
  then have "le_val (take 2 xs) < 2 ^ 16" for xs :: "byte list"
  proof -
    assume *: "\<And>bs. le_val bs < 256 ^ length bs"
    have "(256::nat) ^ length (take 2 xs) \<le> 256 ^ 2" by (rule power_increasing) simp_all
    then show ?thesis using order.strict_trans2 [OF * [of "take 2 xs"]] by simp
  qed
  then have "load code p 2 = Some v \<Longrightarrow> v < 2 ^ 16" for v by (auto simp: load_def split: if_splits)
  then show "get_u16 code p = Some n \<Longrightarrow> unat n < 2 ^ 16" by (force simp: get_u16_def unat_of_nat)
qed

lemma range_bounds:
  assumes "p + w * (2 * n) \<le> length code" "i < n" "\<And>q. q + w \<le> length code \<Longrightarrow> \<exists>v. get q = Some v"
  shows "\<exists>lo hi. get (p + i * (2 * w)) = Some lo \<and> get (p + i * (2 * w) + w) = Some hi"
proof -
  have "(i + 1) * (2 * w) \<le> n * (2 * w)" using assms(2) mult_le_mono1 [of "i + 1" n] by simp
  then have "p + i * (2 * w) + w + w \<le> length code" using assms(1) by (simp add: algebra_simps)
  then have "p + i * (2 * w) + w \<le> length code" "p + i * (2 * w) + w + w \<le> length code" by simp_all
  then show ?thesis using assms(3) by blast
qed

lemma range_match_total:
  assumes "1 \<le> n" "n < 2 ^ 16"
  shows "p + 4 * n \<le> length code \<Longrightarrow> \<exists>r. range_match16 code p n c = Some r"
    "p + 8 * n \<le> length code \<Longrightarrow> \<exists>r. range_match32 code p n c = Some r"
proof -
  have last: "(n + (2 ^ 32 - 1)) mod 2 ^ 32 = n - 1" using assms by (cases n) (auto simp: mod_if)
  have m: "((n - 1) * 4) mod 2 ^ 32 = (n - 1) * 4" "((n - 1) * 8) mod 2 ^ 32 = (n - 1) * 8" using assms by auto
  show "\<exists>r. range_match16 code p n c = Some r" if "p + 4 * n \<le> length code"
  proof -
    have g: "\<exists>lo hi. get_u16 code (p + i * (2 * 2)) = Some lo \<and> get_u16 code (p + i * (2 * 2) + 2) = Some hi" if "i < n" for i
      using range_bounds [of p 2 n code i "get_u16 code"] that \<open>p + 4 * n \<le> length code\<close> get_u16_Some by simp
    obtain lo where lo: "get_u16 code p = Some lo" using g [of 0] assms by auto
    obtain hi where hi: "get_u16 code (p + (n - 1) * 4 + 2) = Some hi" using g [of "n - 1"] assms by auto
    have "\<exists>r. range_search (get_u16 code) 2 p c 0 (n - 1) = Some r" if "uint lo \<le> c"
      by (rule range_search_total [where n = n, OF g]) (use that assms lo in auto)
    then show ?thesis using lo hi by (auto simp: range_match16_def last [simplified] m [simplified] Let_def)
  qed
  show "\<exists>r. range_match32 code p n c = Some r" if "p + 8 * n \<le> length code"
  proof -
    have g: "\<exists>lo hi. get_u32 code (p + i * (2 * 4)) = Some lo \<and> get_u32 code (p + i * (2 * 4) + 4) = Some hi" if "i < n" for i
      using range_bounds [of p 4 n code i "get_u32 code"] that \<open>p + 8 * n \<le> length code\<close> get_u32_Some by simp
    obtain lo where lo: "get_u32 code p = Some lo" using g [of 0] assms by auto
    obtain hi where hi: "get_u32 code (p + (n - 1) * 8 + 4) = Some hi" using g [of "n - 1"] assms by auto
    have "\<exists>r. range_search (get_u32 code) 4 p c 0 (n - 1) = Some r" if "uint lo \<le> c"
      by (rule range_search_total [where n = n, OF g]) (use that assms lo in auto)
    then show ?thesis using lo hi by (auto simp: range_match32_def last [simplified] m [simplified] Let_def)
  qed
qed

lemma op_range_simple:
  assumes "subject_ok s" "vm_cptr m \<le> length (cbuf s)" "get_u16 (ctx_code s) p = Some n"
    and "\<And>c. \<exists>r. rm (ctx_code s) (p + 2) (unat n) c = Some r" and "p' = p + 2 + 2 * w * unat n"
  shows "simple_out s nr 1 m p' (op_range_with rm w s nr (m\<lparr>vm_pc := p\<rparr>))"
proof (cases "vm_cptr m < length (cbuf s)")
  case True
  then obtain c cp where c: "get_char s (vm_cptr m) (length (cbuf s)) = Some (c, cp)" "0 \<le> c" "c < 2 ^ 32"
    "cp \<le> length (cbuf s)" "chars_to s cp = chars_to s (vm_cptr m) + 1"
    using get_char_ok [OF assms(1)] by blast
  moreover obtain c' where "canon s c = Some c'" using canon_ok c(2,3) by blast
  moreover obtain r where "rm (ctx_code s) (p + 2) (unat n) c' = Some r" using assms(4) by blast
  ultimately show ?thesis using True assms(3,5) by (simp add: op_range_with_def Let_def next_pc_def simple_outs)
qed (use assms in \<open>simp add: op_range_with_def next_pc_def Let_def simple_outs\<close>)


lemma re_step_eq:
  assumes "Option.bind (rd (ctx_code s) (vm_pc m)) reop_of = Some opcode"
  shows "re_step s nr m = re_dispatch s nr opcode (m\<lparr>vm_pc := vm_pc m + 1\<rparr>)"
  using assms by (auto simp: re_step_def next_pc_def split: bind_splits)

lemma range_size_Some:
  assumes "range_size code p w = Some n"
  obtains k where "get_u16 code (p + 1) = Some k" "1 \<le> unat k" "unat k < 2 ^ 16" "n = 3 + w * unat k"
    "p + 3 + w * unat k \<le> length code"
  using assms unat_get_u16 by (auto simp: range_size_def split: option.splits if_splits)

lemma simple_step:
  assumes s: "subject_ok s" "vm_cptr m \<le> length (cbuf s)" and n: "simple_size (ctx_code s) (vm_pc m) = Some (n, k)"
  shows "simple_out s nr k m (vm_pc m + n) (re_step s nr m)"
proof -
  obtain opcode where opc: "Option.bind (rd (ctx_code s) (vm_pc m)) reop_of = Some opcode"
    using n by (auto simp: simple_size_def split: option.splits)
  note st = re_step_eq [OF opc]
  let ?p = "vm_pc m + 1"
  consider (c) "opcode = REOP_char" "n = 3" "k = 1" "vm_pc m + 3 \<le> length (ctx_code s)"
    | (c32) "opcode = REOP_char32" "n = 5" "k = 1" "vm_pc m + 5 \<le> length (ctx_code s)"
    | (one) "opcode \<in> {REOP_dot, REOP_any}" "n = 1" "k = 1"
    | (zero) "opcode \<in> {REOP_line_start, REOP_line_end, REOP_word_boundary, REOP_not_word_boundary}" "n = 1" "k = 0"
    | (r) "opcode = REOP_range" "range_size (ctx_code s) (vm_pc m) 4 = Some n" "k = 1"
    | (r32) "opcode = REOP_range32" "range_size (ctx_code s) (vm_pc m) 8 = Some n" "k = 1"
    using n by (cases opcode) (auto simp: simple_size_def opc split: if_splits)
  then show ?thesis
  proof cases
    case c
    then obtain v where "get_u16 (ctx_code s) ?p = Some v" using get_u16_Some [of ?p "ctx_code s"] by (auto simp: eval_nat_numeral)
    then show ?thesis using c test_char_simple [OF s, of nr "vm_pc m + 3" v]
      by (simp add: st re_dispatch_def op_char_def next_pc_def eval_nat_numeral)
  next
    case c32
    then obtain v where "get_u32 (ctx_code s) ?p = Some v" using get_u32_Some [of ?p "ctx_code s"] by (auto simp: eval_nat_numeral)
    then show ?thesis using c32 test_char_simple [OF s, of nr "vm_pc m + 5" v]
      by (simp add: st re_dispatch_def op_char32_def next_pc_def eval_nat_numeral)
  next
    case one
    then show ?thesis using op_dot_any_simple [OF s, of nr ?p] by (auto simp: st re_dispatch_def)
  next
    case zero
    then show ?thesis using op_line_simple [OF s(2), of nr ?p] op_word_boundary_simple [OF s(2), of nr ?p]
      by (auto simp: st re_dispatch_def)
  next
    case r
    then obtain v where v: "get_u16 (ctx_code s) ?p = Some v" "1 \<le> unat v" "unat v < 2 ^ 16" "n = 3 + 4 * unat v"
      "vm_pc m + 3 + 4 * unat v \<le> length (ctx_code s)" using range_size_Some by metis
    then have "\<exists>r. range_match16 (ctx_code s) (?p + 2) (unat v) c = Some r" for c using range_match_total(1) by simp
    then show ?thesis using r v op_range_simple [OF s v(1), of range_match16 "vm_pc m + n" 2 nr]
      by (simp add: st re_dispatch_def op_range_def)
  next
    case r32
    then obtain v where v: "get_u16 (ctx_code s) ?p = Some v" "1 \<le> unat v" "unat v < 2 ^ 16" "n = 3 + 8 * unat v"
      "vm_pc m + 3 + 8 * unat v \<le> length (ctx_code s)" using range_size_Some by metis
    then have "\<exists>r. range_match32 (ctx_code s) (?p + 2) (unat v) c = Some r" for c using range_match_total(2) by simp
    then show ?thesis using r32 v op_range_simple [OF s v(1), of range_match32 "vm_pc m + n" 4 nr]
      by (simp add: st re_dispatch_def op_range32_def)
  qed
qed


section \<open>Greedy quantifiers\<close>

fun atom_out :: "REExecContext \<Rightarrow> nat \<Rightarrow> vm \<Rightarrow> (exec_ret \<times> vm) run \<Rightarrow> bool" where
  "atom_out s k m Timeout = True"
| "atom_out s k m Undefined = False"
| "atom_out s k m (Done (r, m')) =
     ((\<exists>p cp. m' = m\<lparr>vm_pc := p, vm_cptr := cp\<rparr>) \<and>
      (r = Ret_no_match \<or> (\<exists>cp. r = Ret_ptr cp \<and> cp \<le> length (cbuf s) \<and> chars_to s cp = chars_to s (vm_cptr m) + int k)))"

lemma atom_out_later:
  assumes "atom_out s k (m\<lparr>vm_pc := p', vm_cptr := cp\<rparr>) r" "chars_to s cp = chars_to s (vm_cptr m) + int j"
  shows "atom_out s (j + k) m r"
proof (cases r)
  case (Done x)
  obtain r' m' where "x = (r', m')" by (cases x)
  with assms Done show ?thesis by auto
qed (use assms in auto)

lemma atom_run:
  assumes "subject_ok s"
  shows "vm_cptr m \<le> length (cbuf s) \<Longrightarrow> simple_chars (ctx_code s) (vm_pc m) = Some k \<Longrightarrow> atom_out s k m (exec_backtrack n s True m)"
proof (induction n arbitrary: m k)
  case (Suc n)
  show ?case
  proof (cases "Option.bind (rd (ctx_code s) (vm_pc m)) reop_of = Some REOP_match")
    case True
    then have "k = 0" using Suc.prems by (simp add: simple_chars.simps)
    moreover have "\<exists>p cp. m\<lparr>vm_pc := Suc (vm_pc m)\<rparr> = m\<lparr>vm_pc := p, vm_cptr := cp\<rparr>"
      by (intro exI [of _ "Suc (vm_pc m)"] exI [of _ "vm_cptr m"]) simp
    ultimately show ?thesis using Suc.prems re_step_eq [OF True] by (auto simp: re_dispatch_def op_match_def)
  next
    case False
    with Suc.prems(2) obtain l j r where sz: "simple_size (ctx_code s) (vm_pc m) = Some (l, j)"
      and r: "simple_chars (ctx_code s) (vm_pc m + l) = Some r" and k: "k = j + r"
      by (subst (asm) simple_chars.simps) (auto split: option.splits)
    have "simple_out s True j m (vm_pc m + l) (re_step s True m)" using simple_step [OF assms Suc.prems(1) sz] .
    then consider p cp where "re_step s True m = no_match s True (m\<lparr>vm_pc := p, vm_cptr := cp\<rparr>)"
      | cp where "re_step s True m = Some (Cont (m\<lparr>vm_pc := vm_pc m + l, vm_cptr := cp\<rparr>))" "cp \<le> length (cbuf s)"
          "chars_to s cp = chars_to s (vm_cptr m) + int j"
      unfolding simple_out_def by blast
    then show ?thesis
    proof cases
      case 1
      then show ?thesis by (auto simp: no_match_def)
    next
      case 2
      then show ?thesis using atom_out_later [OF Suc.IH 2(3)] r k by simp
    qed
  qed
qed simp

fun greedy_out :: "REExecContext \<Rightarrow> nat \<Rightarrow> vm \<Rightarrow> (nat option \<times> vm) run \<Rightarrow> bool" where
  "greedy_out s k m Timeout = True"
| "greedy_out s k m Undefined = False"
| "greedy_out s k m (Done (None, m')) = False"
| "greedy_out s k m (Done (Some q, m')) = (\<exists>cp. m' = m\<lparr>vm_cptr := cp\<rparr> \<and> cp \<le> length (cbuf s) \<and> int (q * k) \<le> chars_to s cp)"

lemma greedy_out_later: "greedy_out s k (m\<lparr>vm_cptr := cp\<rparr>) r \<Longrightarrow> greedy_out s k m r"
proof (cases r)
  case (Done x)
  obtain q m' where "x = (q, m')" by (cases x)
  then show "greedy_out s k (m\<lparr>vm_cptr := cp\<rparr>) r \<Longrightarrow> greedy_out s k m r" using Done by (cases q) auto
qed auto

lemma greedy_run:
  assumes "subject_ok s" "simple_chars (ctx_code s) pc1 = Some k"
  shows "vm_cptr m \<le> length (cbuf s) \<Longrightarrow> int (q * k) \<le> chars_to s (vm_cptr m) \<Longrightarrow> greedy_out s k m (greedy_loop n s pc1 quant_max q m)"
proof (induction n arbitrary: m q)
  case (Suc n)
  have a: "atom_out s k (m\<lparr>vm_pc := pc1\<rparr>) (exec_backtrack n s True (m\<lparr>vm_pc := pc1\<rparr>))"
    using atom_run [OF assms(1), of "m\<lparr>vm_pc := pc1\<rparr>" k n] assms(2) Suc.prems(1) by simp
  show ?case
  proof (cases "exec_backtrack n s True (m\<lparr>vm_pc := pc1\<rparr>)")
    case (Done x)
    obtain r m' where x: "x = (r, m')" by (cases x)
    from a obtain p cp where m': "m' = m\<lparr>vm_pc := p, vm_cptr := cp\<rparr>" by (auto simp: Done x)
    have m2: "m'\<lparr>vm_pc := vm_pc m, vm_stack_len := vm_stack_len m, vm_cptr := c\<rparr> = m\<lparr>vm_cptr := c\<rparr>" for c
      unfolding m' by simp
    from a consider "r = Ret_no_match"
      | c where "r = Ret_ptr c" "c \<le> length (cbuf s)" "chars_to s c = chars_to s (vm_cptr m) + int k"
      by (auto simp: Done x)
    then show ?thesis
    proof cases
      case 1
      then show ?thesis using Suc.prems m2 [of "vm_cptr m"] by (auto simp: Done x Let_def intro!: exI [of _ "vm_cptr m"])
    next
      case 2
      have "int ((q + 1) * k) \<le> chars_to s c" using 2(3) Suc.prems(2) by (simp add: algebra_simps)
      then show ?thesis using 2 m2 [of "vm_cptr m"] greedy_out_later [OF Suc.IH [of "m\<lparr>vm_cptr := c\<rparr>" "q + 1"]]
        by (auto simp: Done x Let_def)
    qed
  qed (use a in auto)
qed simp

section \<open>Steps preserve well-typed states\<close>

lemma push_or_fail_ok:
  assumes "subject_ok s" "vm_ok s ty m" "cp1 \<le> length (cbuf s)" "stack_ok s (vm_stack m) (vm_stack_len m) T"
    and "if t = RE_EXEC_STATE_GREEDY_QUANT
         then \<forall>rs. rs_pc rs = pc1 \<longrightarrow> rs_cptr rs = cp1 \<longrightarrow> rs_count rs = count \<longrightarrow> greedy_state_ok s ty rs T
         else ty pc1 = Some T"
  shows "step_ok s ty (push_or_fail s m pc1 cp1 t count)"
proof -
  let ?rs = "\<lparr>rs_type = t, rs_stack_len = vm_stack_len m mod 256, rs_count = count, rs_cptr = cp1, rs_pc = pc1,
    rs_capture = take (2 * capture_count s) (vm_capture m), rs_stack = take (vm_stack_len m) (vm_stack m)\<rparr>"
  have len: "2 * capture_count s = length (vm_capture m)" "vm_stack_len m \<le> length (vm_stack m)" "vm_stack_len m mod 256 = vm_stack_len m"
    using assms(1,2,4) by (auto simp: subject_ok_def vm_ok_def frame_ok_def captures_ok_def stack_ok_def)
  have "captures_ok s (rs_capture ?rs)" using assms(2) len(1) by (simp add: vm_ok_def frame_ok_def)
  moreover have "stack_ok s (rs_stack ?rs) (rs_stack_len ?rs) T" using assms(4) len by (auto simp: stack_ok_def)
  ultimately have "saved_ok s ty ?rs" using assms(3,5) by (auto simp: saved_ok_def split: if_splits)
  then show ?thesis using assms(2) len by (auto simp: push_or_fail_def push_state_def Let_def vm_ok_def frame_ok_def)
qed

lemma greedy_end_ok:
  assumes s: "subject_ok s" and m: "vm_ok s ty m" and pc1: "16 \<le> pc1" "greedy_ok (ctx_code s) (pc1 - 16)"
    and T: "goes ty (target (ctx_code s) (pc1 - 16) pc1) T" "stack_ok s (vm_stack m) (vm_stack_len m) T"
    and k: "simple_chars (ctx_code s) pc1 = Some k" "int (q * k) \<le> chars_to s (vm_cptr m)"
  shows "step_ok s ty (greedy_end s False pc1 quant_min q m)"
proof -
  have fr: "frame_ok s ty m" "vm_cptr m \<le> length (cbuf s)" using m by (auto simp: vm_ok_def)
  have "q * k \<le> prevs s (vm_cptr m)" using k(2) chars_to_bounds [of s "vm_cptr m"] by linarith
  moreover have "(q - unat quant_min) * k \<le> q * k" by simp
  ultimately have "(q - unat quant_min) * k \<le> prevs s (vm_cptr m)" by linarith
  then have "greedy_state_ok s ty rs T" if "rs_pc rs = pc1 - 16" "rs_cptr rs = vm_cptr m" "rs_count rs = q - unat quant_min"
    "unat quant_min < q" for rs :: REExecState
    using that pc1 T(1) k(1) by (simp add: greedy_state_ok_def)
  then show ?thesis
    using no_match_ok [OF fr(1)] m push_or_fail_ok [OF s m fr(2) T(2), of RE_EXEC_STATE_GREEDY_QUANT "pc1 - 16" "q - unat quant_min"]
    by (auto simp: greedy_end_def)
qed


lemma get_char_upto:
  assumes "subject_ok s" "p < e" "e \<le> length (cbuf s)"
  shows "\<exists>c p'. get_char s p e = Some (c, p') \<and> 0 \<le> c \<and> c < 2 ^ 32 \<and> p' \<le> e"
proof -
  have r: "0 \<le> cbuf s ! p" "cbuf s ! p < 2 ^ 32" using unit_range [OF assms(1), of p] assms by auto
  show ?thesis using assms r surrogate_pair_range [of "cbuf s ! p" "cbuf s ! (p + 1)"]
    by (cases "p + 1 < e") (auto simp: get_char_def)
qed

lemma get_prev_char_from:
  assumes "subject_ok s" "b < p" "p \<le> length (cbuf s)"
  shows "\<exists>c p'. get_prev_char s p b = Some (c, p') \<and> 0 \<le> c \<and> c < 2 ^ 32 \<and> p' \<le> p"
proof -
  have r: "0 \<le> cbuf s ! (p - 1)" "cbuf s ! (p - 1) < 2 ^ 32" using unit_range [OF assms(1), of "p - 1"] assms by fastforce+
  have "rd (cbuf s) (p - 1) = Some (cbuf s ! (p - 1))" "rd (cbuf s) (p - 1 - 1) = Some (cbuf s ! (p - 2))"
    using assms by (simp_all add: rd_def eval_nat_numeral)
  then show ?thesis using assms(2) r surrogate_pair_range [of "cbuf s ! (p - 2)" "cbuf s ! (p - 1)"]
    by (auto simp: get_prev_char_def Let_def)
qed

lemma back_ref_total:
  assumes "subject_ok s" "e \<le> length (cbuf s)"
  shows "cp \<le> length (cbuf s) \<Longrightarrow> \<exists>r. back_ref s cp1 e cp = Some r \<and> (case r of None \<Rightarrow> True | Some cp' \<Rightarrow> cp' \<le> length (cbuf s))"
proof (induction "e - cp1" arbitrary: cp1 cp rule: less_induct)
  case less
  show ?case
  proof (cases "cp1 < e \<and> cp < length (cbuf s)")
    case True
    obtain c1 p1 where 1: "get_char s cp1 e = Some (c1, p1)" "0 \<le> c1" "c1 < 2 ^ 32"
      using get_char_upto [OF assms(1) _ assms(2)] True by blast
    obtain c2 p2 where 2: "get_char s cp (length (cbuf s)) = Some (c2, p2)" "0 \<le> c2" "c2 < 2 ^ 32" "p2 \<le> length (cbuf s)"
      using get_char_upto [OF assms(1)] True by blast
    obtain d1 d2 where "canon s c1 = Some d1" "canon s c2 = Some d2" using canon_ok 1 2 by blast
    then show ?thesis using less.hyps [of p1 p2] get_char_advances [OF 1(1)] True 1 2
      by (subst back_ref.simps) auto
  qed (use less.prems in \<open>subst back_ref.simps, auto\<close>)
qed

lemma backward_back_ref_total:
  assumes "subject_ok s"
  shows "cp1 \<le> length (cbuf s) \<Longrightarrow> cp \<le> length (cbuf s) \<Longrightarrow>
    \<exists>r. backward_back_ref s cp1 b cp = Some r \<and> (case r of None \<Rightarrow> True | Some cp' \<Rightarrow> cp' \<le> length (cbuf s))"
proof (induction cp1 arbitrary: cp rule: less_induct)
  case (less cp1)
  show ?case
  proof (cases "b < cp1 \<and> 0 < cp")
    case True
    obtain c1 p1 where 1: "get_prev_char s cp1 b = Some (c1, p1)" "0 \<le> c1" "c1 < 2 ^ 32"
      using get_prev_char_from [OF assms(1)] True less.prems by blast
    obtain c2 p2 where 2: "get_prev_char s cp 0 = Some (c2, p2)" "0 \<le> c2" "c2 < 2 ^ 32" "p2 \<le> cp"
      using get_prev_char_from [OF assms(1)] True less.prems by blast
    obtain d1 d2 where "canon s c1 = Some d1" "canon s c2 = Some d2" using canon_ok 1 2 by blast
    then show ?thesis using less.IH [of p1 p2] get_prev_char_retreats [OF 1(1)] True 1 2 less.prems
      by (subst backward_back_ref.simps) auto
  qed (use less.prems in \<open>subst backward_back_ref.simps, auto\<close>)
qed

lemma captures_ok_update:
  "captures_ok s cap \<Longrightarrow> (case v of None \<Rightarrow> True | Some p \<Rightarrow> p \<le> length (cbuf s)) \<Longrightarrow> captures_ok s (cap[k := v])"
  by (cases "k < length cap") (auto simp: captures_ok_def nth_list_update)

lemma reset_captures_total:
  "captures_ok s cap \<Longrightarrow> j < capture_count s \<Longrightarrow> \<exists>cap'. reset_captures cap i j = Some cap' \<and> captures_ok s cap'"
proof (induction "Suc j - i" arbitrary: cap i rule: less_induct)
  case less
  show ?case
  proof (cases "i \<le> j")
    case True
    have "captures_ok s (cap[2 * i := None, 2 * i + 1 := None])"
      using less.prems(1) by (simp add: captures_ok_update)
    then show ?thesis using True less.hyps [of "i + 1"] less.prems
      by (subst reset_captures.simps) (auto simp: captures_ok_def)
  qed (use less.prems in \<open>subst reset_captures.simps, auto\<close>)
qed

text \<open>The state a handler starts from: the opcode byte has been read.\<close>

definition at_operand :: "REExecContext \<Rightarrow> typing \<Rightarrow> sty list \<Rightarrow> vm \<Rightarrow> bool" where
  "at_operand s ty T m \<longleftrightarrow> frame_ok s ty m \<and> vm_cptr m \<le> length (cbuf s) \<and> stack_ok s (vm_stack m) (vm_stack_len m) T"

lemma at_operand_cont: "at_operand s ty T m \<Longrightarrow> ty (vm_pc m) = Some T \<Longrightarrow> vm_ok s ty m"
  by (auto simp: at_operand_def vm_ok_def)

lemma at_operand_pc [simp]: "at_operand s ty T (m\<lparr>vm_pc := p\<rparr>) = at_operand s ty T m"
  by (simp add: at_operand_def)

lemma at_operand_fail: "at_operand s ty T m \<Longrightarrow> step_ok s ty (no_match s False m)"
  by (auto simp: at_operand_def intro: no_match_ok)

lemma goes_target:
  assumes "goes ty (target code p q) T"
  obtains v d where "get_u32 code p = Some v" "jump q v = Some d" "ty d = Some T"
  using assms by (auto simp: goes_def target_def split: option.splits)

lemma op_split_ok:
  assumes "subject_ok s" "at_operand s ty T m" "goes ty (target (ctx_code s) (vm_pc m) (vm_pc m + 4)) T" "ty (vm_pc m + 4) = Some T"
  shows "step_ok s ty (op_split s nf m)" "t \<noteq> RE_EXEC_STATE_GREEDY_QUANT \<Longrightarrow> step_ok s ty (op_lookahead s t m)"
proof -
  obtain v d where v: "get_u32 (ctx_code s) (vm_pc m) = Some v" "jump (vm_pc m + 4) v = Some d" "ty d = Some T"
    using goes_target [OF assms(3)] by blast
  have ok: "vm_ok s ty (m\<lparr>vm_pc := p\<rparr>)" if "ty p = Some T" for p using at_operand_cont [of s ty T "m\<lparr>vm_pc := p\<rparr>"] that assms(2) by simp
  have push: "step_ok s ty (push_or_fail s (m\<lparr>vm_pc := p\<rparr>) q (vm_cptr m) t 0)"
    if "ty p = Some T" "ty q = Some T" "t \<noteq> RE_EXEC_STATE_GREEDY_QUANT" for p q t
    using push_or_fail_ok [OF assms(1) ok [OF that(1)], of "vm_cptr m" T t q 0] that assms(2) by (simp add: at_operand_def)
  show "step_ok s ty (op_split s nf m)" using v push assms(4) by (simp add: op_split_def Let_def)
  show "step_ok s ty (op_lookahead s t m)" if "t \<noteq> RE_EXEC_STATE_GREEDY_QUANT"
    using v push assms(4) that by (simp add: op_lookahead_def Let_def)
qed

lemma op_goto_ok:
  assumes "at_operand s ty T m" "goes ty (target (ctx_code s) (vm_pc m) (vm_pc m + 4)) T"
  shows "step_ok s ty (op_goto s m)"
  using goes_target [OF assms(2)] assms(1) at_operand_cont [of s ty T "m\<lparr>vm_pc := d\<rparr>" for d]
  by (fastforce simp: op_goto_def)


lemma op_save_ok:
  assumes "at_operand s ty T m" "vm_pc m < length (ctx_code s)" "unat (ctx_code s ! vm_pc m) < capture_count s"
    "ty (vm_pc m + 1) = Some T" "e \<le> 1"
  shows "step_ok s ty (op_save s e m)"
proof -
  let ?i = "2 * unat (ctx_code s ! vm_pc m) + e"
  have "captures_ok s ((vm_capture m)[?i := Some (vm_cptr m)])" "?i < length (vm_capture m)"
    using assms captures_ok_update [of s "vm_capture m" "Some (vm_cptr m)" ?i]
    by (auto simp: at_operand_def frame_ok_def captures_ok_def)
  then show ?thesis using assms by (simp add: op_save_def Let_def next_pc_def at_operand_def vm_ok_def frame_ok_def)
qed

lemma op_save_reset_ok:
  assumes "at_operand s ty T m" "vm_pc m + 2 \<le> length (ctx_code s)" "unat (ctx_code s ! (vm_pc m + 1)) < capture_count s"
    "ty (vm_pc m + 2) = Some T"
  shows "step_ok s ty (op_save_reset s m)"
proof -
  have "captures_ok s (vm_capture m)" using assms(1) by (simp add: at_operand_def frame_ok_def)
  then obtain cap where "reset_captures (vm_capture m) (unat (ctx_code s ! vm_pc m)) (unat (ctx_code s ! (vm_pc m + 1))) = Some cap"
    "captures_ok s cap" using reset_captures_total assms(3) by blast
  then show ?thesis using assms by (simp add: op_save_reset_def next_pc_def at_operand_def vm_ok_def frame_ok_def)
qed

lemma push_stack_ok:
  assumes "at_operand s ty T m" "length T < stack_size_max s" "has_sty v t" "ty (vm_pc m) = Some (T @ [t])"
  shows "step_ok s ty (push_stack v m)"
proof -
  have "stack_ok s ((vm_stack m)[vm_stack_len m := v]) (vm_stack_len m + 1) (T @ [t])"
    using assms by (auto simp: at_operand_def frame_ok_def stack_ok_def nth_list_update nth_append less_Suc_eq)
  moreover have "vm_stack_len m < length (vm_stack m)" using assms by (simp add: at_operand_def frame_ok_def stack_ok_def)
  ultimately show ?thesis using assms by (simp add: push_stack_def at_operand_def frame_ok_def vm_ok_def)
qed

lemma stack_ok_butlast: "stack_ok s st n T \<Longrightarrow> T \<noteq> [] \<Longrightarrow> stack_ok s st (n - 1) (butlast T)"
  by (auto simp: stack_ok_def nth_butlast)

lemma stack_ok_last:
  assumes "stack_ok s st n T" "T \<noteq> []"
  shows "has_sty (st ! (n - 1)) (last T) \<and> n - 1 < length st \<and> n \<noteq> 0"
proof -
  have "n = length T" "length T \<le> length st" "\<forall>i < length T. has_sty (st ! i) (T ! i)" using assms(1) by (auto simp: stack_ok_def)
  then show ?thesis using assms(2) by (cases T) (auto simp: last_conv_nth)
qed

lemma op_drop_ok:
  "at_operand s ty T m \<Longrightarrow> T \<noteq> [] \<Longrightarrow> ty (vm_pc m) = Some (butlast T) \<Longrightarrow> step_ok s ty (op_drop m)"
  using stack_ok_butlast [of s "vm_stack m" "vm_stack_len m" T] stack_ok_last [of s "vm_stack m" "vm_stack_len m" T]
  by (auto simp: op_drop_def at_operand_def vm_ok_def)

lemma branch_ok:
  assumes "at_operand s ty T m" "ty (vm_pc m) = Some T" "jump (vm_pc m) v = Some d" "ty d = Some T"
  shows "step_ok s ty (branch taken v m)"
  using assms at_operand_cont [of s ty T m] at_operand_cont [of s ty T "m\<lparr>vm_pc := d\<rparr>"] by (simp add: branch_def)

lemma op_loop_ok:
  assumes "at_operand s ty T m" "T \<noteq> []" "last T = TInt" "ty (vm_pc m + 4) = Some T"
    "goes ty (target (ctx_code s) (vm_pc m) (vm_pc m + 4)) T"
  shows "step_ok s ty (op_loop s m)"
proof -
  obtain v d where v: "get_u32 (ctx_code s) (vm_pc m) = Some v" "jump (vm_pc m + 4) v = Some d" "ty d = Some T"
    using goes_target [OF assms(5)] by blast
  have st: "stack_ok s (vm_stack m) (vm_stack_len m) T" using assms(1) by (simp add: at_operand_def)
  obtain n where n: "vm_stack m ! (vm_stack_len m - 1) = SInt n"
    using stack_ok_last [OF st assms(2)] assms(3) by (cases "vm_stack m ! (vm_stack_len m - 1)") auto
  let ?m = "m\<lparr>vm_stack := (vm_stack m)[vm_stack_len m - 1 := SInt (n - 1)], vm_pc := vm_pc m + 4\<rparr>"
  have "T ! (vm_stack_len m - 1) = TInt" using st assms(2,3) by (simp add: stack_ok_def last_conv_nth)
  then have "stack_ok s (vm_stack ?m) (vm_stack_len ?m) T"
    using st stack_ok_last [OF st assms(2)] by (auto simp: stack_ok_def nth_list_update)
  then have "at_operand s ty T ?m" using assms(1) by (simp add: at_operand_def frame_ok_def)
  then show ?thesis using branch_ok [of s ty T ?m v d "n - 1 \<noteq> 0"] v assms(4) stack_ok_last [OF st assms(2)] n
    by (simp add: op_loop_def next_pc_def)
qed

lemma op_bne_char_pos_ok:
  assumes "at_operand s ty T m" "T \<noteq> []" "last T = TPos" "ty (vm_pc m + 4) = Some (butlast T)"
    "goes ty (target (ctx_code s) (vm_pc m) (vm_pc m + 4)) (butlast T)"
  shows "step_ok s ty (op_bne_char_pos s m)"
proof -
  obtain v d where v: "get_u32 (ctx_code s) (vm_pc m) = Some v" "jump (vm_pc m + 4) v = Some d" "ty d = Some (butlast T)"
    using goes_target [OF assms(5)] by blast
  have st: "stack_ok s (vm_stack m) (vm_stack_len m) T" using assms(1) by (simp add: at_operand_def)
  obtain p where p: "vm_stack m ! (vm_stack_len m - 1) = SPos p"
    using stack_ok_last [OF st assms(2)] assms(3) by (cases "vm_stack m ! (vm_stack_len m - 1)") auto
  let ?m = "m\<lparr>vm_stack_len := vm_stack_len m - 1, vm_pc := vm_pc m + 4\<rparr>"
  have "at_operand s ty (butlast T) ?m" using assms(1) stack_ok_butlast [OF st assms(2)] by (simp add: at_operand_def)
  then show ?thesis using branch_ok [of s ty "butlast T" ?m v d "p \<noteq> vm_cptr m"] v assms(4) stack_ok_last [OF st assms(2)] p
    by (simp add: op_bne_char_pos_def next_pc_def)
qed


lemma op_prev_ok:
  assumes "at_operand s ty T m" "ty (vm_pc m) = Some T"
  shows "step_ok s ty (op_prev s False m)"
proof (cases "vm_cptr m = 0")
  case False
  then obtain cp where "prev_char s (vm_cptr m) 0 = Some cp" "cp < vm_cptr m"
    using prev_char_Some [of "vm_cptr m" s] assms(1) by (auto simp: at_operand_def)
  then show ?thesis using assms False by (auto simp: op_prev_def at_operand_def vm_ok_def)
qed (use assms in \<open>simp add: op_prev_def at_operand_fail\<close>)

lemma captures_ok_nth: "captures_ok s cap \<Longrightarrow> i < length cap \<Longrightarrow> cap ! i = Some p \<Longrightarrow> p \<le> length (cbuf s)"
  by (force simp: captures_ok_def)

lemma captures_ok_set: "captures_ok s cap \<Longrightarrow> set cap \<subseteq> insert None (Some ` {0..length (cbuf s)})"
proof
  fix v assume "captures_ok s cap" "v \<in> set cap"
  then show "v \<in> insert None (Some ` {0..length (cbuf s)})"
    by (cases v) (auto simp: in_set_conv_nth dest: captures_ok_nth)
qed

lemma op_back_reference_ok:
  assumes s: "subject_ok s" and m: "at_operand s ty T m" and code: "vm_pc m < length (ctx_code s)" and ty: "ty (vm_pc m + 1) = Some T"
  shows "step_ok s ty (op_back_reference s False backward m)"
proof -
  let ?v = "unat (ctx_code s ! vm_pc m)" and ?m = "next_pc 1 m"
  have m': "at_operand s ty T ?m" using m by (simp add: next_pc_def)
  have go: "step_ok s ty (Some (Cont ?m))" using at_operand_cont [OF m'] ty by (simp add: next_pc_def)
  have fail: "step_ok s ty (no_match s False ?m)" using at_operand_fail [OF m'] .
  have to: "step_ok s ty (Some (Cont (?m\<lparr>vm_cptr := cp\<rparr>)))" if "cp \<le> length (cbuf s)" for cp
    using that m ty by (auto simp: at_operand_def vm_ok_def next_pc_def)
  have cap: "captures_ok s (vm_capture m)" "vm_cptr m \<le> length (cbuf s)" using m by (auto simp: at_operand_def frame_ok_def)
  show ?thesis
  proof (cases "?v < capture_count s")
    case True
    then have i: "2 * ?v < length (vm_capture m)" "2 * ?v + 1 < length (vm_capture m)" using cap(1) by (auto simp: captures_ok_def)
    show ?thesis
    proof (cases "vm_capture m ! (2 * ?v) = None \<or> vm_capture m ! (2 * ?v + 1) = None")
      case True
      then show ?thesis using \<open>?v < capture_count s\<close> i code go
        by (auto simp: op_back_reference_def Let_def next_pc_def split: option.split)
    next
      case False
      then obtain b e where be: "vm_capture m ! (2 * ?v) = Some b" "vm_capture m ! (2 * ?v + 1) = Some e" by auto
      then have "b \<le> length (cbuf s)" "e \<le> length (cbuf s)" using captures_ok_nth [OF cap(1)] i by blast+
      then obtain r where "(if backward then backward_back_ref s e b (vm_cptr m) else back_ref s b e (vm_cptr m)) = Some r"
        "case r of None \<Rightarrow> True | Some cp' \<Rightarrow> cp' \<le> length (cbuf s)"
        using back_ref_total [OF s _ cap(2)] backward_back_ref_total [OF s _ cap(2)] by (cases backward) (simp_all, blast+)
      then show ?thesis using True i code be fail to
        by (cases r) (simp_all add: op_back_reference_def Let_def next_pc_def split: if_splits)
    qed
  qed (use code fail in \<open>simp add: op_back_reference_def Let_def\<close>)
qed

lemma op_greedy_ok:
  assumes "at_operand s ty T m" "greedy_ok (ctx_code s) (vm_pc m)" "goes ty (target (ctx_code s) (vm_pc m) (vm_pc m + 16)) T"
  shows "step_ok s ty (op_simple_greedy_quant s m)"
proof -
  obtain v d where v: "get_u32 (ctx_code s) (vm_pc m) = Some v" "jump (vm_pc m + 16) v = Some d" "ty d = Some T"
    using goes_target [OF assms(3)] by blast
  have "vm_pc m + 16 \<le> length (ctx_code s)" using assms(2) by (simp add: greedy_ok_def)
  then obtain a b where "get_u32 (ctx_code s) (vm_pc m + 4) = Some a" "get_u32 (ctx_code s) (vm_pc m + 8) = Some b"
    using get_u32_Some [of "vm_pc m + 4" "ctx_code s"] get_u32_Some [of "vm_pc m + 8" "ctx_code s"] by auto
  then show ?thesis using v assms at_operand_cont [of s ty T "m\<lparr>vm_pc := d\<rparr>"]
    by (auto simp: op_simple_greedy_quant_def Let_def at_operand_def)
qed

lemma simple_out_step_ok:
  assumes "at_operand s ty T m" "simple_out s False k m p r" "ty p = Some T"
  shows "step_ok s ty r"
proof -
  have "frame_ok s ty m" using assms(1) by (simp add: at_operand_def)
  then show ?thesis using assms no_match_ok [of s ty "m\<lparr>vm_pc := q, vm_cptr := c\<rparr>" for q c]
    by (auto simp: simple_out_def vm_ok_def at_operand_def)
qed

lemma op_match_ok: "at_operand s ty T m \<Longrightarrow> step_ok s ty (op_match s False m)"
  using re_recurse_ok [of s ty m "state_stack m" True] by (simp add: op_match_def at_operand_def frame_ok_def)


lemma step_preserves:
  assumes s: "subject_ok s" and chk: "\<And>p. check_pc s ty p" and m: "vm_ok s ty m"
  shows "step_ok s ty (re_step s False m)"
proof -
  obtain T where T: "ty (vm_pc m) = Some T" "at_operand s ty T m" using m by (auto simp: vm_ok_def at_operand_def)
  obtain opcode where opc: "Option.bind (rd (ctx_code s) (vm_pc m)) reop_of = Some opcode" "check_op s ty (vm_pc m) T opcode"
    using chk [of "vm_pc m"] T(1) by (auto simp: check_pc_def split: option.splits)
  note st = re_step_eq [OF opc(1)]
  define m1 where "m1 = m\<lparr>vm_pc := vm_pc m + 1\<rparr>"
  have m1: "at_operand s ty T m1" and pc: "vm_pc m1 = vm_pc m + 1" using T(2) by (simp_all add: m1_def)
  have eqs: "vm_pc m + 5 = vm_pc m1 + 4" "vm_pc m + 2 = vm_pc m1 + 1" "vm_pc m + 3 = vm_pc m1 + 2" "vm_pc m + 17 = vm_pc m1 + 16"
    "vm_pc m + 1 = vm_pc m1" by (simp_all add: pc)
  note chk_op = opc(2) [unfolded check_op_def Let_def eqs]
  show ?thesis
  proof (cases "simple_size (ctx_code s) (vm_pc m)")
    case (Some nk)
    obtain n k where nk: "nk = (n, k)" by (cases nk)
    have "ty (vm_pc m + n) = Some T"
      using Some nk opc by (cases opcode) (auto simp: simple_size_def check_op_def Let_def)
    then show ?thesis using simple_out_step_ok [OF T(2) simple_step [OF s]] Some nk T(2) by (auto simp: at_operand_def)
  next
    case None
    note split = op_split_ok [OF s m1] and goto = op_goto_ok [OF m1] and save = op_save_ok [OF m1] op_save_reset_ok [OF m1]
      and push = push_stack_ok [OF m1] push_stack_ok [of s ty T "next_pc 4 m1"] and drop = op_drop_ok [OF m1] op_loop_ok [OF m1] op_bne_char_pos_ok [OF m1]
      and ref = op_back_reference_ok [OF s m1] op_greedy_ok [OF m1] op_prev_ok [OF m1] op_match_ok [OF m1]
    have u32: "\<exists>v. get_u32 (ctx_code s) (vm_pc m1) = Some v" if "vm_pc m1 + 4 \<le> length (ctx_code s)"
      using get_u32_Some that by blast
    have next4: "at_operand s ty T (next_pc 4 m1)" "vm_pc (next_pc 4 m1) = vm_pc m1 + 4" using m1 by (simp_all add: next_pc_def)
    have lt: "vm_pc m1 < length (ctx_code s)" if "vm_pc m1 + 1 \<le> length (ctx_code s)" using that by simp
    show ?thesis
      unfolding st m1_def [symmetric] re_dispatch_def
      using chk_op None split goto save push drop ref u32 next4 lt
      by (cases opcode) (auto simp: op_push_i32_def op_push_char_pos_def)
  qed
qed


section \<open>Type soundness\<close>

fun run_ok :: "REExecContext \<Rightarrow> (exec_ret \<times> vm) run \<Rightarrow> bool" where
  "run_ok s Timeout = True"
| "run_ok s Undefined = False"
| "run_ok s (Done (r, m)) = captures_ok s (vm_capture m)"

lemma re_recurse_no_greedy: "re_recurse s ret m rest \<noteq> Some (Greedy a b c d)"
  by (induction rest arbitrary: ret) (auto simp: Let_def split: REExecStateEnum.splits bind_splits)

lemma greedy_end_no_greedy: "greedy_end s nr pc1 quant_min q m \<noteq> Some (Greedy a b c d)"
  by (auto simp: greedy_end_def no_match_def push_or_fail_def re_recurse_no_greedy split: if_splits bind_splits)

lemma exec_safe:
  assumes s: "subject_ok s" and chk: "\<And>p. check_pc s ty p"
  shows "vm_ok s ty m \<Longrightarrow> run_ok s (exec_backtrack n s False m)"
proof (induction n arbitrary: m)
  case (Suc n)
  have st: "step_ok s ty (re_step s False m)" using step_preserves [OF s chk Suc.prems] .
  show ?case
  proof (cases "re_step s False m")
    case (Some r)
    show ?thesis
    proof (cases r)
      case (Greedy pc1 quant_min quant_max m')
      then obtain T where g: "vm_ok s ty m'" "16 \<le> pc1" "greedy_ok (ctx_code s) (pc1 - 16)"
        "goes ty (target (ctx_code s) (pc1 - 16) pc1) T" "stack_ok s (vm_stack m') (vm_stack_len m') T"
        using st Some by auto
      obtain k where k: "simple_chars (ctx_code s) pc1 = Some k" using simple_chars_unat [OF g(3)] g(2) by auto
      have "greedy_out s k m' (greedy_loop n s pc1 quant_max 0 m')"
        using greedy_run [OF s k, of m' 0 n quant_max] g(1) chars_to_bounds [of s "vm_cptr m'"] by (simp add: vm_ok_def)
      then show ?thesis
      proof (cases "greedy_loop n s pc1 quant_max 0 m'")
        case (Done x)
        obtain q m2 where x: "x = (q, m2)" by (cases x)
        assume "greedy_out s k m' (greedy_loop n s pc1 quant_max 0 m')"
        then obtain q' cp where q: "q = Some q'" "m2 = m'\<lparr>vm_cptr := cp\<rparr>" "cp \<le> length (cbuf s)" "int (q' * k) \<le> chars_to s cp"
          by (cases q) (auto simp: Done x)
        have "vm_ok s ty m2" using g(1) q by (simp add: vm_ok_def)
        then have "step_ok s ty (greedy_end s False pc1 quant_min q' m2)"
          using greedy_end_ok [OF s _ g(2,3,4) _ k, of m2 q' quant_min] g(5) q by simp
        then show ?thesis using Some Greedy Done x q(1) Suc.IH greedy_end_no_greedy [of s False pc1 quant_min q' m2]
          by (cases "greedy_end s False pc1 quant_min q' m2") (auto split: step_res.splits)
      qed (use Some Greedy in auto)
    qed (use st Some Suc.IH in auto)
  qed (use st in auto)
qed simp


text \<open>C32. Type soundness of the byte code machine.  If the verifier accepts the byte code, then
  \<open>lre_exec\<close> never has undefined behaviour, for any subject, start index, allocator and number of
  steps; and when it returns, every capture is unset or a position in the subject.\<close>

theorem lre_exec_type_safe:
  assumes "lre_context bc_buf buf ctype alloc = Some s" "check_code s tab" "ctype \<le> 1"
    "list_all (\<lambda>c. 0 \<le> c \<and> c < 2 ^ 16) buf" "cindex \<le> length buf"
  shows "lre_exec fuel bc_buf buf cindex ctype alloc = Timeout \<or>
    (\<exists>r cap. lre_exec fuel bc_buf buf cindex ctype alloc = Done (r, cap) \<and> length cap = 2 * unat (bc_buf ! 1) \<and>
      set cap \<subseteq> insert None (Some ` {0..length buf}))"
proof -
  have s: "subject_ok s" "cbuf s = buf" "capture_count s = unat (bc_buf ! 1)"
    using assms unsigned_less [of "bc_buf ! 1", where 'a = nat] unsigned_less [of "bc_buf ! 2", where 'a = nat]
    by (auto simp: lre_context_def Let_def subject_ok_def RE_HEADER_CAPTURE_COUNT_def RE_HEADER_STACK_SIZE_def rd_def
        split: if_splits bind_splits)
  have "vm_ok s (map_of tab) (init_vm s cindex)"
    using assms(2,5) s(2) by (simp add: vm_ok_def init_vm_def frame_ok_def captures_ok_def stack_ok_def check_code_def)
  then have run: "run_ok s (exec_backtrack fuel s False (init_vm s cindex))"
    using exec_safe [OF s(1) check_code_pc [OF assms(2)]] by blast
  show ?thesis
  proof (cases "exec_backtrack fuel s False (init_vm s cindex)")
    case (Done x)
    obtain r m where x: "x = (r, m)" by (cases x)
    have "captures_ok s (vm_capture m)" using run by (simp add: Done x)
    then have "set (vm_capture m) \<subseteq> insert None (Some ` {0..length buf})" using captures_ok_set s(2) by blast
    then show ?thesis using assms(1) Done x s \<open>captures_ok s (vm_capture m)\<close>
      by (simp add: lre_exec_def captures_ok_def)
  qed (use run assms(1) in \<open>auto simp: lre_exec_def\<close>)
qed


text \<open>The code of \<^verbatim>\<open>/(?:ab){2}(c*)/y\<close> with its typing.\<close>

definition sample_code :: "byte list" where
  "sample_code = [32, 2, 1, 47, 0, 0, 0, 11, 0, 15, 2, 0, 0, 0, 1, 97, 0, 1, 98, 0, 14, 245, 255, 255, 255, 16, 11, 1,
     28, 4, 0, 0, 0, 0, 0, 0, 0, 255, 255, 255, 127, 1, 0, 0, 0, 1, 99, 0, 10, 12, 1, 12, 0, 10]"

definition sample_typing :: "(nat \<times> sty list) list" where
  "sample_typing = [(7, []), (9, []), (14, [TInt]), (17, [TInt]), (20, [TInt]), (25, [TInt]), (26, []), (28, []), (49, []),
     (51, []), (53, [])]"

definition sample_subject :: "int list" where "sample_subject = [97, 98, 97, 98, 99, 99]"

definition sample_context :: REExecContext where
  "sample_context = the (lre_context sample_code sample_subject 0 (\<lambda>_. True))"

lemma sample_context: "lre_context sample_code sample_subject 0 (\<lambda>_. True) = Some sample_context"
  by (simp add: sample_context_def lre_context_def sample_code_def RE_HEADER_FLAGS_def RE_HEADER_CAPTURE_COUNT_def
      RE_HEADER_STACK_SIZE_def rd_def Let_def)

lemmas exec_backtrack_numeral =
  exec_backtrack.simps(2) [of "pred_numeral k" for k, folded numeral_eq_Suc]
  greedy_loop.simps(2) [of "pred_numeral k" for k, folded numeral_eq_Suc]

lemmas context_eval = lre_context_def RE_HEADER_FLAGS_def RE_HEADER_CAPTURE_COUNT_def RE_HEADER_STACK_SIZE_def RE_HEADER_LEN_def rd_def Let_def
lemmas load_eval = get_u16_def get_u32_def load_def jump_def rd_def wr_def reop_of_def reop_list_def Let_def

lemma sample_checks: "check_code sample_context sample_typing"
  by (simp add: sample_context_def context_eval sample_code_def sample_typing_def check_code_def check_pc_def check_op_def
      load_eval goes_def target_def simple_size_def greedy_ok_def simple_chars.simps)

lemmas exec_eval = re_step_def re_dispatch_def next_pc_def op_save_def op_push_i32_def push_stack_def op_char_def test_char_def
  get_char_def canon_def op_loop_def branch_def op_drop_def op_simple_greedy_quant_def op_match_def greedy_end_def
  push_or_fail_def push_state_def no_match_def

lemma sample_runs: "lre_exec 60 sample_code sample_subject 0 0 (\<lambda>_. True) = Done (Ret_match, [Some 0, Some 6, Some 4, Some 6])"
  by (simp add: lre_exec_def init_vm_def exec_backtrack_numeral sample_subject_def context_eval sample_code_def load_eval exec_eval cong: bind_weak_cong)
    (simp add: eval_nat_numeral)

theorem lre_exec_type_safe_witness:
  "lre_exec 60 sample_code sample_subject 0 0 (\<lambda>_. True) = Done (Ret_match, [Some 0, Some 6, Some 4, Some 6]) \<and>
   (lre_exec 60 sample_code sample_subject 0 0 (\<lambda>_. True) = Timeout \<or>
    (\<exists>r cap. lre_exec 60 sample_code sample_subject 0 0 (\<lambda>_. True) = Done (r, cap) \<and> length cap = 2 * unat (sample_code ! 1) \<and>
      set cap \<subseteq> insert None (Some ` {0..length sample_subject})))"
  using sample_runs lre_exec_type_safe [OF sample_context sample_checks, of 0 60] by (simp add: sample_subject_def)

end
