(* ===== verification/Lre_Parse.thy ===== *)
theory Lre_Parse
  imports Lre_Exec Char_Range Utf8 Dyn_Buf Unicode_Table
begin

text \<open>
  The scanner of the regular expression compiler in \<^verbatim>\<open>libregexp.c\<close>: numbers, escapes, group names, the
  scan that counts captures, and the predefined character classes.

  A pattern is a byte list that ends with its null byte and a pointer is an index into it, so that a
  read behind the null byte is outside the object.  \<open>PUndefined\<close> is undefined behaviour, \<open>PErr\<close> the
  result -1 with the message left in \<open>error_msg\<close>, \<open>PTimeout\<close> the end of the fuel.
\<close>

section \<open>Results\<close>

datatype 'a presult = PTimeout | PUndefined | PErr string | POk 'a

definition pbind :: "'a presult \<Rightarrow> ('a \<Rightarrow> 'b presult) \<Rightarrow> 'b presult" where
  "pbind m f = (case m of PTimeout \<Rightarrow> PTimeout | PUndefined \<Rightarrow> PUndefined | PErr e \<Rightarrow> PErr e | POk x \<Rightarrow> f x)"

definition ub :: "'a option \<Rightarrow> 'a presult" where
  "ub x = (case x of None \<Rightarrow> PUndefined | Some y \<Rightarrow> POk y)"

lemma pbind_simps [simp]:
  "pbind (POk x) f = f x" "pbind (PErr e) f = PErr e" "pbind PUndefined f = PUndefined" "pbind PTimeout f = PTimeout"
  by (simp_all add: pbind_def)

lemma ub_simps' [simp]: "ub (Some x) = POk x" "ub None = PUndefined"
  by (simp_all add: ub_def)

lemma pbind_weak_cong: "x = y \<Longrightarrow> pbind x f = pbind y f"
  by simp

lemma pbind_cong [fundef_cong]: "x = y \<Longrightarrow> (\<And>a. y = POk a \<Longrightarrow> f a = g a) \<Longrightarrow> pbind x f = pbind y g"
  by (cases y) auto

abbreviation ch :: "char \<Rightarrow> byte" where "ch c \<equiv> of_char c"

definition is_digit :: "byte \<Rightarrow> bool" where "is_digit c \<longleftrightarrow> ch CHR ''0'' \<le> c \<and> c \<le> ch CHR ''9''"

section \<open>Numbers\<close>

definition INT32_MAX :: int where "INT32_MAX = 0x7fffffff"

function parse_digits_loop :: "byte list \<Rightarrow> nat \<Rightarrow> int \<Rightarrow> bool \<Rightarrow> (int \<times> nat) option option" where
  "parse_digits_loop buf p v allow_overflow = do {
     c \<leftarrow> rd buf p;
     if \<not> is_digit c then Some (Some (v, p))
     else let v' = v * 10 + uint c - 48 in
       if v' \<ge> INT32_MAX
       then if allow_overflow then parse_digits_loop buf (p + 1) INT32_MAX allow_overflow else Some None
       else parse_digits_loop buf (p + 1) v' allow_overflow
   }"
  by pat_completeness auto
termination by (relation "measure (\<lambda>(buf, p, v, a). length buf - p)") (auto simp: rd_def split: if_splits)

declare parse_digits_loop.simps [simp del]

text \<open>The result and the new \<open>*pp\<close>; the latter is left alone when the result is -1.\<close>

definition parse_digits :: "byte list \<Rightarrow> nat \<Rightarrow> bool \<Rightarrow> (int \<times> nat) option" where
  "parse_digits buf p allow_overflow =
     map_option (\<lambda>r. case r of None \<Rightarrow> (-1, p) | Some vp \<Rightarrow> vp) (parse_digits_loop buf p 0 allow_overflow)"

definition expecting :: "char \<Rightarrow> string" where "expecting c = ''expecting '' @ [CHR 0x27, c, CHR 0x27]"

definition re_parse_expect :: "byte list \<Rightarrow> nat \<Rightarrow> char \<Rightarrow> nat presult" where
  "re_parse_expect buf p c =
     pbind (ub (rd buf p)) (\<lambda>b. if b \<noteq> ch c then PErr (expecting c) else POk (p + 1))"

section \<open>Escapes\<close>

datatype escape = Esc_char int nat | Esc_malformed | Esc_other

text \<open>The loop of \<open>\u{...}\<close>, from the first digit on; the result stands before the brace.\<close>

function esc_braces :: "byte list \<Rightarrow> nat \<Rightarrow> int \<Rightarrow> (int \<times> nat) option option" where
  "esc_braces buf p c = do {
     b \<leftarrow> rd buf p;
     let h = from_hex (uint b);
     if h < 0 then Some None
     else let c' = c * 16 + h in
       if c' > 0x10FFFF then Some None
       else do {
         b' \<leftarrow> rd buf (p + 1);
         if b' = ch CHR ''}'' then Some (Some (c', p + 1)) else esc_braces buf (p + 1) c'
       }
   }"
  by pat_completeness auto
termination by (relation "measure (\<lambda>(buf, p, c). length buf - p)") (auto simp: rd_def split: if_splits)

declare esc_braces.simps [simp del]

text \<open>Exactly \<open>n\<close> hexadecimal digits.\<close>

fun esc_hex :: "byte list \<Rightarrow> nat \<Rightarrow> nat \<Rightarrow> int \<Rightarrow> int option option" where
  "esc_hex buf p 0 c = Some (Some c)"
| "esc_hex buf p (Suc n) c = do {
     b \<leftarrow> rd buf p;
     let h = from_hex (uint b);
     if h < 0 then Some None else esc_hex buf (p + 1) n (c * 16 + h)
   }"

text \<open>A low surrogate that follows as a second escape; \<open>p\<close> stands after the first one.\<close>

definition esc_low_surrogate :: "byte list \<Rightarrow> nat \<Rightarrow> int \<Rightarrow> escape option" where
  "esc_low_surrogate buf p c = do {
     b0 \<leftarrow> rd buf p;
     if b0 \<noteq> 0x5c then Some (Esc_char c p)
     else do {
       b1 \<leftarrow> rd buf (p + 1);
       if b1 \<noteq> ch CHR ''u'' then Some (Esc_char c p)
       else do {
         r \<leftarrow> esc_hex buf (p + 2) 4 0;
         Some (case r of
            None \<Rightarrow> Esc_char c p
          | Some c1 \<Rightarrow> if is_low c1 then Esc_char (surrogate_pair c c1) (p + 6) else Esc_char c p)
       }
     }
   }"

definition esc_unicode :: "byte list \<Rightarrow> nat \<Rightarrow> bool \<Rightarrow> nat \<Rightarrow> escape option" where
  "esc_unicode buf p is_x allow_utf16 = do {
     b \<leftarrow> rd buf p;
     if b = ch CHR ''{'' \<and> allow_utf16 \<noteq> 0
     then do {
       r \<leftarrow> esc_braces buf (p + 1) 0;
       Some (case r of None \<Rightarrow> Esc_malformed | Some (c, q) \<Rightarrow> Esc_char c (q + 1))
     }
     else do {
       let n = (if is_x then 2 else 4);
       r \<leftarrow> esc_hex buf p n 0;
       case r of
         None \<Rightarrow> Some Esc_malformed
       | Some c \<Rightarrow> if is_high c \<and> allow_utf16 = 2 then esc_low_surrogate buf (p + n) c else Some (Esc_char c (p + n))
     }
   }"

definition esc_octal :: "byte list \<Rightarrow> nat \<Rightarrow> int \<Rightarrow> escape option" where
  "esc_octal buf p c = do {
     b \<leftarrow> rd buf p;
     if \<not> (48 \<le> uint b \<and> uint b \<le> 55) then Some (Esc_char c p)
     else let c1 = c * 8 + (uint b - 48) in
       if c1 \<ge> 32 then Some (Esc_char c1 (p + 1))
       else do {
         b' \<leftarrow> rd buf (p + 1);
         Some (if \<not> (48 \<le> uint b' \<and> uint b' \<le> 55) then Esc_char c1 (p + 1) else Esc_char (c1 * 8 + (uint b' - 48)) (p + 2))
       }
   }"

definition lre_parse_escape :: "byte list \<Rightarrow> nat \<Rightarrow> nat \<Rightarrow> escape option" where
  "lre_parse_escape buf p0 allow_utf16 = do {
     c \<leftarrow> rd buf p0;
     let p = p0 + 1;
     if c = ch CHR ''b'' then Some (Esc_char 8 p)
     else if c = ch CHR ''f'' then Some (Esc_char 12 p)
     else if c = ch CHR ''n'' then Some (Esc_char 10 p)
     else if c = ch CHR ''r'' then Some (Esc_char 13 p)
     else if c = ch CHR ''t'' then Some (Esc_char 9 p)
     else if c = ch CHR ''v'' then Some (Esc_char 11 p)
     else if c = ch CHR ''x'' then esc_unicode buf p True allow_utf16
     else if c = ch CHR ''u'' then esc_unicode buf p False allow_utf16
     else if ch CHR ''0'' \<le> c \<and> c \<le> ch CHR ''7''
     then if allow_utf16 = 2
       then do {
         b \<leftarrow> (if c \<noteq> ch CHR ''0'' then Some c else rd buf p);
         Some (if c \<noteq> ch CHR ''0'' \<or> is_digit b then Esc_malformed else Esc_char 0 p)
       }
       else esc_octal buf p (uint c - 48)
     else Some Esc_other
   }"

section \<open>Identifiers\<close>

definition char_range_d :: "u32 list" where "char_range_d = [0x30, 0x39 + 1]"

definition char_range_s :: "u32 list" where
  "char_range_s = [0x0009, 0x000D + 1, 0x0020, 0x0020 + 1, 0x00A0, 0x00A0 + 1, 0x1680, 0x1680 + 1, 0x2000, 0x200A + 1,
     0x2028, 0x2029 + 1, 0x202F, 0x202F + 1, 0x205F, 0x205F + 1, 0x3000, 0x3000 + 1, 0xFEFF, 0xFEFF + 1]"

definition char_range_w :: "u32 list" where
  "char_range_w = [0x30, 0x39 + 1, 0x41, 0x5A + 1, 0x5F, 0x5F + 1, 0x61, 0x7A + 1]"

text \<open>The scan of \<open>lre_is_space\<close> over the pairs of the table.\<close>

fun space_scan :: "u32 list \<Rightarrow> int \<Rightarrow> bool" where
  "space_scan (low # high # r) c = (if c < uint low then False else if c < uint high then True else space_scan r c)"
| "space_scan _ c = False"

definition lre_is_space :: "int \<Rightarrow> bool" where "lre_is_space c = space_scan char_range_s c"

definition lre_id_start_table_ascii :: "u32 list" where
  "lre_id_start_table_ascii = [0x00000000, 0x00000010, 0x87FFFFFE, 0x07FFFFFE]"

definition lre_id_continue_table_ascii :: "u32 list" where
  "lre_id_continue_table_ascii = [0x00000000, 0x03FF0010, 0x87FFFFFE, 0x07FFFFFE]"

definition ascii_bit :: "u32 list \<Rightarrow> int \<Rightarrow> bool option" where
  "ascii_bit tab c = do { w \<leftarrow> rd tab (nat (c div 32)); Some (bit w (nat (c mod 32))) }"

definition lre_js_is_ident_first :: "int \<Rightarrow> bool option" where
  "lre_js_is_ident_first c = (if c < 128 then ascii_bit lre_id_start_table_ascii c else lre_is_id_start c)"

definition lre_js_is_ident_next :: "int \<Rightarrow> bool option" where
  "lre_js_is_ident_next c =
     (if c < 128 then ascii_bit lre_id_continue_table_ascii c
      else do { b \<leftarrow> lre_is_id_continue c; Some (b \<or> c = 0x200C \<or> c = 0x200D) })"

section \<open>Group names\<close>

lemma unicode_from_utf8_pos: "unicode_from_utf8 buf n = Some (Some (c, k)) \<Longrightarrow> 0 < k"
  by (auto simp: unicode_from_utf8_def split: if_splits option.splits bind_splits)

lemma lre_parse_escape_pos: "lre_parse_escape buf p a = Some (Esc_char c q) \<Longrightarrow> p < q"
proof -
  have low: "esc_low_surrogate buf p c = Some (Esc_char c' q) \<Longrightarrow> p \<le> q" for p c c' q
    by (auto simp: esc_low_surrogate_def split: if_splits option.splits bind_splits)
  have br: "esc_braces buf p c = Some (Some (c', q)) \<Longrightarrow> p \<le> q" for p c c' q
  proof (induction "length buf - p" arbitrary: p c rule: less_induct)
    case less
    from less.prems have "p < length buf" by (subst (asm) esc_braces.simps) (auto simp: rd_def split: if_splits)
    with less.prems less.hyps [of "p + 1"] show ?case
      by (subst (asm) esc_braces.simps) (force simp: Let_def split: if_splits bind_splits)
  qed
  have un: "esc_unicode buf p x a = Some (Esc_char c q) \<Longrightarrow> p \<le> q" for p x a c q
    by (auto simp: esc_unicode_def Let_def split: if_splits option.splits bind_splits dest!: low br)
  have oc: "esc_octal buf p c = Some (Esc_char c' q) \<Longrightarrow> p \<le> q" for p c c' q
    by (auto simp: esc_octal_def Let_def split: if_splits bind_splits)
  show "lre_parse_escape buf p a = Some (Esc_char c q) \<Longrightarrow> p < q"
    by (auto simp: lre_parse_escape_def Let_def split: if_splits bind_splits dest!: un oc)
qed

definition TMP_BUF_SIZE :: nat where "TMP_BUF_SIZE = 128"
definition UTF8_CHAR_LEN_MAX :: nat where "UTF8_CHAR_LEN_MAX = 6"
definition CAPTURE_COUNT_MAX :: nat where "CAPTURE_COUNT_MAX = 255"

text \<open>One code point of a name and the pointer after it; \<open>Some None\<close> when it is not well formed.\<close>

definition group_name_char :: "byte list \<Rightarrow> nat \<Rightarrow> bool \<Rightarrow> (int \<times> nat) option option" where
  "group_name_char buf p utf16 = do {
     c \<leftarrow> rd buf p;
     if c = 0x5c
     then do {
       b \<leftarrow> rd buf (p + 1);
       if b \<noteq> ch CHR ''u'' then Some None
       else do {
         e \<leftarrow> lre_parse_escape buf (p + 1) (if utf16 then 2 else 0);
         Some (case e of Esc_char c' q \<Rightarrow> Some (c', q) | _ \<Rightarrow> None)
       }
     }
     else if c \<ge> 128
     then do {
       r \<leftarrow> unicode_from_utf8 (drop p buf) (int UTF8_CHAR_LEN_MAX);
       Some (map_option (\<lambda>(c', n). (uint c', p + n)) r)
     }
     else Some (Some (uint c, p + 1))
   }"

lemma group_name_char_pos: "group_name_char buf p u = Some (Some (c, q)) \<Longrightarrow> p < q \<and> p < length buf"
proof -
  assume *: "group_name_char buf p u = Some (Some (c, q))"
  then have "p < length buf" by (auto simp: group_name_char_def rd_def split: if_splits)
  with * show ?thesis
    by (auto simp: group_name_char_def split: if_splits bind_splits escape.splits dest!: lre_parse_escape_pos unicode_from_utf8_pos)
qed

function group_name_loop :: "byte list \<Rightarrow> nat \<Rightarrow> bool \<Rightarrow> byte list \<Rightarrow> (byte list \<times> nat) option option" where
  "group_name_loop buf p utf16 name = do {
     b \<leftarrow> rd buf p;
     if b = ch CHR ''>'' then Some (if name = [] then None else Some (name, p + 1))
     else do {
       r \<leftarrow> group_name_char buf p utf16;
       case r of
         None \<Rightarrow> Some None
       | Some (c, p') \<Rightarrow>
           if c > 0x10FFFF then Some None
           else do {
             ok \<leftarrow> (if name = [] then lre_js_is_ident_first c else lre_js_is_ident_next c);
             if \<not> ok \<or> length name + UTF8_CHAR_LEN_MAX + 1 > TMP_BUF_SIZE then Some None
             else group_name_loop buf p' utf16 (name @ (if c < 128 then [of_int c] else unicode_to_utf8 (of_int c)))
           }
     }
   }"
  by pat_completeness auto
termination
  by (relation "measure (\<lambda>(buf, p, u, n). length buf - p)") (auto dest!: group_name_char_pos)

declare group_name_loop.simps [simp del]

lemma group_name_loop_gt: "group_name_loop buf p u nm = Some (Some (n, q)) \<Longrightarrow> p < q"
proof (induction "length buf - p" arbitrary: p nm rule: less_induct)
  case less
  have "p < q" if "group_name_char buf p u = Some (Some (c, p'))" "group_name_loop buf p' u nm' = Some (Some (n, q))" for c p' nm'
    using less.hyps [of p' nm'] group_name_char_pos [OF that(1)] that(2) by fastforce
  with less.prems show ?case
    by (subst (asm) group_name_loop.simps) (auto split: if_splits option.splits bind_splits)
qed

definition re_parse_group_name :: "byte list \<Rightarrow> nat \<Rightarrow> bool \<Rightarrow> (byte list \<times> nat) option option" where
  "re_parse_group_name buf p utf16 = group_name_loop buf p utf16 []"

text \<open>\<open>find_group_name\<close>: the names stand one after the other, each with its null byte.\<close>

definition strlen_at :: "byte list \<Rightarrow> nat \<Rightarrow> nat option" where
  "strlen_at mem p =
     (let n = length (takeWhile (\<lambda>b. b \<noteq> 0) (drop p mem)) in if p + n < length mem then Some n else None)"

function find_name_loop :: "byte list \<Rightarrow> nat \<Rightarrow> byte list \<Rightarrow> nat \<Rightarrow> int \<Rightarrow> int option" where
  "find_name_loop mem len_all name p capture_index =
     (if p < len_all
      then do {
        len \<leftarrow> strlen_at mem p;
        if len = length name \<and> take len (drop p mem) = name then Some capture_index
        else find_name_loop mem len_all name (p + len + 1) (capture_index + 1)
      }
      else Some (-1))"
  by pat_completeness auto
termination by (relation "measure (\<lambda>(mem, n, name, p, i). n - p)") auto

declare find_name_loop.simps [simp del]

definition find_group_name :: "DynBuf \<Rightarrow> byte list \<Rightarrow> int option" where
  "find_group_name group_names name = find_name_loop (dbuf_mem group_names) (dbuf_size group_names) name 0 1"

section \<open>Counting captures\<close>

text \<open>The inner loop over a character class.\<close>

function class_skip :: "byte list \<Rightarrow> nat \<Rightarrow> nat \<Rightarrow> nat option" where
  "class_skip buf buf_end p =
     (if p < buf_end
      then do {
        b \<leftarrow> rd buf p;
        if b = ch CHR '']'' then Some p
        else class_skip buf buf_end (if b = 0x5c then p + 2 else p + 1)
      }
      else Some p)"
  by pat_completeness auto
termination by (relation "measure (\<lambda>(buf, e, p). e - p)") auto

declare class_skip.simps [simp del]

lemma class_skip_ge: "class_skip buf e p = Some q \<Longrightarrow> p \<le> q"
proof (induction "e - p" arbitrary: p rule: less_induct)
  case less
  have "p \<le> q" if "p < e" "p < p'" "class_skip buf e p' = Some q" for p'
    using less.hyps [of p'] that by fastforce
  from this [of "p + 1"] this [of "p + 2"] less.prems show ?case
    by (subst (asm) class_skip.simps) (auto split: if_splits bind_splits)
qed

text \<open>
  \<open>Inl i\<close> for \<open>return capture_index\<close>; \<open>Inr\<close> for the end of the scan.  The flag is
  \<open>*phas_named_captures\<close>.
\<close>

function captures_loop :: "byte list \<Rightarrow> nat \<Rightarrow> bool \<Rightarrow> byte list option \<Rightarrow> nat \<Rightarrow> nat \<Rightarrow> bool \<Rightarrow> ((nat + nat) \<times> bool) option" where
  "captures_loop buf buf_end utf16 name p capture_index named =
     (if p < buf_end
      then do {
        b \<leftarrow> rd buf p;
        if b = ch CHR ''(''
        then do {
          b1 \<leftarrow> rd buf (p + 1);
          if b1 = ch CHR ''?''
          then do {
            b2 \<leftarrow> rd buf (p + 2);
            b3 \<leftarrow> (if b2 = ch CHR ''<'' then rd buf (p + 3) else Some b2);
            if b2 = ch CHR ''<'' \<and> b3 \<noteq> ch CHR ''='' \<and> b3 \<noteq> ch CHR ''!''
            then do {
              (found, p') \<leftarrow> (case name of
                 None \<Rightarrow> Some (False, p)
               | Some nm \<Rightarrow> do {
                   r \<leftarrow> re_parse_group_name buf (p + 3) utf16;
                   Some (case r of None \<Rightarrow> (False, p + 3) | Some (nm', q) \<Rightarrow> (nm' = nm, q))
                 });
              if found then Some (Inl capture_index, True)
              else if capture_index + 1 \<ge> CAPTURE_COUNT_MAX then Some (Inr (capture_index + 1), True)
              else captures_loop buf buf_end utf16 name (p' + 1) (capture_index + 1) True
            }
            else captures_loop buf buf_end utf16 name (p + 1) capture_index named
          }
          else if capture_index + 1 \<ge> CAPTURE_COUNT_MAX then Some (Inr (capture_index + 1), named)
          else captures_loop buf buf_end utf16 name (p + 1) (capture_index + 1) named
        }
        else if b = 0x5c then captures_loop buf buf_end utf16 name (p + 2) capture_index named
        else if b = ch CHR ''['' then do {
          q \<leftarrow> class_skip buf buf_end (p + 1);
          captures_loop buf buf_end utf16 name (q + 1) capture_index named
        }
        else captures_loop buf buf_end utf16 name (p + 1) capture_index named
      }
      else Some (Inr capture_index, named))"
  by pat_completeness auto
termination
  by (relation "measure (\<lambda>(buf, e, u, n, p, i, h). e - p)")
    (auto simp: re_parse_group_name_def dest!: class_skip_ge group_name_loop_gt split: option.splits if_splits bind_splits)

declare captures_loop.simps [simp del]

text \<open>The returned \<open>int\<close> and \<open>*phas_named_captures\<close>.\<close>

definition re_parse_captures :: "byte list \<Rightarrow> nat \<Rightarrow> bool \<Rightarrow> byte list option \<Rightarrow> (int \<times> bool) option" where
  "re_parse_captures buf buf_end utf16 name =
     map_option (\<lambda>(r, named). (case r of Inl i \<Rightarrow> int i | Inr i \<Rightarrow> if name = None then int i else -1, named))
       (captures_loop buf buf_end utf16 name 0 1 False)"

end
