(* ===== verification/Lre_Class.thy ===== *)
theory Lre_Class
  imports Lre_Parse
begin

text \<open>
  Character classes in the regular expression compiler: the parser state, the predefined classes,
  class atoms, \<open>[...]\<close>, and the range opcodes they are compiled to.

  \<open>us_script\<close>, \<open>us_general_category\<close> and \<open>us_prop\<close> are the lookups of \<open>\p{...}\<close>; they
  are arguments of the model, which \<open>Lre_Unicode\<close> instantiates with the queries of \<^verbatim>\<open>libunicode.c\<close>.
\<close>

section \<open>The parser state\<close>

record unicode_sets =
  us_script :: "CharRange \<Rightarrow> byte list \<Rightarrow> bool \<Rightarrow> (CharRange \<times> int) option"
  us_general_category :: "CharRange \<Rightarrow> byte list \<Rightarrow> (CharRange \<times> int) option"
  us_prop :: "CharRange \<Rightarrow> byte list \<Rightarrow> (CharRange \<times> int) option"

record REParseState =
  ps_byte_code :: DynBuf
  ps_buf :: "byte list"
  ps_buf_ptr :: nat
  ps_buf_end :: nat
  ps_re_flags :: byte
  ps_is_utf16 :: bool
  ps_ignore_case :: bool
  ps_dotall :: bool
  ps_capture_count :: nat
  ps_total_capture_count :: int
  ps_has_named_captures :: int
  ps_group_names :: DynBuf
  ps_cr_realloc :: points_realloc
  ps_unicode :: unicode_sets
  ps_stack_overflow :: "nat \<Rightarrow> bool"

definition re_count_captures :: "REParseState \<Rightarrow> (int \<times> REParseState) option" where
  "re_count_captures s =
     (if ps_total_capture_count s < 0
      then do {
        (n, named) \<leftarrow> re_parse_captures (ps_buf s) (ps_buf_end s) (ps_is_utf16 s) None;
        Some (n, s\<lparr>ps_total_capture_count := n, ps_has_named_captures := of_bool named\<rparr>)
      }
      else Some (ps_total_capture_count s, s))"

definition re_has_named_captures :: "REParseState \<Rightarrow> (bool \<times> REParseState) option" where
  "re_has_named_captures s = do {
     s' \<leftarrow> (if ps_has_named_captures s < 0 then map_option snd (re_count_captures s) else Some s);
     Some (ps_has_named_captures s' \<noteq> 0, s')
   }"

section \<open>Predefined classes\<close>

definition CLASS_RANGE_BASE :: int where "CLASS_RANGE_BASE = 0x40000000"

datatype CharRangeEnum = CHAR_RANGE_d | CHAR_RANGE_D | CHAR_RANGE_s | CHAR_RANGE_S | CHAR_RANGE_w | CHAR_RANGE_W

fun char_range_table :: "CharRangeEnum \<Rightarrow> u32 list" where
  "char_range_table CHAR_RANGE_d = char_range_d"
| "char_range_table CHAR_RANGE_D = char_range_d"
| "char_range_table CHAR_RANGE_s = char_range_s"
| "char_range_table CHAR_RANGE_S = char_range_s"
| "char_range_table CHAR_RANGE_w = char_range_w"
| "char_range_table CHAR_RANGE_W = char_range_w"

fun add_points :: "CharRange \<Rightarrow> u32 list \<Rightarrow> cr_result" where
  "add_points cr [] = Some (cr, False)"
| "add_points cr (v # vs) = do {
     (cr', err) \<leftarrow> cr_add_point cr v;
     if err then Some (cr', True) else add_points cr' vs
   }"

definition cr_init_char_range :: "points_realloc \<Rightarrow> CharRangeEnum \<Rightarrow> cr_result" where
  "cr_init_char_range realloc c = do {
     (cr, err) \<leftarrow> add_points (cr_init realloc (Some realloc)) (char_range_table c);
     if err then Some (cr, True)
     else if c \<in> {CHAR_RANGE_D, CHAR_RANGE_S, CHAR_RANGE_W} then cr_invert cr else Some (cr, False)
   }"

definition cr_canonicalize :: "CharRange \<Rightarrow> cr_result" where
  "cr_canonicalize cr = do {
     (a, err) \<leftarrow> cr_op (cr_init (cr_realloc_func cr) (Some (cr_realloc_func cr))) (cr_points cr) (cr_len cr) [0x61, 0x7a + 1] 2 CR_OP_INTER;
     if err then Some (cr, True)
     else if cr_len a \<le> length (cr_points a)
     then cr_union1 cr (map (\<lambda>v. v + (0x41 - 0x61)) (take (cr_len a) (cr_points a)) @ drop (cr_len a) (cr_points a)) (cr_len a)
     else None
   }"

definition cr_try :: "cr_result \<Rightarrow> CharRange presult" where
  "cr_try r = (case r of None \<Rightarrow> PUndefined | Some (cr, err) \<Rightarrow> if err then PErr ''out of memory'' else POk cr)"

section \<open>Unicode properties\<close>

definition is_unicode_char :: "byte \<Rightarrow> bool" where
  "is_unicode_char c \<longleftrightarrow> is_digit c \<or> ch CHR ''A'' \<le> c \<and> c \<le> ch CHR ''Z'' \<or> ch CHR ''a'' \<le> c \<and> c \<le> ch CHR ''z'' \<or> c = ch CHR ''_''"

text \<open>The two copying loops, into a buffer of 64 bytes; \<open>Some None\<close> when the name is too long.\<close>

function copy_unicode_name :: "byte list \<Rightarrow> nat \<Rightarrow> byte list \<Rightarrow> (byte list \<times> nat) option option" where
  "copy_unicode_name buf p name = do {
     b \<leftarrow> rd buf p;
     if \<not> is_unicode_char b then Some (Some (name, p))
     else if length name \<ge> 63 then Some None
     else copy_unicode_name buf (p + 1) (name @ [b])
   }"
  by pat_completeness auto
termination by (relation "measure (\<lambda>(buf, p, name). length buf - p)") (auto simp: rd_def split: if_splits)

declare copy_unicode_name.simps [simp del]

lemma copy_unicode_name_ge: "copy_unicode_name buf p nm = Some (Some (n, q)) \<Longrightarrow> p \<le> q"
proof (induction "length buf - p" arbitrary: p nm rule: less_induct)
  case less
  from less.prems have "p < length buf" by (subst (asm) copy_unicode_name.simps) (auto simp: rd_def split: if_splits)
  with less.prems less.hyps [of "p + 1"] show ?case
    by (subst (asm) copy_unicode_name.simps) (force split: if_splits bind_splits)
qed

definition str :: "string \<Rightarrow> byte list" where "str s = map of_char s"

definition unicode_lookup :: "unicode_sets \<Rightarrow> CharRange \<Rightarrow> byte list \<Rightarrow> byte list \<Rightarrow> CharRange presult" where
  "unicode_lookup u cr name value =
     (if name = str ''Script'' \<or> name = str ''sc'' \<or> name = str ''Script_Extensions'' \<or> name = str ''scx''
      then pbind (ub (us_script u cr value (name = str ''Script_Extensions'' \<or> name = str ''scx''))) (\<lambda>(cr, ret).
        if ret = 0 then POk cr else PErr (if ret = -2 then ''unknown unicode script'' else ''out of memory''))
      else if name = str ''General_Category'' \<or> name = str ''gc''
      then pbind (ub (us_general_category u cr value)) (\<lambda>(cr, ret).
        if ret = 0 then POk cr else PErr (if ret = -2 then ''unknown unicode general category'' else ''out of memory''))
      else if value = []
      then pbind (ub (us_general_category u cr name)) (\<lambda>(cr, ret).
        if ret = -1 then PErr ''out of memory''
        else if ret < 0
        then pbind (ub (us_prop u cr name)) (\<lambda>(cr, ret).
          if ret = 0 then POk cr else PErr (if ret = -2 then ''unknown unicode property name'' else ''out of memory''))
        else POk cr)
      else PErr ''unknown unicode property name'')"

definition parse_unicode_property :: "REParseState \<Rightarrow> nat \<Rightarrow> bool \<Rightarrow> (CharRange \<times> nat) presult" where
  "parse_unicode_property s p is_inv =
     pbind (ub (rd (ps_buf s) p)) (\<lambda>b.
     if b \<noteq> ch CHR ''{'' then PErr (expecting CHR ''{'' @ '' after '' @ [CHR 0x5c, CHR ''p''])
     else pbind (ub (copy_unicode_name (ps_buf s) (p + 1) [])) (\<lambda>r.
     case r of None \<Rightarrow> PErr ''unknown unicode property name''
     | Some (name, p) \<Rightarrow>
     pbind (ub (rd (ps_buf s) p)) (\<lambda>b.
     pbind (if b = ch CHR ''='' then ub (copy_unicode_name (ps_buf s) (p + 1) []) else POk (Some ([], p))) (\<lambda>r.
     case r of None \<Rightarrow> PErr ''unknown unicode property value''
     | Some (value, p) \<Rightarrow>
     pbind (ub (rd (ps_buf s) p)) (\<lambda>b.
     if b \<noteq> ch CHR ''}'' then PErr (expecting CHR ''}'')
     else pbind (unicode_lookup (ps_unicode s) (cr_init (ps_cr_realloc s) (Some (ps_cr_realloc s))) name value) (\<lambda>cr.
     pbind (if is_inv then pbind (ub (cr_invert cr)) (\<lambda>(cr, err). if err then PErr '''' else POk cr) else POk cr) (\<lambda>cr.
     POk (cr, p + 1))))))))"


section \<open>Class atoms\<close>

text \<open>The label \<open>normal_char\<close>: \<open>c\<close> is the byte at \<open>p\<close>.\<close>

definition normal_char :: "REParseState \<Rightarrow> byte \<Rightarrow> nat \<Rightarrow> (int \<times> CharRange option \<times> nat) presult" where
  "normal_char s c p =
     (if c \<ge> 128
      then pbind (ub (unicode_from_utf8 (drop p (ps_buf s)) (int UTF8_CHAR_LEN_MAX))) (\<lambda>r.
        case r of
          None \<Rightarrow> PErr (if ps_is_utf16 s then '''' else ''malformed unicode char'')
        | Some (c', n) \<Rightarrow>
            if c' > 0xffff \<and> \<not> ps_is_utf16 s then PErr ''malformed unicode char'' else POk (uint c', None, p + n))
      else POk (uint c, None, p + 1))"

definition class_shorthand :: "byte \<Rightarrow> CharRangeEnum option" where
  "class_shorthand c =
     (if c = ch CHR ''d'' then Some CHAR_RANGE_d else if c = ch CHR ''D'' then Some CHAR_RANGE_D
      else if c = ch CHR ''s'' then Some CHAR_RANGE_s else if c = ch CHR ''S'' then Some CHAR_RANGE_S
      else if c = ch CHR ''w'' then Some CHAR_RANGE_w else if c = ch CHR ''W'' then Some CHAR_RANGE_W else None)"

definition is_ascii_letter :: "byte \<Rightarrow> bool" where
  "is_ascii_letter c \<longleftrightarrow> ch CHR ''a'' \<le> c \<and> c \<le> ch CHR ''z'' \<or> ch CHR ''A'' \<le> c \<and> c \<le> ch CHR ''Z''"

text \<open>A backslash followed by \<open>c\<close>; \<open>p\<close> stands after \<open>c\<close>.\<close>

definition escape_atom :: "REParseState \<Rightarrow> byte \<Rightarrow> nat \<Rightarrow> bool \<Rightarrow> (int \<times> CharRange option \<times> nat) presult" where
  "escape_atom s c p inclass =
     (case class_shorthand c of
        Some k \<Rightarrow>
          pbind (ub (cr_init_char_range (ps_cr_realloc s) k)) (\<lambda>(cr, err). if err then PErr '''' else POk (CLASS_RANGE_BASE, Some cr, p))
      | None \<Rightarrow>
          if c = ch CHR ''c''
          then pbind (ub (rd (ps_buf s) p)) (\<lambda>b.
            if is_ascii_letter b \<or> (is_digit b \<or> b = ch CHR ''_'') \<and> inclass \<and> \<not> ps_is_utf16 s
            then POk (uint b mod 32, None, p + 1)
            else if ps_is_utf16 s then PErr ''invalid escape sequence in regular expression''
            else POk (0x5c, None, p - 1))
          else if (c = ch CHR ''p'' \<or> c = ch CHR ''P'') \<and> ps_is_utf16 s
          then pbind (parse_unicode_property s p (c = ch CHR ''P'')) (\<lambda>(cr, p). POk (CLASS_RANGE_BASE, Some cr, p))
          else pbind (ub (lre_parse_escape (ps_buf s) (p - 1) (if ps_is_utf16 s then 2 else 0))) (\<lambda>e.
            case e of
              Esc_char v q \<Rightarrow> POk (v, None, q)
            | Esc_malformed \<Rightarrow>
                if ps_is_utf16 s then PErr ''invalid escape sequence in regular expression'' else normal_char s c (p - 1)
            | Esc_other \<Rightarrow>
                if c \<noteq> 0 \<and> c \<in> set (str (''^$'' @ [CHR 0x5c] @ ''.*+?()[]{}|/'')) then normal_char s c (p - 1)
                else if ps_is_utf16 s then PErr ''invalid escape sequence in regular expression'' else normal_char s c (p - 1)))"

definition get_class_atom :: "REParseState \<Rightarrow> nat \<Rightarrow> bool \<Rightarrow> (int \<times> CharRange option \<times> nat) presult" where
  "get_class_atom s p inclass =
     pbind (ub (rd (ps_buf s) p)) (\<lambda>c.
     if c = 0x5c
     then if p + 1 \<ge> ps_buf_end s then PErr ''unexpected end''
       else pbind (ub (rd (ps_buf s) (p + 1))) (\<lambda>c. escape_atom s c (p + 2) inclass)
     else if c = 0 \<and> p \<ge> ps_buf_end s then PErr ''unexpected end''
     else normal_char s c p)"

lemma normal_char_pos: "normal_char s c p = POk (v, cr, q) \<Longrightarrow> p < q"
  by (auto simp: normal_char_def ub_def pbind_def split: if_splits option.splits presult.splits dest!: unicode_from_utf8_pos)

lemma pbind_POk: "pbind x f = POk y \<longleftrightarrow> (\<exists>a. x = POk a \<and> f a = POk y)"
  by (cases x) auto

lemma ub_POk: "ub x = POk y \<longleftrightarrow> x = Some y"
  by (cases x) auto

lemma parse_unicode_property_pos: "parse_unicode_property s p i = POk (cr, q) \<Longrightarrow> p < q"
  by (auto simp: parse_unicode_property_def pbind_POk ub_POk split: if_splits option.splits dest!: copy_unicode_name_ge)

lemma escape_atom_pos:
  assumes "escape_atom s c (p + 2) i = POk (v, cr, q)" shows "p < q"
proof -
  have "p < q'" if "lre_parse_escape (ps_buf s) (Suc p) k = Some (Esc_char v' q')" for k v' q'
    using lre_parse_escape_pos [OF that] by simp
  moreover have "p < q'" if "normal_char s c (Suc p) = POk (v', cr', q')" for v' cr' q'
    using normal_char_pos [OF that] by simp
  moreover have "p < q'" if "parse_unicode_property s (Suc (Suc p)) j = POk (cr', q')" for j cr' q'
    using parse_unicode_property_pos [OF that] by simp
  ultimately show ?thesis using assms
    by (auto simp: escape_atom_def pbind_POk ub_POk split: if_splits option.splits)
      (auto split: escape.splits if_splits)
qed

lemma get_class_atom_pos: "get_class_atom s p i = POk (v, cr, q) \<Longrightarrow> p < q \<and> p < length (ps_buf s)"
  using escape_atom_pos [of s _ p] normal_char_pos [of s _ p]
  by (fastforce simp: get_class_atom_def pbind_POk ub_POk rd_def split: if_splits)

section \<open>Emitting ranges\<close>

text \<open>The appends to the byte code; their results are not looked at.\<close>

definition emit_bytes :: "(DynBuf \<Rightarrow> dbuf_result) \<Rightarrow> REParseState \<Rightarrow> REParseState option" where
  "emit_bytes put s = do { (d, err) \<leftarrow> put (ps_byte_code s); Some (s\<lparr>ps_byte_code := d\<rparr>) }"

primrec index_of :: "'a \<Rightarrow> 'a list \<Rightarrow> nat" where
  "index_of x [] = 0"
| "index_of x (y # ys) = (if x = y then 0 else Suc (index_of x ys))"

definition opc :: "REOPCodeEnum \<Rightarrow> byte" where "opc r = of_nat (index_of r reop_list)"

definition re_emit_op :: "REOPCodeEnum \<Rightarrow> REParseState \<Rightarrow> REParseState option" where
  "re_emit_op r s = emit_bytes (\<lambda>d. dbuf_putc d (opc r)) s"

definition re_emit_op_u32 :: "REOPCodeEnum \<Rightarrow> u32 \<Rightarrow> REParseState \<Rightarrow> (nat \<times> REParseState) option" where
  "re_emit_op_u32 r val s = do {
     s \<leftarrow> re_emit_op r s;
     let pos = dbuf_size (ps_byte_code s);
     s \<leftarrow> emit_bytes (\<lambda>d. dbuf_put_u32 d val) s;
     Some (pos, s)
   }"

definition re_emit_goto :: "REOPCodeEnum \<Rightarrow> u32 \<Rightarrow> REParseState \<Rightarrow> REParseState option" where
  "re_emit_goto r val s = do {
     s \<leftarrow> re_emit_op r s;
     let pos = dbuf_size (ps_byte_code s);
     emit_bytes (\<lambda>d. dbuf_put_u32 d (val - of_nat (pos + 4))) s
   }"

definition re_emit_op_u8 :: "REOPCodeEnum \<Rightarrow> byte \<Rightarrow> REParseState \<Rightarrow> REParseState option" where
  "re_emit_op_u8 r val s = do { s \<leftarrow> re_emit_op r s; emit_bytes (\<lambda>d. dbuf_putc d val) s }"

definition re_emit_op_u16 :: "REOPCodeEnum \<Rightarrow> u16 \<Rightarrow> REParseState \<Rightarrow> REParseState option" where
  "re_emit_op_u16 r val s = do { s \<leftarrow> re_emit_op r s; emit_bytes (\<lambda>d. dbuf_put_u16 d val) s }"

fun emit_ranges16 :: "u32 list \<Rightarrow> nat \<Rightarrow> nat \<Rightarrow> REParseState \<Rightarrow> REParseState option" where
  "emit_ranges16 pts i 0 s = Some s"
| "emit_ranges16 pts i (Suc n) s = do {
     low \<leftarrow> rd pts i;
     s \<leftarrow> emit_bytes (\<lambda>d. dbuf_put_u16 d (ucast low)) s;
     pt \<leftarrow> rd pts (i + 1);
     let high = (if pt - 1 = 0xfffffffe then 0xffff else pt - 1);
     s \<leftarrow> emit_bytes (\<lambda>d. dbuf_put_u16 d (ucast high)) s;
     emit_ranges16 pts (i + 2) n s
   }"

fun emit_ranges32 :: "u32 list \<Rightarrow> nat \<Rightarrow> nat \<Rightarrow> REParseState \<Rightarrow> REParseState option" where
  "emit_ranges32 pts i 0 s = Some s"
| "emit_ranges32 pts i (Suc n) s = do {
     low \<leftarrow> rd pts i;
     s \<leftarrow> emit_bytes (\<lambda>d. dbuf_put_u32 d low) s;
     pt \<leftarrow> rd pts (i + 1);
     s \<leftarrow> emit_bytes (\<lambda>d. dbuf_put_u32 d (pt - 1)) s;
     emit_ranges32 pts (i + 2) n s
   }"

definition re_emit_range :: "CharRange \<Rightarrow> REParseState \<Rightarrow> REParseState presult" where
  "re_emit_range cr s =
     (let len = cr_len cr div 2 in
      if len \<ge> 65535 then PErr ''too many ranges''
      else if len = 0 then ub (map_option snd (re_emit_op_u32 REOP_char32 (-1) s))
      else ub (do {
        high \<leftarrow> rd (cr_points cr) (cr_len cr - 1);
        high \<leftarrow> (if high = 0xffffffff then rd (cr_points cr) (cr_len cr - 2) else Some high);
        if high \<le> 0xffff
        then do {
          s \<leftarrow> re_emit_op_u16 REOP_range (of_nat len) s;
          emit_ranges16 (cr_points cr) 0 ((cr_len cr + 1) div 2) s
        }
        else do {
          s \<leftarrow> re_emit_op_u16 REOP_range32 (of_nat len) s;
          emit_ranges32 (cr_points cr) 0 ((cr_len cr + 1) div 2) s
        }
      }))"

section \<open>Bracketed classes\<close>

definition class_atom :: "CharRange \<Rightarrow> int \<Rightarrow> CharRange option \<Rightarrow> CharRange presult" where
  "class_atom cr c1 cr1 =
     (if c1 \<ge> CLASS_RANGE_BASE
      then (case cr1 of None \<Rightarrow> PUndefined | Some r \<Rightarrow> cr_try (cr_union1 cr (cr_points r) (cr_len r)))
      else cr_try (cr_union_interval cr (of_int c1) (of_int c1)))"

text \<open>One member of the class at \<open>p\<close>: an atom or a range of two atoms.\<close>

definition class_member :: "REParseState \<Rightarrow> CharRange \<Rightarrow> nat \<Rightarrow> (CharRange \<times> nat) presult" where
  "class_member s cr p =
     pbind (get_class_atom s p True) (\<lambda>(c1, cr1, p1).
     pbind (ub (rd (ps_buf s) p1)) (\<lambda>b1.
     pbind (if b1 = ch CHR ''-'' then ub (rd (ps_buf s) (p1 + 1)) else POk (ch CHR '']'')) (\<lambda>b2.
     let single = pbind (class_atom cr c1 cr1) (\<lambda>cr. POk (cr, p1)) in
     if b2 = ch CHR '']'' then single
     else if c1 \<ge> CLASS_RANGE_BASE then if ps_is_utf16 s then PErr ''invalid class range'' else single
     else pbind (get_class_atom s (p1 + 1) True) (\<lambda>(c2, cr2, p2).
       if c2 \<ge> CLASS_RANGE_BASE then if ps_is_utf16 s then PErr ''invalid class range'' else single
       else if c2 < c1 then PErr ''invalid class range''
       else pbind (cr_try (cr_union_interval cr (of_int c1) (of_int c2))) (\<lambda>cr. POk (cr, p2))))))"

lemma class_member_pos: "class_member s cr p = POk (cr', q) \<Longrightarrow> p < q \<and> p < length (ps_buf s)"
  by (auto simp: class_member_def pbind_POk ub_POk Let_def split: if_splits dest!: get_class_atom_pos)

function class_loop :: "REParseState \<Rightarrow> CharRange \<Rightarrow> nat \<Rightarrow> (CharRange \<times> nat) presult" where
  "class_loop s cr p =
     pbind (ub (rd (ps_buf s) p)) (\<lambda>b.
     if b = ch CHR '']'' then POk (cr, p)
     else pbind (class_member s cr p) (\<lambda>(cr, p). class_loop s cr p))"
  by pat_completeness auto
termination by (relation "measure (\<lambda>(s, cr, p). length (ps_buf s) - p)") (auto dest!: class_member_pos)

declare class_loop.simps [simp del]

definition re_parse_char_class :: "nat \<Rightarrow> REParseState \<Rightarrow> (nat \<times> REParseState) presult" where
  "re_parse_char_class p s =
     pbind (ub (rd (ps_buf s) (p + 1))) (\<lambda>b.
     let invert = (b = ch CHR ''^'') in
     pbind (class_loop s (cr_init (ps_cr_realloc s) (Some (ps_cr_realloc s))) (if invert then p + 2 else p + 1)) (\<lambda>(cr, p).
     pbind (if ps_ignore_case s then cr_try (cr_canonicalize cr) else POk cr) (\<lambda>cr.
     pbind (if invert then cr_try (cr_invert cr) else POk cr) (\<lambda>cr.
     pbind (re_emit_range cr s) (\<lambda>s. POk (p + 1, s))))))"

end
