(* ===== verification/Lre_Compile.thy ===== *)
theory Lre_Compile
  imports Lre_Class
begin

text \<open>
  The regular expression compiler of \<^verbatim>\<open>libregexp.c\<close>: terms with their quantifiers, alternatives,
  disjunctions, and \<open>lre_compile\<close>.  It writes into the \<open>DynBuf\<close> of the library model, so a store
  outside the allocated block is \<open>PUndefined\<close>.

  The three parsing functions call each other; \<open>n\<close> is the fuel (of the nesting and of each loop) and \<open>depth\<close> the nesting depth, of
  which \<open>lre_check_stack_overflow\<close> decides when it is too large.
\<close>

section \<open>Walks over byte code\<close>

definition op_at :: "byte list \<Rightarrow> nat \<Rightarrow> REOPCodeEnum option" where
  "op_at mem p = do { b \<leftarrow> rd mem p; reop_of b }"

text \<open>The size of the instruction at \<open>p\<close>, with the entries of a range.\<close>

definition op_len :: "byte list \<Rightarrow> nat \<Rightarrow> REOPCodeEnum \<Rightarrow> nat option" where
  "op_len mem p opcode =
     (case opcode of
        REOP_range \<Rightarrow> map_option (\<lambda>n. 3 + unat n * 4) (get_u16 mem (p + 1))
      | REOP_range32 \<Rightarrow> map_option (\<lambda>n. 3 + unat n * 8) (get_u16 mem (p + 1))
      | _ \<Rightarrow> Some (reopcode_size opcode))"

lemma op_len_pos: "op_len mem p opcode = Some n \<Longrightarrow> 0 < n"
  by (cases opcode) (auto simp: op_len_def)

definition is_char_op :: "REOPCodeEnum \<Rightarrow> bool" where
  "is_char_op r \<longleftrightarrow> r \<in> {REOP_range, REOP_range32, REOP_char, REOP_char32, REOP_dot, REOP_any}"

function simple_quantifier_loop :: "byte list \<Rightarrow> nat \<Rightarrow> nat \<Rightarrow> int \<Rightarrow> int option" where
  "simple_quantifier_loop mem pos bc_end count =
     (if pos < bc_end
      then do {
        opcode \<leftarrow> op_at mem pos;
        len \<leftarrow> op_len mem pos opcode;
        if is_char_op opcode then simple_quantifier_loop mem (pos + len) bc_end (count + 1)
        else if opcode \<in> {REOP_line_start, REOP_line_end, REOP_word_boundary, REOP_not_word_boundary}
        then simple_quantifier_loop mem (pos + len) bc_end count
        else Some (-1)
      }
      else Some count)"
  by pat_completeness auto
termination by (relation "measure (\<lambda>(mem, p, e, c). e - p)") (auto dest: op_len_pos)

declare simple_quantifier_loop.simps [simp del]

text \<open>The code from \<open>start\<close> to \<open>bc_end\<close> of the buffer.\<close>

definition re_is_simple_quantifier :: "byte list \<Rightarrow> nat \<Rightarrow> nat \<Rightarrow> int option" where
  "re_is_simple_quantifier mem start bc_end = simple_quantifier_loop mem start bc_end 0"

fun mark_captures :: "nat \<Rightarrow> nat \<Rightarrow> byte list \<Rightarrow> byte list option" where
  "mark_captures val 0 bitmap = Some bitmap"
| "mark_captures val (Suc n) bitmap = do {
     b \<leftarrow> rd bitmap val;
     bitmap \<leftarrow> wr bitmap val (or b 1);
     mark_captures (val + 1) n bitmap
   }"

text \<open>The effect of one instruction on \<open>ret\<close>, \<open>has_back_reference\<close> and \<open>capture_bitmap\<close>.\<close>

definition advance_step :: "byte list \<Rightarrow> nat \<Rightarrow> REOPCodeEnum \<Rightarrow> int \<Rightarrow> bool \<Rightarrow> byte list \<Rightarrow> (int \<times> bool \<times> byte list) option" where
  "advance_step mem pos opcode ret has_ref bitmap =
     (if is_char_op opcode then Some (if ret = -2 then 1 else ret, has_ref, bitmap)
      else if opcode \<in> {REOP_line_start, REOP_line_end, REOP_push_i32, REOP_push_char_pos, REOP_drop,
          REOP_word_boundary, REOP_not_word_boundary, REOP_prev}
      then Some (ret, has_ref, bitmap)
      else if opcode = REOP_save_start \<or> opcode = REOP_save_end
      then do {
        val \<leftarrow> rd mem (pos + 1);
        bitmap \<leftarrow> mark_captures (unat val) 1 bitmap;
        Some (ret, has_ref, bitmap)
      }
      else if opcode = REOP_save_reset
      then do {
        val \<leftarrow> rd mem (pos + 1);
        last \<leftarrow> rd mem (pos + 2);
        bitmap \<leftarrow> mark_captures (unat val) (unat last - unat val) bitmap;
        Some (ret, has_ref, bitmap)
      }
      else if opcode = REOP_back_reference \<or> opcode = REOP_backward_back_reference
      then do {
        val \<leftarrow> rd mem (pos + 1);
        b \<leftarrow> rd bitmap (unat val);
        bitmap \<leftarrow> wr bitmap (unat val) (or b 2);
        Some (ret, True, bitmap)
      }
      else Some (if ret = -2 then 0 else ret, has_ref, bitmap))"

function check_advance_loop :: "byte list \<Rightarrow> nat \<Rightarrow> nat \<Rightarrow> int \<Rightarrow> bool \<Rightarrow> byte list \<Rightarrow> (int \<times> bool \<times> byte list) option" where
  "check_advance_loop mem pos bc_end ret has_ref bitmap =
     (if pos < bc_end
      then do {
        opcode \<leftarrow> op_at mem pos;
        len \<leftarrow> op_len mem pos opcode;
        (ret, has_ref, bitmap) \<leftarrow> advance_step mem pos opcode ret has_ref bitmap;
        check_advance_loop mem (pos + len) bc_end ret has_ref bitmap
      }
      else Some (ret, has_ref, bitmap))"
  by pat_completeness auto
termination by (relation "measure (\<lambda>(mem, p, e, r, h, b). e - p)") (auto dest: op_len_pos)

declare check_advance_loop.simps [simp del]

definition re_check_advance :: "byte list \<Rightarrow> nat \<Rightarrow> nat \<Rightarrow> int option" where
  "re_check_advance mem start bc_end = do {
     (ret, has_ref, bitmap) \<leftarrow> check_advance_loop mem start bc_end (-2) False (replicate CAPTURE_COUNT_MAX 0);
     Some (if has_ref \<and> 3 \<in> set bitmap then -1 else if ret = -2 then 0 else ret)
   }"

definition STACK_SIZE_MAX :: nat where "STACK_SIZE_MAX = 255"

text \<open>\<open>None\<close> is a failed assertion or a read outside the code; \<open>Some None\<close> the result -1.\<close>

function stack_size_loop :: "byte list \<Rightarrow> nat \<Rightarrow> nat \<Rightarrow> nat \<Rightarrow> nat \<Rightarrow> nat option option" where
  "stack_size_loop mem pos bc_end stack_size stack_max =
     (if pos < bc_end
      then do {
        opcode \<leftarrow> op_at mem pos;
        len \<leftarrow> op_len mem pos opcode;
        if pos + reopcode_size opcode > bc_end then None
        else if opcode \<in> {REOP_push_i32, REOP_push_char_pos}
        then if stack_size + 1 > stack_max \<and> stack_size + 1 > STACK_SIZE_MAX then Some None
          else stack_size_loop mem (pos + len) bc_end (stack_size + 1) (max stack_max (stack_size + 1))
        else if opcode \<in> {REOP_drop, REOP_bne_char_pos}
        then if stack_size = 0 then None
          else stack_size_loop mem (pos + len) bc_end (stack_size - 1) stack_max
        else stack_size_loop mem (pos + len) bc_end stack_size stack_max
      }
      else Some (Some stack_max))"
  by pat_completeness auto
termination by (relation "measure (\<lambda>(mem, p, e, s, m). e - p)") (auto dest: op_len_pos)

declare stack_size_loop.simps [simp del]

definition compute_stack_size :: "byte list \<Rightarrow> nat \<Rightarrow> nat option option" where
  "compute_stack_size mem bc_buf_len = stack_size_loop mem RE_HEADER_LEN bc_buf_len 0 0"

section \<open>Editing the byte code\<close>

definition bc_size :: "REParseState \<Rightarrow> nat" where "bc_size s = dbuf_size (ps_byte_code s)"

abbreviation bc_mem :: "REParseState \<Rightarrow> byte list" where "bc_mem s \<equiv> dbuf_mem (ps_byte_code s)"

definition dbuf_insert :: "DynBuf \<Rightarrow> nat \<Rightarrow> nat \<Rightarrow> dbuf_result" where
  "dbuf_insert d pos len = do {
     (d, err) \<leftarrow> dbuf_realloc d (dbuf_size d + len);
     if err then Some (d, True)
     else if pos \<le> dbuf_size d \<and> dbuf_size d + len \<le> length (dbuf_mem d)
     then Some (d\<lparr>dbuf_mem := take (pos + len) (dbuf_mem d) @ take (dbuf_size d - pos) (drop pos (dbuf_mem d)) @
                    drop (dbuf_size d + len) (dbuf_mem d), dbuf_size := dbuf_size d + len\<rparr>, False)
     else None
   }"

definition bc_insert :: "nat \<Rightarrow> nat \<Rightarrow> REParseState \<Rightarrow> REParseState presult" where
  "bc_insert pos len s =
     pbind (ub (dbuf_insert (ps_byte_code s) pos len)) (\<lambda>(d, err). if err then PErr ''out of memory'' else POk (s\<lparr>ps_byte_code := d\<rparr>))"

definition bc_set_mem :: "REParseState \<Rightarrow> byte list \<Rightarrow> REParseState" where
  "bc_set_mem s mem = s\<lparr>ps_byte_code := (ps_byte_code s)\<lparr>dbuf_mem := mem\<rparr>\<rparr>"

definition bc_put :: "nat \<Rightarrow> byte \<Rightarrow> REParseState \<Rightarrow> REParseState presult" where
  "bc_put pos b s = ub (map_option (bc_set_mem s) (wr (bc_mem s) pos b))"

definition bc_put_u32 :: "nat \<Rightarrow> u32 \<Rightarrow> REParseState \<Rightarrow> REParseState presult" where
  "bc_put_u32 pos v s = ub (map_option (bc_set_mem s) (put_u32 (bc_mem s) pos v))"

definition check_error :: "REParseState \<Rightarrow> unit presult" where
  "check_error s = (if dbuf_error (ps_byte_code s) then PErr ''out of memory'' else POk ())"


section \<open>Quantifiers\<close>

text \<open>The syntax after an atom: the bounds and the pointer after them, or no quantifier.\<close>

definition braces_quantifier :: "REParseState \<Rightarrow> nat \<Rightarrow> (int \<times> int \<times> nat) option presult" where
  "braces_quantifier s p =
     pbind (ub (rd (ps_buf s) (p + 1))) (\<lambda>b.
     if \<not> is_digit b then if ps_is_utf16 s then PErr ''invalid repetition count'' else POk None
     else pbind (ub (parse_digits (ps_buf s) (p + 1) True)) (\<lambda>(quant_min, p1).
     pbind (ub (rd (ps_buf s) p1)) (\<lambda>b.
     pbind (if b = ch CHR '',''
       then pbind (ub (rd (ps_buf s) (p1 + 1))) (\<lambda>b.
         if is_digit b
         then pbind (ub (parse_digits (ps_buf s) (p1 + 1) True)) (\<lambda>(quant_max, p2).
           if quant_max < quant_min then PErr ''invalid repetition count'' else POk (quant_max, p2))
         else POk (INT32_MAX, p1 + 1))
       else POk (quant_min, p1)) (\<lambda>(quant_max, p2).
     pbind (ub (rd (ps_buf s) p2)) (\<lambda>b.
     if b \<noteq> ch CHR ''}'' \<and> \<not> ps_is_utf16 s then POk None
     else pbind (re_parse_expect (ps_buf s) p2 CHR ''}'') (\<lambda>p. POk (Some (quant_min, quant_max, p))))))))"

definition parse_quantifier :: "REParseState \<Rightarrow> nat \<Rightarrow> (int \<times> int \<times> nat) option presult" where
  "parse_quantifier s p =
     pbind (ub (rd (ps_buf s) p)) (\<lambda>c.
     if c = ch CHR ''*'' then POk (Some (0, INT32_MAX, p + 1))
     else if c = ch CHR ''+'' then POk (Some (1, INT32_MAX, p + 1))
     else if c = ch CHR ''?'' then POk (Some (0, 1, p + 1))
     else if c = ch CHR ''{'' then braces_quantifier s p
     else POk None)"

text \<open>The code of a greedy quantifier whose atom is a straight line of \<open>len\<close> characters.\<close>

definition emit_simple_quantifier :: "nat \<Rightarrow> int \<Rightarrow> int \<Rightarrow> int \<Rightarrow> REParseState \<Rightarrow> REParseState presult" where
  "emit_simple_quantifier start quant_min quant_max len s =
     pbind (ub (re_emit_op REOP_match s)) (\<lambda>s.
     pbind (bc_insert start 17 s) (\<lambda>s.
     pbind (bc_put start (opc REOP_simple_greedy_quant) s) (\<lambda>s.
     pbind (bc_put_u32 (start + 1) (of_nat (bc_size s - start - 17)) s) (\<lambda>s.
     pbind (bc_put_u32 (start + 5) (of_int quant_min) s) (\<lambda>s.
     pbind (bc_put_u32 (start + 9) (of_int quant_max) s) (\<lambda>s.
     bc_put_u32 (start + 13) (of_int len) s))))))"

definition split_op :: "bool \<Rightarrow> REOPCodeEnum" where
  "split_op greedy = (if greedy then REOP_split_next_first else REOP_split_goto_first)"

text \<open>\<open>{0,...}\<close>: the captures of a skipped atom are reset.\<close>

definition emit_quant_min0 :: "nat \<Rightarrow> nat \<Rightarrow> int \<Rightarrow> bool \<Rightarrow> bool \<Rightarrow> REParseState \<Rightarrow> REParseState presult" where
  "emit_quant_min0 start last_capture_count quant_max greedy zero_check s =
     (let len = bc_size s - start; extra = of_bool zero_check in
      pbind (if last_capture_count \<noteq> ps_capture_count s
        then pbind (bc_insert start 3 s) (\<lambda>s.
          pbind (bc_put start (opc REOP_save_reset) s) (\<lambda>s.
          pbind (bc_put (start + 1) (of_nat last_capture_count) s) (\<lambda>s.
          pbind (bc_put (start + 2) (of_nat (ps_capture_count s) - 1) s) (\<lambda>s. POk (start + 3, s)))))
        else POk (start, s)) (\<lambda>(start, s).
      if quant_max = 0 then POk (s\<lparr>ps_byte_code := (ps_byte_code s)\<lparr>dbuf_size := start\<rparr>\<rparr>)
      else if quant_max = 1
      then pbind (bc_insert start 5 s) (\<lambda>s.
        pbind (bc_put start (opc (split_op greedy)) s) (\<lambda>s.
        bc_put_u32 (start + 1) (of_nat len) s))
      else if quant_max = INT32_MAX
      then pbind (bc_insert start (5 + extra) s) (\<lambda>s.
        pbind (bc_put start (opc (split_op greedy)) s) (\<lambda>s.
        pbind (bc_put_u32 (start + 1) (of_nat (len + 5 + extra)) s) (\<lambda>s.
        if zero_check
        then pbind (bc_put (start + 1 + 4) (opc REOP_push_char_pos) s) (\<lambda>s.
          ub (re_emit_goto REOP_bne_char_pos (of_nat start) s))
        else ub (re_emit_goto REOP_goto (of_nat start) s))))
      else pbind (bc_insert start 10 s) (\<lambda>s.
        pbind (bc_put start (opc REOP_push_i32) s) (\<lambda>s.
        pbind (bc_put_u32 (start + 1) (of_int quant_max) s) (\<lambda>s.
        pbind (bc_put (start + 5) (opc (split_op greedy)) s) (\<lambda>s.
        pbind (bc_put_u32 (start + 6) (of_nat (len + 5)) s) (\<lambda>s.
        pbind (ub (re_emit_goto REOP_loop (of_nat (start + 5)) s)) (\<lambda>s.
        ub (re_emit_op REOP_drop s)))))))))"

text \<open>The optional copies after the mandatory ones.\<close>

definition emit_quant_tail :: "nat \<Rightarrow> nat \<Rightarrow> int \<Rightarrow> int \<Rightarrow> bool \<Rightarrow> bool \<Rightarrow> REParseState \<Rightarrow> REParseState option" where
  "emit_quant_tail start len quant_min quant_max greedy zero_check s =
     (if quant_max = INT32_MAX
      then do {
        let pos = bc_size s;
        (_, s) \<leftarrow> re_emit_op_u32 (split_op greedy) (of_nat (len + 5 + of_bool zero_check)) s;
        s \<leftarrow> (if zero_check then re_emit_op REOP_push_char_pos s else Some s);
        s \<leftarrow> emit_bytes (\<lambda>d. dbuf_put_self d start len) s;
        re_emit_goto (if zero_check then REOP_bne_char_pos else REOP_goto) (of_nat pos) s
      }
      else if quant_max > quant_min
      then do {
        (_, s) \<leftarrow> re_emit_op_u32 REOP_push_i32 (of_int (quant_max - quant_min)) s;
        let pos = bc_size s;
        (_, s) \<leftarrow> re_emit_op_u32 (split_op greedy) (of_nat (len + 5)) s;
        s \<leftarrow> emit_bytes (\<lambda>d. dbuf_put_self d start len) s;
        s \<leftarrow> re_emit_goto REOP_loop (of_nat pos) s;
        re_emit_op REOP_drop s
      }
      else Some s)"

definition emit_quant_min1 :: "nat \<Rightarrow> int \<Rightarrow> int \<Rightarrow> bool \<Rightarrow> bool \<Rightarrow> REParseState \<Rightarrow> REParseState presult" where
  "emit_quant_min1 start quant_min quant_max greedy zero_check s =
     (let len = bc_size s - start in
      if quant_min = 1 \<and> quant_max = INT32_MAX \<and> \<not> zero_check
      then ub (re_emit_goto (split_op (\<not> greedy)) (of_nat start) s)
      else pbind (if quant_min = 1 then POk (start, s)
        else pbind (bc_insert start 5 s) (\<lambda>s.
          pbind (bc_put start (opc REOP_push_i32) s) (\<lambda>s.
          pbind (bc_put_u32 (start + 1) (of_int quant_min) s) (\<lambda>s.
          pbind (ub (re_emit_goto REOP_loop (of_nat (start + 5)) s)) (\<lambda>s.
          pbind (ub (re_emit_op REOP_drop s)) (\<lambda>s. POk (start + 5, s))))))) (\<lambda>(start, s).
      ub (emit_quant_tail start len quant_min quant_max greedy zero_check s)))"

text \<open>The part of \<open>re_parse_term\<close> after the atom, which starts at \<open>start\<close> in the byte code.\<close>

definition re_quantifier :: "nat \<Rightarrow> nat option \<Rightarrow> nat \<Rightarrow> REParseState \<Rightarrow> REParseState presult" where
  "re_quantifier p last_atom_start last_capture_count s =
     (case last_atom_start of
        None \<Rightarrow> POk (s\<lparr>ps_buf_ptr := p\<rparr>)
      | Some start \<Rightarrow>
        pbind (parse_quantifier s p) (\<lambda>q.
        case q of
          None \<Rightarrow> POk (s\<lparr>ps_buf_ptr := p\<rparr>)
        | Some (quant_min, quant_max, p) \<Rightarrow>
          pbind (ub (rd (ps_buf s) p)) (\<lambda>b.
          let greedy = (b \<noteq> ch CHR ''?''); p = (if greedy then p else p + 1) in
          pbind (if greedy then check_error s else POk ()) (\<lambda>_.
          pbind (if greedy \<and> quant_max > 0 then ub (re_is_simple_quantifier (bc_mem s) start (bc_size s)) else POk (-1)) (\<lambda>len.
          if len > 0
          then pbind (emit_simple_quantifier start quant_min quant_max len s) (\<lambda>s. POk (s\<lparr>ps_buf_ptr := p\<rparr>))
          else pbind (if greedy then ub (re_check_advance (bc_mem s) start (bc_size s)) else POk 1) (\<lambda>adv.
            pbind (if quant_min = 0 then emit_quant_min0 start last_capture_count quant_max greedy (adv = 0) s
              else emit_quant_min1 start quant_min quant_max greedy (adv = 0) s) (\<lambda>s.
            POk (s\<lparr>ps_buf_ptr := p\<rparr>))))))))"


section \<open>Atoms\<close>

text \<open>
  An atom returns the pointer after it, the position of its code when it can be repeated with the
  number of captures before it, and the state.
\<close>

type_synonym atom_result = "(nat \<times> nat option \<times> nat \<times> REParseState) presult"

definition emit_prev :: "bool \<Rightarrow> REParseState \<Rightarrow> REParseState option" where
  "emit_prev is_backward_dir s = (if is_backward_dir then re_emit_op REOP_prev s else Some s)"

text \<open>The label \<open>normal_char\<close> of \<open>re_parse_term\<close>.\<close>

definition emit_char_atom :: "int \<Rightarrow> CharRange option \<Rightarrow> nat \<Rightarrow> bool \<Rightarrow> REParseState \<Rightarrow> atom_result" where
  "emit_char_atom c cr p is_backward_dir s0 =
     pbind (ub (emit_prev is_backward_dir s0)) (\<lambda>s.
     pbind (if c \<ge> CLASS_RANGE_BASE
       then (case cr of None \<Rightarrow> PUndefined | Some cr \<Rightarrow> re_emit_range cr s)
       else pbind (ub (if ps_ignore_case s then lre_canonicalize c (ps_is_utf16 s) else Some c)) (\<lambda>c.
         if c \<le> 0xffff then ub (re_emit_op_u16 REOP_char (of_int c) s)
         else ub (map_option snd (re_emit_op_u32 REOP_char32 (of_int c) s)))) (\<lambda>s.
     pbind (ub (emit_prev is_backward_dir s)) (\<lambda>s.
     POk (p, Some (bc_size s0), ps_capture_count s0, s))))"

definition parse_class_atom :: "nat \<Rightarrow> bool \<Rightarrow> REParseState \<Rightarrow> atom_result" where
  "parse_class_atom p is_backward_dir s =
     pbind (get_class_atom s p False) (\<lambda>(c, cr, p). emit_char_atom c cr p is_backward_dir s)"

definition emit_back_reference :: "int \<Rightarrow> nat \<Rightarrow> bool \<Rightarrow> REParseState \<Rightarrow> atom_result" where
  "emit_back_reference c p is_backward_dir s =
     pbind (ub (re_emit_op_u8 (if is_backward_dir then REOP_backward_back_reference else REOP_back_reference) (of_int c) s)) (\<lambda>s'.
     POk (p, Some (bc_size s), ps_capture_count s, s'))"

text \<open>An error in unicode mode or when the pattern has named groups, otherwise a plain atom.\<close>

definition named_ref_error :: "string \<Rightarrow> nat \<Rightarrow> bool \<Rightarrow> REParseState \<Rightarrow> atom_result" where
  "named_ref_error msg p is_backward_dir s =
     (if ps_is_utf16 s then PErr msg
      else pbind (ub (re_has_named_captures s)) (\<lambda>(named, s). if named then PErr msg else parse_class_atom p is_backward_dir s))"

definition named_reference :: "nat \<Rightarrow> bool \<Rightarrow> REParseState \<Rightarrow> atom_result" where
  "named_reference p is_backward_dir s =
     pbind (ub (rd (ps_buf s) (p + 2))) (\<lambda>b.
     if b \<noteq> ch CHR ''<'' then named_ref_error ''expecting group name'' p is_backward_dir s
     else pbind (ub (re_parse_group_name (ps_buf s) (p + 3) (ps_is_utf16 s))) (\<lambda>r.
     case r of None \<Rightarrow> named_ref_error ''invalid group name'' p is_backward_dir s
     | Some (name, p1) \<Rightarrow>
       pbind (ub (find_group_name (ps_group_names s) name)) (\<lambda>c.
       if c \<ge> 0 then emit_back_reference c p1 is_backward_dir s
       else pbind (ub (re_parse_captures (ps_buf s) (ps_buf_end s) (ps_is_utf16 s) (Some name))) (\<lambda>(c, _).
         if c < 0 then named_ref_error ''group name not defined'' p is_backward_dir s
         else emit_back_reference c p1 is_backward_dir s))))"

definition is_octal :: "byte \<Rightarrow> bool" where "is_octal b \<longleftrightarrow> ch CHR ''0'' \<le> b \<and> b \<le> ch CHR ''7''"

text \<open>At most \<open>n\<close> further octal digits.\<close>

fun octal_digits :: "byte list \<Rightarrow> nat \<Rightarrow> nat \<Rightarrow> int \<Rightarrow> (int \<times> nat) option" where
  "octal_digits buf p 0 c = Some (c, p)"
| "octal_digits buf p (Suc n) c = do {
     b \<leftarrow> rd buf p;
     if is_octal b then octal_digits buf (p + 1) n (c * 8 + (uint b - 48)) else Some (c, p)
   }"

definition zero_escape :: "nat \<Rightarrow> bool \<Rightarrow> REParseState \<Rightarrow> atom_result" where
  "zero_escape p is_backward_dir s =
     (if ps_is_utf16 s
      then pbind (ub (rd (ps_buf s) (p + 2))) (\<lambda>b.
        if is_digit b then PErr ''invalid decimal escape in regular expression''
        else emit_char_atom 0 None (p + 2) is_backward_dir s)
      else pbind (ub (octal_digits (ps_buf s) (p + 2) 2 0)) (\<lambda>(c, p). emit_char_atom c None p is_backward_dir s))"

text \<open>The legacy reading of a decimal escape at \<open>q\<close>.\<close>

definition legacy_octal :: "byte list \<Rightarrow> nat \<Rightarrow> (int \<times> nat) option" where
  "legacy_octal buf q = do {
     b \<leftarrow> rd buf q;
     if b \<le> ch CHR ''7''
     then octal_digits buf (if b \<le> ch CHR ''3'' then q + 1 else q) 2 (if b \<le> ch CHR ''3'' then uint b - 48 else 0)
     else Some (uint b, q + 1)
   }"

definition decimal_escape :: "nat \<Rightarrow> bool \<Rightarrow> REParseState \<Rightarrow> atom_result" where
  "decimal_escape p is_backward_dir s =
     pbind (ub (parse_digits (ps_buf s) (p + 1) False)) (\<lambda>(c, p1).
     pbind (if c \<ge> 0 \<and> c \<ge> int (ps_capture_count s)
       then pbind (ub (re_count_captures s)) (\<lambda>(n, s). POk (c \<ge> n, s)) else POk (c < 0, s)) (\<lambda>(bad, s).
     if \<not> bad then emit_back_reference c p1 is_backward_dir s
     else if ps_is_utf16 s then PErr ''back reference out of range in regular expression''
     else pbind (ub (legacy_octal (ps_buf s) (p + 1))) (\<lambda>(c, p). emit_char_atom c None p is_backward_dir s)))"

definition escape_term :: "nat \<Rightarrow> bool \<Rightarrow> REParseState \<Rightarrow> atom_result" where
  "escape_term p is_backward_dir s =
     pbind (ub (rd (ps_buf s) (p + 1))) (\<lambda>b.
     if b = ch CHR ''b'' then pbind (ub (re_emit_op REOP_word_boundary s)) (\<lambda>s. POk (p + 2, None, 0, s))
     else if b = ch CHR ''B'' then pbind (ub (re_emit_op REOP_not_word_boundary s)) (\<lambda>s. POk (p + 2, None, 0, s))
     else if b = ch CHR ''k'' then named_reference p is_backward_dir s
     else if b = ch CHR ''0'' then zero_escape p is_backward_dir s
     else if is_digit b then decimal_escape p is_backward_dir s
     else parse_class_atom p is_backward_dir s)"

text \<open>The test whether a brace looks like a repetition count.\<close>

definition looks_like_count :: "byte list \<Rightarrow> nat \<Rightarrow> bool option" where
  "looks_like_count buf p = do {
     (_, p1) \<leftarrow> parse_digits buf p True;
     b \<leftarrow> rd buf p1;
     p2 \<leftarrow> (if b = ch CHR '',''
       then do {
         b' \<leftarrow> rd buf (p1 + 1);
         if is_digit b' then map_option snd (parse_digits buf (p1 + 1) True) else Some (p1 + 1)
       }
       else Some p1);
     b \<leftarrow> rd buf p2;
     Some (b = ch CHR ''}'')
   }"

definition brace_term :: "nat \<Rightarrow> bool \<Rightarrow> REParseState \<Rightarrow> atom_result" where
  "brace_term p is_backward_dir s =
     (if ps_is_utf16 s then PErr ''syntax error''
      else pbind (ub (rd (ps_buf s) (p + 1))) (\<lambda>b.
        if \<not> is_digit b then parse_class_atom p is_backward_dir s
        else pbind (ub (looks_like_count (ps_buf s) (p + 1))) (\<lambda>count.
          if count then PErr ''nothing to repeat'' else parse_class_atom p is_backward_dir s)))"

text \<open>The cases of \<open>re_parse_term\<close> that do not call the parser again.\<close>

definition simple_term :: "byte \<Rightarrow> nat \<Rightarrow> bool \<Rightarrow> REParseState \<Rightarrow> atom_result" where
  "simple_term c p is_backward_dir s =
     (if c = ch CHR ''^'' then pbind (ub (re_emit_op REOP_line_start s)) (\<lambda>s. POk (p + 1, None, 0, s))
      else if c = ch CHR ''$'' then pbind (ub (re_emit_op REOP_line_end s)) (\<lambda>s. POk (p + 1, None, 0, s))
      else if c = ch CHR ''.''
      then pbind (ub (do {
          s1 \<leftarrow> emit_prev is_backward_dir s;
          s2 \<leftarrow> re_emit_op (if ps_dotall s then REOP_any else REOP_dot) s1;
          emit_prev is_backward_dir s2
        })) (\<lambda>s'. POk (p + 1, Some (bc_size s), ps_capture_count s, s'))
      else if c = ch CHR ''{'' then brace_term p is_backward_dir s
      else if c = ch CHR ''*'' \<or> c = ch CHR ''+'' \<or> c = ch CHR ''?'' then PErr ''nothing to repeat''
      else if c = 0x5c then escape_term p is_backward_dir s
      else if c = ch CHR ''[''
      then pbind (ub (emit_prev is_backward_dir s)) (\<lambda>s1.
        pbind (re_parse_char_class p s1) (\<lambda>(p, s2).
        pbind (ub (emit_prev is_backward_dir s2)) (\<lambda>s3. POk (p, Some (bc_size s), ps_capture_count s, s3))))
      else if c = ch CHR '']'' \<or> c = ch CHR ''}''
      then if ps_is_utf16 s then PErr ''syntax error'' else parse_class_atom p is_backward_dir s
      else parse_class_atom p is_backward_dir s)"

section \<open>Groups, alternatives, disjunctions\<close>

text \<open>A backward alternative is built in reverse: the code of the new term moves to its front.\<close>

definition reverse_terms :: "nat \<Rightarrow> nat \<Rightarrow> REParseState \<Rightarrow> REParseState presult" where
  "reverse_terms start term_start s =
     (let end' = bc_size s; term_size = end' - term_start in
      pbind (ub (dbuf_realloc (ps_byte_code s) (end' + term_size))) (\<lambda>(d, err).
      if err then PErr ''''
      else if end' + term_size \<le> length (dbuf_mem d) \<and> start + term_size \<le> end'
      then let mem = dbuf_mem d;
               moved = take (start + term_size) mem @ take (end' - start) (drop start mem) @ drop (end' + term_size) mem;
               mem' = take start moved @ take term_size (drop end' moved) @ drop (start + term_size) moved in
        POk (s\<lparr>ps_byte_code := d\<lparr>dbuf_mem := mem'\<rparr>\<rparr>)
      else PUndefined))"

text \<open>The start of a capture, named or not: \<open>p\<close> stands at its body.\<close>

definition open_capture :: "nat \<Rightarrow> bool \<Rightarrow> REParseState \<Rightarrow> REParseState presult" where
  "open_capture p is_backward_dir s =
     (if ps_capture_count s \<ge> CAPTURE_COUNT_MAX then PErr ''too many captures''
      else pbind (ub (re_emit_op_u8 (if is_backward_dir then REOP_save_end else REOP_save_start) (of_nat (ps_capture_count s))
          (s\<lparr>ps_capture_count := ps_capture_count s + 1\<rparr>))) (\<lambda>s. POk (s\<lparr>ps_buf_ptr := p\<rparr>)))"

text \<open>What \<open>(\<close> at \<open>p\<close> opens.\<close>

datatype group_open = Group_plain nat | Group_look bool bool nat | Group_capture nat

definition group_kind :: "nat \<Rightarrow> REParseState \<Rightarrow> (group_open \<times> REParseState) presult" where
  "group_kind p s =
     pbind (ub (rd (ps_buf s) (p + 1))) (\<lambda>b1.
     if b1 \<noteq> ch CHR ''?''
     then pbind (ub (dbuf_putc (ps_group_names s) 0)) (\<lambda>(d, _). POk (Group_capture (p + 1), s\<lparr>ps_group_names := d\<rparr>))
     else pbind (ub (rd (ps_buf s) (p + 2))) (\<lambda>b2.
     if b2 = ch CHR '':'' then POk (Group_plain (p + 3), s)
     else if b2 = ch CHR ''='' \<or> b2 = ch CHR ''!'' then POk (Group_look (b2 = ch CHR ''!'') False (p + 3), s)
     else if b2 \<noteq> ch CHR ''<'' then PErr ''invalid group''
     else pbind (ub (rd (ps_buf s) (p + 3))) (\<lambda>b3.
     if b3 = ch CHR ''='' \<or> b3 = ch CHR ''!'' then POk (Group_look (b3 = ch CHR ''!'') True (p + 4), s)
     else pbind (ub (re_parse_group_name (ps_buf s) (p + 3) (ps_is_utf16 s))) (\<lambda>r.
     case r of None \<Rightarrow> PErr ''invalid group name''
     | Some (name, p1) \<Rightarrow>
       pbind (ub (find_group_name (ps_group_names s) name)) (\<lambda>c.
       if c > 0 then PErr ''duplicate group name''
       else pbind (ub (dbuf_put (ps_group_names s) (name @ [0]) (length name + 1))) (\<lambda>(d, _).
         POk (Group_capture p1, s\<lparr>ps_group_names := d, ps_has_named_captures := 1\<rparr>)))))))"

text \<open>
  \<open>parse_disj bwd\<close> stands for the call of \<open>re_parse_disjunction\<close>, \<open>term\<close> for that of \<open>re_parse_term\<close> and \<open>alt\<close>
  for that of \<open>re_parse_alternative\<close>; the recursion is closed by \<open>re_parse_disjunction\<close> below.
\<close>

definition re_parse_group :: "(bool \<Rightarrow> REParseState \<Rightarrow> REParseState presult) \<Rightarrow> bool \<Rightarrow> REParseState \<Rightarrow> atom_result" where
  "re_parse_group parse_disj bwd s0 =
     pbind (group_kind (ps_buf_ptr s0) s0) (\<lambda>(g, s).
     case g of
       Group_plain p \<Rightarrow>
         pbind (parse_disj bwd (s\<lparr>ps_buf_ptr := p\<rparr>)) (\<lambda>s1.
         pbind (re_parse_expect (ps_buf s1) (ps_buf_ptr s1) CHR '')'') (\<lambda>p.
         POk (p, Some (bc_size s), ps_capture_count s, s1)))
     | Group_look is_neg backward p \<Rightarrow>
         pbind (ub (re_emit_op_u32 (if is_neg then REOP_negative_lookahead else REOP_lookahead) 0 s)) (\<lambda>(pos, s1).
         pbind (parse_disj backward (s1\<lparr>ps_buf_ptr := p\<rparr>)) (\<lambda>s2.
         pbind (re_parse_expect (ps_buf s2) (ps_buf_ptr s2) CHR '')'') (\<lambda>p.
         pbind (ub (re_emit_op REOP_match s2)) (\<lambda>s3.
         if dbuf_error (ps_byte_code s3) then PErr ''''
         else pbind (bc_put_u32 pos (of_nat (bc_size s3) - of_nat (pos + 4)) s3) (\<lambda>s4.
           POk (if \<not> ps_is_utf16 s \<and> \<not> backward then (p, Some (bc_size s), ps_capture_count s, s4) else (p, None, 0, s4)))))))
     | Group_capture p \<Rightarrow>
         pbind (open_capture p bwd s) (\<lambda>s1.
         pbind (parse_disj bwd s1) (\<lambda>s2.
         pbind (ub (re_emit_op_u8 (if bwd then REOP_save_start else REOP_save_end) (of_nat (ps_capture_count s)) s2)) (\<lambda>s3.
         pbind (re_parse_expect (ps_buf s3) (ps_buf_ptr s3) CHR '')'') (\<lambda>p.
         POk (p, Some (bc_size s), ps_capture_count s, s3))))))"

definition re_parse_term :: "(bool \<Rightarrow> REParseState \<Rightarrow> REParseState presult) \<Rightarrow> bool \<Rightarrow> REParseState \<Rightarrow> REParseState presult" where
  "re_parse_term parse_disj bwd s =
     pbind (ub (rd (ps_buf s) (ps_buf_ptr s))) (\<lambda>c.
     pbind (if c = ch CHR ''('' then re_parse_group parse_disj bwd s else simple_term c (ps_buf_ptr s) bwd s)
       (\<lambda>(p, last_atom_start, last_capture_count, s). re_quantifier p last_atom_start last_capture_count s))"

primrec re_parse_alternative :: "nat \<Rightarrow> (REParseState \<Rightarrow> REParseState presult) \<Rightarrow> bool \<Rightarrow> nat \<Rightarrow> REParseState \<Rightarrow> REParseState presult" where
  "re_parse_alternative 0 term bwd start s = PTimeout"
| "re_parse_alternative (Suc n) term bwd start s =
     (if ps_buf_ptr s \<ge> ps_buf_end s then POk s
      else pbind (ub (rd (ps_buf s) (ps_buf_ptr s))) (\<lambda>b.
      if b = ch CHR ''|'' \<or> b = ch CHR '')'' then POk s
      else pbind (term s) (\<lambda>s1.
        pbind (if bwd then reverse_terms start (bc_size s) s1 else POk s1) (\<lambda>s2.
        re_parse_alternative n term bwd start s2))))"

primrec disjunction_loop :: "nat \<Rightarrow> (nat \<Rightarrow> REParseState \<Rightarrow> REParseState presult) \<Rightarrow> nat \<Rightarrow> REParseState \<Rightarrow> REParseState presult" where
  "disjunction_loop 0 alt start s = PTimeout"
| "disjunction_loop (Suc n) alt start s =
     pbind (ub (rd (ps_buf s) (ps_buf_ptr s))) (\<lambda>b.
     if b \<noteq> ch CHR ''|'' then POk s
     else pbind (bc_insert start 5 (s\<lparr>ps_buf_ptr := ps_buf_ptr s + 1\<rparr>)) (\<lambda>s1.
       pbind (bc_put start (opc REOP_split_next_first) s1) (\<lambda>s2.
       pbind (bc_put_u32 (start + 1) (of_nat (bc_size s - start + 5)) s2) (\<lambda>s3.
       pbind (ub (re_emit_op_u32 REOP_goto 0 s3)) (\<lambda>(pos, s4).
       pbind (alt (bc_size s4) s4) (\<lambda>s5.
       pbind (bc_put_u32 pos (of_nat (bc_size s5) - of_nat (pos + 4)) s5) (\<lambda>s6.
       disjunction_loop n alt start s6)))))))"

primrec re_parse_disjunction :: "nat \<Rightarrow> nat \<Rightarrow> bool \<Rightarrow> REParseState \<Rightarrow> REParseState presult" where
  "re_parse_disjunction 0 depth bwd s = PTimeout"
| "re_parse_disjunction (Suc n) depth bwd s =
     (if ps_stack_overflow s depth then PErr ''stack overflow''
      else let alt = re_parse_alternative (Suc n) (re_parse_term (re_parse_disjunction n (depth + 1)) bwd) bwd in
        pbind (alt (bc_size s) s) (\<lambda>s1. disjunction_loop (Suc n) alt (bc_size s) s1))"

section \<open>Compiling\<close>

definition LRE_FLAG_NAMED_GROUPS :: byte where "LRE_FLAG_NAMED_GROUPS = 0x80"

definition parse_init :: "realloc_func \<Rightarrow> points_realloc \<Rightarrow> unicode_sets \<Rightarrow> (nat \<Rightarrow> bool) \<Rightarrow> byte list \<Rightarrow> nat \<Rightarrow> byte \<Rightarrow> REParseState" where
  "parse_init realloc points_fun unicode overflow buf buf_len flags =
     \<lparr>ps_byte_code = dbuf_init2 realloc (Some realloc), ps_buf = buf, ps_buf_ptr = 0, ps_buf_end = buf_len, ps_re_flags = flags,
      ps_is_utf16 = bit flags 4, ps_ignore_case = bit flags 1, ps_dotall = bit flags 3, ps_capture_count = 1,
      ps_total_capture_count = -1, ps_has_named_captures = -1, ps_group_names = dbuf_init2 realloc (Some realloc),
      ps_cr_realloc = points_fun, ps_unicode = unicode, ps_stack_overflow = overflow\<rparr>"

text \<open>The header and the loop over the start positions.\<close>

definition emit_prologue :: "byte \<Rightarrow> REParseState \<Rightarrow> REParseState option" where
  "emit_prologue flags s = do {
     s \<leftarrow> emit_bytes (\<lambda>d. dbuf_putc d flags) s;
     s \<leftarrow> emit_bytes (\<lambda>d. dbuf_putc d 0) s;
     s \<leftarrow> emit_bytes (\<lambda>d. dbuf_putc d 0) s;
     s \<leftarrow> emit_bytes (\<lambda>d. dbuf_put_u32 d 0) s;
     s \<leftarrow> (if \<not> bit flags 5
       then do {
         s \<leftarrow> map_option snd (re_emit_op_u32 REOP_split_goto_first (1 + 5) s);
         s \<leftarrow> re_emit_op REOP_any s;
         map_option snd (re_emit_op_u32 REOP_goto (- (5 + 1 + 5)) s)
       }
       else Some s);
     re_emit_op_u8 REOP_save_start 0 s
   }"

text \<open>The header is filled in and the group names are appended.\<close>

definition finish_code :: "REParseState \<Rightarrow> byte list presult" where
  "finish_code s =
     pbind (ub (compute_stack_size (bc_mem s) (bc_size s))) (\<lambda>r.
     case r of None \<Rightarrow> PErr ''too many imbricated quantifiers''
     | Some stack_size \<Rightarrow>
       pbind (bc_put RE_HEADER_CAPTURE_COUNT (of_nat (ps_capture_count s)) s) (\<lambda>s.
       pbind (bc_put RE_HEADER_STACK_SIZE (of_nat stack_size) s) (\<lambda>s.
       pbind (bc_put_u32 3 (of_nat (bc_size s - RE_HEADER_LEN)) s) (\<lambda>s.
       pbind (if dbuf_size (ps_group_names s) > ps_capture_count s - 1
         then pbind (ub (emit_bytes (\<lambda>d. dbuf_put d (dbuf_mem (ps_group_names s)) (dbuf_size (ps_group_names s))) s)) (\<lambda>s.
           pbind (ub (rd (bc_mem s) RE_HEADER_FLAGS)) (\<lambda>f. bc_put RE_HEADER_FLAGS (or f LRE_FLAG_NAMED_GROUPS) s))
         else POk s) (\<lambda>s.
       POk (take (bc_size s) (bc_mem s)))))))"

definition lre_compile :: "nat \<Rightarrow> realloc_func \<Rightarrow> points_realloc \<Rightarrow> unicode_sets \<Rightarrow> (nat \<Rightarrow> bool) \<Rightarrow> byte list \<Rightarrow> nat \<Rightarrow> byte \<Rightarrow> byte list presult" where
  "lre_compile fuel realloc points_fun unicode overflow buf buf_len flags =
     pbind (ub (emit_prologue flags (parse_init realloc points_fun unicode overflow buf buf_len flags))) (\<lambda>s.
     pbind (re_parse_disjunction fuel 0 False s) (\<lambda>s.
     pbind (ub (re_emit_op_u8 REOP_save_end 0 s)) (\<lambda>s.
     pbind (ub (re_emit_op REOP_match s)) (\<lambda>s.
     pbind (ub (rd (ps_buf s) (ps_buf_ptr s))) (\<lambda>b.
     if b \<noteq> 0 then PErr ''extraneous characters at the end''
     else pbind (check_error s) (\<lambda>_. finish_code s))))))"

end
