(* ===== verification/Lre_Emit.thy ===== *)
theory Lre_Emit
  imports Lre_Compile
begin

text \<open>
  What the emitting functions of the compiler append.  They ignore the results of the \<open>DynBuf\<close>
  operations; by the sticky error flag the bytes are there whenever the flag is clear at the end.
\<close>

definition room :: "nat \<Rightarrow> REParseState \<Rightarrow> bool" where
  "room n s \<longleftrightarrow> dbuf_ok (ps_byte_code s) \<and> bc_size s + n < 2 ^ 32"

definition bc_contents :: "REParseState \<Rightarrow> byte list" where "bc_contents s = dbuf_contents (ps_byte_code s)"

definition emitted :: "REParseState \<Rightarrow> byte list \<Rightarrow> REParseState \<Rightarrow> bool" where
  "emitted s bs s' \<longleftrightarrow> (\<exists>d. s' = s\<lparr>ps_byte_code := d\<rparr> \<and> dbuf_ok d \<and> dbuf_size d \<le> bc_size s + length bs \<and>
     (dbuf_error (ps_byte_code s) \<longrightarrow> dbuf_error d) \<and> (\<not> dbuf_error d \<longrightarrow> dbuf_contents d = bc_contents s @ bs))"

definition emits :: "(REParseState \<Rightarrow> REParseState option) \<Rightarrow> byte list \<Rightarrow> bool" where
  "emits f bs \<longleftrightarrow> (\<forall>s. room (length bs) s \<longrightarrow> (\<exists>s'. f s = Some s' \<and> emitted s bs s'))"

lemma room_mono: "room n s \<Longrightarrow> m \<le> n \<Longrightarrow> room m s"
  by (simp add: room_def)

lemma emitted_room: "emitted s bs s' \<Longrightarrow> room (length bs + n) s \<Longrightarrow> room n s'"
  by (auto simp: emitted_def room_def bc_size_def)

lemma emitted_trans: "emitted s a s1 \<Longrightarrow> emitted s1 b s2 \<Longrightarrow> emitted s (a @ b) s2"
  by (auto simp: emitted_def bc_size_def bc_contents_def)

lemma emitted_refl: "dbuf_ok (ps_byte_code s) \<Longrightarrow> emitted s [] s"
  by (auto simp: emitted_def bc_size_def bc_contents_def intro!: exI [of _ "ps_byte_code s"])

lemma emitsD: "emits f bs \<Longrightarrow> room (length bs) s \<Longrightarrow> \<exists>s'. f s = Some s' \<and> emitted s bs s'"
  by (auto simp: emits_def)

lemma emits_bind:
  assumes "emits f a" "emits g b"
  shows "emits (\<lambda>s. Option.bind (f s) g) (a @ b)"
  unfolding emits_def
proof (intro allI impI)
  fix s assume r: "room (length (a @ b)) s"
  then have "room (length a) s" by (rule room_mono) simp
  then obtain s1 where s1: "f s = Some s1" "emitted s a s1" using emitsD [OF assms(1)] by blast
  have "room (length b) s1" using emitted_room [OF s1(2)] r by simp
  then obtain s2 where "g s1 = Some s2" "emitted s1 b s2" using emitsD [OF assms(2)] by blast
  then show "\<exists>s'. Option.bind (f s) g = Some s' \<and> emitted s (a @ b) s'" using s1 emitted_trans by auto
qed

lemma emits_put: "emits (emit_bytes (\<lambda>d. dbuf_put d bs (length bs))) bs"
  unfolding emits_def
proof (intro allI impI)
  fix s assume r: "room (length bs) s"
  then have "dbuf_size (ps_byte_code s) + length bs < 2 ^ 32" "dbuf_ok (ps_byte_code s)" by (simp_all add: room_def bc_size_def)
  then obtain d e where d: "dbuf_put (ps_byte_code s) bs (length bs) = Some (d, e)" "dbuf_ok d"
    "e \<longrightarrow> dbuf_contents d = dbuf_contents (ps_byte_code s) \<and> dbuf_error d"
    "\<not> e \<longrightarrow> dbuf_contents d = dbuf_contents (ps_byte_code s) @ take (length bs) bs \<and> dbuf_error d = dbuf_error (ps_byte_code s)"
    using dbuf_put_spec [OF _ _ order_refl] by metis
  then have "length (dbuf_contents d) \<le> length (dbuf_contents (ps_byte_code s)) + length bs" by (cases e) auto
  with d r have "dbuf_size d \<le> dbuf_size (ps_byte_code s) + length bs" by (simp add: room_def)
  then show "\<exists>s'. emit_bytes (\<lambda>d. dbuf_put d bs (length bs)) s = Some s' \<and> emitted s bs s'"
    using d by (cases e) (auto simp: emit_bytes_def emitted_def bc_size_def bc_contents_def)
qed

lemma emits_putc: "emits (emit_bytes (\<lambda>d. dbuf_putc d b)) [b]"
  using emits_put [of "[b]"] by (simp add: dbuf_putc_def)

lemma emits_put_u16: "emits (emit_bytes (\<lambda>d. dbuf_put_u16 d v)) (le_bytes 2 (unat v))"
  using emits_put [of "le_bytes 2 (unat v)"] by (simp add: dbuf_put_u16_def)

lemma emits_put_u32: "emits (emit_bytes (\<lambda>d. dbuf_put_u32 d v)) (le_bytes 4 (unat v))"
  using emits_put [of "le_bytes 4 (unat v)"] by (simp add: dbuf_put_u32_def)

lemma emits_op: "emits (re_emit_op r) [opc r]"
  unfolding re_emit_op_def by (rule emits_putc)

lemma emits_op_u8: "emits (re_emit_op_u8 r v) (opc r # [v])"
  unfolding re_emit_op_u8_def using emits_bind [OF emits_op emits_putc] by simp

lemma emits_op_u16: "emits (re_emit_op_u16 r v) (opc r # le_bytes 2 (unat v))"
  unfolding re_emit_op_u16_def using emits_bind [OF emits_op emits_put_u16] by simp

lemma emits_op_u32: "emits (\<lambda>s. map_option snd (re_emit_op_u32 r v s)) (opc r # le_bytes 4 (unat v))"
proof -
  have "(\<lambda>s. map_option snd (re_emit_op_u32 r v s)) = (\<lambda>s. Option.bind (re_emit_op r s) (emit_bytes (\<lambda>d. dbuf_put_u32 d v)))"
    by (auto simp: re_emit_op_u32_def Let_def fun_eq_iff split: bind_split)
  then show ?thesis using emits_bind [OF emits_op emits_put_u32] by simp
qed

section \<open>Ranges\<close>

fun pairs :: "'a list \<Rightarrow> ('a \<times> 'a) list" where
  "pairs (a # b # r) = (a, b) # pairs r"
| "pairs _ = []"

definition last16 :: "u32 \<Rightarrow> u32" where "last16 b = (if b - 1 = 0xfffffffe then 0xffff else b - 1)"

definition range16_entry :: "u32 \<times> u32 \<Rightarrow> byte list" where
  "range16_entry ab = le_bytes 2 (unat (ucast (fst ab) :: u16)) @ le_bytes 2 (unat (ucast (last16 (snd ab)) :: u16))"

definition range32_entry :: "u32 \<times> u32 \<Rightarrow> byte list" where
  "range32_entry ab = le_bytes 4 (unat (fst ab)) @ le_bytes 4 (unat (snd ab - 1))"

lemma range_entry_pair:
  "range16_entry (a, b) = le_bytes 2 (unat (ucast a :: u16)) @ le_bytes 2 (unat (ucast (last16 b) :: u16))"
  "range32_entry (a, b) = le_bytes 4 (unat a) @ le_bytes 4 (unat (b - 1))"
  by (simp_all add: range16_entry_def range32_entry_def)

lemma emits_nil: "emits Some []"
  by (auto simp: emits_def room_def intro: emitted_refl)

lemma emits_ranges16: "i + 2 * n \<le> length pts \<Longrightarrow> emits (emit_ranges16 pts i n) (concat (map range16_entry (pairs (take (2 * n) (drop i pts)))))"
proof (induction n arbitrary: i)
  case 0
  have "emit_ranges16 pts i 0 = Some" by (rule ext) simp
  then show ?case using emits_nil by simp
next
  case (Suc n)
  let ?a = "pts ! i" and ?b = "pts ! (i + 1)"
  have d: "take (2 * Suc n) (drop i pts) = ?a # ?b # take (2 * n) (drop (i + 2) pts)"
    using Suc.prems by (simp add: drop_eq_Cons_nth numeral_2_eq_2)
  have "emit_ranges16 pts i (Suc n) = (\<lambda>s. Option.bind (emit_bytes (\<lambda>d. dbuf_put_u16 d (ucast ?a)) s)
      (\<lambda>s. Option.bind (emit_bytes (\<lambda>d. dbuf_put_u16 d (ucast (last16 ?b))) s) (emit_ranges16 pts (i + 2) n)))"
    using Suc.prems by (auto simp: fun_eq_iff last16_def Let_def)
  moreover have "emits (emit_ranges16 pts (i + 2) n) (concat (map range16_entry (pairs (take (2 * n) (drop (i + 2) pts)))))"
    using Suc.IH [of "i + 2"] Suc.prems by simp
  ultimately show ?case
    using emits_bind [OF emits_put_u16 emits_bind [OF emits_put_u16]] unfolding d by (simp add: range_entry_pair)
qed

lemma emits_ranges32: "i + 2 * n \<le> length pts \<Longrightarrow> emits (emit_ranges32 pts i n) (concat (map range32_entry (pairs (take (2 * n) (drop i pts)))))"
proof (induction n arbitrary: i)
  case 0
  have "emit_ranges32 pts i 0 = Some" by (rule ext) simp
  then show ?case using emits_nil by simp
next
  case (Suc n)
  let ?a = "pts ! i" and ?b = "pts ! (i + 1)"
  have d: "take (2 * Suc n) (drop i pts) = ?a # ?b # take (2 * n) (drop (i + 2) pts)"
    using Suc.prems by (simp add: drop_eq_Cons_nth numeral_2_eq_2)
  have "emit_ranges32 pts i (Suc n) = (\<lambda>s. Option.bind (emit_bytes (\<lambda>d. dbuf_put_u32 d ?a) s)
      (\<lambda>s. Option.bind (emit_bytes (\<lambda>d. dbuf_put_u32 d (?b - 1)) s) (emit_ranges32 pts (i + 2) n)))"
    using Suc.prems by (auto simp: fun_eq_iff)
  moreover have "emits (emit_ranges32 pts (i + 2) n) (concat (map range32_entry (pairs (take (2 * n) (drop (i + 2) pts)))))"
    using Suc.IH [of "i + 2"] Suc.prems by simp
  ultimately show ?case
    using emits_bind [OF emits_put_u32 emits_bind [OF emits_put_u32]] unfolding d by (simp add: range_entry_pair)
qed

text \<open>The bytes of a nonempty range.\<close>

definition uses16 :: "u32 list \<Rightarrow> bool" where
  "uses16 pts \<longleftrightarrow> (if last pts = 0xffffffff then pts ! (length pts - 2) else last pts) \<le> 0xffff"

definition range_bytes :: "u32 list \<Rightarrow> byte list" where
  "range_bytes pts =
     (if uses16 pts then opc REOP_range # le_bytes 2 (length pts div 2) @ concat (map range16_entry (pairs pts))
      else opc REOP_range32 # le_bytes 2 (length pts div 2) @ concat (map range32_entry (pairs pts)))"

lemma re_emit_range_emits:
  assumes "even (cr_len cr)" "2 \<le> cr_len cr" "cr_len cr div 2 < 65535" "cr_len cr \<le> length (cr_points cr)"
    and "room (length (range_bytes (cr_live cr))) s"
  shows "\<exists>s'. re_emit_range cr s = POk s' \<and> emitted s (range_bytes (cr_live cr)) s'"
proof -
  let ?n = "cr_len cr" and ?pts = "cr_live cr"
  have len: "length ?pts = ?n" "2 * (?n div 2) = ?n" "(?n + 1) div 2 = ?n div 2" using assms(1,4) by (auto simp: cr_live_def)
  have "last ?pts = ?pts ! (?n - 1)" using assms(2) len(1) last_conv_nth [of ?pts] by (cases ?pts) auto
  then have rd1: "rd (cr_points cr) (?n - 1) = Some (last ?pts)" using assms(2,4) by (simp add: rd_def cr_live_def)
  have rd2: "rd (cr_points cr) (?n - 2) = Some (?pts ! (length ?pts - 2))" using assms(2,4) len(1) by (simp add: rd_def cr_live_def)
  have n16: "unat (of_nat (?n div 2) :: u16) = ?n div 2" using assms(3) by (simp add: unat_of_nat)
  have e16: "emits (emit_ranges16 (cr_points cr) 0 (?n div 2)) (concat (map range16_entry (pairs ?pts)))"
    using emits_ranges16 [of 0 "?n div 2" "cr_points cr"] assms(4) len(2) by (simp add: cr_live_def)
  have e32: "emits (emit_ranges32 (cr_points cr) 0 (?n div 2)) (concat (map range32_entry (pairs ?pts)))"
    using emits_ranges32 [of 0 "?n div 2" "cr_points cr"] assms(4) len(2) by (simp add: cr_live_def)
  show ?thesis
  proof (cases "uses16 ?pts")
    case True
    then have "re_emit_range cr s = ub (Option.bind (re_emit_op_u16 REOP_range (of_nat (?n div 2)) s) (emit_ranges16 (cr_points cr) 0 (?n div 2)))"
      using assms(2,3) rd1 rd2 len(3) by (auto simp: re_emit_range_def Let_def uses16_def split: if_splits)
    then show ?thesis using emitsD [OF emits_bind [OF emits_op_u16 e16], of REOP_range "of_nat (?n div 2)" s] assms(5) True n16 len(1)
      by (fastforce simp: range_bytes_def)
  next
    case False
    then have "re_emit_range cr s = ub (Option.bind (re_emit_op_u16 REOP_range32 (of_nat (?n div 2)) s) (emit_ranges32 (cr_points cr) 0 (?n div 2)))"
      using assms(2,3) rd1 rd2 len(3) by (auto simp: re_emit_range_def Let_def uses16_def split: if_splits)
    then show ?thesis using emitsD [OF emits_bind [OF emits_op_u16 e32], of REOP_range32 "of_nat (?n div 2)" s] assms(5) False n16 len(1)
      by (fastforce simp: range_bytes_def)
  qed
qed

end
