(* ===== verification/Lre_Range.thy ===== *)
theory Lre_Range
  imports Lre_Emit Lre_Safe
begin

text \<open>
  The compiler writes a character set as a table of intervals and the machine searches it by
  bisection.  Put together they decide membership in the set: the two halves of \<^verbatim>\<open>libregexp.c\<close> agree on
  the encoding, the infinite upper bound of the 16 bit form included.
\<close>

section \<open>Sets as lists of intervals\<close>

lemma in_points_pairs:
  "even (length pts) \<Longrightarrow> sorted_wrt (<) pts \<Longrightarrow> in_points pts x \<longleftrightarrow> (\<exists>(a, b) \<in> set (pairs pts). a \<le> x \<and> x < b)"
proof (induction pts rule: pairs.induct)
  case (1 a b r)
  have IH: "in_points r x \<longleftrightarrow> (\<exists>(a, b) \<in> set (pairs r). a \<le> x \<and> x < b)" using 1 by simp
  have big: "x < b \<Longrightarrow> cnt r x = 0"
    using "1.prems"(2) by (auto simp: cnt_def filter_empty_conv)
  have "(c, d) \<in> set (pairs r) \<Longrightarrow> c \<in> set r" for c d by (induction r rule: pairs.induct) auto
  then have none: "x < b \<Longrightarrow> (c, d) \<in> set (pairs r) \<Longrightarrow> x < c" for c d using "1.prems"(2) by fastforce
  show ?case
  proof (cases "x < b")
    case True
    then show ?thesis using big [OF True] none [OF True] by (auto simp: in_points_def not_less [symmetric])
  next
    case False
    then have "a \<le> x" using "1.prems"(2) by auto
    then show ?thesis using False IH by (auto simp: in_points_def)
  qed
qed (auto simp: in_points_def)

lemma length_pairs: "length (pairs pts) = length pts div 2"
  by (induction pts rule: pairs.induct) auto

lemma pairs_nth: "i < length (pairs pts) \<Longrightarrow> pairs pts ! i = (pts ! (2 * i), pts ! (2 * i + 1))"
  by (induction pts arbitrary: i rule: pairs.induct) (auto simp: nth_Cons split: nat.split)

section \<open>The search\<close>

lemma range_search_finds:
  assumes get: "\<And>i. i < n \<Longrightarrow> get (p + i * (2 * w)) = Some (lo i) \<and> get (p + i * (2 * w) + w) = Some (hi i)"
    and small: "n < 2 ^ 16" "0 < w" "w \<le> 4"
    and low: "uint (lo 0) \<le> c"
    and sorted: "\<And>i j. i < j \<Longrightarrow> j < n \<Longrightarrow> uint (hi i) < uint (lo j)" "\<And>i. i < n \<Longrightarrow> uint (lo i) \<le> uint (hi i)"
  shows "j < n \<Longrightarrow> i \<le> n \<Longrightarrow>
    range_search get w p c i j = Some (\<exists>k. i \<le> k \<and> k \<le> j \<and> uint (lo k) \<le> c \<and> c \<le> uint (hi k))"
proof (induction "Suc j - i" arbitrary: i j rule: less_induct)
  case less
  show ?case
  proof (cases "i \<le> j")
    case True
    define x where "x = (i + j) div 2"
    have x: "i \<le> x" "x \<le> j" "x < n" using True less.prems by (auto simp: x_def)
    have ix: "(i + j) mod 2 ^ 32 div 2 = x" using less.prems small(1) by (simp add: x_def)
    have "x * (2 * w) \<le> x * 8" using small by simp
    also have "x * 8 < 2 ^ 32" using x less.prems small by simp
    finally have wx: "(x * (2 * w)) mod 2 ^ 32 = x * (2 * w)" by simp
    note g = get [OF x(3)]
    have pos: "0 < x" if "c < uint (lo x)" using low that by (cases x) auto
    then have dec: "(x + 4294967295) mod 4294967296 = x - 1" if "c < uint (lo x)"
      using that x less.prems small(1) by (cases x) (auto simp: mod_if)
    consider (l) "c < uint (lo x)" | (r) "uint (hi x) < c" | (m) "uint (lo x) \<le> c" "c \<le> uint (hi x)" by linarith
    then show ?thesis
    proof cases
      case l
      have "c < uint (lo k)" if "x \<le> k" "k \<le> j" for k
        using l that sorted(1) [of x k] sorted(2) [OF x(3)] less.prems by (cases "x = k") auto
      then have "(\<exists>k. i \<le> k \<and> k \<le> j \<and> uint (lo k) \<le> c \<and> c \<le> uint (hi k)) \<longleftrightarrow>
          (\<exists>k. i \<le> k \<and> k \<le> x - 1 \<and> uint (lo k) \<le> c \<and> c \<le> uint (hi k))"
        using pos [OF l] x by (intro ex_cong1) (force simp: not_less [symmetric])
      then show ?thesis using less.hyps [of "x - 1" i] pos [OF l] x less.prems True l dec [OF l]
        by (subst range_search.simps) (simp add: ix [simplified] wx [simplified] g Let_def)
    next
      case r
      have "uint (hi k) < c" if "k \<le> x" for k
        using r that sorted(1) [of k x] sorted(2) [OF x(3)] x by (cases "x = k") auto
      then have "(\<exists>k. i \<le> k \<and> k \<le> j \<and> uint (lo k) \<le> c \<and> c \<le> uint (hi k)) \<longleftrightarrow>
          (\<exists>k. x + 1 \<le> k \<and> k \<le> j \<and> uint (lo k) \<le> c \<and> c \<le> uint (hi k))"
        using x by (intro ex_cong1) (force simp: not_less [symmetric])
      then show ?thesis using less.hyps [of j "x + 1"] x less.prems True r sorted(2) [OF x(3)]
        by (subst range_search.simps) (simp add: ix [simplified] wx [simplified] g Let_def)
    next
      case m
      then show ?thesis using True x
        by (subst range_search.simps) (auto simp: ix [simplified] wx [simplified] g Let_def)
    qed
  qed (subst range_search.simps, auto)
qed


section \<open>Reading the table back\<close>

lemma load_at: "load (pre @ le_bytes n v @ post) (length pre) n = Some (v mod 256 ^ n)"
  by (simp add: load_def le_val_le_bytes)

lemma concat_block:
  assumes "\<And>x. length (f x) = k" "i < length xs"
  shows "\<exists>pre post. concat (map f xs) = pre @ f (xs ! i) @ post \<and> length pre = i * k"
proof -
  have "concat (map f (take i xs)) @ f (xs ! i) @ concat (map f (drop (Suc i) xs)) = concat (map f xs)"
    using assms(2) by (metis concat.simps(2) concat_append id_take_nth_drop list.simps(9) map_append)
  moreover have "length (concat (map f (take i xs))) = i * k"
    using assms by (simp add: length_concat comp_def sum_list_triv)
  ultimately show ?thesis by metis
qed

lemma entry_load:
  assumes "\<And>ab. f ab = le_bytes w (lo ab) @ le_bytes w (hi ab)" "i < length xs"
  shows "load (pre @ concat (map f xs) @ post) (length pre + i * (2 * w)) w = Some (lo (xs ! i) mod 256 ^ w)"
    "load (pre @ concat (map f xs) @ post) (length pre + i * (2 * w) + w) w = Some (hi (xs ! i) mod 256 ^ w)"
proof -
  have "length (f x) = 2 * w" for x using assms(1) by simp
  then obtain a b where ab: "concat (map f xs) = a @ f (xs ! i) @ b" "length a = i * (2 * w)"
    using concat_block assms(2) by metis
  show "load (pre @ concat (map f xs) @ post) (length pre + i * (2 * w)) w = Some (lo (xs ! i) mod 256 ^ w)"
    using load_at [of "pre @ a" w "lo (xs ! i)" "le_bytes w (hi (xs ! i)) @ b @ post"] by (simp add: ab assms(1))
  show "load (pre @ concat (map f xs) @ post) (length pre + i * (2 * w) + w) w = Some (hi (xs ! i) mod 256 ^ w)"
    using load_at [of "pre @ a @ le_bytes w (lo (xs ! i))" w "hi (xs ! i)" "b @ post"] by (simp add: ab assms(1) add.assoc)
qed


section \<open>The opcodes decide membership\<close>

text \<open>\<open>n\<close> intervals from \<open>A i\<close> up to but not including \<open>B i\<close>, in order.\<close>

definition intervals :: "nat \<Rightarrow> (nat \<Rightarrow> int) \<Rightarrow> (nat \<Rightarrow> int) \<Rightarrow> bool" where
  "intervals n A B \<longleftrightarrow> 1 \<le> n \<and> n < 2 ^ 16 \<and> (\<forall>i < n. A i < B i) \<and> (\<forall>j < n. \<forall>i < j. B i < A j)"

lemma intervals_order:
  assumes "intervals n A B"
  shows "i < n \<Longrightarrow> A 0 \<le> A i" "i < n \<Longrightarrow> B i \<le> B (n - 1)"
proof -
  have ab: "\<And>i. i < n \<Longrightarrow> A i < B i" "\<And>i j. i < j \<Longrightarrow> j < n \<Longrightarrow> B i < A j" using assms by (auto simp: intervals_def)
  show "i < n \<Longrightarrow> A 0 \<le> A i" using ab(1) [of 0] ab(2) [of 0 i] by (cases "i = 0") auto
  show "i < n \<Longrightarrow> B i \<le> B (n - 1)" using ab(1) [of "n - 1"] ab(2) [of i "n - 1"] by (cases "i = n - 1") fastforce+
qed

lemma range_match16_finds:
  assumes get: "\<And>i. i < n \<Longrightarrow> get_u16 code (p + i * 4) = Some (lo i) \<and> get_u16 code (p + i * 4 + 2) = Some (hi i)"
    and AB: "intervals n A B" "\<And>i. i < n \<Longrightarrow> uint (lo i) = A i \<and> uint (hi i) = (if B i = 2 ^ 32 - 1 then 65535 else B i - 1)"
    and small: "\<And>i. i < n \<Longrightarrow> A i \<le> 65535 \<and> (B i \<le> 65535 \<or> i = n - 1 \<and> B i = 2 ^ 32 - 1)"
    and c: "c < 2 ^ 32 - 1"
  shows "range_match16 code p n c = Some (\<exists>i < n. A i \<le> c \<and> c < B i)"
proof -
  have n: "1 \<le> n" "n < 2 ^ 16" and ab: "\<And>i. i < n \<Longrightarrow> A i < B i" "\<And>i j. i < j \<Longrightarrow> j < n \<Longrightarrow> B i < A j"
    using AB(1) by (auto simp: intervals_def)
  have last: "(n + 4294967295) mod 4294967296 = n - 1" using n by (cases n) (auto simp: mod_if)
  have m: "((n - 1) * 4) mod 4294967296 = (n - 1) * 4" using n by auto
  have g0: "get_u16 code p = Some (lo 0)" using get [of 0] n by simp
  have gl: "get_u16 code (p + (n - 1) * 4 + 2) = Some (hi (n - 1))" using get [of "n - 1"] n by simp
  have lo0: "uint (lo 0) = A 0" and hil: "uint (hi (n - 1)) = (if B (n - 1) = 2 ^ 32 - 1 then 65535 else B (n - 1) - 1)"
    using AB(2) [of 0] AB(2) [of "n - 1"] n by auto
  have top: "hi (n - 1) = 0xffff \<longleftrightarrow> B (n - 1) = 2 ^ 32 - 1"
  proof -
    have "hi (n - 1) = 0xffff \<longleftrightarrow> uint (hi (n - 1)) = 65535" by (simp add: word_uint_eq_iff)
    then show ?thesis using hil small [of "n - 1"] n by auto
  qed
  consider (below) "c < A 0" | (infinite) "A 0 \<le> c" "c \<ge> 65535" "B (n - 1) = 2 ^ 32 - 1"
    | (above) "A 0 \<le> c" "\<not> (c \<ge> 65535 \<and> B (n - 1) = 2 ^ 32 - 1)" "c > uint (hi (n - 1))"
    | (inside) "A 0 \<le> c" "\<not> (c \<ge> 65535 \<and> B (n - 1) = 2 ^ 32 - 1)" "c \<le> uint (hi (n - 1))" by linarith
  then show ?thesis
  proof cases
    case below
    then show ?thesis using intervals_order(1) [OF AB(1)] g0 lo0 by (force simp: range_match16_def)
  next
    case infinite
    then have "A (n - 1) \<le> c \<and> c < B (n - 1)" using small [of "n - 1"] n c by simp
    then have "\<exists>i < n. A i \<le> c \<and> c < B i" using n by (intro exI [of _ "n - 1"]) auto
    then show ?thesis using infinite g0 gl lo0 top n
      by (simp add: range_match16_def Let_def last m [simplified])
  next
    case above
    then have "c \<ge> B (n - 1)" using hil by (auto split: if_splits)
    then have "\<not> (\<exists>i < n. A i \<le> c \<and> c < B i)" using intervals_order(2) [OF AB(1)] by force
    then show ?thesis using above g0 gl lo0 top by (auto simp: range_match16_def Let_def last m [simplified])
  next
    case inside
    have "range_search (get_u16 code) 2 p c 0 (n - 1) = Some (\<exists>k. 0 \<le> k \<and> k \<le> n - 1 \<and> uint (lo k) \<le> c \<and> c \<le> uint (hi k))"
    proof (rule range_search_finds [where n = n])
      show "uint (hi i) < uint (lo j)" if "i < j" "j < n" for i j
        using AB(2) [of i] AB(2) [of j] ab(2) [OF that] that small [of i] by auto
      show "uint (lo i) \<le> uint (hi i)" if "i < n" for i using AB(2) [OF that] ab(1) [OF that] small [OF that] by auto
    qed (use get n inside lo0 in auto)
    moreover have "(\<exists>k. 0 \<le> k \<and> k \<le> n - 1 \<and> uint (lo k) \<le> c \<and> c \<le> uint (hi k)) \<longleftrightarrow> (\<exists>i < n. A i \<le> c \<and> c < B i)"
    proof -
      have "uint (lo k) \<le> c \<and> c \<le> uint (hi k) \<longleftrightarrow> A k \<le> c \<and> c < B k" if "k < n" for k
        using AB(2) [OF that] small [OF that] inside c by auto
      moreover have "k \<le> n - 1 \<longleftrightarrow> k < n" for k using n by auto
      ultimately show ?thesis by auto
    qed
    ultimately show ?thesis using inside g0 gl lo0 top by (auto simp: range_match16_def Let_def last m [simplified] not_less)
  qed
qed

lemma range_match32_finds:
  assumes get: "\<And>i. i < n \<Longrightarrow> get_u32 code (p + i * 8) = Some (lo i) \<and> get_u32 code (p + i * 8 + 4) = Some (hi i)"
    and AB: "intervals n A B" "\<And>i. i < n \<Longrightarrow> uint (lo i) = A i \<and> uint (hi i) = B i - 1"
  shows "range_match32 code p n c = Some (\<exists>i < n. A i \<le> c \<and> c < B i)"
proof -
  have n: "1 \<le> n" "n < 2 ^ 16" and ab: "\<And>i. i < n \<Longrightarrow> A i < B i" "\<And>i j. i < j \<Longrightarrow> j < n \<Longrightarrow> B i < A j"
    using AB(1) by (auto simp: intervals_def)
  have last: "(n + 4294967295) mod 4294967296 = n - 1" using n by (cases n) (auto simp: mod_if)
  have m: "((n - 1) * 8) mod 4294967296 = (n - 1) * 8" using n by auto
  have g0: "get_u32 code p = Some (lo 0)" using get [of 0] n by simp
  have gl: "get_u32 code (p + (n - 1) * 8 + 4) = Some (hi (n - 1))" using get [of "n - 1"] n by simp
  have lo0: "uint (lo 0) = A 0" and hil: "uint (hi (n - 1)) = B (n - 1) - 1"
    using AB(2) [of 0] AB(2) [of "n - 1"] n by auto
  consider (below) "c < A 0" | (above) "A 0 \<le> c" "c > uint (hi (n - 1))" | (inside) "A 0 \<le> c" "c \<le> uint (hi (n - 1))" by linarith
  then show ?thesis
  proof cases
    case below
    then show ?thesis using intervals_order(1) [OF AB(1)] g0 lo0 by (force simp: range_match32_def)
  next
    case above
    then have "\<not> (\<exists>i < n. A i \<le> c \<and> c < B i)" using intervals_order(2) [OF AB(1)] hil by force
    then show ?thesis using above g0 gl lo0 by (auto simp: range_match32_def Let_def last m [simplified])
  next
    case inside
    have "range_search (get_u32 code) 4 p c 0 (n - 1) = Some (\<exists>k. 0 \<le> k \<and> k \<le> n - 1 \<and> uint (lo k) \<le> c \<and> c \<le> uint (hi k))"
    proof (rule range_search_finds [where n = n])
      show "uint (hi i) < uint (lo j)" if "i < j" "j < n" for i j
        using AB(2) [of i] AB(2) [of j] ab(2) [OF that] that by auto
      show "uint (lo i) \<le> uint (hi i)" if "i < n" for i using AB(2) [OF that] ab(1) [OF that] by auto
    qed (use get n inside lo0 in auto)
    moreover have "(\<exists>k. 0 \<le> k \<and> k \<le> n - 1 \<and> uint (lo k) \<le> c \<and> c \<le> uint (hi k)) \<longleftrightarrow> (\<exists>i < n. A i \<le> c \<and> c < B i)"
    proof -
      have "k \<le> n - 1 \<longleftrightarrow> k < n" for k using n by auto
      then show ?thesis using AB(2) by auto
    qed
    ultimately show ?thesis using inside g0 gl lo0 by (simp add: range_match32_def Let_def last m [simplified] not_less)
  qed
qed


section \<open>From the set to the opcode\<close>

text \<open>The opcode at \<open>p\<close>, its number of entries, and its verdict on \<open>c\<close>.\<close>

definition range_verdict :: "byte list \<Rightarrow> nat \<Rightarrow> int \<Rightarrow> bool option" where
  "range_verdict code p c = do {
     opcode \<leftarrow> op_at code p;
     n \<leftarrow> get_u16 code (p + 1);
     if opcode = REOP_range then range_match16 code (p + 3) (unat n) c
     else if opcode = REOP_range32 then range_match32 code (p + 3) (unat n) c
     else None
   }"

lemma reop_of_opc: "reop_of (opc r) = Some r"
  by (cases r) (simp_all add: reop_of_def opc_def reop_list_def)

lemma uint_diff_1: "0 < uint b \<Longrightarrow> uint (b - 1) = uint b - 1" for b :: u32
  using uint_sub_lem [of 1 b] by simp

lemma pts_intervals:
  assumes "canonical pts" "2 \<le> length pts" "length pts div 2 < 65535"
  shows "intervals (length pts div 2) (\<lambda>i. uint (pts ! (2 * i))) (\<lambda>i. uint (pts ! (2 * i + 1)))"
proof -
  have "pts ! a < pts ! b" if "a < b" "b < length pts" for a b
    using assms(1) that sorted_wrt_nth_less by (auto simp: canonical_def)
  moreover have "2 * i + 1 < length pts" if "i < length pts div 2" for i using that by auto
  ultimately show ?thesis using assms(2,3) by (auto simp: intervals_def word_less_def)
qed

lemma in_points_intervals:
  assumes "canonical pts" "0 \<le> c" "c < 2 ^ 32"
  shows "in_points pts (of_int c) \<longleftrightarrow> (\<exists>i < length pts div 2. uint (pts ! (2 * i)) \<le> c \<and> c < uint (pts ! (2 * i + 1)))"
proof -
  have u: "uint (of_int c :: u32) = c" using assms(2,3) by (simp add: uint_word_of_int take_bit_eq_mod)
  have "(\<exists>(a, b) \<in> set (pairs pts). a \<le> of_int c \<and> of_int c < b) \<longleftrightarrow>
      (\<exists>i < length pts div 2. pts ! (2 * i) \<le> of_int c \<and> of_int c < pts ! (2 * i + 1))"
    by (force simp: set_conv_nth length_pairs pairs_nth)
  then show ?thesis using in_points_pairs [of pts "of_int c"] assms(1) u
    by (simp add: canonical_def word_le_def word_less_def)
qed

lemma uses16_small:
  assumes "canonical pts" "2 \<le> length pts" "uses16 pts" "i < length pts div 2"
  shows "uint (pts ! (2 * i)) \<le> 65535 \<and>
    (uint (pts ! (2 * i + 1)) \<le> 65535 \<or> i = length pts div 2 - 1 \<and> uint (pts ! (2 * i + 1)) = 2 ^ 32 - 1)"
proof -
  have lt: "uint (pts ! a) < uint (pts ! b)" if "a < b" "b < length pts" for a b
    using assms(1) sorted_wrt_nth_less [OF _ that, of "(<)"] by (simp add: canonical_def word_less_def)
  obtain k where k: "length pts = 2 * k" using assms(1) by (auto simp: canonical_def)
  have last: "last pts = pts ! (2 * k - 1)" using assms(2) k last_conv_nth [of pts] by (cases pts) auto
  have u: "(if pts ! (2 * k - 1) = 0xffffffff then pts ! (2 * k - 2) else pts ! (2 * k - 1)) \<le> 0xffff"
    using assms(3) k last by (auto simp: uses16_def split: if_splits)
  have k1: "1 \<le> k" "i < k" using assms(2,4) k by auto
  show ?thesis
  proof (cases "pts ! (2 * k - 1) = 0xffffffff")
    case True
    then have b: "uint (pts ! (2 * k - 2)) \<le> 65535" using u by (simp add: word_le_def)
    show ?thesis
    proof (cases "i = k - 1")
      case True
      then have "2 * i = 2 * k - 2" "2 * i + 1 = 2 * k - 1" using k1 by auto
      then show ?thesis using b \<open>pts ! (2 * k - 1) = 0xffffffff\<close> k True by simp
    next
      case False
      then have "2 * i < 2 * k - 2" "2 * i + 1 < 2 * k - 2" using k1 by auto
      then show ?thesis using lt [of "2 * i" "2 * k - 2"] lt [of "2 * i + 1" "2 * k - 2"] b k k1 by simp
    qed
  next
    case False
    then have "uint (pts ! (2 * k - 1)) \<le> 65535" using u by (simp add: word_le_def)
    moreover have "uint (pts ! (2 * i)) < uint (pts ! (2 * k - 1))" using lt k k1 by simp
    moreover have "uint (pts ! (2 * i + 1)) \<le> uint (pts ! (2 * k - 1))"
    proof (cases "i = k - 1")
      case False
      then have "2 * i + 1 < 2 * k - 1" using k1 by auto
      then show ?thesis using lt [of "2 * i + 1" "2 * k - 1"] k k1 by simp
    next
      case True
      then have "2 * i + 1 = 2 * k - 1" using k1 by auto
      then show ?thesis by (simp only: order_refl)
    qed
    ultimately show ?thesis by simp
  qed
qed

lemma word16_roundtrip: "uint w \<le> 65535 \<Longrightarrow> uint (of_nat (unat (ucast w :: u16)) :: u32) = uint w" for w :: u32
proof -
  assume "uint w \<le> 65535"
  moreover have "uint w = int (unat w)" by simp
  ultimately have "unat w < 65536" by linarith
  then show ?thesis by (simp add: unsigned_ucast_eq take_bit_eq_mod)
qed

lemma last16_value:
  assumes "0 < uint b" "uint b \<le> 65535 \<or> uint b = 2 ^ 32 - 1"
  shows "uint (of_nat (unat (ucast (last16 b) :: u16)) :: u32) = (if uint b = 2 ^ 32 - 1 then 65535 else uint b - 1)"
proof -
  have "b - 1 = 0xfffffffe \<longleftrightarrow> uint b = 2 ^ 32 - 1" using uint_diff_1 [OF assms(1)] by (auto simp: word_uint_eq_iff)
  moreover have "uint (0xffff :: u32) = 65535" by simp
  ultimately show ?thesis using assms uint_diff_1 [of b] word16_roundtrip [of "b - 1"] word16_roundtrip [of "0xffff"]
    by (auto simp: last16_def)
qed

lemma range_bytes_verdict:
  assumes pts: "canonical pts" "2 \<le> length pts" "length pts div 2 < 65535" and c: "0 \<le> c" "c < 2 ^ 32 - 1"
  shows "range_verdict (pre @ range_bytes pts @ post) (length pre) c = Some (in_points pts (of_int c))"
proof -
  let ?n = "length pts div 2" and ?A = "\<lambda>i. uint (pts ! (2 * i))" and ?B = "\<lambda>i. uint (pts ! (2 * i + 1))"
  let ?code = "pre @ range_bytes pts @ post"
  note iv = pts_intervals [OF pts]
  have n16: "?n mod 256 ^ 2 = ?n" "unat (of_nat ?n :: u32) = ?n" using pts(3) by (simp_all add: unat_of_nat)
  have goal: "in_points pts (of_int c) = (\<exists>i < ?n. ?A i \<le> c \<and> c < ?B i)" using in_points_intervals [OF pts(1) c(1)] c(2) by simp
  have Bpos: "?A i < ?B i" "0 \<le> ?A i" if "i < ?n" for i using iv that by (auto simp: intervals_def)
  show ?thesis
  proof (cases "uses16 pts")
    case True
    let ?pre = "pre @ opc REOP_range # le_bytes 2 ?n"
    have code: "?code = ?pre @ concat (map range16_entry (pairs pts)) @ post" using True by (simp add: range_bytes_def)
    have hd: "op_at ?code (length pre) = Some REOP_range" "get_u16 ?code (length pre + 1) = Some (of_nat ?n)"
      using True load_at [of "pre @ [opc REOP_range]" 2 ?n "concat (map range16_entry (pairs pts)) @ post"] n16(1)
      by (simp_all add: op_at_def range_bytes_def reop_of_opc get_u16_def)
    define lo hi where "lo = (\<lambda>i. of_nat (unat (ucast (pts ! (2 * i)) :: u16)) :: u32)"
      and "hi = (\<lambda>i. of_nat (unat (ucast (last16 (pts ! (2 * i + 1))) :: u16)) :: u32)"
    have get: "get_u16 ?code (length pre + 3 + i * 4) = Some (lo i) \<and> get_u16 ?code (length pre + 3 + i * 4 + 2) = Some (hi i)" if "i < ?n" for i
      using entry_load [of range16_entry 2 "\<lambda>ab. unat (ucast (fst ab) :: u16)" "\<lambda>ab. unat (ucast (last16 (snd ab)) :: u16)" i "pairs pts" ?pre post]
        that unsigned_less [of "ucast (pts ! (2 * i)) :: u16", where 'a = nat] unsigned_less [of "ucast (last16 (pts ! (2 * i + 1))) :: u16", where 'a = nat]
      by (simp add: code range16_entry_def length_pairs pairs_nth get_u16_def lo_def hi_def)
    have small: "?A i \<le> 65535 \<and> (?B i \<le> 65535 \<or> i = ?n - 1 \<and> ?B i = 2 ^ 32 - 1)" if "i < ?n" for i
      using uses16_small [OF pts(1,2) True that] .
    have vals: "uint (lo i) = ?A i \<and> uint (hi i) = (if ?B i = 2 ^ 32 - 1 then 65535 else ?B i - 1)" if "i < ?n" for i
      using small [OF that] Bpos [OF that] word16_roundtrip [of "pts ! (2 * i)"] last16_value [of "pts ! (2 * i + 1)"]
      uint_nonnegative [of "pts ! (2 * i)"] unfolding lo_def hi_def by auto
    have "range_match16 ?code (length pre + 3) ?n c = Some (\<exists>i < ?n. ?A i \<le> c \<and> c < ?B i)"
      using range_match16_finds [OF get iv vals small c(2)] .
    then show ?thesis using hd n16(2) goal by (simp add: range_verdict_def)
  next
    case False
    let ?pre = "pre @ opc REOP_range32 # le_bytes 2 ?n"
    have code: "?code = ?pre @ concat (map range32_entry (pairs pts)) @ post" using False by (simp add: range_bytes_def)
    have hd: "op_at ?code (length pre) = Some REOP_range32" "get_u16 ?code (length pre + 1) = Some (of_nat ?n)"
      using False load_at [of "pre @ [opc REOP_range32]" 2 ?n "concat (map range32_entry (pairs pts)) @ post"] n16(1)
      by (simp_all add: op_at_def range_bytes_def reop_of_opc get_u16_def)
    have get: "get_u32 ?code (length pre + 3 + i * 8) = Some (pts ! (2 * i)) \<and> get_u32 ?code (length pre + 3 + i * 8 + 4) = Some (pts ! (2 * i + 1) - 1)" if "i < ?n" for i
      using entry_load [of range32_entry 4 "\<lambda>ab. unat (fst ab)" "\<lambda>ab. unat (snd ab - 1)" i "pairs pts" ?pre post]
        that unsigned_less [of "pts ! (2 * i)", where 'a = nat] unsigned_less [of "pts ! (2 * i + 1) - 1", where 'a = nat]
      by (simp add: code range32_entry_def length_pairs pairs_nth get_u32_def)
    have "range_match32 ?code (length pre + 3) ?n c = Some (\<exists>i < ?n. ?A i \<le> c \<and> c < ?B i)"
    proof (rule range_match32_finds [OF get iv])
      fix i assume "i < ?n"
      then show "uint (pts ! (2 * i)) = ?A i \<and> uint (pts ! (2 * i + 1) - 1) = ?B i - 1"
        using uint_diff_1 [OF le_less_trans [OF uint_nonnegative Bpos(1)]] by simp
    qed
    then show ?thesis using hd n16(2) goal by (simp add: range_verdict_def)
  qed
qed


text \<open>C33. The range opcodes decide membership.  For every nonempty set in canonical form with fewer
  than 65535 intervals, \<open>re_emit_range\<close> succeeds without undefined behaviour, and if no allocation
  failed, the opcode it appended (16 or 32 bit form, with or without an infinite last interval) is
  read back by the machine's bisection as exactly that set.\<close>

theorem emit_range_matches:
  assumes "canonical (cr_live cr)" "2 \<le> cr_len cr" "cr_len cr div 2 < 65535" "cr_len cr \<le> length (cr_points cr)"
    "room (length (range_bytes (cr_live cr))) s"
  shows "\<exists>s'. re_emit_range cr s = POk s' \<and> dbuf_ok (ps_byte_code s') \<and>
    (dbuf_error (ps_byte_code s') \<or>
      (\<forall>c. c < 0 \<or> 2 ^ 32 - 1 \<le> c \<or> range_verdict (bc_contents s') (bc_size s) c = Some (in_points (cr_live cr) (of_int c))))"
proof -
  have len: "length (cr_live cr) = cr_len cr" using assms(4) by (simp add: cr_live_def)
  then have "even (cr_len cr)" using assms(1) by (simp add: canonical_def)
  then obtain s' where s': "re_emit_range cr s = POk s'" "emitted s (range_bytes (cr_live cr)) s'"
    using re_emit_range_emits assms(2-5) by blast
  have "length (bc_contents s) = bc_size s" using assms(5) by (simp add: room_def bc_contents_def bc_size_def)
  then have verdict: "range_verdict (bc_contents s') (bc_size s) c = Some (in_points (cr_live cr) (of_int c))"
    if "\<not> dbuf_error (ps_byte_code s')" "0 \<le> c" "c < 2 ^ 32 - 1" for c
    using range_bytes_verdict [of "cr_live cr" c "bc_contents s" "[]"] that s'(2) assms(1-3) len
    by (auto simp: emitted_def bc_contents_def bc_size_def)
  have "dbuf_ok (ps_byte_code s')" using s'(2) by (auto simp: emitted_def)
  with s'(1) show ?thesis using verdict by (metis linorder_not_le)
qed

definition emoji_range :: CharRange where
  "emoji_range = \<lparr>cr_len = 4, cr_size = 4, cr_points = [0x61, 0x7b, 0x1f600, 0x1f650], cr_realloc_func = (\<lambda>_ _. None)\<rparr>"

definition empty_state :: REParseState where
  "empty_state = parse_init (\<lambda>m n. Some (take n m @ replicate (n - length m) 0)) (\<lambda>_ _. None)
     \<lparr>us_script = (\<lambda>_ _ _. None), us_general_category = (\<lambda>_ _. None), us_prop = (\<lambda>_ _. None)\<rparr> (\<lambda>_. False) [0] 0 0"

lemma realloc_law_zero: "realloc_law (\<lambda>m n. Some (take n m @ replicate (n - length m) 0))"
  by (auto simp: realloc_law_def min_def)

theorem emit_range_matches_witness:
  "\<exists>s'. re_emit_range emoji_range empty_state = POk s' \<and>
    (dbuf_error (ps_byte_code s') \<or> range_verdict (bc_contents s') 0 0x1f600 = Some True)"
proof -
  have "canonical (cr_live emoji_range)" by (simp add: canonical_def cr_live_def emoji_range_def)
  moreover have "room (length (range_bytes (cr_live emoji_range))) empty_state"
    using realloc_law_zero by (simp add: room_def empty_state_def parse_init_def dbuf_init2_def dbuf_ok_def bc_size_def
        range_bytes_def cr_live_def emoji_range_def uses16_def range32_entry_def)
  ultimately obtain s' where s': "re_emit_range emoji_range empty_state = POk s'" "dbuf_error (ps_byte_code s') \<or>
      (\<forall>c. c < 0 \<or> 2 ^ 32 - 1 \<le> c \<or>
        range_verdict (bc_contents s') (bc_size empty_state) c = Some (in_points (cr_live emoji_range) (of_int c)))"
    using emit_range_matches [of emoji_range empty_state] by (auto simp: emoji_range_def)
  moreover have "bc_size empty_state = 0" by (simp add: empty_state_def parse_init_def dbuf_init2_def bc_size_def)
  moreover have "in_points (cr_live emoji_range) (of_int 0x1f600)" by (simp add: in_points_def cr_live_def emoji_range_def)
  ultimately show ?thesis by (auto dest: spec [of _ "0x1f600"])
qed

end
