(* ===== verification/Lre_Literal.thy ===== *)
theory Lre_Literal
  imports Lre_Range
begin

text \<open>
  Compiler and machine together, on the patterns every script uses most: plain text.  The pattern
  is compiled to a loop over the start positions around one \<open>REOP_char\<close> per byte, and running that
  code finds the first occurrence of the text in the subject.
\<close>

section \<open>Runs\<close>

text \<open>Enough fuel gives the result \<open>r\<close>.\<close>

definition runs :: "REExecContext \<Rightarrow> vm \<Rightarrow> (exec_ret \<times> vm) run \<Rightarrow> bool" where
  "runs s m r \<longleftrightarrow> (\<exists>N. \<forall>k \<ge> N. exec_backtrack k s False m = r)"

lemma runs_Cont: "re_step s False m = Some (Cont m') \<Longrightarrow> runs s m' r \<Longrightarrow> runs s m r"
proof -
  assume st: "re_step s False m = Some (Cont m')" and "runs s m' r"
  then obtain N where N: "\<And>k. N \<le> k \<Longrightarrow> exec_backtrack k s False m' = r" by (auto simp: runs_def)
  have "exec_backtrack k s False m = r" if "Suc N \<le> k" for k
    using that N [of "k - 1"] st by (cases k) auto
  then show ?thesis by (auto simp: runs_def)
qed

lemma runs_Halt: "re_step s False m = Some (Halt x m') \<Longrightarrow> runs s m (Done (x, m'))"
proof -
  assume st: "re_step s False m = Some (Halt x m')"
  have "exec_backtrack k s False m = Done (x, m')" if "1 \<le> k" for k using that st by (cases k) auto
  then show ?thesis by (auto simp: runs_def)
qed

section \<open>The code of a text\<close>

definition text_body :: "byte list \<Rightarrow> byte list" where
  "text_body w = concat (map (\<lambda>b. [opc REOP_char, b, 0]) w)"

definition text_code :: "byte \<Rightarrow> byte list \<Rightarrow> byte list" where
  "text_code flags w = [flags, 1, 0] @ le_bytes 4 (16 + 3 * length w) @ [8, 6, 0, 0, 0, 4, 7, 245, 255, 255, 255, 11, 0] @
     text_body w @ [12, 0, 10]"

lemma length_text_body [simp]: "length (text_body w) = 3 * length w"
  by (induction w) (simp_all add: text_body_def)

lemma length_text_code [simp]: "length (text_code flags w) = 23 + 3 * length w"
  by (simp add: text_code_def)

lemma text_code_split:
  obtains pre where "text_code flags w = pre @ text_body w @ [12, 0, 10]" "length pre = 20"
    "pre = [flags, 1, 0] @ le_bytes 4 (16 + 3 * length w) @ [8, 6, 0, 0, 0, 4, 7, 245, 255, 255, 255, 11, 0]"
  by (simp add: text_code_def)

lemma text_code_prologue:
  "take 20 (text_code flags w) = [flags, 1, 0] @ le_bytes 4 (16 + 3 * length w) @ [8, 6, 0, 0, 0, 4, 7, 245, 255, 255, 255, 11, 0]"
  by (simp add: text_code_def)

lemma text_body_at:
  assumes "j < length w"
  shows "\<exists>a b. text_code flags w = a @ [opc REOP_char, w ! j, 0] @ b \<and> length a = 20 + 3 * j"
proof -
  obtain pre where pre: "text_code flags w = pre @ text_body w @ [12, 0, 10]" "length pre = 20" using text_code_split by metis
  obtain a b where ab: "text_body w = a @ [opc REOP_char, w ! j, 0] @ b" "length a = j * 3"
    using concat_block [of "\<lambda>b. [opc REOP_char, b, 0]" 3 j w] assms unfolding text_body_def by auto
  have "text_code flags w = (pre @ a) @ [opc REOP_char, w ! j, 0] @ (b @ [12, 0, 10])" using pre ab by simp
  moreover have "length (pre @ a) = 20 + 3 * j" using pre(2) ab(2) by simp
  ultimately show ?thesis by blast
qed

lemma fetch_char:
  assumes "j < length w"
  shows "op_at (text_code flags w) (20 + 3 * j) = Some REOP_char"
    "get_u16 (text_code flags w) (21 + 3 * j) = Some (ucast (w ! j))"
proof -
  obtain a b where ab: "text_code flags w = a @ [opc REOP_char, w ! j, 0] @ b" "length a = 20 + 3 * j"
    using text_body_at [OF assms] by blast
  then show "op_at (text_code flags w) (20 + 3 * j) = Some REOP_char" by (simp add: op_at_def reop_of_opc flip: ab(2))
  have "21 + 3 * j = Suc (length a)" using ab(2) by simp
  moreover have "drop (Suc (length a)) (text_code flags w) = [w ! j, 0] @ b" unfolding ab(1) by simp
  ultimately have "drop (21 + 3 * j) (text_code flags w) = [w ! j, 0] @ b" by (simp only:)
  then show "get_u16 (text_code flags w) (21 + 3 * j) = Some (ucast (w ! j))"
    using assms by (simp add: get_u16_def load_def numeral_2_eq_2)
qed

lemma fetch_end:
  "op_at (text_code flags w) (20 + 3 * length w) = Some REOP_save_end"
  "rd (text_code flags w) (21 + 3 * length w) = Some 0"
  "op_at (text_code flags w) (22 + 3 * length w) = Some REOP_match"
proof -
  obtain pre where pre: "text_code flags w = pre @ text_body w @ [12, 0, 10]" "length pre = 20" using text_code_split by metis
  have *: "rd (text_code flags w) (20 + 3 * length w + k) = rd [12, 0, 10] k" if "k < 3" for k
    using that by (simp add: pre rd_def nth_append pre(2))
  show "op_at (text_code flags w) (20 + 3 * length w) = Some REOP_save_end"
    using * [of 0] by (simp add: op_at_def reop_of_def reop_list_def)
  show "rd (text_code flags w) (21 + 3 * length w) = Some 0" using * [of 1] by (simp add: rd_def)
  have "rd [12, 0, 10 :: byte] 2 = Some 10" by (simp add: rd_def)
  then have "rd (text_code flags w) (22 + 3 * length w) = Some 10" using * [of 2] by (simp add: add.commute add.left_commute)
  then show "op_at (text_code flags w) (22 + 3 * length w) = Some REOP_match" by (simp add: op_at_def reop_of_def reop_list_def)
qed

lemma le_bytes_4: "le_bytes 4 v = [of_nat v, of_nat (v div 256), of_nat (v div 256 div 256), of_nat (v div 256 div 256 div 256)]"
proof -
  have e: "(4 :: nat) = Suc (Suc (Suc (Suc 0)))" by simp
  show ?thesis by (simp only: e le_bytes.simps)
qed

lemma fetch_prologue:
  "op_at (text_code flags w) 7 = Some REOP_split_goto_first" "get_u32 (text_code flags w) 8 = Some 6"
  "op_at (text_code flags w) 12 = Some REOP_any"
  "op_at (text_code flags w) 13 = Some REOP_goto" "get_u32 (text_code flags w) 14 = Some (-11)"
  "op_at (text_code flags w) 18 = Some REOP_save_start" "rd (text_code flags w) 19 = Some 0"
  by (simp_all add: text_code_def le_bytes_4 op_at_def reop_of_def reop_list_def get_u32_def load_def rd_def)


section \<open>Running it\<close>

definition mk :: "nat option list \<Rightarrow> nat \<Rightarrow> nat \<Rightarrow> REExecState list \<Rightarrow> nat \<Rightarrow> vm" where
  "mk cap p cp st sz = \<lparr>vm_capture = cap, vm_stack = [], vm_stack_len = 0, vm_pc = p, vm_cptr = cp, state_stack = st, state_stack_size = sz\<rparr>"

definition retry :: "nat \<Rightarrow> REExecState" where
  "retry i = \<lparr>rs_type = RE_EXEC_STATE_SPLIT, rs_stack_len = 0, rs_count = 0, rs_cptr = i, rs_pc = 12,
     rs_capture = [None, None], rs_stack = []\<rparr>"

definition text_context :: "byte \<Rightarrow> byte list \<Rightarrow> REExecContext \<Rightarrow> bool" where
  "text_context flags w s \<longleftrightarrow> ctx_code s = text_code flags w \<and> capture_count s = 1 \<and> stack_size_max s = 0 \<and>
     \<not> ignore_case s \<and> cbuf_type s \<noteq> 2 \<and> (\<forall>n. state_alloc s n)"

lemma mk_sel [simp]: "vm_capture (mk cap p cp st sz) = cap" "vm_stack (mk cap p cp st sz) = []"
  "vm_stack_len (mk cap p cp st sz) = 0" "vm_pc (mk cap p cp st sz) = p" "vm_cptr (mk cap p cp st sz) = cp"
  "state_stack (mk cap p cp st sz) = st" "state_stack_size (mk cap p cp st sz) = sz"
  by (simp_all add: mk_def)

lemma mk_upd [simp]: "(mk cap p cp st sz)\<lparr>vm_pc := q\<rparr> = mk cap q cp st sz" "(mk cap p cp st sz)\<lparr>vm_cptr := c\<rparr> = mk cap p c st sz"
  "(mk cap p cp st sz)\<lparr>vm_capture := cap'\<rparr> = mk cap' p cp st sz" "(mk cap p cp st sz)\<lparr>state_stack := st'\<rparr> = mk cap p cp st' sz"
  "(mk cap p cp st sz)\<lparr>state_stack_size := sz'\<rparr> = mk cap p cp st sz'"
  "(mk cap p cp st sz)\<lparr>vm_stack_len := 0\<rparr> = mk cap p cp st sz" "(mk cap p cp st sz)\<lparr>vm_stack := []\<rparr> = mk cap p cp st sz"
  by (simp_all add: mk_def)

lemma step_at:
  assumes "op_at (ctx_code s) p = Some opcode"
  shows "re_step s nr (mk cap p cp st sz) = re_dispatch s nr opcode (mk cap (Suc p) cp st sz)"
  using assms re_step_eq [of s "mk cap p cp st sz" opcode nr] by (simp add: op_at_def)

lemma get_char_plain: "cbuf_type s \<noteq> 2 \<Longrightarrow> i < length (cbuf s) \<Longrightarrow> get_char s i e = Some (cbuf s ! i, Suc i)"
  by (simp add: get_char_def)

lemma fail_retry: "no_match s False (mk cap p cp [retry i] sz) = Some (Cont (mk ([None, None] @ drop 2 cap) 12 i [] sz))"
  by (simp add: no_match_def retry_def restore_capture_def pop_state1_def restore_stack_def numeral_2_eq_2)

lemma uint_byte_u32: "uint (ucast b :: u32) = uint b" for b :: byte
  by (simp add: uint_up_ucast is_up)

lemma step_split:
  assumes "text_context flags w s"
  shows "re_step s False (mk [None, None] 7 i [] sz) = Some (Cont (mk [None, None] 18 i [retry i] (if sz = 0 then 8 else sz)))"
  using assms by (simp add: step_at text_context_def fetch_prologue re_dispatch_def op_split_def jump_def push_or_fail_def
      push_state_def retry_def Let_def)

lemma step_save:
  assumes "text_context flags w s"
  shows "re_step s False (mk [None, None] 18 i st sz) = Some (Cont (mk [Some i, None] 20 i st sz))"
    "re_step s False (mk [Some i, None] (20 + 3 * length w) j st sz) = Some (Cont (mk [Some i, Some j] (22 + 3 * length w) j st sz))"
  using assms fetch_end [of flags w] fetch_prologue [of flags w]
  by (simp_all add: step_at text_context_def re_dispatch_def op_save_def next_pc_def Let_def)

lemma step_any:
  assumes "text_context flags w s"
  shows "re_step s False (mk [None, None] 12 i [] sz) =
    (if i = length (cbuf s) then Some (Halt Ret_no_match (mk [None, None] 13 i [] sz))
     else if i < length (cbuf s) then Some (Cont (mk [None, None] 13 (Suc i) [] sz)) else None)"
    "re_step s False (mk [None, None] 13 i [] sz) = Some (Cont (mk [None, None] 7 i [] sz))"
  using assms fetch_prologue [of flags w]
  by (simp_all add: step_at text_context_def re_dispatch_def op_any_def no_match_def get_char_plain get_char_def rd_def op_goto_def jump_def)

lemma step_char:
  assumes "text_context flags w s" "j < length w" "i \<le> length (cbuf s)"
  shows "re_step s False (mk cap (20 + 3 * j) i st sz) =
    (if i < length (cbuf s) \<and> cbuf s ! i = uint (w ! j) then Some (Cont (mk cap (20 + 3 * Suc j) (Suc i) st sz))
     else no_match s False (mk cap (23 + 3 * j) (if i < length (cbuf s) then Suc i else i) st sz))"
  using assms fetch_char [OF assms(2), of flags]
  by (auto simp: step_at text_context_def re_dispatch_def op_char_def test_char_def next_pc_def get_char_plain canon_def Let_def
      uint_byte_u32)

lemma step_match:
  assumes "text_context flags w s"
  shows "re_step s False (mk cap (22 + 3 * length w) j [retry i] sz) = Some (Halt Ret_match (mk cap (23 + 3 * length w) j [] sz))"
  using assms fetch_end [of flags w] by (simp add: step_at text_context_def re_dispatch_def op_match_def retry_def)


text \<open>The text from its \<open>j\<close>-th byte on stands at \<open>i + j\<close>.\<close>

definition match_from :: "byte list \<Rightarrow> int list \<Rightarrow> nat \<Rightarrow> nat \<Rightarrow> bool" where
  "match_from w t i j \<longleftrightarrow> i + length w \<le> length t \<and> (\<forall>k. j \<le> k \<and> k < length w \<longrightarrow> t ! (i + k) = uint (w ! k))"

definition occurs_at :: "byte list \<Rightarrow> int list \<Rightarrow> nat \<Rightarrow> bool" where
  "occurs_at w t i \<longleftrightarrow> i + length w \<le> length t \<and> take (length w) (drop i t) = map uint w"

lemma occurs_match: "occurs_at w t i \<longleftrightarrow> match_from w t i 0"
  by (auto simp: occurs_at_def match_from_def list_eq_iff_nth_eq)

lemma match_from_step:
  "j < length w \<Longrightarrow> i + j < length t \<Longrightarrow> match_from w t i j \<longleftrightarrow> t ! (i + j) = uint (w ! j) \<and> match_from w t i (Suc j)"
  unfolding match_from_def by (metis Suc_leD Suc_leI le_neq_implies_less order_refl)

lemma chars_run:
  assumes s: "text_context flags w s"
  shows "j \<le> length w \<Longrightarrow> i + j \<le> length (cbuf s) \<Longrightarrow>
    runs s (if match_from w (cbuf s) i j then mk [Some i, None] (20 + 3 * length w) (i + length w) [retry i] sz
            else mk [None, None] 12 i [] sz) r \<Longrightarrow>
    runs s (mk [Some i, None] (20 + 3 * j) (i + j) [retry i] sz) r"
proof (induction "length w - j" arbitrary: j)
  case 0
  then have "j = length w" "match_from w (cbuf s) i j" by (auto simp: match_from_def)
  then show ?case using "0.prems" by simp
next
  case (Suc n)
  then have j: "j < length w" "n = length w - Suc j" by auto
  show ?case
  proof (cases "i + j < length (cbuf s) \<and> cbuf s ! (i + j) = uint (w ! j)")
    case True
    then have st: "re_step s False (mk [Some i, None] (20 + 3 * j) (i + j) [retry i] sz) =
        Some (Cont (mk [Some i, None] (20 + 3 * Suc j) (i + Suc j) [retry i] sz))"
      using step_char [OF s j(1) Suc.prems(2)] by simp
    have "match_from w (cbuf s) i j \<longleftrightarrow> match_from w (cbuf s) i (Suc j)" using match_from_step [OF j(1)] True by blast
    then show ?thesis using runs_Cont [OF st Suc.hyps(1) [OF j(2)]] j(1) True Suc.prems(3) by simp
  next
    case False
    then have "\<not> match_from w (cbuf s) i j" using j(1) by (auto simp: match_from_def)
    moreover have "re_step s False (mk [Some i, None] (20 + 3 * j) (i + j) [retry i] sz) = Some (Cont (mk [None, None] 12 i [] sz))"
      using step_char [OF s j(1) Suc.prems(2)] False fail_retry by auto
    ultimately show ?thesis using runs_Cont Suc.prems(3) by auto
  qed
qed

lemma search_run:
  assumes s: "text_context flags w s"
  shows "i \<le> length (cbuf s) \<Longrightarrow>
    (\<exists>k m. i \<le> k \<and> occurs_at w (cbuf s) k \<and> (\<forall>j. i \<le> j \<and> j < k \<longrightarrow> \<not> occurs_at w (cbuf s) j) \<and>
       runs s (mk [None, None] 7 i [] sz) (Done (Ret_match, m)) \<and> vm_capture m = [Some k, Some (k + length w)]) \<or>
    (\<exists>m. (\<forall>j. i \<le> j \<longrightarrow> \<not> occurs_at w (cbuf s) j) \<and> runs s (mk [None, None] 7 i [] sz) (Done (Ret_no_match, m)) \<and> vm_capture m = [None, None])"
proof (induction "length (cbuf s) - i" arbitrary: i sz rule: less_induct)
  case less
  let ?sz = "if sz = 0 then 8 else sz" and ?t = "cbuf s"
  have head: "runs s (mk [None, None] 7 i [] sz) r" if "runs s (if occurs_at w ?t i
      then mk [Some i, None] (20 + 3 * length w) (i + length w) [retry i] ?sz else mk [None, None] 12 i [] ?sz) r" for r
    using runs_Cont [OF step_split [OF s] runs_Cont [OF step_save(1) [OF s]]] chars_run [OF s, of 0 i ?sz r] that less.prems
    by (simp add: occurs_match)
  show ?case
  proof (cases "occurs_at w ?t i")
    case True
    have "runs s (mk [Some i, None] (20 + 3 * length w) (i + length w) [retry i] ?sz)
        (Done (Ret_match, mk [Some i, Some (i + length w)] (23 + 3 * length w) (i + length w) [] ?sz))"
      using runs_Cont [OF step_save(2) [OF s] runs_Halt [OF step_match [OF s]]] .
    then have "runs s (mk [None, None] 7 i [] sz)
        (Done (Ret_match, mk [Some i, Some (i + length w)] (23 + 3 * length w) (i + length w) [] ?sz))"
      using head True by simp
    moreover have "\<forall>j. i \<le> j \<and> j < i \<longrightarrow> \<not> occurs_at w ?t j" by auto
    ultimately show ?thesis using True
      by (intro disjI1 exI [of _ i] exI [of _ "mk [Some i, Some (i + length w)] (23 + 3 * length w) (i + length w) [] ?sz"]) simp
  next
    case no: False
    show ?thesis
    proof (cases "i = length ?t")
      case True
      then have "runs s (mk [None, None] 12 i [] ?sz) (Done (Ret_no_match, mk [None, None] 13 i [] ?sz))"
        using runs_Halt step_any(1) [OF s, of i ?sz] by simp
      then have "runs s (mk [None, None] 7 i [] sz) (Done (Ret_no_match, mk [None, None] 13 i [] ?sz))" using head no by simp
      moreover have "\<not> occurs_at w ?t j" if "i \<le> j" for j
        using no that True by (cases "j = i") (auto simp: occurs_at_def)
      ultimately show ?thesis by (metis mk_sel(1))
    next
      case False
      then have lt: "i < length ?t" using less.prems by simp
      have on: "runs s (mk [None, None] 7 i [] sz) r" if "runs s (mk [None, None] 7 (Suc i) [] ?sz) r" for r
        using head [of r] runs_Cont [OF _ runs_Cont [OF step_any(2) [OF s] that]] step_any(1) [OF s, of i ?sz] no lt by simp
      have ge: "i \<le> j \<longleftrightarrow> j = i \<or> Suc i \<le> j" for j by auto
      have "length ?t - Suc i < length ?t - i" "Suc i \<le> length ?t" using lt by auto
      from less.hyps [OF this, of ?sz] show ?thesis
      proof (elim disjE)
        assume "\<exists>k m. Suc i \<le> k \<and> occurs_at w ?t k \<and> (\<forall>j. Suc i \<le> j \<and> j < k \<longrightarrow> \<not> occurs_at w ?t j) \<and>
          runs s (mk [None, None] 7 (Suc i) [] ?sz) (Done (Ret_match, m)) \<and> vm_capture m = [Some k, Some (k + length w)]"
        then obtain k m where k: "Suc i \<le> k" "occurs_at w ?t k" "\<forall>j. Suc i \<le> j \<and> j < k \<longrightarrow> \<not> occurs_at w ?t j"
          "runs s (mk [None, None] 7 (Suc i) [] ?sz) (Done (Ret_match, m))" "vm_capture m = [Some k, Some (k + length w)]" by blast
        have "\<not> occurs_at w ?t j" if "i \<le> j" "j < k" for j using ge [of j] that no k(3) by auto
        then show ?thesis using on [OF k(4)] k(1,2,5) Suc_leD [OF k(1)] by (intro disjI1 exI [of _ k] exI [of _ m]) simp
      next
        assume "\<exists>m. (\<forall>j. Suc i \<le> j \<longrightarrow> \<not> occurs_at w ?t j) \<and>
          runs s (mk [None, None] 7 (Suc i) [] ?sz) (Done (Ret_no_match, m)) \<and> vm_capture m = [None, None]"
        then obtain m where m: "\<forall>j. Suc i \<le> j \<longrightarrow> \<not> occurs_at w ?t j"
          "runs s (mk [None, None] 7 (Suc i) [] ?sz) (Done (Ret_no_match, m))" "vm_capture m = [None, None]" by blast
        have "\<not> occurs_at w ?t j" if "i \<le> j" for j using ge [of j] that no m(1) by auto
        then show ?thesis using on [OF m(2)] m(3) by (intro disjI2 exI [of _ m]) simp
      qed
    qed
  qed
qed

definition first_occurrence :: "byte list \<Rightarrow> int list \<Rightarrow> nat option" where
  "first_occurrence w t = find (occurs_at w t) [0..<Suc (length t)]"

lemma first_occurrence_Some:
  "occurs_at w t k \<Longrightarrow> \<forall>j < k. \<not> occurs_at w t j \<Longrightarrow> first_occurrence w t = Some k"
proof -
  assume k: "occurs_at w t k" "\<forall>j < k. \<not> occurs_at w t j"
  then have "k < Suc (length t)" by (auto simp: occurs_at_def)
  then show ?thesis using k by (auto simp: first_occurrence_def find_Some_iff intro!: exI [of _ k] simp del: upt_Suc)
qed

lemma first_occurrence_None: "\<forall>j. \<not> occurs_at w t j \<Longrightarrow> first_occurrence w t = None"
  by (simp add: first_occurrence_def find_None_iff)

text \<open>The code of a text, run on a subject: the first occurrence.\<close>

lemma text_code_exec:
  assumes flags: "\<not> bit flags 1" "\<not> bit flags 4" and ctype: "ctype \<le> 1"
  shows "\<exists>N. \<forall>fuel \<ge> N. lre_exec fuel (text_code flags w) t 0 ctype (\<lambda>_. True) =
    (case first_occurrence w t of
       Some i \<Rightarrow> Done (Ret_match, [Some i, Some (i + length w)])
     | None \<Rightarrow> Done (Ret_no_match, [None, None]))"
proof -
  obtain s where s: "lre_context (text_code flags w) t ctype (\<lambda>_. True) = Some s" "text_context flags w s" "cbuf s = t"
    using flags ctype by (auto simp: lre_context_def text_context_def RE_HEADER_FLAGS_def RE_HEADER_CAPTURE_COUNT_def
        RE_HEADER_STACK_SIZE_def text_code_def rd_def Let_def)
  have init: "init_vm s 0 = mk [None, None] 7 0 [] 0"
    using s(2) by (simp add: init_vm_def mk_def text_context_def RE_HEADER_LEN_def numeral_2_eq_2)
  have res: "\<exists>N. \<forall>fuel \<ge> N. lre_exec fuel (text_code flags w) t 0 ctype (\<lambda>_. True) = Done (x, vm_capture m)"
    if "runs s (mk [None, None] 7 0 [] 0) (Done (x, m))" for x m
  proof -
    obtain N where "\<And>k. N \<le> k \<Longrightarrow> exec_backtrack k s False (mk [None, None] 7 0 [] 0) = Done (x, m)"
      using \<open>runs s (mk [None, None] 7 0 [] 0) (Done (x, m))\<close> by (auto simp: runs_def)
    then show ?thesis using s(1) by (intro exI [of _ N]) (simp add: lre_exec_def init)
  qed
  from search_run [OF s(2) le0, of 0] show ?thesis
  proof (elim disjE exE conjE)
    fix k m assume k: "occurs_at w (cbuf s) k" "\<forall>j. 0 \<le> j \<and> j < k \<longrightarrow> \<not> occurs_at w (cbuf s) j"
      "runs s (mk [None, None] 7 0 [] 0) (Done (Ret_match, m))" "vm_capture m = [Some k, Some (k + length w)]"
    then show ?thesis using res [OF k(3)] first_occurrence_Some [of w t k] s(3) by simp
  next
    fix m assume k: "\<forall>j. 0 \<le> j \<longrightarrow> \<not> occurs_at w (cbuf s) j"
      "runs s (mk [None, None] 7 0 [] 0) (Done (Ret_no_match, m))" "vm_capture m = [None, None]"
    then show ?thesis using res [OF k(2)] first_occurrence_None [of w t] s(3) by simp
  qed
qed


section \<open>Compiling it\<close>

text \<open>With an allocator that does not fail the emitted bytes are there.\<close>

definition total_realloc :: "realloc_func \<Rightarrow> bool" where
  "total_realloc f \<longleftrightarrow> realloc_law f \<and> (\<forall>p n. f p n \<noteq> None)"

definition good :: "REParseState \<Rightarrow> bool" where
  "good s \<longleftrightarrow> dbuf_ok (ps_byte_code s) \<and> \<not> dbuf_error (ps_byte_code s) \<and>
     (\<exists>f. dbuf_realloc_func (ps_byte_code s) = Some f \<and> total_realloc f)"

definition adds :: "(REParseState \<Rightarrow> REParseState option) \<Rightarrow> byte list \<Rightarrow> bool" where
  "adds f bs \<longleftrightarrow> (\<forall>s. good s \<longrightarrow> bc_size s + length bs < 2 ^ 32 \<longrightarrow>
     (\<exists>d. f s = Some (s\<lparr>ps_byte_code := d\<rparr>) \<and> good (s\<lparr>ps_byte_code := d\<rparr>) \<and> dbuf_contents d = bc_contents s @ bs))"

lemma bc_size_contents: "good s \<Longrightarrow> bc_size s = length (bc_contents s)"
  by (simp add: good_def bc_size_def bc_contents_def)

lemma addsD:
  assumes "adds f bs" "good s" "length (bc_contents s) + length bs < 2 ^ 32"
  obtains d where "f s = Some (s\<lparr>ps_byte_code := d\<rparr>)" "good (s\<lparr>ps_byte_code := d\<rparr>)" "dbuf_contents d = bc_contents s @ bs"
  using assms bc_size_contents [OF assms(2)] by (auto simp: adds_def)

lemma dbuf_put_total:
  assumes "dbuf_put d bs n = Some (d', e)" "dbuf_realloc_func d = Some f" "\<forall>p n. f p n \<noteq> None" "\<not> dbuf_error d"
  shows "\<not> dbuf_error d' \<and> dbuf_realloc_func d' = Some f"
  using assms(1,2,4)
  by (auto simp: assms(3) [rule_format] dbuf_put_def dbuf_grow_def dbuf_realloc_def Let_def split: if_splits bind_splits option.splits)

lemma adds_put: "adds (emit_bytes (\<lambda>d. dbuf_put d bs (length bs))) bs"
  unfolding adds_def
proof (intro allI impI)
  fix s assume s: "good s" "bc_size s + length bs < 2 ^ 32"
  then have "room (length bs) s" by (simp add: room_def good_def)
  from emitsD [OF emits_put this] obtain s' where s': "emit_bytes (\<lambda>d. dbuf_put d bs (length bs)) s = Some s'" "emitted s bs s'" by blast
  then obtain d where d: "s' = s\<lparr>ps_byte_code := d\<rparr>" "dbuf_ok d" "\<not> dbuf_error d \<longrightarrow> dbuf_contents d = bc_contents s @ bs"
    by (auto simp: emitted_def)
  obtain f where f: "dbuf_realloc_func (ps_byte_code s) = Some f" "total_realloc f" "\<not> dbuf_error (ps_byte_code s)"
    using s(1) by (auto simp: good_def)
  obtain d' e where "dbuf_put (ps_byte_code s) bs (length bs) = Some (d', e)" "s' = s\<lparr>ps_byte_code := d'\<rparr>"
    using s'(1) by (auto simp: emit_bytes_def split: bind_splits)
  moreover from this d(1) have "d' = d" by (metis REParseState.select_convs(1) REParseState.surjective REParseState.update_convs(1))
  ultimately have "\<not> dbuf_error d \<and> dbuf_realloc_func d = Some f"
    using dbuf_put_total [of "ps_byte_code s" bs "length bs" d e f] f by (auto simp: total_realloc_def)
  then show "\<exists>d. emit_bytes (\<lambda>d. dbuf_put d bs (length bs)) s = Some (s\<lparr>ps_byte_code := d\<rparr>) \<and>
      good (s\<lparr>ps_byte_code := d\<rparr>) \<and> dbuf_contents d = bc_contents s @ bs"
    using d s'(1) f(2) by (intro exI [of _ d]) (simp add: good_def)
qed

lemma adds_bind:
  assumes "adds f a" "adds g b" shows "adds (\<lambda>s. Option.bind (f s) g) (a @ b)"
  unfolding adds_def
proof (intro allI impI)
  fix s assume s: "good s" "bc_size s + length (a @ b) < 2 ^ 32"
  then have "length (bc_contents s) + length a < 2 ^ 32" by (simp add: bc_size_contents)
  then obtain d where d: "f s = Some (s\<lparr>ps_byte_code := d\<rparr>)" "good (s\<lparr>ps_byte_code := d\<rparr>)" "dbuf_contents d = bc_contents s @ a"
    using addsD [OF assms(1) s(1)] by metis
  then have c: "bc_contents (s\<lparr>ps_byte_code := d\<rparr>) = bc_contents s @ a" by (simp add: bc_contents_def)
  have "length (bc_contents (s\<lparr>ps_byte_code := d\<rparr>)) + length b < 2 ^ 32" using s c by (simp add: bc_size_contents)
  then obtain d' where "g (s\<lparr>ps_byte_code := d\<rparr>) = Some ((s\<lparr>ps_byte_code := d\<rparr>)\<lparr>ps_byte_code := d'\<rparr>)"
    "good ((s\<lparr>ps_byte_code := d\<rparr>)\<lparr>ps_byte_code := d'\<rparr>)" "dbuf_contents d' = bc_contents (s\<lparr>ps_byte_code := d\<rparr>) @ b"
    using addsD [OF assms(2) d(2)] by metis
  then show "\<exists>d. Option.bind (f s) g = Some (s\<lparr>ps_byte_code := d\<rparr>) \<and> good (s\<lparr>ps_byte_code := d\<rparr>) \<and>
      dbuf_contents d = bc_contents s @ a @ b"
    using d(1) c by (intro exI [of _ d']) simp
qed

lemma adds_putc: "adds (emit_bytes (\<lambda>d. dbuf_putc d b)) [b]"
  using adds_put [of "[b]"] by (simp add: dbuf_putc_def)

lemma adds_op: "adds (re_emit_op r) [opc r]"
  unfolding re_emit_op_def by (rule adds_putc)

lemma adds_op_u8: "adds (re_emit_op_u8 r v) [opc r, v]"
  unfolding re_emit_op_u8_def using adds_bind [OF adds_op adds_putc] by simp

lemma adds_put_u16: "adds (emit_bytes (\<lambda>d. dbuf_put_u16 d v)) (le_bytes 2 (unat v))"
  using adds_put [of "le_bytes 2 (unat v)"] by (simp add: dbuf_put_u16_def)

lemma adds_put_u32: "adds (emit_bytes (\<lambda>d. dbuf_put_u32 d v)) (le_bytes 4 (unat v))"
  using adds_put [of "le_bytes 4 (unat v)"] by (simp add: dbuf_put_u32_def)

lemma adds_op_u16: "adds (re_emit_op_u16 r v) (opc r # le_bytes 2 (unat v))"
  unfolding re_emit_op_u16_def using adds_bind [OF adds_op adds_put_u16] by simp

lemma adds_op_u32: "adds (\<lambda>s. map_option snd (re_emit_op_u32 r v s)) (opc r # le_bytes 4 (unat v))"
proof -
  have "(\<lambda>s. map_option snd (re_emit_op_u32 r v s)) = (\<lambda>s. Option.bind (re_emit_op r s) (emit_bytes (\<lambda>d. dbuf_put_u32 d v)))"
    by (auto simp: re_emit_op_u32_def Let_def fun_eq_iff split: bind_split)
  then show ?thesis using adds_bind [OF adds_op adds_put_u32] by simp
qed

definition raw_prologue :: "byte \<Rightarrow> byte list" where
  "raw_prologue flags = [flags, 0, 0, 0, 0, 0, 0, 8, 6, 0, 0, 0, 4, 7, 245, 255, 255, 255, 11, 0]"

lemma opc_values: "opc REOP_split_goto_first = 8" "opc REOP_any = 4" "opc REOP_goto = 7" "opc REOP_save_start = 11"
  "opc REOP_save_end = 12" "opc REOP_match = 10"
  by (simp_all add: opc_def reop_list_def)

lemma le_bytes_minus_11: "le_bytes 4 (unat (- 11 :: u32)) = [245, 255, 255, 255]"
proof -
  have "unat (- 11 :: u32) = 4294967285" by simp
  moreover have "(of_nat 4294967285 :: byte) = 245" "(of_nat 16777215 :: byte) = 255" "(of_nat 65535 :: byte) = 255" by simp_all
  ultimately show ?thesis by (simp add: le_bytes_4)
qed

lemma adds_prologue: "\<not> bit flags 5 \<Longrightarrow> adds (emit_prologue flags) (raw_prologue flags)"
proof -
  assume "\<not> bit flags 5"
  then have eq: "emit_prologue flags = (\<lambda>s. Option.bind (emit_bytes (\<lambda>d. dbuf_putc d flags) s)
    (\<lambda>s. Option.bind (emit_bytes (\<lambda>d. dbuf_putc d 0) s)
    (\<lambda>s. Option.bind (emit_bytes (\<lambda>d. dbuf_putc d 0) s)
    (\<lambda>s. Option.bind (emit_bytes (\<lambda>d. dbuf_put_u32 d 0) s)
    (\<lambda>s. Option.bind (map_option snd (re_emit_op_u32 REOP_split_goto_first 6 s))
    (\<lambda>s. Option.bind (re_emit_op REOP_any s)
    (\<lambda>s. Option.bind (map_option snd (re_emit_op_u32 REOP_goto (- 11) s))
      (re_emit_op_u8 REOP_save_start 0))))))))"
    by (simp add: emit_prologue_def fun_eq_iff)
  show ?thesis
    using eq adds_bind [OF adds_putc [of flags] adds_bind [OF adds_putc [of 0] adds_bind [OF adds_putc [of 0] adds_bind [OF adds_put_u32 [of 0]
      adds_bind [OF adds_op_u32 [of REOP_split_goto_first 6] adds_bind [OF adds_op [of REOP_any] adds_bind [OF adds_op_u32 [of REOP_goto "- 11", unfolded le_bytes_minus_11]
      adds_op_u8 [of REOP_save_start 0]]]]]]]]
    by (simp add: raw_prologue_def opc_values le_bytes_4)
qed


text \<open>A byte that stands for itself.\<close>

definition plain :: "byte \<Rightarrow> bool" where
  "plain b \<longleftrightarrow> 0 < b \<and> b < 128 \<and> b \<notin> set (str ''^$.*+?()[]{}|'') \<and> b \<noteq> 0x5c"

lemma plain_not_special:
  assumes "plain b"
  shows "b \<noteq> 0" "\<not> 128 \<le> b" "b \<noteq> 0x5c" "b \<noteq> ch CHR ''^''" "b \<noteq> ch CHR ''$''" "b \<noteq> ch CHR ''.''" "b \<noteq> ch CHR ''*''"
    "b \<noteq> ch CHR ''+''" "b \<noteq> ch CHR ''?''" "b \<noteq> ch CHR ''(''" "b \<noteq> ch CHR '')''" "b \<noteq> ch CHR ''[''" "b \<noteq> ch CHR '']''"
    "b \<noteq> ch CHR ''{''" "b \<noteq> ch CHR ''}''" "b \<noteq> ch CHR ''|''"
  using assms by (auto simp: plain_def str_def)

text \<open>The state while the text is parsed, at its \<open>j\<close>-th byte.\<close>

definition reading :: "byte list \<Rightarrow> nat \<Rightarrow> REParseState \<Rightarrow> bool" where
  "reading w j s \<longleftrightarrow> good s \<and> ps_buf s = w @ [0] \<and> ps_buf_end s = length w \<and> ps_buf_ptr s = j \<and> \<not> ps_ignore_case s \<and>
     \<not> ps_is_utf16 s \<and> \<not> ps_stack_overflow s 0 \<and> ps_capture_count s = 1 \<and> dbuf_size (ps_group_names s) = 0"

lemma char_operand: "b < 128 \<Longrightarrow> le_bytes 2 (unat (of_int (uint b) :: u16)) = [b, 0]" for b :: byte
proof -
  assume "b < 128"
  have "uint (ucast b :: u16) = uint b" by (simp add: uint_up_ucast is_up)
  then have "unat (ucast b :: u16) = unat b" by (simp only: unat_eq_nat_uint)
  then have "unat (of_int (uint b) :: u16) = unat b" by simp
  moreover have "unat b < 256" using unsigned_less [of b, where 'a = nat] by simp
  ultimately show ?thesis by (simp add: numeral_2_eq_2)
qed

lemma no_quantifier:
  assumes "reading w j s" "\<forall>b \<in> set w. plain b" "p \<le> length w"
  shows "re_quantifier p (Some x) y s = POk (s\<lparr>ps_buf_ptr := p\<rparr>)"
proof -
  have "\<exists>b. rd (ps_buf s) p = Some b \<and> (plain b \<or> b = 0)"
    using assms by (cases "p < length w") (auto simp: reading_def rd_def nth_append)
  then obtain b where b: "rd (ps_buf s) p = Some b" "plain b \<or> b = 0" by blast
  then have "parse_quantifier s p = POk None" using plain_not_special [of b] by (auto simp: parse_quantifier_def)
  then show ?thesis by (simp add: re_quantifier_def)
qed

lemma plain_term_step:
  assumes "reading w j s" "\<forall>b \<in> set w. plain b" "j < length w" "length (bc_contents s) + 3 < 2 ^ 32"
  obtains s' where "re_parse_term dj False s = POk s'" "reading w (Suc j) s'"
    "bc_contents s' = bc_contents s @ [opc REOP_char, w ! j, 0]"
proof -
  let ?b = "w ! j"
  have rd: "rd (ps_buf s) j = Some ?b" and pl: "plain ?b" using assms(1-3) by (auto simp: reading_def rd_def nth_append)
  note ns = plain_not_special [OF pl]
  have "?b < 128" using pl by (simp add: plain_def)
  then have small: "uint ?b < 128" by (simp add: word_less_def)
  have g: "good s" using assms(1) by (simp add: reading_def)
  have ad: "adds (re_emit_op_u16 REOP_char (of_int (uint ?b))) [opc REOP_char, ?b, 0]"
    using adds_op_u16 [of REOP_char "of_int (uint ?b)"] unfolding char_operand [OF \<open>?b < 128\<close>] .
  have len: "length (bc_contents s) + length [opc REOP_char, ?b, 0] < 2 ^ 32" using assms(4) by simp
  obtain d where d: "re_emit_op_u16 REOP_char (of_int (uint ?b)) s = Some (s\<lparr>ps_byte_code := d\<rparr>)" "good (s\<lparr>ps_byte_code := d\<rparr>)"
    "dbuf_contents d = bc_contents s @ [opc REOP_char, ?b, 0]"
    by (rule addsD [OF ad g len])
  let ?s = "s\<lparr>ps_byte_code := d\<rparr>"
  have r: "reading w j ?s" using assms(1) d(2) by (simp add: reading_def)
  have "get_class_atom s j False = POk (uint ?b, None, Suc j)" using rd ns by (simp add: get_class_atom_def normal_char_def)
  then have "simple_term ?b j False s = POk (Suc j, Some (bc_size s), ps_capture_count s, ?s)"
    using ns small assms(1) d(1)
    by (simp add: simple_term_def parse_class_atom_def emit_char_atom_def emit_prev_def CLASS_RANGE_BASE_def reading_def)
  then have "re_parse_term dj False s = POk (?s\<lparr>ps_buf_ptr := Suc j\<rparr>)"
    using rd ns assms(1,3) no_quantifier [OF r assms(2), of "Suc j"] by (simp add: re_parse_term_def reading_def)
  then show thesis using that [of "?s\<lparr>ps_buf_ptr := Suc j\<rparr>"] r d(3)
    by (simp add: reading_def good_def bc_contents_def)
qed

lemma text_body_drop: "j < length w \<Longrightarrow> text_body (drop j w) = [opc REOP_char, w ! j, 0] @ text_body (drop (Suc j) w)"
  by (simp add: text_body_def drop_eq_Cons_nth)

lemma alternative_run:
  assumes "\<forall>b \<in> set w. plain b"
  shows "reading w j s \<Longrightarrow> j \<le> length w \<Longrightarrow> length w - j < n \<Longrightarrow> length (bc_contents s) + 3 * (length w - j) < 2 ^ 32 \<Longrightarrow>
    \<exists>s'. re_parse_alternative n (re_parse_term dj False) False start s = POk s' \<and> reading w (length w) s' \<and>
      bc_contents s' = bc_contents s @ text_body (drop j w)"
proof (induction n arbitrary: j s)
  case (Suc n)
  show ?case
  proof (cases "j = length w")
    case True
    then show ?thesis using Suc.prems(1) by (simp add: reading_def text_body_def)
  next
    case False
    then have j: "j < length w" using Suc.prems(2) by simp
    have room: "length (bc_contents s) + 3 < 2 ^ 32" using Suc.prems(4) j by linarith
    obtain s1 where s1: "re_parse_term dj False s = POk s1" "reading w (Suc j) s1" "bc_contents s1 = bc_contents s @ [opc REOP_char, w ! j, 0]"
      using plain_term_step [OF Suc.prems(1) assms j room] by blast
    have less: "length w - Suc j < n" using Suc.prems(3) j by linarith
    have "length (bc_contents s1) + 3 * (length w - Suc j) < 2 ^ 32" using Suc.prems(4) j s1(3) by simp
    then obtain s' where s': "re_parse_alternative n (re_parse_term dj False) False start s1 = POk s'" "reading w (length w) s'"
      "bc_contents s' = bc_contents s1 @ text_body (drop (Suc j) w)"
      using Suc.IH [OF s1(2)] j less by auto
    have "plain (w ! j)" using assms j by simp
    then show ?thesis using s1 s' j Suc.prems(1) plain_not_special [of "w ! j"] text_body_drop [OF j]
      by (simp add: reading_def rd_def nth_append)
  qed
qed simp

lemma disjunction_run:
  assumes "\<forall>b \<in> set w. plain b" "reading w 0 s" "length w < n" "length (bc_contents s) + 3 * length w < 2 ^ 32"
  shows "\<exists>s'. re_parse_disjunction n 0 False s = POk s' \<and> reading w (length w) s' \<and> bc_contents s' = bc_contents s @ text_body w"
proof -
  obtain k where n: "n = Suc k" using assms(3) by (cases n) auto
  obtain s1 where s1: "re_parse_alternative n (re_parse_term (re_parse_disjunction k 1) False) False (bc_size s) s = POk s1"
    "reading w (length w) s1" "bc_contents s1 = bc_contents s @ text_body w"
    using alternative_run [OF assms(1,2), of n "re_parse_disjunction k 1" "bc_size s"] assms(3,4) by auto
  have "rd (ps_buf s1) (ps_buf_ptr s1) = Some 0" using s1(2) by (simp add: reading_def rd_def nth_append)
  then have "disjunction_loop n alt start s1 = POk s1" for alt start by (simp add: n)
  then show ?thesis using s1 assms(2) unfolding n by (simp add: reading_def Let_def)
qed

section \<open>The header\<close>

definition raw_code :: "byte \<Rightarrow> byte list \<Rightarrow> byte list" where
  "raw_code flags w = raw_prologue flags @ text_body w @ [12, 0, 10]"

lemma length_raw_code [simp]: "length (raw_code flags w) = 23 + 3 * length w"
  by (simp add: raw_code_def raw_prologue_def)

lemma raw_code_fetch: "7 \<le> p \<Longrightarrow> p < 23 + 3 * length w \<Longrightarrow> op_at (raw_code flags w @ rest) p = op_at (text_code flags w) p"
proof -
  assume p: "7 \<le> p" "p < 23 + 3 * length w"
  have "drop 7 (raw_code flags w) = drop 7 (text_code flags w)" by (simp add: raw_code_def raw_prologue_def text_code_def)
  then have "drop 7 (raw_code flags w) ! (p - 7) = drop 7 (text_code flags w) ! (p - 7)" by simp
  then show ?thesis using p by (simp add: op_at_def rd_def nth_append)
qed

lemma stack_size_pass:
  assumes "op_at mem p = Some r" "r \<in> {REOP_split_goto_first, REOP_any, REOP_goto, REOP_save_start, REOP_char, REOP_save_end, REOP_match}"
    "p + reopcode_size r \<le> e" "q = p + reopcode_size r"
  shows "stack_size_loop mem p e k m = stack_size_loop mem q e k m"
proof -
  have "op_len mem p r = Some (reopcode_size r)" "0 < reopcode_size r" using assms(2) by (auto simp: op_len_def)
  then show ?thesis using assms by (subst stack_size_loop.simps) auto
qed

lemma stack_size_chars:
  assumes "e = 23 + 3 * length w"
  shows "j \<le> length w \<Longrightarrow> stack_size_loop (raw_code flags w @ rest) (20 + 3 * j) e 0 0 =
    stack_size_loop (raw_code flags w @ rest) (20 + 3 * length w) e 0 0"
proof (induction "length w - j" arbitrary: j)
  case (Suc n)
  then have j: "j < length w" "n = length w - Suc j" by auto
  have "op_at (raw_code flags w @ rest) (20 + 3 * j) = Some REOP_char" using j(1) fetch_char(1) [OF j(1)] by (simp add: raw_code_fetch)
  then have "stack_size_loop (raw_code flags w @ rest) (20 + 3 * j) e 0 0 = stack_size_loop (raw_code flags w @ rest) (20 + 3 * Suc j) e 0 0"
    by (rule stack_size_pass) (use j(1) assms in simp_all)
  then show ?case using Suc.hyps(1) [OF j(2)] j(1) by simp
qed simp

lemma stack_size_text: "compute_stack_size (raw_code flags w @ rest) (23 + 3 * length w) = Some (Some 0)"
proof -
  let ?mem = "raw_code flags w @ rest" and ?e = "23 + 3 * length w"
  have at: "op_at ?mem 7 = Some REOP_split_goto_first" "op_at ?mem 12 = Some REOP_any" "op_at ?mem 13 = Some REOP_goto"
    "op_at ?mem 18 = Some REOP_save_start" "op_at ?mem (20 + 3 * length w) = Some REOP_save_end"
    "op_at ?mem (22 + 3 * length w) = Some REOP_match"
    using fetch_prologue [of flags w] fetch_end [of flags w] by (simp_all add: raw_code_fetch)
  have "stack_size_loop ?mem 7 ?e 0 0 = stack_size_loop ?mem 12 ?e 0 0" by (rule stack_size_pass [OF at(1)]) simp_all
  also have "\<dots> = stack_size_loop ?mem 13 ?e 0 0" by (rule stack_size_pass [OF at(2)]) simp_all
  also have "\<dots> = stack_size_loop ?mem 18 ?e 0 0" by (rule stack_size_pass [OF at(3)]) simp_all
  also have "\<dots> = stack_size_loop ?mem (20 + 3 * 0) ?e 0 0" by (rule stack_size_pass [OF at(4)]) simp_all
  also have "\<dots> = stack_size_loop ?mem (20 + 3 * length w) ?e 0 0" by (rule stack_size_chars) simp_all
  also have "\<dots> = stack_size_loop ?mem (22 + 3 * length w) ?e 0 0" by (rule stack_size_pass [OF at(5)]) simp_all
  also have "\<dots> = stack_size_loop ?mem ?e ?e 0 0" by (rule stack_size_pass [OF at(6)]) simp_all
  also have "\<dots> = Some (Some 0)" by (subst stack_size_loop.simps) simp
  finally show ?thesis by (simp add: compute_stack_size_def RE_HEADER_LEN_def)
qed

lemma raw_header:
  obtains tl where "raw_code flags w = [flags, 0, 0, 0, 0, 0, 0] @ tl" "length tl = 16 + 3 * length w"
    "text_code flags w = [flags, 1, 0] @ le_bytes 4 (16 + 3 * length w) @ tl"
  using that [of "drop 7 (text_code flags w)"] by (simp add: raw_code_def raw_prologue_def text_code_def)

lemma finish_text:
  assumes "good s" "bc_contents s = raw_code flags w" "ps_capture_count s = 1" "dbuf_size (ps_group_names s) = 0"
    "23 + 3 * length w < 2 ^ 32"
  shows "finish_code s = POk (text_code flags w)"
proof -
  have sz: "bc_size s = 23 + 3 * length w" using bc_size_contents [OF assms(1)] assms(2) by simp
  then obtain rest where mem: "bc_mem s = raw_code flags w @ rest"
    using assms(2) unfolding bc_contents_def dbuf_contents_def bc_size_def by (metis append_take_drop_id)
  have "unat (of_nat k :: u32) = k" if "k < 2 ^ 32" for k using that by (simp add: unsigned_of_nat take_bit_nat_eq_self)
  then have u: "unat (of_nat (16 + 3 * length w) :: u32) = 16 + 3 * length w"
    by this (use assms(5) in simp)
  obtain tl where tl: "raw_code flags w = [flags, 0, 0, 0, 0, 0, 0] @ tl" "length tl = 16 + 3 * length w"
    "text_code flags w = [flags, 1, 0] @ le_bytes 4 (16 + 3 * length w) @ tl" by (rule raw_header)
  have sz': "dbuf_size (ps_byte_code s) = 23 + 3 * length w" "bc_size s - 7 = 16 + 3 * length w" using sz by (simp_all add: bc_size_def)
  have stack: "compute_stack_size (bc_mem s) (bc_size s) = Some (Some 0)" using stack_size_text [of flags w rest] mem sz by simp
  have put1: "bc_put RE_HEADER_CAPTURE_COUNT (of_nat (ps_capture_count s)) s = POk (bc_set_mem s ([flags, 1, 0, 0, 0, 0, 0] @ tl @ rest))"
    by (simp add: bc_put_def RE_HEADER_CAPTURE_COUNT_def wr_def mem tl(1) assms(3))
  have put2: "bc_put RE_HEADER_STACK_SIZE (of_nat 0) (bc_set_mem s ([flags, 1, 0, 0, 0, 0, 0] @ tl @ rest)) =
      POk (bc_set_mem s ([flags, 1, 0, 0, 0, 0, 0] @ tl @ rest))"
    by (simp add: bc_put_def RE_HEADER_STACK_SIZE_def wr_def bc_set_mem_def)
  have put3: "bc_put_u32 3 (of_nat (16 + 3 * length w)) (bc_set_mem s ([flags, 1, 0, 0, 0, 0, 0] @ tl @ rest)) =
      POk (bc_set_mem s (text_code flags w @ rest))"
    using u by (simp add: bc_put_u32_def put_u32_def store_def bc_set_mem_def tl(3))
  have bsz: "bc_size (bc_set_mem s x) = bc_size s" for x by (simp add: bc_size_def bc_set_mem_def)
  have grp: "ps_group_names (bc_set_mem s x) = ps_group_names s" for x by (simp add: bc_set_mem_def)
  show ?thesis using assms(4)
    by (simp add: finish_code_def stack put1 put2 [simplified] bsz RE_HEADER_LEN_def sz'(2) put3 [simplified] grp)
      (simp add: bc_set_mem_def sz)
qed

lemma good_init:
  "total_realloc realloc \<Longrightarrow> good (parse_init realloc points_fun unicode overflow buf n flags)"
  by (auto simp: good_def parse_init_def dbuf_init2_def dbuf_ok_def total_realloc_def)

lemma compile_text:
  assumes w: "\<forall>b \<in> set w. plain b" and mem: "total_realloc realloc" and stack: "\<not> overflow 0"
    and flags: "\<not> bit flags 1" "\<not> bit flags 4" "\<not> bit flags 5" and small: "23 + 3 * length w < 2 ^ 32" and fuel: "length w < fuel"
  shows "lre_compile fuel realloc points_fun unicode overflow (w @ [0]) (length w) flags = POk (text_code flags w)"
proof -
  let ?s0 = "parse_init realloc points_fun unicode overflow (w @ [0]) (length w) flags"
  have c0: "bc_contents ?s0 = []" by (simp add: parse_init_def bc_contents_def dbuf_init2_def dbuf_contents_def)
  have g0: "good ?s0" by (rule good_init [OF mem])
  have len0: "length (bc_contents ?s0) + length (raw_prologue flags) < 2 ^ 32" by (simp add: c0 raw_prologue_def)
  obtain d where d: "emit_prologue flags ?s0 = Some (?s0\<lparr>ps_byte_code := d\<rparr>)" "good (?s0\<lparr>ps_byte_code := d\<rparr>)"
    "dbuf_contents d = bc_contents ?s0 @ raw_prologue flags"
    by (rule addsD [OF adds_prologue [OF flags(3)] g0 len0])
  let ?s1 = "?s0\<lparr>ps_byte_code := d\<rparr>"
  have r: "reading w 0 ?s1" using d(2) flags stack by (simp add: reading_def parse_init_def dbuf_init2_def)
  have c1: "bc_contents ?s1 = raw_prologue flags" using d(3) c0 by (simp add: bc_contents_def)
  have "length (bc_contents ?s1) + 3 * length w < 2 ^ 32" using small by (simp add: c1 raw_prologue_def)
  then obtain s2 where s2: "re_parse_disjunction fuel 0 False ?s1 = POk s2" "reading w (length w) s2" "bc_contents s2 = raw_prologue flags @ text_body w"
    using disjunction_run [OF w r fuel] c1 by auto
  have g: "good s2" using s2(2) by (simp add: reading_def)
  have ad: "adds (\<lambda>s. Option.bind (re_emit_op_u8 REOP_save_end 0 s) (re_emit_op REOP_match)) [12, 0, 10]"
    using adds_bind [OF adds_op_u8 [of REOP_save_end 0] adds_op [of REOP_match]] by (simp add: opc_values)
  have len: "length (bc_contents s2) + length [12, 0, 10 :: byte] < 2 ^ 32" using small s2(3) by (simp add: raw_prologue_def)
  obtain d' where d': "Option.bind (re_emit_op_u8 REOP_save_end 0 s2) (re_emit_op REOP_match) = Some (s2\<lparr>ps_byte_code := d'\<rparr>)"
    "good (s2\<lparr>ps_byte_code := d'\<rparr>)" "dbuf_contents d' = bc_contents s2 @ [12, 0, 10]"
    by (rule addsD [OF ad g len])
  then obtain s3 where s3: "re_emit_op_u8 REOP_save_end 0 s2 = Some s3" "re_emit_op REOP_match s3 = Some (s2\<lparr>ps_byte_code := d'\<rparr>)"
    by (cases "re_emit_op_u8 REOP_save_end 0 s2") auto
  have "finish_code (s2\<lparr>ps_byte_code := d'\<rparr>) = POk (text_code flags w)"
    by (rule finish_text) (use d' s2(2,3) small in \<open>simp_all add: reading_def bc_contents_def raw_code_def\<close>)
  moreover have "\<not> dbuf_error d'" using d'(2) by (simp add: good_def)
  ultimately show ?thesis using d(1) s2(1,2) s3
    by (simp add: lre_compile_def check_error_def reading_def rd_def nth_append)
qed

text \<open>
  C34. Searching for plain text.  For a pattern of ordinary characters, without the flags for ignoring case, UTF-16 and
  sticky matching, with an allocator that does not fail and a stack that is large enough, \<^verbatim>\<open>lre_compile\<close> with
  more fuel than the pattern is long returns byte code, and \<^verbatim>\<open>lre_exec\<close> on it and any 8-bit or 16-bit subject returns: a match whose
  first capture is the first occurrence of the text, or no match when there is none.
\<close>

theorem literal_search:
  assumes "\<forall>b \<in> set w. plain b" "total_realloc realloc" "\<not> overflow 0" "\<not> bit flags 1" "\<not> bit flags 4" "\<not> bit flags 5"
    "23 + 3 * length w < 2 ^ 32" "length w < fuel" "ctype \<le> 1"
  shows "\<exists>code N. lre_compile fuel realloc points_fun unicode overflow (w @ [0]) (length w) flags = POk code \<and>
    (\<forall>k \<ge> N. lre_exec k code t 0 ctype (\<lambda>_. True) =
      (case first_occurrence w t of
         Some i \<Rightarrow> Done (Ret_match, [Some i, Some (i + length w)])
       | None \<Rightarrow> Done (Ret_no_match, [None, None])))"
proof -
  obtain N where "\<forall>k \<ge> N. lre_exec k (text_code flags w) t 0 ctype (\<lambda>_. True) =
      (case first_occurrence w t of Some i \<Rightarrow> Done (Ret_match, [Some i, Some (i + length w)]) | None \<Rightarrow> Done (Ret_no_match, [None, None]))"
    using text_code_exec [OF assms(4,5,9), of w t] by blast
  then show ?thesis using compile_text [OF assms(1,2), of overflow] assms(3-8) by blast
qed

definition libc_realloc_of :: realloc_func where
  "libc_realloc_of p n = Some (take n p @ replicate (n - length p) 0)"

lemma total_realloc_libc: "total_realloc libc_realloc_of"
  by (auto simp: total_realloc_def realloc_law_def libc_realloc_of_def min_def)

theorem literal_search_witness:
  "\<exists>code N. lre_compile 3 libc_realloc_of (\<lambda>_ _. None)
       \<lparr>us_script = \<lambda>_ _ _. None, us_general_category = \<lambda>_ _. None, us_prop = \<lambda>_ _. None\<rparr> (\<lambda>d. 1000 < d)
       (str ''ab'' @ [0]) 2 0 = POk code \<and> lre_exec N code [97, 97, 98] 0 0 (\<lambda>_. True) = Done (Ret_match, [Some 1, Some 3])"
proof -
  have plain: "\<forall>b \<in> set (str ''ab''). plain b" by (simp add: str_def plain_def)
  have occ: "first_occurrence (str ''ab'') [97, 97, 98] = Some 1"
    by (simp add: first_occurrence_def occurs_at_def str_def upt_rec)
  have len: "length (str ''ab'') = 2" by (simp add: str_def)
  show ?thesis
    using literal_search [OF plain total_realloc_libc, of "\<lambda>d. 1000 < d" 0 3 0 "\<lambda>_ _. None"
        "\<lparr>us_script = \<lambda>_ _ _. None, us_general_category = \<lambda>_ _. None, us_prop = \<lambda>_ _. None\<rparr>" "[97, 97, 98]",
        unfolded len occ option.case]
    by (auto simp: numeral_3_eq_3)
qed

end
