(* ===== verification/Lre_Total.thy ===== *)
theory Lre_Total
  imports Lre_Compile
begin

text \<open>
  The compiler always returns: with more fuel than the pattern is long the result is byte code, an
  error or undefined behaviour, never the end of the fuel.  Every term moves the pattern pointer
  forward, so the loops over terms and alternatives and the nesting of groups are bounded by the
  bytes that are left.
\<close>

section \<open>Results of the steps\<close>

lemma pbind_PTimeout: "pbind x f = PTimeout \<longleftrightarrow> x = PTimeout \<or> (\<exists>a. x = POk a \<and> f a = PTimeout)"
  by (cases x) auto

lemma ub_no_timeout [simp]: "ub x \<noteq> PTimeout"
  by (cases x) auto

named_theorems pcase

lemmas [pcase] = pbind_PTimeout pbind_POk ub_POk

text \<open>A step that leaves the pattern and the pointer alone.\<close>

definition same :: "REParseState \<Rightarrow> REParseState \<Rightarrow> bool" where
  "same s s' \<longleftrightarrow> ps_buf s' = ps_buf s \<and> ps_buf_ptr s' = ps_buf_ptr s"

lemma same_refl [simp]: "same s s"
  by (simp add: same_def)

lemma same_trans: "same s s1 \<Longrightarrow> same s1 s2 \<Longrightarrow> same s s2"
  by (simp add: same_def)

lemma same_upd [simp]: "same s (s1\<lparr>ps_byte_code := d\<rparr>) = same s s1" "same s (s1\<lparr>ps_capture_count := k\<rparr>) = same s s1"
  by (simp_all add: same_def)

named_theorems steps

lemma emit_bytes_same [steps]: "emit_bytes f s = Some s' \<Longrightarrow> same s s'"
  by (auto simp: emit_bytes_def split: bind_splits)

lemma re_emit_op_same [steps]: "re_emit_op r s = Some s' \<Longrightarrow> same s s'"
  by (simp add: re_emit_op_def emit_bytes_same)

lemma re_emit_op_u32_same [steps]: "re_emit_op_u32 r v s = Some (p, s') \<Longrightarrow> same s s'"
  by (auto simp: re_emit_op_u32_def Let_def bind_eq_Some_conv same_def dest!: steps)

lemma re_emit_goto_same [steps]: "re_emit_goto r v s = Some s' \<Longrightarrow> same s s'"
  by (auto simp: re_emit_goto_def Let_def bind_eq_Some_conv same_def dest!: steps)

lemma re_emit_op_u8_same [steps]: "re_emit_op_u8 r v s = Some s' \<Longrightarrow> same s s'"
  by (auto simp: re_emit_op_u8_def bind_eq_Some_conv same_def dest!: steps)

lemma re_emit_op_u16_same [steps]: "re_emit_op_u16 r v s = Some s' \<Longrightarrow> same s s'"
  by (auto simp: re_emit_op_u16_def bind_eq_Some_conv same_def dest!: steps)

lemma emit_ranges16_same [steps]: "emit_ranges16 pts i n s = Some s' \<Longrightarrow> same s s'"
  by (induction n arbitrary: i s) (fastforce simp: Let_def bind_eq_Some_conv same_def dest!: emit_bytes_same)+

lemma emit_ranges32_same [steps]: "emit_ranges32 pts i n s = Some s' \<Longrightarrow> same s s'"
  by (induction n arbitrary: i s) (fastforce simp: bind_eq_Some_conv same_def dest!: emit_bytes_same)+

lemma re_emit_range_same [steps]: "re_emit_range cr s = POk s' \<Longrightarrow> same s s'"
  by (auto simp: re_emit_range_def Let_def ub_POk bind_eq_Some_conv same_def split: if_splits dest!: steps)

lemma re_emit_range_returns [simp]: "re_emit_range cr s \<noteq> PTimeout"
  by (simp add: re_emit_range_def Let_def)

lemma emit_prev_same [steps]: "emit_prev b s = Some s' \<Longrightarrow> same s s'"
  by (auto simp: emit_prev_def split: if_splits dest!: steps)

lemma bc_edit_same [steps]: "bc_insert p n s = POk s' \<Longrightarrow> same s s'" "bc_put p b s = POk s' \<Longrightarrow> same s s'" "bc_put_u32 p v s = POk s' \<Longrightarrow> same s s'"
  by (auto simp: bc_insert_def bc_put_def bc_put_u32_def bc_set_mem_def pcase split: if_splits)

lemma bc_edit_returns [simp]: "bc_insert p n s \<noteq> PTimeout" "bc_put p b s \<noteq> PTimeout" "bc_put_u32 p v s \<noteq> PTimeout" "check_error s \<noteq> PTimeout"
  by (auto simp: bc_insert_def bc_put_def bc_put_u32_def check_error_def pcase)

lemma count_captures_same [steps]: "re_count_captures s = Some (n, s') \<Longrightarrow> same s s'" "re_has_named_captures s = Some (b, s') \<Longrightarrow> same s s'"
proof -
  show *: "re_count_captures s = Some (n, s') \<Longrightarrow> same s s'" for n s'
    by (auto simp: re_count_captures_def same_def bind_eq_Some_conv split: if_splits)
  show "re_has_named_captures s = Some (b, s') \<Longrightarrow> same s s'"
    by (auto simp: re_has_named_captures_def bind_eq_Some_conv split: if_splits dest!: *)
qed

section \<open>The pointer moves\<close>

lemma parse_digits_loop_ge: "parse_digits_loop buf p v a = Some (Some (n, q)) \<Longrightarrow> p \<le> q"
proof (induction buf p v a rule: parse_digits_loop.induct)
  case (1 buf p v a)
  from "1.prems" show ?case
    by (subst (asm) parse_digits_loop.simps) (force simp: Let_def bind_eq_Some_conv dest: "1.IH" split: if_splits)
qed

lemma parse_digits_ge [steps]: "parse_digits buf p a = Some (n, q) \<Longrightarrow> p \<le> q"
  by (auto simp: parse_digits_def split: option.splits dest: parse_digits_loop_ge)

lemma re_parse_expect_ge [steps]: "re_parse_expect buf p c = POk q \<Longrightarrow> q = Suc p"
  by (auto simp: re_parse_expect_def pcase split: if_splits)

lemma re_parse_expect_returns [simp]: "re_parse_expect buf p c \<noteq> PTimeout"
  by (simp add: re_parse_expect_def pcase)

lemma group_name_gt [steps]: "re_parse_group_name buf p u = Some (Some (n, q)) \<Longrightarrow> p < q"
  by (auto simp: re_parse_group_name_def dest: group_name_loop_gt)

lemma octal_digits_ge [steps]: "octal_digits buf p n c = Some (v, q) \<Longrightarrow> p \<le> q"
  by (induction buf p n c rule: octal_digits.induct) (force simp: bind_eq_Some_conv split: if_splits)+

lemma legacy_octal_ge [steps]: "legacy_octal buf p = Some (v, q) \<Longrightarrow> p \<le> q"
  by (force simp: legacy_octal_def bind_eq_Some_conv split: if_splits dest!: octal_digits_ge)

section \<open>Character classes\<close>

lemma atom_returns [simp]: "normal_char s c p \<noteq> PTimeout" "parse_unicode_property s p i \<noteq> PTimeout"
  by (auto simp: normal_char_def parse_unicode_property_def unicode_lookup_def pcase split: option.splits if_splits)

lemma escape_atom_returns [simp]: "escape_atom s c p i \<noteq> PTimeout"
  by (cases "class_shorthand c") (auto simp: escape_atom_def pcase split: escape.splits)

lemma get_class_atom_returns [simp]: "get_class_atom s p i \<noteq> PTimeout"
  by (auto simp: get_class_atom_def pcase)

lemma cr_try_returns [simp]: "cr_try r \<noteq> PTimeout"
  by (auto simp: cr_try_def split: option.splits)

lemma class_member_returns [simp]: "class_member s cr p \<noteq> PTimeout"
  by (auto simp: class_member_def class_atom_def Let_def pcase split: option.splits if_splits)

lemma class_loop_result: "class_loop s cr p \<noteq> PTimeout \<and> (class_loop s cr p = POk (cr', q) \<longrightarrow> p \<le> q)"
proof (induction "length (ps_buf s) - p" arbitrary: cr p rule: less_induct)
  case less
  show ?case
  proof (cases "class_member s cr p")
    case (POk x)
    then obtain cr1 p1 where x: "class_member s cr p = POk (cr1, p1)" by (cases x) auto
    then have "p < p1" "length (ps_buf s) - p1 < length (ps_buf s) - p" using class_member_pos [OF x] by auto
    then show ?thesis using less.hyps [of p1 cr1] x by (subst (1 2) class_loop.simps) (auto simp: pcase)
  qed (use class_loop.simps [of s cr p] in \<open>auto simp: pcase\<close>)
qed

lemmas class_loop_returns [simp] = class_loop_result [THEN conjunct1]

lemma class_loop_ge: "class_loop s cr p = POk (cr', q) \<Longrightarrow> p \<le> q"
  using class_loop_result by blast

lemma char_class_returns [simp]: "re_parse_char_class p s \<noteq> PTimeout"
  by (auto simp: re_parse_char_class_def Let_def pcase)

lemma char_class_step [steps]: "re_parse_char_class p s = POk (q, s') \<Longrightarrow> p < q \<and> same s s'"
  by (auto simp: re_parse_char_class_def Let_def pcase split: if_splits dest!: class_loop_ge steps)

section \<open>Quantifiers\<close>

lemma quantifier_returns [simp]: "braces_quantifier s p \<noteq> PTimeout" "parse_quantifier s p \<noteq> PTimeout"
  by (auto simp: braces_quantifier_def parse_quantifier_def pcase split: if_splits)

lemma braces_quantifier_gt: "braces_quantifier s p = POk (Some (a, b, q)) \<Longrightarrow> p < q"
  by (force simp: braces_quantifier_def pcase split: if_splits dest!: steps)

lemma parse_quantifier_gt [steps]: "parse_quantifier s p = POk (Some (a, b, q)) \<Longrightarrow> p < q"
  by (auto simp: parse_quantifier_def pcase split: if_splits dest: braces_quantifier_gt)

lemma emit_simple_quantifier_returns [simp]: "emit_simple_quantifier start a b n s \<noteq> PTimeout"
  by (simp add: emit_simple_quantifier_def pcase)

lemma emit_simple_quantifier_same [steps]: "emit_simple_quantifier start a b n s = POk s' \<Longrightarrow> same s s'"
  by (auto simp: emit_simple_quantifier_def pcase same_def dest!: steps)

lemma emit_quant_min0_returns [simp]: "emit_quant_min0 start lc b g z s \<noteq> PTimeout"
  by (auto simp: emit_quant_min0_def Let_def pcase)

lemma emit_quant_min0_same [steps]: "emit_quant_min0 start lc b g z s = POk s' \<Longrightarrow> same s s'"
  by (auto simp: emit_quant_min0_def Let_def pcase same_def split: if_splits dest!: steps)

lemma emit_quant_tail_same [steps]: "emit_quant_tail start len a b g z s = Some s' \<Longrightarrow> same s s'"
  by (auto simp: emit_quant_tail_def Let_def bind_eq_Some_conv same_def split: if_splits dest!: steps)

lemma emit_quant_min1_returns [simp]: "emit_quant_min1 start a b g z s \<noteq> PTimeout"
  by (auto simp: emit_quant_min1_def Let_def pcase)

lemma emit_quant_min1_same [steps]: "emit_quant_min1 start a b g z s = POk s' \<Longrightarrow> same s s'"
  by (auto simp: emit_quant_min1_def Let_def pcase same_def split: if_splits dest!: steps)

lemma re_quantifier_returns [simp]: "re_quantifier p a k s \<noteq> PTimeout"
  by (cases a) (auto simp: re_quantifier_def Let_def pcase split: option.splits)

lemma re_quantifier_step [steps]:
  assumes "re_quantifier p a k s = POk s'" shows "ps_buf s' = ps_buf s \<and> p \<le> ps_buf_ptr s'"
proof (cases a)
  case None
  then show ?thesis using assms by (auto simp: re_quantifier_def)
next
  case (Some start)
  then obtain q where q: "parse_quantifier s p = POk q" using assms by (auto simp: re_quantifier_def pbind_POk)
  show ?thesis
  proof (cases q)
    case None
    then show ?thesis using assms Some q by (auto simp: re_quantifier_def)
  next
    case (Some r)
    then obtain qmin qmax p1 where r: "q = Some (qmin, qmax, p1)" by (cases r) auto
    then have "p < p1" using q parse_quantifier_gt by blast
    moreover obtain b where b: "rd (ps_buf s) p1 = Some b" using assms \<open>a = Some start\<close> q r by (auto simp: re_quantifier_def pcase)
    ultimately show ?thesis using assms \<open>a = Some start\<close> q r
      by (cases "b = ch CHR ''?''") (auto simp: re_quantifier_def pcase same_def split: if_splits dest!: steps)
  qed
qed

section \<open>Atoms\<close>

lemma emit_char_atom_returns [simp]: "emit_char_atom c cr p b s \<noteq> PTimeout"
  by (auto simp: emit_char_atom_def pcase split: option.splits)

lemma emit_char_atom_step [steps]: "emit_char_atom c cr p b s = POk (q, a, k, s') \<Longrightarrow> q = p \<and> same s s'"
  by (auto simp: emit_char_atom_def pcase same_def split: option.splits if_splits dest!: steps)

lemma parse_class_atom_returns [simp]: "parse_class_atom p b s \<noteq> PTimeout"
  by (auto simp: parse_class_atom_def pcase)

lemma parse_class_atom_step [steps]: "parse_class_atom p b s = POk (q, a, k, s') \<Longrightarrow> p < q \<and> same s s'"
  by (auto simp: parse_class_atom_def pcase dest!: steps get_class_atom_pos)

lemma back_reference_returns [simp]: "emit_back_reference c p b s \<noteq> PTimeout" "named_ref_error msg p b s \<noteq> PTimeout" "named_reference p b s \<noteq> PTimeout"
  by (auto simp: emit_back_reference_def named_ref_error_def named_reference_def pcase split: option.splits)

lemma emit_back_reference_step [steps]: "emit_back_reference c p b s = POk (q, a, k, s') \<Longrightarrow> q = p \<and> same s s'"
  by (auto simp: emit_back_reference_def pcase dest!: steps)

lemma named_ref_error_step [steps]: "named_ref_error msg p b s = POk (q, a, k, s') \<Longrightarrow> p < q \<and> same s s'"
  by (auto simp: named_ref_error_def pcase same_def split: if_splits dest!: steps)

lemma named_reference_step [steps]: "named_reference p b s = POk (q, a, k, s') \<Longrightarrow> p < q \<and> same s s'"
  by (auto simp: named_reference_def pcase split: option.splits if_splits dest!: steps)

lemma escape_returns [simp]: "zero_escape p b s \<noteq> PTimeout" "decimal_escape p b s \<noteq> PTimeout" "escape_term p b s \<noteq> PTimeout"
  by (auto simp: zero_escape_def decimal_escape_def escape_term_def pcase)

lemma zero_escape_step [steps]: "zero_escape p b s = POk (q, a, k, s') \<Longrightarrow> p < q \<and> same s s'"
  by (auto simp: zero_escape_def pcase split: if_splits dest!: steps)

lemma decimal_escape_step [steps]: "decimal_escape p b s = POk (q, a, k, s') \<Longrightarrow> p < q \<and> same s s'"
  by (auto simp: decimal_escape_def pcase same_def split: if_splits dest!: steps)

lemma escape_term_step [steps]: "escape_term p b s = POk (q, a, k, s') \<Longrightarrow> p < q \<and> same s s'"
  by (auto simp: escape_term_def pcase split: if_splits dest!: steps)

lemma simple_term_returns [simp]: "brace_term p b s \<noteq> PTimeout" "simple_term c p b s \<noteq> PTimeout"
  by (auto simp: brace_term_def simple_term_def pcase)

lemma brace_term_step [steps]: "brace_term p b s = POk (q, a, k, s') \<Longrightarrow> p < q \<and> same s s'"
  by (auto simp: brace_term_def pcase split: if_splits dest!: steps)

lemma simple_term_step [steps]: "simple_term c p b s = POk (q, a, k, s') \<Longrightarrow> p < q \<and> same s s'"
  by (auto simp: simple_term_def pcase bind_eq_Some_conv same_def split: if_splits dest!: steps)

section \<open>The recursion\<close>

text \<open>The bytes of the pattern that are left.\<close>

definition left :: "REParseState \<Rightarrow> nat" where "left s = length (ps_buf s) - ps_buf_ptr s"

lemma reverse_terms_returns [simp]: "reverse_terms start ts s \<noteq> PTimeout"
  by (auto simp: reverse_terms_def Let_def pcase)

lemma reverse_terms_same [steps]: "reverse_terms start ts s = POk s' \<Longrightarrow> same s s'"
  by (auto simp: reverse_terms_def Let_def pcase split: if_splits)

fun group_pos :: "group_open \<Rightarrow> nat" where
  "group_pos (Group_plain p) = p"
| "group_pos (Group_look neg backward p) = p"
| "group_pos (Group_capture p) = p"

lemma group_kind_returns [simp]: "group_kind p s \<noteq> PTimeout"
  by (auto simp: group_kind_def pcase split: option.splits)

lemma group_kind_step: "group_kind p s = POk (g, s') \<Longrightarrow> same s s' \<and> p < group_pos g"
  by (auto simp: group_kind_def pcase same_def split: if_splits option.splits dest!: steps)

lemma open_capture_returns [simp]: "open_capture p b s \<noteq> PTimeout"
  by (simp add: open_capture_def pcase)

lemma open_capture_step: "open_capture p b s = POk s' \<Longrightarrow> ps_buf s' = ps_buf s \<and> ps_buf_ptr s' = p"
  by (auto simp: open_capture_def pcase same_def split: if_splits dest!: steps)

text \<open>
  What the term parser needs of the disjunction parser it calls: it only moves forward, and it
  returns when fewer than \<open>n\<close> bytes are left.
\<close>

locale pattern_parser =
  fixes parse :: "bool \<Rightarrow> REParseState \<Rightarrow> REParseState presult" and n :: nat
  assumes forward: "parse b s = POk s' \<Longrightarrow> ps_buf s' = ps_buf s \<and> ps_buf_ptr s \<le> ps_buf_ptr s'"
    and ends: "left s < n \<Longrightarrow> parse b s \<noteq> PTimeout"
begin

lemma group_step:
  assumes "re_parse_group parse b s = POk (q, a, k, s')" shows "ps_buf s' = ps_buf s \<and> ps_buf_ptr s < q"
proof -
  obtain g s1 where g: "group_kind (ps_buf_ptr s) s = POk (g, s1)" using assms by (auto simp: re_parse_group_def pbind_POk)
  note k = group_kind_step [OF g]
  show ?thesis
  proof (cases g)
    case (Group_plain p)
    then show ?thesis using assms g k by (auto simp: re_parse_group_def pcase same_def dest!: forward steps)
  next
    case (Group_look neg backward p)
    then show ?thesis using assms g k by (auto simp: re_parse_group_def pcase same_def split: if_splits dest!: forward steps)
  next
    case (Group_capture p)
    then show ?thesis using assms g k by (auto simp: re_parse_group_def pcase same_def dest!: forward open_capture_step steps)
  qed
qed

lemma ends_after: "left s \<le> n \<Longrightarrow> ps_buf_ptr s < length (ps_buf s) \<Longrightarrow> ps_buf s' = ps_buf s \<Longrightarrow> ps_buf_ptr s < ps_buf_ptr s' \<Longrightarrow>
    parse b s' \<noteq> PTimeout"
  by (rule ends) (simp add: left_def)

lemma group_returns:
  assumes "left s \<le> n" "ps_buf_ptr s < length (ps_buf s)"
  shows "re_parse_group parse b s \<noteq> PTimeout"
proof (cases "group_kind (ps_buf_ptr s) s")
  case (POk x)
  then obtain g s1 where g: "group_kind (ps_buf_ptr s) s = POk (g, s1)" by (cases x) auto
  note k = group_kind_step [OF g]
  have p: "parse b' s2 \<noteq> PTimeout" if "ps_buf s2 = ps_buf s1" "ps_buf_ptr s2 = group_pos g" for b' s2
    using ends_after [OF assms, of s2] that k by (simp add: same_def)
  show ?thesis
  proof (cases g)
    case (Group_plain p)
    then show ?thesis using g p [of "s1\<lparr>ps_buf_ptr := p\<rparr>"] by (auto simp: re_parse_group_def pcase)
  next
    case (Group_look neg backward q)
    have "parse b' (s2\<lparr>ps_buf_ptr := q\<rparr>) \<noteq> PTimeout" if "re_emit_op_u32 r 0 s1 = Some (pos, s2)" for b' r pos s2
      using p [of "s2\<lparr>ps_buf_ptr := q\<rparr>"] re_emit_op_u32_same [OF that] Group_look by (simp add: same_def)
    then show ?thesis using g Group_look by (auto simp: re_parse_group_def pcase)
  next
    case (Group_capture q)
    have "parse b' s2 \<noteq> PTimeout" if "open_capture q b s1 = POk s2" for b' s2
      using p [of s2] open_capture_step [OF that] Group_capture by simp
    then show ?thesis using g Group_capture by (auto simp: re_parse_group_def pcase)
  qed
qed (auto simp: re_parse_group_def)

lemma term_step: "re_parse_term parse b s = POk s' \<Longrightarrow> ps_buf s' = ps_buf s \<and> ps_buf_ptr s < ps_buf_ptr s'"
  by (fastforce simp: re_parse_term_def pcase same_def split: if_splits dest!: group_step steps)

lemma term_returns: "left s \<le> n \<Longrightarrow> re_parse_term parse b s \<noteq> PTimeout"
  by (auto simp: re_parse_term_def pcase group_returns rd_def split: if_splits)

lemma alternative_step:
  "re_parse_alternative k (re_parse_term parse b) d start s = POk s' \<Longrightarrow> ps_buf s' = ps_buf s \<and> ps_buf_ptr s \<le> ps_buf_ptr s'"
  by (induction k arbitrary: s) (fastforce simp: pcase same_def split: if_splits dest!: term_step steps)+

lemma alternative_returns:
  "left s < k \<Longrightarrow> left s \<le> n \<Longrightarrow> re_parse_alternative k (re_parse_term parse b) d start s \<noteq> PTimeout"
proof (induction k arbitrary: s)
  case (Suc k)
  have "re_parse_alternative k (re_parse_term parse b) d start s2 \<noteq> PTimeout"
    if "rd (ps_buf s) (ps_buf_ptr s) = Some c" "re_parse_term parse b s = POk s1" "same s1 s2" for c s1 s2
  proof -
    have "ps_buf_ptr s < length (ps_buf s)" using that(1) by (auto simp: rd_def split: if_splits)
    then have "left s2 < left s" using term_step [OF that(2)] that(3) by (auto simp: left_def same_def)
    then show ?thesis using Suc by simp
  qed
  then show ?case using term_returns [OF Suc.prems(2)] by (auto simp: pcase split: if_splits dest!: reverse_terms_same)
qed simp

lemma loop_step:
  "disjunction_loop k (re_parse_alternative m (re_parse_term parse b) d) start s = POk s' \<Longrightarrow>
    ps_buf s' = ps_buf s \<and> ps_buf_ptr s \<le> ps_buf_ptr s'"
  by (induction k arbitrary: s) (fastforce simp: pcase same_def split: if_splits dest!: alternative_step steps)+

lemma loop_returns:
  "left s < k \<Longrightarrow> left s \<le> n \<Longrightarrow> left s < m \<Longrightarrow> disjunction_loop k (re_parse_alternative m (re_parse_term parse b) d) start s \<noteq> PTimeout"
proof (induction k arbitrary: s)
  case (Suc k)
  let ?alt = "re_parse_alternative m (re_parse_term parse b) d"
  have lt: "left s' < left s" if "rd (ps_buf s) (ps_buf_ptr s) = Some c" "ps_buf s' = ps_buf s" "Suc (ps_buf_ptr s) \<le> ps_buf_ptr s'" for c s'
    using that by (auto simp: left_def rd_def split: if_splits)
  have "?alt st s4 \<noteq> PTimeout" if "rd (ps_buf s) (ps_buf_ptr s) = Some c" "same (s\<lparr>ps_buf_ptr := Suc (ps_buf_ptr s)\<rparr>) s4" for c st s4
    using alternative_returns [of s4 m b d st] lt [OF that(1), of s4] that(2) Suc.prems by (simp add: same_def)
  moreover have "disjunction_loop k ?alt start s6 \<noteq> PTimeout"
    if "rd (ps_buf s) (ps_buf_ptr s) = Some c" "same (s\<lparr>ps_buf_ptr := Suc (ps_buf_ptr s)\<rparr>) s4" "?alt st s4 = POk s5" "same s5 s6" for c st s4 s5 s6
    using Suc.IH [of s6] lt [OF that(1), of s6] alternative_step [OF that(3)] that(2,4) Suc.prems by (simp add: same_def)
  ultimately show ?case
    by (auto simp: pcase dest!: bc_edit_same re_emit_op_u32_same) (meson same_trans)+
qed simp

end

text \<open>The disjunction parser, closed over itself, meets the contract for its fuel.\<close>

lemma disjunction_contract: "pattern_parser (re_parse_disjunction n depth) n"
proof (induction n arbitrary: depth)
  case 0
  show ?case by unfold_locales simp_all
next
  case (Suc n)
  let ?p = "re_parse_disjunction n (depth + 1)"
  show ?case
  proof unfold_locales
    fix b s s'
    show "re_parse_disjunction (Suc n) depth b s = POk s' \<Longrightarrow> ps_buf s' = ps_buf s \<and> ps_buf_ptr s \<le> ps_buf_ptr s'"
      by (fastforce simp: Let_def pbind_POk simp del: disjunction_loop.simps re_parse_alternative.simps split: if_splits
          dest!: pattern_parser.alternative_step [OF Suc] pattern_parser.loop_step [OF Suc])
    assume l: "left s < Suc n"
    have "disjunction_loop (Suc n) (re_parse_alternative (Suc n) (re_parse_term ?p b) b) start s1 \<noteq> PTimeout"
      if "re_parse_alternative (Suc n) (re_parse_term ?p b) b start s = POk s1" for start s1
    proof -
      have "left s1 < Suc n" using pattern_parser.alternative_step [OF Suc [of "depth + 1"] that] l by (auto simp: left_def)
      then show ?thesis by (intro pattern_parser.loop_returns [OF Suc [of "depth + 1"]]) auto
    qed
    then show "re_parse_disjunction (Suc n) depth b s \<noteq> PTimeout"
      using pattern_parser.alternative_returns [OF Suc [of "depth + 1"], of s "Suc n" b b] l
      by (auto simp: Let_def pbind_PTimeout simp del: disjunction_loop.simps re_parse_alternative.simps)
  qed
qed

interpretation dj: pattern_parser "re_parse_disjunction n depth" n for n depth
  by (rule disjunction_contract)

lemma emit_prologue_same [steps]: "emit_prologue flags s = Some s' \<Longrightarrow> same s s'"
  by (auto simp: emit_prologue_def bind_eq_Some_conv same_def split: if_splits dest!: steps)

lemma finish_code_returns [simp]: "finish_code s \<noteq> PTimeout"
  by (auto simp: finish_code_def pcase split: option.splits)

text \<open>
  C35. The regular expression compiler terminates.  For every pattern, flags, allocator, property tables
  and stack limit, \<^verbatim>\<open>lre_compile\<close> with more fuel than the pattern buffer has bytes never runs out of fuel: its loops over
  terms, alternatives, class members, digits and names and the recursion of its groups all end.
\<close>

theorem lre_compile_terminates:
  assumes "length buf < fuel"
  shows "lre_compile fuel realloc points_fun unicode overflow buf buf_len flags \<noteq> PTimeout"
proof -
  let ?s = "parse_init realloc points_fun unicode overflow buf buf_len flags"
  have "re_parse_disjunction fuel 0 b s1 \<noteq> PTimeout" if "emit_prologue flags ?s = Some s1" for b s1
    using emit_prologue_same [OF that] assms dj.ends [of s1 fuel] by (simp add: left_def same_def parse_init_def)
  then show ?thesis by (auto simp: lre_compile_def pcase split: if_splits)
qed

definition no_unicode :: unicode_sets where
  "no_unicode = \<lparr>us_script = \<lambda>_ _ _. None, us_general_category = \<lambda>_ _. None, us_prop = \<lambda>_ _. None\<rparr>"

theorem lre_compile_terminates_witness:
  "lre_compile 8 (\<lambda>p n. Some (take n p @ replicate (n - length p) 0)) (\<lambda>_ _. None) no_unicode (\<lambda>d. 100 < d)
     (str ''(a|b)*'' @ [0]) 6 0 \<noteq> PTimeout"
  by (rule lre_compile_terminates) (simp add: str_def)

end
