(* ===== verification/Lre_Header.thy ===== *)
theory Lre_Header
  imports Lre_Literal Lre_Total
begin

text \<open>
  The header of compiled code: \<open>lre_compile\<close> fills it in at the end and appends the group names, and
  the accessors of \<^verbatim>\<open>libregexp.c\<close> read it back.
\<close>

text \<open>The position of the names, \<open>None\<close> for a null pointer.\<close>

definition lre_get_groupnames :: "byte list \<Rightarrow> nat option option" where
  "lre_get_groupnames bc_buf = do {
     f \<leftarrow> lre_get_flags bc_buf;
     if and f LRE_FLAG_NAMED_GROUPS = 0 then Some None
     else do {
       re_bytecode_len \<leftarrow> get_u32 bc_buf 3;
       Some (Some (7 + unat re_bytecode_len))
     }
   }"

lemma dbuf_put_take: "n \<le> length data \<Longrightarrow> dbuf_put d data n = dbuf_put d (take n data) n"
proof -
  assume "n \<le> length data"
  then have "mem_copy m k (take n data) n = mem_copy m k data n" for m k by (simp add: mem_copy_def)
  then show ?thesis by (simp only: dbuf_put_def)
qed

lemma good_set_mem: "good s \<Longrightarrow> length mem = length (bc_mem s) \<Longrightarrow> good (bc_set_mem s mem)"
  by (auto simp: good_def bc_set_mem_def dbuf_ok_def)

lemma finish_code_bytes:
  assumes s: "good s" and names: "dbuf_ok (ps_group_names s)" and min: "7 \<le> bc_size s"
    and small: "bc_size s + dbuf_size (ps_group_names s) < 2 ^ 32" and ok: "finish_code s = POk code"
  obtains f k where "rd (bc_contents s) 0 = Some f"
    "code = [if dbuf_size (ps_group_names s) > ps_capture_count s - 1 then or f LRE_FLAG_NAMED_GROUPS else f, of_nat (ps_capture_count s), of_nat k] @
       le_bytes 4 (bc_size s - 7) @ drop 7 (bc_contents s) @
       (if dbuf_size (ps_group_names s) > ps_capture_count s - 1 then dbuf_contents (ps_group_names s) else [])"
proof -
  let ?named = "dbuf_size (ps_group_names s) > ps_capture_count s - 1"
  obtain k where k: "compute_stack_size (bc_mem s) (bc_size s) = Some (Some k)"
    using ok by (auto simp: finish_code_def pbind_POk ub_POk split: option.splits)
  have len: "bc_size s \<le> length (bc_mem s)" using s by (simp add: good_def dbuf_ok_def bc_size_def)
  then have "7 \<le> length (bc_mem s)" using min by simp
  then obtain f a b c d e g rest where mem: "bc_mem s = f # a # b # c # d # e # g # rest"
    by (auto simp: eval_nat_numeral Suc_le_length_iff)
  have contents: "bc_contents s = f # a # b # c # d # e # g # take (bc_size s - 7) rest"
    using min by (simp add: bc_contents_def dbuf_contents_def mem bc_size_def take_Cons' eval_nat_numeral)
  let ?h = "[f, of_nat (ps_capture_count s), of_nat k] @ le_bytes 4 (bc_size s - 7) @ rest"
  let ?s = "bc_set_mem s ?h"
  have "unat (of_nat m :: u32) = m" if "m < 2 ^ 32" for m using that by (simp add: unsigned_of_nat take_bit_nat_eq_self)
  then have u: "unat (of_nat (bc_size s - 7) :: u32) = bc_size s - 7" by this (use small in simp)
  have sz: "bc_size (bc_set_mem s x) = bc_size s" for x by (simp add: bc_size_def bc_set_mem_def)
  have put1: "bc_put RE_HEADER_CAPTURE_COUNT (of_nat (ps_capture_count s)) s =
      POk (bc_set_mem s (f # of_nat (ps_capture_count s) # b # c # d # e # g # rest))"
    by (simp add: bc_put_def RE_HEADER_CAPTURE_COUNT_def wr_def mem)
  have put2: "bc_put RE_HEADER_STACK_SIZE (of_nat k) (bc_set_mem s (f # of_nat (ps_capture_count s) # b # c # d # e # g # rest)) =
      POk (bc_set_mem s (f # of_nat (ps_capture_count s) # of_nat k # c # d # e # g # rest))"
    by (simp add: bc_put_def RE_HEADER_STACK_SIZE_def wr_def bc_set_mem_def)
  have put3: "bc_put_u32 3 (of_nat (bc_size s - 7)) (bc_set_mem s (f # of_nat (ps_capture_count s) # of_nat k # c # d # e # g # rest)) = POk ?s"
    using u by (simp add: bc_put_u32_def put_u32_def store_def bc_set_mem_def)
  have fields: "ps_group_names (bc_set_mem s x) = ps_group_names s" "ps_capture_count (bc_set_mem s x) = ps_capture_count s" for x
    by (simp_all add: bc_set_mem_def)
  have head: "finish_code s = pbind (if ?named
         then pbind (ub (emit_bytes (\<lambda>d. dbuf_put d (dbuf_mem (ps_group_names s)) (dbuf_size (ps_group_names s))) ?s)) (\<lambda>s.
           pbind (ub (rd (bc_mem s) RE_HEADER_FLAGS)) (\<lambda>f. bc_put RE_HEADER_FLAGS (or f LRE_FLAG_NAMED_GROUPS) s))
         else POk ?s) (\<lambda>s. POk (take (bc_size s) (bc_mem s)))"
    by (simp only: finish_code_def k ub_simps' pbind_simps option.case put1 put2 sz RE_HEADER_LEN_def put3 fields)
  have taken: "take (bc_size s) ?h = [f, of_nat (ps_capture_count s), of_nat k] @ le_bytes 4 (bc_size s - 7) @ drop 7 (bc_contents s)"
  proof -
    have "take n (xs @ ys) = xs @ take (n - length xs) ys" if "length xs \<le> n" for n and xs ys :: "byte list" using that by simp
    from this [of "[f, of_nat (ps_capture_count s), of_nat k] @ le_bytes 4 (bc_size s - 7)" "bc_size s" rest]
    show ?thesis using min by (simp add: contents)
  qed
  show thesis
  proof (cases ?named)
    case False
    then have "code = take (bc_size s) ?h" using ok head by (simp add: sz) (simp add: bc_set_mem_def)
    then show thesis using that [of f k] False taken contents by (simp add: rd_def)
  next
    case True
    let ?names = "dbuf_contents (ps_group_names s)"
    have g: "good ?s" using good_set_mem [OF s, of ?h] by (simp add: mem)
    have n: "length ?names = dbuf_size (ps_group_names s)" "dbuf_size (ps_group_names s) \<le> length (dbuf_mem (ps_group_names s))"
      using names by (auto simp: dbuf_ok_def dbuf_contents_def)
    have c: "bc_contents ?s = take (bc_size s) ?h" by (simp add: bc_contents_def dbuf_contents_def bc_set_mem_def bc_size_def)
    have room: "length (bc_contents ?s) + length ?names < 2 ^ 32" using bc_size_contents [OF g] small n(1) by (simp add: sz)
    obtain d where d: "emit_bytes (\<lambda>d. dbuf_put d ?names (length ?names)) ?s = Some (?s\<lparr>ps_byte_code := d\<rparr>)" "good (?s\<lparr>ps_byte_code := d\<rparr>)"
      "dbuf_contents d = bc_contents ?s @ ?names"
      by (rule addsD [OF adds_put g room])
    have put: "emit_bytes (\<lambda>d. dbuf_put d (dbuf_mem (ps_group_names s)) (dbuf_size (ps_group_names s))) ?s = Some (?s\<lparr>ps_byte_code := d\<rparr>)"
      using d(1) n by (simp add: dbuf_put_take [of _ "dbuf_mem _"] dbuf_contents_def)
    have all: "take (dbuf_size d) (dbuf_mem d) = take (bc_size s) ?h @ ?names" using d(3) c by (simp add: dbuf_contents_def)
    then have hd: "rd (dbuf_mem d) 0 = Some f" "0 < dbuf_size d" using taken by (cases "dbuf_mem d"; cases "dbuf_size d"; simp add: rd_def)+
    have "code = (take (dbuf_size d) (dbuf_mem d))[0 := or f LRE_FLAG_NAMED_GROUPS]"
      using ok head True put hd by (auto simp: RE_HEADER_FLAGS_def bc_put_def wr_def bc_set_mem_def bc_size_def pbind_POk ub_POk take_update_swap split: if_splits)
    then show thesis using that [of f k] True taken contents all by (simp add: rd_def)
  qed
qed

lemma get_u32_header: "n < 2 ^ 32 \<Longrightarrow> get_u32 (a # b # c # le_bytes 4 n @ rest) 3 = Some (of_nat n)"
proof -
  assume "n < 2 ^ 32"
  moreover have "length (le_bytes 4 n) = 4" by simp
  ultimately show ?thesis by (simp add: get_u32_def load_def le_val_le_bytes)
qed

lemma named_groups_bit: "LRE_FLAG_NAMED_GROUPS = 2 ^ 7"
  by (simp add: LRE_FLAG_NAMED_GROUPS_def)

lemma named_bit: "and f LRE_FLAG_NAMED_GROUPS = 0 \<longleftrightarrow> \<not> bit f 7" "bit (or f LRE_FLAG_NAMED_GROUPS) 7"
  by (simp_all add: named_groups_bit and_exp_eq_0_iff_not_bit bit_or_iff bit_exp_iff del: power_numeral)

text \<open>
  C36. The header of compiled code.  When the compiler has emitted its code and succeeds, the accessors read back what it
  stored: the number of captures, the code itself after the header, and, when a group has a name,
  the position of the group names, which are the bytes after the code; without names \<^verbatim>\<open>lre_get_groupnames\<close>
  returns a null pointer and nothing follows the code.
\<close>

theorem header_roundtrip:
  assumes "good s" "dbuf_ok (ps_group_names s)" "7 \<le> bc_size s" "bc_size s + dbuf_size (ps_group_names s) < 2 ^ 32"
    "rd (bc_contents s) 0 = Some flags" "\<not> bit flags 7" "finish_code s = POk code"
  shows "lre_get_capture_count code = Some (of_nat (ps_capture_count s)) \<and>
    take (bc_size s - 7) (drop 7 code) = drop 7 (bc_contents s) \<and>
    (if ps_capture_count s - 1 < dbuf_size (ps_group_names s)
     then lre_get_groupnames code = Some (Some (bc_size s)) \<and> drop (bc_size s) code = dbuf_contents (ps_group_names s)
     else lre_get_groupnames code = Some None \<and> length code = bc_size s)"
proof -
  obtain f k where f: "rd (bc_contents s) 0 = Some f"
    "code = [if dbuf_size (ps_group_names s) > ps_capture_count s - 1 then or f LRE_FLAG_NAMED_GROUPS else f, of_nat (ps_capture_count s), of_nat k] @
       le_bytes 4 (bc_size s - 7) @ drop 7 (bc_contents s) @
       (if dbuf_size (ps_group_names s) > ps_capture_count s - 1 then dbuf_contents (ps_group_names s) else [])"
    using finish_code_bytes [OF assms(1-4,7)] .
  have len: "length (bc_contents s) = bc_size s" using bc_size_contents [OF assms(1)] by simp
  have u: "unat (of_nat (bc_size s - 7) :: u32) = bc_size s - 7"
    using assms(4) by (simp add: unsigned_of_nat take_bit_nat_eq_self)
  have g: "get_u32 (a # b # c # le_bytes 4 (bc_size s - 7) @ rest) 3 = Some (of_nat (bc_size s - 7))" for a b c rest
    by (rule get_u32_header) (use assms(4) in simp)
  have app: "drop (bc_size s) (xs @ ys) = ys" if "length xs = bc_size s" for xs ys :: "byte list" using that by simp
  let ?h = "\<lambda>x. [x, of_nat (ps_capture_count s), of_nat k] @ le_bytes 4 (bc_size s - 7) @ drop 7 (bc_contents s)"
  have h: "length (?h x) = bc_size s" "take (bc_size s - 7) (drop 7 (?h x @ ys)) = drop 7 (bc_contents s)" for x ys
    using assms(3) len by simp_all
  have "f = flags" using f(1) assms(5) by simp
  then show ?thesis
    using assms(6) h(1) h(2) [of _ "[]"] h(2) [of _ "dbuf_contents (ps_group_names s)"] app [OF h(1)] u g
    by (simp add: f(2) lre_get_capture_count_def lre_get_groupnames_def lre_get_flags_def RE_HEADER_FLAGS_def RE_HEADER_CAPTURE_COUNT_def
        rd_def named_bit)
qed

definition named_state :: REParseState where
  "named_state = (parse_init libc_realloc_of (\<lambda>_ _. None) no_unicode (\<lambda>_. False) [0] 0 0)\<lparr>
     ps_byte_code := \<lparr>dbuf_mem = [0, 0, 0, 0, 0, 0, 0, 10], dbuf_size = 8, dbuf_allocated = 8, dbuf_error = False,
       dbuf_realloc_func = Some libc_realloc_of\<rparr>,
     ps_capture_count := 2,
     ps_group_names := \<lparr>dbuf_mem = [97, 0], dbuf_size = 2, dbuf_allocated = 2, dbuf_error = False,
       dbuf_realloc_func = Some libc_realloc_of\<rparr>\<rparr>"

lemma named_state_finish:
  "finish_code named_state = POk [128, 2, 0, 1, 0, 0, 0, 10, 97, 0]"
proof -
  have op: "op_at [0, 0, 0, 0, 0, 0, 0, 10] 7 = Some REOP_match" by (simp add: op_at_def rd_def reop_of_def reop_list_def)
  have "compute_stack_size [0, 0, 0, 0, 0, 0, 0, 10] 8 = Some (Some 0)"
    unfolding compute_stack_size_def RE_HEADER_LEN_def
    by (subst stack_size_loop.simps, subst stack_size_loop.simps) (simp add: op op_len_def)
  then show ?thesis
    by (simp add: finish_code_def named_state_def parse_init_def bc_put_def bc_put_u32_def bc_set_mem_def wr_def put_u32_def store_def
        bc_size_def RE_HEADER_CAPTURE_COUNT_def RE_HEADER_STACK_SIZE_def RE_HEADER_LEN_def RE_HEADER_FLAGS_def emit_bytes_def
        dbuf_put_def dbuf_grow_def dbuf_realloc_def libc_realloc_of_def mem_copy_def le_bytes_4 szt_def rd_def Let_def
        LRE_FLAG_NAMED_GROUPS_def cong: bind_weak_cong pbind_weak_cong)
qed

theorem header_roundtrip_witness:
  "lre_get_groupnames [128, 2, 0, 1, 0, 0, 0, 10, 97, 0] = Some (Some (bc_size named_state)) \<and>
    drop (bc_size named_state) [128, 2, 0, 1, 0, 0, 0, 10, 97, 0] = dbuf_contents (ps_group_names named_state)"
proof -
  have "good named_state" "dbuf_ok (ps_group_names named_state)"
    using total_realloc_libc by (auto simp: good_def named_state_def dbuf_ok_def total_realloc_def)
  then show ?thesis using header_roundtrip [of named_state 0, OF _ _ _ _ _ _ named_state_finish]
    by (simp add: named_state_def bc_size_def bc_contents_def dbuf_contents_def rd_def)
qed

end
