(* ===== verification/Lre_Sets.thy ===== *)
theory Lre_Sets
  imports Lre_Class
begin

text \<open>
  The sets behind the class escapes \<open>\d\<close>, \<open>\s\<close>, \<open>\w\<close> and their complements, and the extension of a
  class for matching without regard to case.
\<close>

lemma add_points_ok:
  assumes "cr_wf cr" "points_alloc (cr_realloc_func cr)" "cr_len cr + length vs \<le> n" "cr_size cr \<le> 2 * n" "n < 2 ^ 28"
  shows "\<exists>cr' err. add_points cr vs = Some (cr', err) \<and> cr_wf cr' \<and> cr_realloc_func cr' = cr_realloc_func cr \<and> cr_size cr' \<le> 2 * n \<and>
    (\<not> err \<longrightarrow> cr_live cr' = cr_live cr @ vs \<and> cr_len cr' = cr_len cr + length vs) \<and> (alloc_always (cr_realloc_func cr) \<longrightarrow> \<not> err)"
  using assms
proof (induction vs arbitrary: cr)
  case (Cons v vs)
  then have "cr_len cr < n" by simp
  then obtain cr1 err where r: "cr_add_point cr v = Some (cr1, err)" "cr_wf cr1" "cr_realloc_func cr1 = cr_realloc_func cr" "cr_size cr1 \<le> 2 * n"
    "\<not> err \<longrightarrow> cr_live cr1 = cr_live cr @ [v] \<and> cr_len cr1 = cr_len cr + 1" "alloc_always (cr_realloc_func cr) \<longrightarrow> \<not> err"
    using cr_add_point_ok [of cr n v] Cons.prems by blast
  show ?case
  proof (cases err)
    case True
    then show ?thesis using r by auto
  next
    case False
    then have "cr_len cr1 + length vs \<le> n" using r(5) Cons.prems(3) by simp
    with Cons.IH [of cr1] r Cons.prems(2,5) False show ?thesis by fastforce
  qed
qed auto

lemma cnt_none: "\<forall>p \<in> set pts. x < p \<Longrightarrow> cnt pts x = 0"
  by (induction pts) (auto simp: not_le)

lemma scan_points:
  "canonical pts \<Longrightarrow> in_points pts x \<longleftrightarrow> space_scan pts (uint x)"
proof (induction pts "uint x" rule: space_scan.induct)
  case (1 low high r)
  have c: "low < high" "canonical r" "\<forall>p \<in> set r. high < p" using "1.prems" by (auto simp: canonical_def)
  show ?case
  proof (cases "x < high")
    case True
    then have "cnt r x = 0" using c(3) by (intro cnt_none) auto
    then show ?thesis using True by (auto simp: in_points_def word_less_def word_le_def)
  next
    case False
    moreover have "low \<le> x" using False c(1) by (meson less_le_trans not_le order_less_imp_le)
    ultimately show ?thesis using "1.hyps" c(2) by (auto simp: in_points_def word_less_def word_le_def)
  qed
qed (auto simp: in_points_def canonical_def)

lemma tables_canonical: "canonical (char_range_table k)"
  by (cases k) (simp_all add: canonical_def char_range_d_def char_range_s_def char_range_w_def)

lemma table_length: "length (char_range_table k) \<le> 20"
  by (cases k) (simp_all add: char_range_d_def char_range_s_def char_range_w_def)

text \<open>What the letters stand for.\<close>

definition shorthand_set :: "CharRangeEnum \<Rightarrow> int \<Rightarrow> bool" where
  "shorthand_set k c =
     (case k of
        CHAR_RANGE_d \<Rightarrow> 0x30 \<le> c \<and> c \<le> 0x39
      | CHAR_RANGE_D \<Rightarrow> c < 2 ^ 32 - 1 \<and> \<not> (0x30 \<le> c \<and> c \<le> 0x39)
      | CHAR_RANGE_s \<Rightarrow> lre_is_space c
      | CHAR_RANGE_S \<Rightarrow> c < 2 ^ 32 - 1 \<and> \<not> lre_is_space c
      | CHAR_RANGE_w \<Rightarrow> is_word_char c
      | CHAR_RANGE_W \<Rightarrow> c < 2 ^ 32 - 1 \<and> \<not> is_word_char c)"

lemma table_sets:
  "in_points char_range_d x \<longleftrightarrow> 0x30 \<le> uint x \<and> uint x \<le> 0x39"
  "in_points char_range_s x \<longleftrightarrow> lre_is_space (uint x)"
  "in_points char_range_w x \<longleftrightarrow> is_word_char (uint x)"
  using scan_points [OF tables_canonical [of CHAR_RANGE_d], of x] scan_points [OF tables_canonical [of CHAR_RANGE_s], of x]
    scan_points [OF tables_canonical [of CHAR_RANGE_w], of x]
  by (auto simp: lre_is_space_def char_range_d_def char_range_w_def is_word_char_def)

text \<open>
  C37. The class escapes.  \<^verbatim>\<open>cr_init_char_range\<close> fails only when the allocator does; otherwise it builds, in canonical form,
  the digits for \<^verbatim>\<open>\d\<close>, exactly the characters of \<^verbatim>\<open>lre_is_space\<close> for \<^verbatim>\<open>\s\<close>, exactly those the word-boundary
  opcodes count as word characters for \<^verbatim>\<open>\w\<close>, and the complements for the capital letters.
\<close>

theorem class_shorthand_sets:
  assumes "points_alloc realloc"
  shows "\<exists>cr err. cr_init_char_range realloc k = Some (cr, err) \<and> cr_wf cr \<and> (err \<longrightarrow> \<not> alloc_always realloc) \<and>
    (\<not> err \<longrightarrow> canonical (cr_live cr) \<and> (\<forall>x. in_points (cr_live cr) x \<longleftrightarrow> shorthand_set k (uint x)))"
proof -
  let ?cr = "cr_init realloc (Some realloc)"
  have i: "cr_wf ?cr" "cr_realloc_func ?cr = realloc" "cr_len ?cr = 0" "cr_size ?cr = 0" "cr_live ?cr = []"
    by (simp_all add: cr_init_def cr_wf_def cr_live_def)
  obtain cr err where r: "add_points ?cr (char_range_table k) = Some (cr, err)" "cr_wf cr" "cr_realloc_func cr = realloc" "cr_size cr \<le> 40"
    "\<not> err \<longrightarrow> cr_live cr = char_range_table k \<and> cr_len cr = length (char_range_table k)" "alloc_always realloc \<longrightarrow> \<not> err"
    using add_points_ok [of ?cr "char_range_table k" 20] i assms table_length [of k] by auto
  show ?thesis
  proof (cases err)
    case True
    then show ?thesis using r(1,2,6) by (intro exI [of _ cr] exI [of _ True]) (simp add: cr_init_char_range_def)
  next
    case ok: False
    then have live: "cr_live cr = char_range_table k" "even (cr_len cr)" "canonical (cr_live cr)" "sorted (cr_live cr)"
      using r(5) tables_canonical [of k] strict_sorted_imp_sorted by (auto simp: canonical_def)
    show ?thesis
    proof (cases "k \<in> {CHAR_RANGE_D, CHAR_RANGE_S, CHAR_RANGE_W}")
      case True
      obtain cr' e where inv: "cr_invert cr = Some (cr', e)" "cr_wf cr'" "e \<longrightarrow> \<not> alloc_always realloc"
        "\<not> e \<longrightarrow> canonical (cr_live cr') \<and> (\<forall>x. in_points (cr_live cr') x \<longleftrightarrow> x < - 1 \<and> \<not> in_points (cr_live cr) x)"
        using cr_invert_ok [of cr] r(2,3,4) assms live by auto
      have "x < - 1 \<and> \<not> in_points (char_range_table k) x \<longleftrightarrow> shorthand_set k (uint x)" for x
      proof -
        have "uint (- 1 :: u32) = 4294967295" by (simp add: unsigned_minus_1_eq_mask mask_eq_exp_minus_1)
        then have "x < - 1 \<longleftrightarrow> uint x < 4294967295" by (simp only: word_less_def)
        then show ?thesis using True by (auto simp: shorthand_set_def table_sets)
      qed
      then show ?thesis using inv r(1) ok True live(1) by (intro exI [of _ cr'] exI [of _ e]) (auto simp: cr_init_char_range_def)
    next
      case False
      then have "in_points (char_range_table k) x \<longleftrightarrow> shorthand_set k (uint x)" for x
        by (cases k) (auto simp: shorthand_set_def table_sets)
      then show ?thesis using r(1,2) ok False live by (intro exI [of _ cr] exI [of _ False]) (auto simp: cr_init_char_range_def)
    qed
  qed
qed

theorem class_shorthand_sets_witness:
  "\<exists>cr err. cr_init_char_range test_realloc CHAR_RANGE_S = Some (cr, err) \<and> (err \<or> \<not> in_points (cr_live cr) 0x20 \<and> in_points (cr_live cr) 0x41)"
proof -
  have "\<not> shorthand_set CHAR_RANGE_S 0x20" "shorthand_set CHAR_RANGE_S 0x41"
    by (simp_all add: shorthand_set_def lre_is_space_def char_range_s_def)
  then show ?thesis using class_shorthand_sets [OF test_realloc_ok, of CHAR_RANGE_S] by fastforce
qed

end
