(* ===== verification/Lre_Escape.thy ===== *)
theory Lre_Escape
  imports Lre_Parse
begin

text \<open>
  Numbers and escapes of a pattern: the value of the decimal digits of a repetition count or back
  reference, and the escapes of code points, written and read back: \<open>\uXXXX\<close> and, beyond the basic plane, the pair of
  surrogates, as the patterns and strings of scripts have them.
\<close>

lemma rd_drop: "drop p buf = x # xs \<Longrightarrow> rd buf p = Some x \<and> drop (Suc p) buf = xs"
  by (metis Cons_nth_drop_Suc drop_all list.distinct(1) list.inject not_le_imp_less rd_def)

section \<open>Numbers\<close>

fun decimal :: "int \<Rightarrow> byte list \<Rightarrow> int" where
  "decimal v [] = v"
| "decimal v (d # ds) = decimal (v * 10 + (uint d - 48)) ds"

lemma digit_range: "is_digit b \<Longrightarrow> 48 \<le> uint b \<and> uint b \<le> 57"
  by (simp add: is_digit_def word_le_def)

lemma decimal_ge: "0 \<le> v \<Longrightarrow> \<forall>d \<in> set ds. is_digit d \<Longrightarrow> v \<le> decimal v ds"
proof (induction ds arbitrary: v)
  case (Cons d ds)
  then have "48 \<le> uint d" using digit_range by auto
  then show ?case using Cons.IH [of "v * 10 + (uint d - 48)"] Cons.prems by auto
qed simp

lemma parse_digits_step:
  "drop p buf = d # ds \<Longrightarrow> is_digit d \<Longrightarrow> parse_digits_loop buf p v a =
    (if v * 10 + (uint d - 48) \<ge> INT32_MAX then if a then parse_digits_loop buf (Suc p) INT32_MAX a else Some None
     else parse_digits_loop buf (Suc p) (v * 10 + (uint d - 48)) a)"
  using rd_drop [of p buf d ds] by (subst parse_digits_loop.simps) (simp add: Let_def add_diff_eq)

lemma parse_digits_saturated:
  "drop p buf = ds @ b # rest \<Longrightarrow> \<forall>d \<in> set ds. is_digit d \<Longrightarrow> \<not> is_digit b \<Longrightarrow>
    parse_digits_loop buf p INT32_MAX True = Some (Some (INT32_MAX, p + length ds))"
proof (induction ds arbitrary: p)
  case Nil
  then show ?case using rd_drop [of p buf b rest] by (subst parse_digits_loop.simps) simp
next
  case (Cons d ds)
  have "48 \<le> uint d" using Cons.prems(2) digit_range by auto
  then have "INT32_MAX \<le> INT32_MAX * 10 + (uint d - 48)" by (simp add: INT32_MAX_def)
  then show ?case using Cons parse_digits_step [of p buf d "ds @ b # rest" INT32_MAX True] rd_drop [of p buf d "ds @ b # rest"] by simp
qed

lemma parse_digits_loop_value:
  "drop p buf = ds @ b # rest \<Longrightarrow> \<forall>d \<in> set ds. is_digit d \<Longrightarrow> \<not> is_digit b \<Longrightarrow> 0 \<le> v \<Longrightarrow> v < INT32_MAX \<Longrightarrow>
    parse_digits_loop buf p v a = (if decimal v ds < INT32_MAX then Some (Some (decimal v ds, p + length ds))
      else if a then Some (Some (INT32_MAX, p + length ds)) else Some None)"
proof (induction ds arbitrary: p v)
  case Nil
  then show ?case using rd_drop [of p buf b rest] by (subst parse_digits_loop.simps) simp
next
  case (Cons d ds)
  let ?v = "v * 10 + (uint d - 48)"
  have d: "is_digit d" "48 \<le> uint d" using Cons.prems(2) digit_range by auto
  have n: "drop (Suc p) buf = ds @ b # rest" using Cons.prems(1) rd_drop [of p buf d "ds @ b # rest"] by simp
  have step: "parse_digits_loop buf p v a = (if INT32_MAX \<le> ?v then if a then parse_digits_loop buf (Suc p) INT32_MAX a else Some None
     else parse_digits_loop buf (Suc p) ?v a)"
    using parse_digits_step [of p buf d "ds @ b # rest"] Cons.prems(1) d(1) by simp
  show ?case
  proof (cases "INT32_MAX \<le> ?v")
    case True
    moreover have "?v \<le> decimal ?v ds" using decimal_ge [of ?v ds] Cons.prems(2,4) d(2) by simp
    ultimately show ?thesis using step parse_digits_saturated [OF n] Cons.prems(2,3) by simp
  next
    case False
    then show ?thesis using step Cons.IH [OF n, of ?v] Cons.prems d(2) by simp
  qed
qed

text \<open>
  Decimal numbers of a pattern.  On a run of digits followed by another character \<^verbatim>\<open>parse_digits\<close> returns the decimal value
  and the position after it; from 2147483647 on it returns exactly that bound when overflow is allowed, and otherwise -1 with the pointer where it was.
\<close>

theorem parse_digits_value:
  assumes "drop p buf = ds @ b # rest" "\<forall>d \<in> set ds. is_digit d" "\<not> is_digit b"
  shows "parse_digits buf p allow_overflow = Some
    (if decimal 0 ds < INT32_MAX then (decimal 0 ds, p + length ds)
     else if allow_overflow then (INT32_MAX, p + length ds) else (-1, p))"
proof -
  have "(0 :: int) < INT32_MAX" by (simp add: INT32_MAX_def)
  then show ?thesis using parse_digits_loop_value [OF assms, of 0 allow_overflow] by (simp add: parse_digits_def)
qed

theorem parse_digits_value_witness:
  "parse_digits (map of_char ''a{4294967296}'') 2 True = Some (INT32_MAX, 12)"
proof -
  have "drop 2 (map of_char ''a{4294967296}'') = map of_char ''4294967296'' @ (125 :: byte) # []" by simp
  then show ?thesis
    using parse_digits_value [of 2 "map of_char ''a{4294967296}''" "map of_char ''4294967296''" 125 "[]" True]
    by (simp add: is_digit_def INT32_MAX_def)
qed

section \<open>Escapes\<close>

definition hex_digit :: "int \<Rightarrow> byte" where
  "hex_digit d = of_int (if d < 10 then 48 + d else 87 + d)"

definition hex4 :: "int \<Rightarrow> byte list" where
  "hex4 c = map hex_digit [c div 4096, c div 256 mod 16, c div 16 mod 16, c mod 16]"

lemma length_hex4 [simp]: "length (hex4 c) = 4"
  by (simp add: hex4_def)

lemma hex_digit_uint: "0 \<le> d \<Longrightarrow> d < 16 \<Longrightarrow> uint (hex_digit d) = (if d < 10 then 48 + d else 87 + d)"
  by (simp add: hex_digit_def uint_word_of_int)

lemma from_hex_digit: "0 \<le> d \<Longrightarrow> d < 16 \<Longrightarrow> from_hex (uint (hex_digit d)) = d"
  by (simp add: hex_digit_uint from_hex_def)

lemma hex_digit_not_brace: "0 \<le> d \<Longrightarrow> d < 16 \<Longrightarrow> hex_digit d \<noteq> 123"
  using hex_digit_uint [of d] by (auto split: if_splits)

lemma esc_hex_step:
  "drop p buf = hex_digit d # xs \<Longrightarrow> 0 \<le> d \<Longrightarrow> d < 16 \<Longrightarrow> esc_hex buf p (Suc n) c = esc_hex buf (Suc p) n (c * 16 + d)"
  using rd_drop [of p buf] by (simp add: from_hex_digit)

lemma esc_hex4:
  assumes "drop p buf = hex4 c @ rest" "0 \<le> c" "c < 65536"
  shows "esc_hex buf p 4 0 = Some (Some c)"
proof -
  have d: "drop p buf = hex_digit (c div 4096) # hex_digit (c div 256 mod 16) # hex_digit (c div 16 mod 16) # hex_digit (c mod 16) # rest"
    using assms(1) by (simp add: hex4_def)
  note d1 = rd_drop [OF d, THEN conjunct2]
  note d2 = rd_drop [OF d1, THEN conjunct2]
  note d3 = rd_drop [OF d2, THEN conjunct2]
  have "esc_hex buf p 4 0 = esc_hex buf p (Suc (Suc (Suc (Suc 0)))) 0" by (simp add: eval_nat_numeral)
  also have "\<dots> = esc_hex buf (Suc p) (Suc (Suc (Suc 0))) (0 * 16 + c div 4096)"
    by (rule esc_hex_step [OF d]) (use assms(2,3) in auto)
  also have "\<dots> = esc_hex buf (Suc (Suc p)) (Suc (Suc 0)) ((0 * 16 + c div 4096) * 16 + c div 256 mod 16)"
    by (rule esc_hex_step [OF d1]) auto
  also have "\<dots> = esc_hex buf (Suc (Suc (Suc p))) (Suc 0) (((0 * 16 + c div 4096) * 16 + c div 256 mod 16) * 16 + c div 16 mod 16)"
    by (rule esc_hex_step [OF d2]) auto
  also have "\<dots> = esc_hex buf (Suc (Suc (Suc (Suc p)))) 0 ((((0 * 16 + c div 4096) * 16 + c div 256 mod 16) * 16 + c div 16 mod 16) * 16 + c mod 16)"
    by (rule esc_hex_step [OF d3]) auto
  also have "(((0 * 16 + c div 4096) * 16 + c div 256 mod 16) * 16 + c div 16 mod 16) * 16 + c mod 16 = c"
  proof -
    have base: "(((0 * 16 + w) * 16 + k) * 16 + n) * 16 + m = x" if "x = 16 * y + m" "y = 16 * z + n" "z = 16 * w + k" for x y z w k m n :: int
      using that by simp
    have e: "c div 256 = c div 16 div 16" "c div 4096 = c div 16 div 16 div 16" by (simp_all flip: zdiv_zmult2_eq)
    show ?thesis unfolding e by (rule base) (simp_all only: mult_div_mod_eq)
  qed
  finally show ?thesis by simp
qed

definition surrogates :: "int \<Rightarrow> int \<times> int" where
  "surrogates c = (0xd800 + (c - 0x10000) div 1024, 0xdc00 + (c - 0x10000) mod 1024)"

lemma surrogates_pair:
  assumes "0x10000 \<le> c" "c \<le> 0x10ffff" "surrogates c = (hi, lo)"
  shows "is_high hi" "is_low lo" "surrogate_pair hi lo = c"
proof -
  define q r where "q = (c - 0x10000) div 1024" and "r = (c - 0x10000) mod 1024"
  have qr: "c = 0x10000 + 1024 * q + r" "0 \<le> r" "r < 1024" by (simp_all add: q_def r_def)
  then have q: "0 \<le> q" "q < 1024" using assms(1,2) by linarith+
  have e: "hi = 0xd800 + q" "lo = 0xdc00 + r" using assms(3) by (auto simp: surrogates_def q_def r_def)
  show "is_high hi" "is_low lo" using e q qr by (simp_all add: is_high_def is_low_def)
  have "hi mod 0x400 = q" "lo mod 0x400 = r"
    using e q qr mod_mult_self4 [of 1024 54 q] mod_mult_self4 [of 1024 55 r] by simp_all
  then show "surrogate_pair hi lo = c" using qr(1) by (simp add: surrogate_pair_def)
qed

text \<open>What stands after the backslash.\<close>

definition escape_text :: "int \<Rightarrow> byte list" where
  "escape_text c = ch CHR ''u'' #
     (if c < 0x10000 then hex4 c else hex4 (fst (surrogates c)) @ [0x5c, ch CHR ''u''] @ hex4 (snd (surrogates c)))"

lemma hex4_hd: "0 \<le> c \<Longrightarrow> c < 65536 \<Longrightarrow> drop p buf = hex4 c @ rest \<Longrightarrow> \<exists>b. rd buf p = Some b \<and> b \<noteq> 123"
  using rd_drop [of p buf] hex_digit_not_brace [of "c div 4096"] by (auto simp: hex4_def)

lemma escape_u:
  assumes "drop p buf = ch CHR ''u'' # hex4 c @ rest" "0 \<le> c" "c < 65536"
  shows "lre_parse_escape buf p a =
    (if is_high c \<and> a = 2 then esc_low_surrogate buf (p + 5) c else Some (Esc_char c (p + 5)))"
proof -
  have r: "rd buf p = Some (ch CHR ''u'')" "drop (Suc p) buf = hex4 c @ rest" using rd_drop [OF assms(1)] by auto
  obtain b where "rd buf (Suc p) = Some b" "b \<noteq> 123" using hex4_hd [OF assms(2,3) r(2)] by blast
  then show ?thesis using r(1) esc_hex4 [OF r(2) assms(2,3)]
    by (simp add: lre_parse_escape_def esc_unicode_def Let_def) (simp add: add.commute)
qed

text \<open>
  C38. Escapes read back.  A code point written as \<^verbatim>\<open>\uXXXX\<close>, or as the escapes of its two surrogates
  when it lies beyond the basic plane, anywhere in a buffer, is recognised by \<^verbatim>\<open>lre_parse_escape\<close> in unicode mode as exactly that code point, and
  the pointer moves to the end of the escape.
\<close>

theorem escape_roundtrip:
  assumes "0 \<le> c" "c \<le> 0x10ffff" "\<not> (0xd800 \<le> c \<and> c < 0xe000)"
  shows "lre_parse_escape (pre @ escape_text c @ rest) (length pre) 2 = Some (Esc_char c (length pre + length (escape_text c)))"
proof (cases "c < 0x10000")
  case True
  moreover have "\<not> is_high c" using assms(3) by (auto simp: is_high_def)
  ultimately show ?thesis using escape_u [of "length pre" "pre @ escape_text c @ rest" c rest 2] assms(1)
    by (simp add: escape_text_def)
next
  case False
  obtain hi lo where s: "surrogates c = (hi, lo)" by fastforce
  then have p: "is_high hi" "is_low lo" "surrogate_pair hi lo = c" using surrogates_pair [OF _ assms(2)] False by auto
  let ?buf = "pre @ escape_text c @ rest"
  have d: "drop (length pre) ?buf = ch CHR ''u'' # hex4 hi @ 0x5c # ch CHR ''u'' # hex4 lo @ rest"
    using False s by (simp add: escape_text_def)
  have "drop (length pre + 5) ?buf = drop 5 (drop (length pre) ?buf)" by (simp add: add.commute)
  then have d5: "drop (length pre + 5) ?buf = 0x5c # ch CHR ''u'' # hex4 lo @ rest" by (simp only: d) simp
  note r5 = rd_drop [OF d5]
  note r6 = rd_drop [OF r5 [THEN conjunct2]]
  have "esc_hex ?buf (Suc (Suc (length pre + 5))) 4 0 = Some (Some lo)"
    using esc_hex4 [OF r6 [THEN conjunct2]] p(2) by (simp add: is_low_def)
  then have "esc_low_surrogate ?buf (length pre + 5) hi = Some (Esc_char c (length pre + 11))"
    using r5 r6 p by (simp add: esc_low_surrogate_def)
  then show ?thesis using escape_u [OF d, of 2] p(1) False by (simp add: is_high_def escape_text_def)
qed

theorem escape_roundtrip_witness:
  "lre_parse_escape ([0x5c] @ escape_text 0x1f600 @ [0]) 1 2 = Some (Esc_char 0x1f600 12)"
  using escape_roundtrip [of "0x1f600" "[0x5c]" "[0]"] by (simp add: escape_text_def)

end
