(* ===== verification/Lre_Corner.thy ===== *)
theory Lre_Corner
  imports Lre_Header Lre_Sets Lre_Escape "HOL-Library.Code_Target_Numeral"
begin

text \<open>
  Corner cases of the regular expression compiler: forward references to a group that stands directly
  inside a named group, and two patterns compiled while memory runs out.
\<close>

section \<open>Forward references\<close>

text \<open>Bytes the scan for groups passes over one at a time, and group names in ASCII that fit the buffer.\<close>

definition plain :: "byte \<Rightarrow> bool" where
  "plain b \<longleftrightarrow> b \<noteq> ch CHR ''('' \<and> b \<noteq> 0x5c \<and> b \<noteq> ch CHR ''[''"

definition ident_byte :: "byte \<Rightarrow> bool" where
  "ident_byte b \<longleftrightarrow> b < 128 \<and> lre_js_is_ident_next (uint b) = Some True"

definition group_name :: "byte list \<Rightarrow> bool" where
  "group_name nm \<longleftrightarrow> nm \<noteq> [] \<and> length nm \<le> 122 \<and> list_all ident_byte nm \<and> lre_js_is_ident_first (uint (hd nm)) = Some True"

lemma not_ident: "\<not> ident_byte (ch CHR ''>'')" "\<not> ident_byte 0x5c" "\<not> ident_byte (ch CHR ''('')" "\<not> ident_byte (ch CHR ''['')"
  "\<not> ident_byte (ch CHR ''='')" "\<not> ident_byte (ch CHR ''!'')" by code_simp+

lemma ident_plain: "ident_byte b \<Longrightarrow> plain b \<and> b \<noteq> ch CHR ''>''"
  using not_ident unfolding plain_def by blast

lemma group_name_step:
  assumes "ident_byte x" and "length nm < 122" and "nm = [] \<Longrightarrow> lre_js_is_ident_first (uint x) = Some True"
  shows "group_name_loop (pre @ x # post) (length pre) utf16 nm = group_name_loop (pre @ x # post) (length pre + 1) utf16 (nm @ [x])"
proof -
  have x: "x < 128" "lre_js_is_ident_next (uint x) = Some True" "x \<noteq> ch CHR ''>''" "x \<noteq> 0x5c" using assms(1) ident_plain [OF assms(1)] by (auto simp: ident_byte_def plain_def)
  have "uint x < 128" using x(1) by (simp add: word_less_def)
  then show ?thesis using x assms(2,3) by (subst group_name_loop.simps) (auto simp: group_name_char_def TMP_BUF_SIZE_def UTF8_CHAR_LEN_MAX_def)
qed

lemma group_name_run:
  "list_all ident_byte xs \<Longrightarrow> nm \<noteq> [] \<Longrightarrow> length nm + length xs \<le> 122 \<Longrightarrow>
     group_name_loop (pre @ xs @ ch CHR ''>'' # post) (length pre) utf16 nm = Some (Some (nm @ xs, length pre + length xs + 1))"
proof (induction xs arbitrary: pre nm)
  case Nil
  then show ?case by (subst group_name_loop.simps) simp
next
  case (Cons x xs)
  then show ?case using group_name_step [of x nm pre "xs @ ch CHR ''>'' # post" utf16] Cons.IH [of "nm @ [x]" "pre @ [x]"] by simp
qed

lemma re_parse_group_name_ascii:
  assumes "group_name nm"
  shows "re_parse_group_name (pre @ nm @ ch CHR ''>'' # post) (length pre) utf16 = Some (Some (nm, length pre + length nm + 1))"
proof -
  obtain x xs where nm: "nm = x # xs" using assms by (cases nm) (auto simp: group_name_def)
  then show ?thesis using assms group_name_step [of x "[]" pre "xs @ ch CHR ''>'' # post" utf16] group_name_run [of xs "[x]" "pre @ [x]" post utf16]
    by (simp add: re_parse_group_name_def group_name_def)
qed

lemma captures_plain:
  "list_all plain xs \<Longrightarrow> length pre + length xs \<le> buf_end \<Longrightarrow>
     captures_loop (pre @ xs @ post) buf_end utf16 name (length pre) k named = captures_loop (pre @ xs @ post) buf_end utf16 name (length pre + length xs) k named"
proof (induction xs arbitrary: pre)
  case (Cons x xs)
  have "captures_loop (pre @ (x # xs) @ post) buf_end utf16 name (length pre) k named = captures_loop (pre @ (x # xs) @ post) buf_end utf16 name (length pre + 1) k named"
    using Cons.prems by (subst captures_loop.simps) (simp add: plain_def)
  then show ?case using Cons.IH [of "pre @ [x]"] Cons.prems by simp
qed simp

text \<open>At a named group the scan compares the name, and goes on two bytes after the name.\<close>

lemma captures_named:
  assumes "group_name a" and "length pre < buf_end" and "k + 1 < CAPTURE_COUNT_MAX"
  shows "captures_loop (pre @ str ''(?<'' @ a @ ch CHR ''>'' # post) buf_end utf16 (Some nm) (length pre) k named =
    (if a = nm then Some (Inl k, True)
     else captures_loop (pre @ str ''(?<'' @ a @ ch CHR ''>'' # post) buf_end utf16 (Some nm) (length pre + length a + 5) (k + 1) True)"
proof -
  let ?buf = "pre @ str ''(?<'' @ a @ ch CHR ''>'' # post"
  obtain x xs where a: "a = x # xs" "ident_byte x" using assms(1) by (cases a) (auto simp: group_name_def)
  have s: "str ''(?<'' = [ch CHR ''('', ch CHR ''?'', ch CHR ''<'']" by (simp add: str_def)
  have r: "rd ?buf (length pre) = Some (ch CHR ''('')" "rd ?buf (length pre + 1) = Some (ch CHR ''?'')" "rd ?buf (length pre + 2) = Some (ch CHR ''<'')" "rd ?buf (length pre + 3) = Some x"
    unfolding s using a(1) by (simp_all add: rd_def nth_append)
  have "re_parse_group_name ?buf (length pre + 3) utf16 = Some (Some (a, length pre + 3 + length a + 1))"
    using re_parse_group_name_ascii [OF assms(1), of "pre @ str ''(?<''" post utf16] unfolding s by (simp add: numeral_3_eq_3 eval_nat_numeral(2,3))
  moreover have "x \<noteq> ch CHR ''=''" "x \<noteq> ch CHR ''!''" using a(2) not_ident by blast+
  ultimately show ?thesis using r assms(2,3) by (subst captures_loop.simps) (simp add: add.commute add.left_commute)
qed

definition nested_groups :: "byte list \<Rightarrow> byte list \<Rightarrow> byte list \<Rightarrow> byte list \<Rightarrow> byte list \<Rightarrow> byte list" where
  "nested_groups w a m b body = w @ str ''(?<'' @ a @ ch CHR ''>'' # m @ str ''(?<'' @ b @ ch CHR ''>'' # body @ str ''))''"

text \<open>
  C40. The scan for a forward reference misses a group.  After a named group \<^verbatim>\<open>re_parse_captures\<close> continues one byte after the closing bracket of the name, so
  an opening parenthesis that stands there is not seen: in a pattern with a group \<^verbatim>\<open>a\<close> and directly inside it a group \<^verbatim>\<open>b\<close>, whatever the two (ASCII) names and the plain text around
  and inside them, the group \<^verbatim>\<open>b\<close> is not found; with any plain text between the two it is found as group 2.
\<close>

theorem nested_named_group_missed:
  assumes "group_name a" and "group_name b" and "a \<noteq> b" and "list_all plain w" and "list_all plain body"
    and "list_all plain m" and "m \<noteq> []"
  shows "re_parse_captures (nested_groups w a [] b body @ [0]) (length (nested_groups w a [] b body)) utf16 (Some b) = Some (- 1, True) \<and>
    re_parse_captures (nested_groups w a m b body @ [0]) (length (nested_groups w a m b body)) utf16 (Some b) = Some (2, True)"
proof
  let ?in = "\<lambda>m. m @ str ''(?<'' @ b @ ch CHR ''>'' # body @ str ''))'' @ [0]"
  have s: "str ''(?<'' = [ch CHR ''('', ch CHR ''?'', ch CHR ''<'']" "str ''))'' = [ch CHR '')'', ch CHR '')'']" by (simp_all add: str_def)
  have five: "x + (y + 5) = Suc (Suc (Suc (Suc (Suc (x + y)))))" "x + (y + (z + 5)) = Suc (Suc (Suc (Suc (Suc (x + (y + z))))))" for x y z :: nat by simp_all
  have start: "captures_loop (nested_groups w a m b body @ [0]) (length (nested_groups w a m b body)) utf16 (Some b) 0 1 False =
    captures_loop (nested_groups w a m b body @ [0]) (length (nested_groups w a m b body)) utf16 (Some b) (length w + length a + 5) 2 True" for m
    using captures_plain [OF assms(4), of "[]" "length (nested_groups w a m b body)" "str ''(?<'' @ a @ ch CHR ''>'' # ?in m"]
      captures_named [OF assms(1), of w "length (nested_groups w a m b body)" 1 "?in m" utf16 b False] assms(3)
    by (simp add: nested_groups_def s CAPTURE_COUNT_MAX_def numeral_2_eq_2)
  let ?rest = "ch CHR ''?'' # ch CHR ''<'' # b @ ch CHR ''>'' # body @ str ''))''"
  have "list_all plain b" using assms(2) ident_plain by (auto simp: group_name_def list_all_iff)
  moreover have "plain (ch CHR ''?'')" "plain (ch CHR ''<'')" "plain (ch CHR ''>'')" "plain (ch CHR '')'')" by code_simp+
  ultimately have "list_all plain ?rest" using assms(5) by (simp add: s)
  from captures_plain [OF this, of "w @ str ''(?<'' @ a @ [ch CHR ''>'', ch CHR ''('']" "length (nested_groups w a [] b body)" "[0]" utf16 "Some b" 2 True]
  have "captures_loop (nested_groups w a [] b body @ [0]) (length (nested_groups w a [] b body)) utf16 (Some b) (length w + length a + 5) 2 True =
    captures_loop (nested_groups w a [] b body @ [0]) (length (nested_groups w a [] b body)) utf16 (Some b) (length (nested_groups w a [] b body)) 2 True"
    by (simp add: nested_groups_def s add.commute add.left_commute five)
  also have "\<dots> = Some (Inr 2, True)" by (simp add: captures_loop.simps)
  finally show "re_parse_captures (nested_groups w a [] b body @ [0]) (length (nested_groups w a [] b body)) utf16 (Some b) = Some (- 1, True)"
    using start [of "[]"] by (simp add: re_parse_captures_def)
  obtain x xs where m: "m = x # xs" "list_all plain xs" using assms(6,7) by (cases m) auto
  have "captures_loop (nested_groups w a m b body @ [0]) (length (nested_groups w a m b body)) utf16 (Some b) (length w + length a + 5) 2 True =
    captures_loop (nested_groups w a m b body @ [0]) (length (nested_groups w a m b body)) utf16 (Some b) (length w + length a + 5 + length xs) 2 True"
    using captures_plain [OF m(2), of "w @ str ''(?<'' @ a @ [ch CHR ''>'', x]" "length (nested_groups w a m b body)" "str ''(?<'' @ b @ ch CHR ''>'' # body @ str ''))'' @ [0]" utf16 "Some b" 2 True]
    by (simp add: nested_groups_def s m(1) add.commute add.left_commute five)
  also have "\<dots> = Some (Inl 2, True)"
    using captures_named [OF assms(2), of "w @ str ''(?<'' @ a @ ch CHR ''>'' # x # xs" "length (nested_groups w a m b body)" 2 "body @ str ''))'' @ [0]" utf16 b True]
    by (simp add: nested_groups_def s m(1) CAPTURE_COUNT_MAX_def add.commute add.left_commute five)
  finally show "re_parse_captures (nested_groups w a m b body @ [0]) (length (nested_groups w a m b body)) utf16 (Some b) = Some (2, True)"
    using start [of m] by (simp add: re_parse_captures_def)
qed

theorem nested_named_group_missed_witness:
  "re_parse_captures (str ''(?<a>(?<b>x))'' @ [0]) 13 False (Some (str ''b'')) = Some (- 1, True) \<and>
   re_parse_captures (str ''(?<a>y(?<b>x))'' @ [0]) 14 False (Some (str ''b'')) = Some (2, True)"
proof -
  have "group_name (str ''a'')" "group_name (str ''b'')" "str ''a'' \<noteq> str ''b''" "list_all plain (str ''x'')" "list_all plain (str ''y'')" "str ''y'' \<noteq> []"
    by code_simp+
  moreover have "nested_groups [] (str ''a'') [] (str ''b'') (str ''x'') = str ''(?<a>(?<b>x))''" "nested_groups [] (str ''a'') (str ''y'') (str ''b'') (str ''x'') = str ''(?<a>y(?<b>x))''"
    "length (str ''(?<a>(?<b>x))'') = 13" "length (str ''(?<a>y(?<b>x))'') = 14" by code_simp+
  ultimately show ?thesis using nested_named_group_missed [of "str ''a''" "str ''b''" "[]" "str ''x''" "str ''y''" False] by simp
qed

section \<open>Memory\<close>

text \<open>An allocator with a limit, and one that refuses the first block of two bytes.\<close>

definition limited_realloc :: "nat \<Rightarrow> realloc_func" where
  "limited_realloc limit p n = (if n \<le> limit then Some (take n p @ replicate (n - length p) 0) else None)"

definition refusing_realloc :: realloc_func where
  "refusing_realloc p n = (if p = [] \<and> n = 2 then None else Some (take n p @ replicate (n - length p) 0))"

text \<open>
  Alternatives when memory runs out.  With an allocator that refuses to grow the code at the jump between the two alternatives of
  \<^verbatim>\<open>ab|c\<close> the compiler does not report the error: it patches the jump that was not emitted, and the
  store leaves the allocated block.
\<close>

theorem alternation_out_of_memory:
  "lre_compile 7 (limited_realloc 40) (\<lambda>_ _. None) no_unicode (\<lambda>_. False) (str ''ab|c'' @ [0]) 4 0 = PUndefined"
  by code_simp

text \<open>
  Group names when memory runs out.  When the block for the group names is refused the compilation of a
  pattern with a named group succeeds and the name is gone: \<^verbatim>\<open>lre_get_groupnames\<close> returns a null pointer for the code.
\<close>

theorem group_name_lost:
  "(case lre_compile 9 refusing_realloc (\<lambda>_ _. None) no_unicode (\<lambda>_. False) (str ''(?<a>b)'' @ [0]) 7 0 of
      POk code \<Rightarrow> lre_get_groupnames code = Some None \<and> lre_get_capture_count code = Some 2
    | _ \<Rightarrow> False)"
  by code_simp

end
