(* ===== verification/Unicode_Sets_Tables.thy ===== *)
theory Unicode_Sets_Tables
  imports Unicode_Intervals "HOL-Library.Code_Target_Numeral"
begin

unbundle bit_operations_syntax

text \<open>
  General categories and scripts: the loops over their tables are instances of the contract
  \<open>run_table\<close>, and the tables decode into runs that cover the characters without gap.
\<close>

section \<open>General categories\<close>

text \<open>A value of 31 is a run in which upper and lower case letters alternate.\<close>

definition gc_of_run :: "int \<Rightarrow> int \<Rightarrow> int \<Rightarrow> nat" where
  "gc_of_run a v x = (if v = 31 then if even (x - a) then UNICODE_GC_Lu else UNICODE_GC_Ll else nat v)"

definition gc_pieces :: "u32 \<Rightarrow> int \<Rightarrow> int \<Rightarrow> int \<Rightarrow> (int \<times> int) list" where
  "gc_pieces m a b v =
     (if v = 31 then
        if bit m UNICODE_GC_Lu then if bit m UNICODE_GC_Ll then [(a, b)] else alternates a b
        else if bit m UNICODE_GC_Ll then alternates (a + 1) b else []
      else if bit m (nat v) then [(a, b)] else [])"

lemma next_byte_iff: "next_byte p = Some (b, q) \<longleftrightarrow> p = b # q"
  by (cases p) auto

lemma gc_run_length_append: "gc_run_length n p = Some (k, q) \<Longrightarrow> gc_run_length n (p @ r) = Some (k, q @ r)"
  by (cases p; cases "tl p" rule: remdups_adj.cases) (auto simp: gc_run_length_def split: if_splits)

lemma script_run_length_append: "script_run_length n p = Some (k, q) \<Longrightarrow> script_run_length n (p @ r) = Some (k, q @ r)"
  by (cases p rule: remdups_adj.cases) (auto simp: script_run_length_def split: if_splits)

lemma script_ext_run_length_append: "script_ext_run_length n p = Some (k, q) \<Longrightarrow> script_ext_run_length n (p @ r) = Some (k, q @ r)"
  by (cases p rule: remdups_adj.cases) (auto simp: script_ext_run_length_def split: if_splits)

lemma script_run_append:
  assumes "script_run p = Some (n, v, q)"
  shows "script_run (p @ r) = Some (n, v, q @ r)"
proof -
  obtain b p1 p2 where p: "p = b # p1" "script_run_length (b mod 0x80) p1 = Some (n, p2)"
    using assms by (auto simp: script_run_def Let_def bind_eq_Some_conv next_byte_iff)
  then show ?thesis using assms script_run_length_append [OF p(2), of r] by (cases p2) (auto simp: script_run_def Let_def split: if_splits)
qed

lemma script_ext_run_append:
  assumes "script_ext_run p = Some (n, vs, q)"
  shows "script_ext_run (p @ r) = Some (n, vs, q @ r)"
proof -
  obtain b p1 p2 where p: "p = b # p1" "script_ext_run_length b p1 = Some (n, p2)"
    using assms by (auto simp: script_ext_run_def bind_eq_Some_conv next_byte_iff split: if_splits)
  then show ?thesis using assms script_ext_run_length_append [OF p(2), of r] by (cases p2) (auto simp: script_ext_run_def split: if_splits)
qed

interpretation gc_table: run_table gc_run gc_pieces gc_loop "\<lambda>m a v x. bit m (gc_of_run a v x)"
proof unfold_locales
  fix m p c cr
  have "gc_mask AND M [UNICODE_GC_Ll] \<noteq> 0 \<longleftrightarrow> bit gc_mask 2" for gc_mask using mask_test [of gc_mask "[2]"] by simp
  moreover have "gc_mask AND M [UNICODE_GC_Lu, UNICODE_GC_Ll] \<noteq> 0 \<longleftrightarrow> bit gc_mask 1 \<or> bit gc_mask 2" for gc_mask
    using mask_test [of gc_mask "[1, 2]"] by simp
  moreover have "gc_mask AND M [UNICODE_GC_Lu, UNICODE_GC_Ll] = M [1, 2] \<longleftrightarrow> bit gc_mask 1 \<and> bit gc_mask 2" for gc_mask
    using mask_all [of "[1, 2]" gc_mask] by simp
  ultimately show "gc_loop m p c cr = (if p = [] then Some (cr, False) else do {
      (n, v, q) \<leftarrow> gc_run p;
      (cr', err) \<leftarrow> add_intervals cr (gc_pieces m c (c + n + 1) v);
      if err then Some (cr', True) else gc_loop m q (c + n + 1) cr'
    })"
    by (subst gc_loop.simps)
      (auto simp: Let_def gc_pieces_def drop_bit_and_1 add_one_interval add_alternate_intervals add.assoc
        intro!: Option.bind_cong simp del: add_intervals.simps(2) split: prod.splits)
next
  fix a b m v
  assume "a < (b :: int)"
  then show "intervals_in a (gc_pieces m a b v) b"
    using alternates_in [of a b] alternates_in [of "a + 1" b] by (auto simp: gc_pieces_def intro: intervals_in_lower)
next
  fix a x b m v
  assume "a \<le> (x :: int)" "x < b"
  then show "in_intervals (gc_pieces m a b v) x \<longleftrightarrow> bit m (gc_of_run a v x)"
    by (cases "x = a") (auto simp: gc_pieces_def gc_of_run_def in_alternates)
next
  fix p n v q r
  assume "gc_run p = Some (n, v, q)"
  then show "gc_run (p @ r) = Some (n, v, q @ r)"
    by (auto simp: gc_run_def bind_eq_Some_conv next_byte_iff gc_run_length_append)
qed


section \<open>Scripts\<close>

definition sel_pieces :: "bool \<Rightarrow> int \<Rightarrow> int \<Rightarrow> (int \<times> int) list" where
  "sel_pieces s a b = (if s then [(a, b)] else [])"

lemma sel_pieces_ok:
  "a < b \<Longrightarrow> intervals_in a (sel_pieces s a b) b" "a \<le> x \<Longrightarrow> x < b \<Longrightarrow> in_intervals (sel_pieces s a b) x \<longleftrightarrow> s"
  by (auto simp: sel_pieces_def)

lemma add_sel_pieces:
  "add_intervals cr (sel_pieces s a b) = (if s then cr_add_interval cr (of_int a) (of_int b) else Some (cr, False))"
  by (simp add: sel_pieces_def add_one_interval del: add_intervals.simps(2))

interpretation script_table: run_table script_run "\<lambda>idx a b v. sel_pieces (v = idx) a b" script_loop "\<lambda>idx a v x. v = idx"
proof unfold_locales
  fix i p c cr
  show "script_loop i p c cr = (if p = [] then Some (cr, False) else do {
      (n, v, q) \<leftarrow> script_run p;
      (cr', err) \<leftarrow> add_intervals cr (sel_pieces (v = i) c (c + n + 1));
      if err then Some (cr', True) else script_loop i q (c + n + 1) cr'
    })"
    by (subst script_loop.simps) (simp add: Let_def add_sel_pieces)
qed (use sel_pieces_ok script_run_append in auto)

text \<open>The scripts listed for a run, and whether one of them counts for a script.\<close>

definition ext_selected :: "int \<times> bool \<Rightarrow> int list \<Rightarrow> bool" where
  "ext_selected k vs = (if snd k then vs \<noteq> [] else fst k \<in> set vs)"

interpretation script_ext_table: run_table script_ext_run "\<lambda>k a b vs. sel_pieces (ext_selected k vs) a b"
  "\<lambda>k. script_ext_loop (fst k) (snd k)" "\<lambda>k a vs x. ext_selected k vs"
proof unfold_locales
  fix k p c cr
  show "script_ext_loop (fst k) (snd k) p c cr = (if p = [] then Some (cr, False) else do {
      (n, v, q) \<leftarrow> script_ext_run p;
      (cr', err) \<leftarrow> add_intervals cr (sel_pieces (ext_selected k v) c (c + n + 1));
      if err then Some (cr', True) else script_ext_loop (fst k) (snd k) q (c + n + 1) cr'
    })"
    by (subst script_ext_loop.simps) (simp add: Let_def add_sel_pieces ext_selected_def)
qed (use sel_pieces_ok script_ext_run_append in auto)

section \<open>The tables\<close>

lemma gc_table_codes: "\<exists>rs. decode_runs gc_run unicode_gc_table 0 = Some rs \<and> runs_cover 0 rs 0x110000"
  by (rule gc_table.table_decode [OF unicode_gc_table_def]) code_simp

lemma script_table_codes: "\<exists>rs. decode_runs script_run unicode_script_table 0 = Some rs \<and> runs_cover 0 rs 0xe01f0"
  by (rule script_table.table_decode [OF unicode_script_table_def]) code_simp

lemma script_ext_table_codes: "\<exists>rs. decode_runs script_ext_run unicode_script_ext_table 0 = Some rs \<and> runs_cover 0 rs 0x110000"
  by (rule script_ext_table.table_decode [OF unicode_script_ext_table_def]) code_simp

end
