(* ===== verification/Unicode_Props.thy ===== *)
theory Unicode_Props
  imports Unicode_Sets_Tables
begin

unbundle bit_operations_syntax

text \<open>
  Properties of characters: the tables of run lengths hold the set of the runs they decode to, and the
  stack machine computes the set that its program denotes, read as a Boolean expression in postfix form.
\<close>

section \<open>Property tables\<close>

fun pairs :: "int list \<Rightarrow> (int \<times> int) list" where
  "pairs (a # b # r) = (a, b) # pairs r"
| "pairs _ = []"

lemma pairs_in: "sorted_wrt (<) xs \<Longrightarrow> \<forall>x \<in> set xs. lo \<le> x \<and> x \<le> hi \<Longrightarrow> lo \<le> hi \<Longrightarrow> intervals_in lo (pairs xs) hi"
  by (induction xs arbitrary: lo rule: pairs.induct) (auto simp: less_imp_le)

lemma in_pairs: "sorted_wrt (<) xs \<Longrightarrow> even (length xs) \<Longrightarrow> in_intervals (pairs xs) x \<longleftrightarrow> in_runs xs x"
proof (induction xs rule: pairs.induct)
  case (1 a b r)
  have "\<not> in_runs r x" if "x < b"
  proof -
    have "filter (\<lambda>y. y \<le> x) r = []" using that "1.prems"(1) by (auto simp: filter_empty_conv)
    then show ?thesis by (simp add: in_runs_def)
  qed
  then show ?case using 1 by (cases "x < b") auto
qed auto

lemma codes_from_sorted: "\<forall>d \<in> set ds. 0 < d \<Longrightarrow> sorted_wrt (<) (codes_from k ds)"
  by (induction k ds rule: codes_from.induct) (auto dest: codes_from_gt)

lemma bounds_sorted: "bytes_ok bs \<Longrightarrow> sorted_wrt (<) (bounds bs code)"
proof (induction bs code rule: bounds.induct)
  case (1 bs code)
  show ?case
  proof (cases "run_step bs")
    case None
    then show ?thesis by (simp add: bounds.simps [of bs])
  next
    case (Some r)
    obtain ds bs' where r: "r = (ds, bs')" by (cases r)
    note pos = run_step_pos [OF "1.prems"(1) Some [unfolded r]]
    have "sorted_wrt (<) (codes_from code ds)" using pos codes_from_sorted by blast
    moreover have "x < y" if "x \<in> set (codes_from code ds)" "y \<in> set (bounds bs' (code + sum_list ds))" for x y
      using that codes_from_le [of ds x code] bounds_gt [of bs' y] pos by fastforce
    ultimately show ?thesis using "1.IH" [OF Some r [symmetric]] pos Some r by (auto simp: bounds.simps [of bs] sorted_wrt_append)
  qed
qed

text \<open>The loop adds the runs with the bit set, the bounds taken two by two.\<close>

lemma prop1_step:
  assumes "run_step p = Some (ds, q)"
  shows "(length ds = 1 \<or> length ds = 2) \<and> prop1_loop p c bi cr = do {
     (cr', err) \<leftarrow> add_intervals cr (case ds of [d] \<Rightarrow> if bi then [(c, c + d)] else []
       | [d, e] \<Rightarrow> if bi then [(c, c + d)] else [(c + d, c + d + e)] | _ \<Rightarrow> []);
     if err then Some (cr', True) else prop1_loop q (c + sum_list ds) (if length ds = 1 then \<not> bi else bi) cr'
   }"
proof -
  obtain b p1 where p: "p = b # p1" using assms by (cases p) (auto simp: run_step_def)
  consider "b < 64" | "64 \<le> b" "b < 0x60" | "0x60 \<le> b" "b < 0x80" | "0x80 \<le> b" by linarith
  then show ?thesis
  proof cases
    case 1
    then have "ds = [b div 8 + 1, b mod 8 + 1]" "q = p1" using assms p by (auto simp: run_step_def)
    then show ?thesis using 1 p by (cases bi; subst prop1_loop.simps) (simp_all add: Let_def add_one_interval algebra_simps del: add_intervals.simps(2) cong: if_cong)
  next
    case 2
    then obtain b0 where "p1 = b0 # q" "ds = [(b - 0x40) * 2 ^ 8 + b0 + 1]" using assms p by (auto simp: run_step_def split: list.splits)
    then show ?thesis using 2 p by (cases bi; subst prop1_loop.simps) (simp_all add: Let_def add_one_interval algebra_simps del: add_intervals.simps(2) cong: if_cong)
  next
    case 3
    then obtain b0 b1 where "p1 = b0 # b1 # q" "ds = [(b - 0x60) * 2 ^ 16 + b0 * 2 ^ 8 + b1 + 1]"
      using assms p by (auto simp: run_step_def split: list.splits)
    then show ?thesis using 3 p by (cases bi; subst prop1_loop.simps) (simp_all add: Let_def add_one_interval algebra_simps del: add_intervals.simps(2) cong: if_cong)
  next
    case 4
    then have "ds = [b - 0x80 + 1]" "q = p1" using assms p by (auto simp: run_step_def)
    then show ?thesis using 4 p by (cases bi; subst prop1_loop.simps) (simp_all add: Let_def add_one_interval algebra_simps del: add_intervals.simps(2) cong: if_cong)
  qed
qed

lemma result_id: "(case y of (cr, err) \<Rightarrow> if err then Some (cr, True) else Some (cr, False)) = Some y"
  by (cases y) auto

lemma prop1_loop_intervals:
  "block_end p c bi = Some (c', bi') \<Longrightarrow>
     prop1_loop p c bi cr = add_intervals cr (pairs (if bi then c # bounds p c else bounds p c))"
proof (induction p c bi arbitrary: cr rule: block_end.induct)
  case (1 p c bi)
  show ?case
  proof (cases "p = []")
    case True
    then show ?thesis by (simp add: prop1_loop.simps bounds.simps [of "[]"] run_step_def)
  next
    case False
    then obtain ds q where st: "run_step p = Some (ds, q)" "block_end q (c + sum_list ds) (bi \<noteq> (tl ds = [])) = Some (c', bi')"
      using "1.prems" by (auto simp: block_end.simps [of p] split: option.splits)
    note ih = "1.IH" [OF False st(1) refl st(2)]
    have B: "bounds p c = codes_from c ds @ bounds q (c + sum_list ds)" by (simp add: bounds.simps [of p] st(1))
    from prop1_step [OF st(1), of c bi cr] consider d where "ds = [d]" | d e where "ds = [d, e]"
      by (auto simp: length_Suc_conv numeral_2_eq_2)
    then show ?thesis
    proof cases
      case 1
      then show ?thesis using prop1_step [OF st(1), of c bi cr] ih B by (cases bi) (simp_all add: result_id cong: if_cong)
    next
      case 2
      then show ?thesis using prop1_step [OF st(1), of c bi cr] ih B by (cases bi) (simp_all add: result_id add.assoc cong: if_cong)
    qed
  qed
qed

text \<open>What is relied on of a table of a property: it decodes to its end, outside the set, below \<open>0x110000\<close>.\<close>

definition prop_table_ok :: "int list \<Rightarrow> bool" where
  "prop_table_ok tab \<longleftrightarrow> bytes_ok tab \<and> (\<exists>k \<le> 0x110000. block_end tab 0 False = Some (k, False))"

lemma prop1_loop_builds:
  assumes "prop_table_ok tab" and "cr_empty cr" and "points_alloc (cr_realloc_func cr)"
  shows "builds (prop1_loop tab 0 False cr) (cr_realloc_func cr) 0x220000 (in_runs (bounds tab 0))"
proof -
  from assms(1) obtain k where k: "bytes_ok tab" "k \<le> 0x110000" "block_end tab 0 False = Some (k, False)" by (auto simp: prop_table_ok_def)
  from block_end_bounds [OF k(1,3), of "[]"] obtain B where "bounds tab 0 = B" "even (length B)" "block_bounds 0 k B"
    by (auto simp: bounds.simps [of "[]"] run_step_def)
  then have ev: "even (length (bounds tab 0))" and le: "\<forall>x \<in> set (bounds tab 0). x \<le> k" "0 \<le> k" by (auto simp: block_bounds_def)
  note srt = bounds_sorted [OF k(1), of 0]
  have "intervals_in 0 (pairs (bounds tab 0)) k" using srt le bounds_gt [OF k(1)] by (intro pairs_in) (auto simp: less_imp_le)
  moreover from this have "2 * length (pairs (bounds tab 0)) \<le> 0x220000" using k(2) by (auto dest: intervals_in_le)
  ultimately have "builds (add_intervals cr (pairs (bounds tab 0))) (cr_realloc_func cr) 0x220000 (in_intervals (pairs (bounds tab 0)))"
    using k(2) assms by (intro add_intervals_builds [of 0 _ k]) auto
  then show ?thesis using prop1_loop_intervals [OF k(3), of cr] in_pairs [OF srt ev] by (auto intro: builds_cong)
qed

section \<open>The tables of the program\<close>

lemma block_end_append:
  "block_end bs code bi = Some (code', bi') \<Longrightarrow> block_end (bs @ rest) code bi = block_end rest code' bi'"
proof (induction bs code bi rule: block_end.induct)
  case (1 bs code bi)
  show ?case
  proof (cases "bs = []")
    case True
    then show ?thesis using "1.prems" by (simp add: block_end.simps [of "[]"])
  next
    case False
    then obtain ds q where st: "run_step bs = Some (ds, q)" "block_end q (code + sum_list ds) (bi \<noteq> (tl ds = [])) = Some (code', bi')"
      using "1.prems" by (auto simp: block_end.simps [of bs] split: option.splits)
    then show ?thesis using "1.IH" [OF False st(1) refl st(2)] run_step_append [OF st(1), of rest] False
      by (simp add: block_end.simps [of "bs @ rest"])
  qed
qed

lemma blocks_ok_end: "blocks_ok blks p code as limit \<Longrightarrow> block_end (concat blks) code False = Some (limit, False) \<and> bytes_ok (concat blks)"
proof (induction blks p code as limit rule: blocks_ok.induct)
  case (1 p code as limit)
  then show ?case by (simp add: block_end.simps)
next
  case (2 blk blks p code as limit)
  then show ?case by (auto simp: block_end_append bytes_ok_def list_all_iff split: list.splits option.splits)
qed

lemma is_table_ok: "is_table tab ind \<Longrightarrow> last (le24s ind) \<le> 0x110000 \<Longrightarrow> prop_table_ok tab"
  using blocks_ok_end by (fastforce simp: is_table_def table_check_def prop_table_ok_def)

definition table_ends :: "int list \<Rightarrow> bool" where
  "table_ends tab \<longleftrightarrow> list_all (\<lambda>b. 0 \<le> b) tab \<and>
     (case block_end tab 0 False of Some (k, bi) \<Rightarrow> k \<le> 0x110000 \<and> \<not> bi | None \<Rightarrow> False)"

lemma table_ends_ok: "table_ends tab \<Longrightarrow> prop_table_ok tab"
  by (auto simp: table_ends_def prop_table_ok_def bytes_ok_def list_all_iff split: option.splits)

lemma indexed_tables_ok:
  "prop_table_ok unicode_prop_Case_Ignorable_table" "prop_table_ok unicode_prop_ID_Start_table" "prop_table_ok unicode_prop_ID_Continue1_table"
proof -
  show "prop_table_ok unicode_prop_Case_Ignorable_table" by (rule is_table_ok [OF Case_Ignorable_table]) code_simp
  show "prop_table_ok unicode_prop_ID_Start_table" by (rule is_table_ok [OF ID_Start_table]) code_simp
  show "prop_table_ok unicode_prop_ID_Continue1_table" by (rule is_table_ok [OF ID_Continue1_table]) code_simp
qed

lemma all_tables_ok: "list_all prop_table_ok unicode_prop_table"
  unfolding unicode_prop_table_def list.pred_inject(2)
  by (intro conjI list.pred_inject(1) indexed_tables_ok; (rule table_ends_ok, code_simp))

lemma length_prop_table: "length unicode_prop_table = 50"
  by (simp add: unicode_prop_table_def)

lemma unicode_prop1_builds:
  assumes "i < 50" and "cr_empty cr" and "points_alloc (cr_realloc_func cr)"
  shows "builds (unicode_prop1 cr i) (cr_realloc_func cr) 0x220000 (in_runs (bounds (unicode_prop_table ! i) 0))"
  using prop1_loop_builds [OF _ assms(2,3), of "unicode_prop_table ! i"] all_tables_ok assms(1)
  by (simp add: unicode_prop1_def rd_def length_prop_table list_all_length)

end
