(* ===== verification/Unicode_Expr.thy ===== *)
theory Unicode_Expr
  imports Unicode_Intervals
begin

unbundle bit_operations_syntax

text \<open>
  The stack machine of \<open>unicode_prop_ops\<close> as an evaluator of Boolean expressions over sets of
  characters.  The locale \<open>leaf_sets\<close> is what the machine relies on of the three kinds of operands:
  each builds its set in an empty range.
\<close>

section \<open>Set operations on ranges that hold sets\<close>

lemma cr_op_loop_take_b:
  "m \<le> length b \<Longrightarrow> cr_op_loop cr a n b m rop i j = cr_op_loop cr a n (take m b) m rop i j"
proof (induction "(n - i) + (m - j)" arbitrary: cr i j rule: less_induct)
  case less
  have nx: "cr_next a n (take m b) m i j = cr_next a n b m i j"
    using less.prems by (auto simp: cr_next_def rd_def)
  have "(n - i') + (m - j') < (n - i) + (m - j)" if "cr_next a n b m i j = Some (Some (v, i', j'))" for v i' j'
    using that by (auto simp: cr_next_def bind_eq_Some_conv split: if_splits)
  then have "cr_op_loop cr' a n b m rop i' j' = cr_op_loop cr' a n (take m b) m rop i' j'"
    if "cr_next a n b m i j = Some (Some (v, i', j'))" for v i' j' cr' using that less.hyps less.prems by blast
  then show ?case
    by (subst (1 2) cr_op_loop.simps) (auto simp: nx intro!: Option.bind_cong split: option.splits)
qed

lemma cr_op_take:
  assumes "cr_wf a" and "cr_wf b"
  shows "cr_op cr (cr_points a) (cr_len a) (cr_points b) (cr_len b) rop =
    cr_op cr (cr_live a) (length (cr_live a)) (cr_live b) (length (cr_live b)) rop"
  using assms cr_op_loop_take [of "cr_len a" "cr_points a"] cr_op_loop_take_b [of "cr_len b" "cr_points b"]
  by (simp add: cr_op_def cr_live_def cr_wf_def)

lemma canonical_sorted: "canonical xs \<Longrightarrow> sorted xs"
  using strict_sorted_imp_sorted unfolding canonical_def by blast

lemma holds_set_live: "holds_set cr realloc n S \<Longrightarrow> length (cr_live cr) = cr_len cr"
  by (simp add: holds_set_def cr_live_def cr_wf_def)

lemma cr_op_builds:
  assumes "holds_set a realloc n S" and "holds_set b realloc m T" and "n + m < 2 ^ 28" and "points_alloc realloc"
    and "cr_empty cr" and "cr_realloc_func cr = realloc"
  shows "builds (cr_op cr (cr_points a) (cr_len a) (cr_points b) (cr_len b) rop) realloc (n + m) (\<lambda>x. cr_is_in rop (S x) (T x))"
proof -
  note ab = assms(1,2)[unfolded holds_set_def] and l = holds_set_live [OF assms(1)] holds_set_live [OF assms(2)]
  have len: "length (cr_live a) + length (cr_live b) < 2 ^ 28" "length (cr_live a) + length (cr_live b) \<le> n + m" using ab assms(3) l by auto
  have "even (length (cr_live a))" "even (length (cr_live b))" "cr_wf cr" "cr_len cr = 0" "cr_size cr = 0"
    using ab l assms(5) by (auto simp: cr_empty_def)
  from cr_op_ok [OF _ _ this(1,2) len(1) assms(4) this(3) assms(6) this(4,5), of rop] ab obtain cr' err where
    r: "cr_op cr (cr_live a) (length (cr_live a)) (cr_live b) (length (cr_live b)) rop = Some (cr', err)" "cr_wf cr'"
      "cr_realloc_func cr' = realloc" "cr_size cr' \<le> 2 * (length (cr_live a) + length (cr_live b))"
      "err \<longrightarrow> (\<exists>p n. realloc p n = None)"
      "\<not> err \<longrightarrow> canonical (cr_live cr') \<and> cr_len cr' \<le> length (cr_live a) + length (cr_live b) \<and>
       (\<forall>x. in_points (cr_live cr') x \<longleftrightarrow> cr_is_in rop (in_points (cr_live a) x) (in_points (cr_live b) x))" by blast
  have "\<not> err \<longrightarrow> holds_set cr' realloc (n + m) (\<lambda>x. cr_is_in rop (S x) (T x))"
    using r len(2) ab canonical_sorted [of "cr_live cr'"] by (auto simp: holds_set_def canonical_def cr_live_def cr_wf_def)
  then show ?thesis using r cr_op_take [of a b cr rop] ab by (auto simp: builds_def alloc_always_def)
qed

text \<open>The complement stays below the highest 32 bit code.\<close>

definition complement :: "(int \<Rightarrow> bool) \<Rightarrow> int \<Rightarrow> bool" where
  "complement S x \<longleftrightarrow> x < 2 ^ 32 - 1 \<and> \<not> S x"

lemma less_minus_1: "(x :: u32) < - 1 \<longleftrightarrow> uint x < 2 ^ 32 - 1"
  by (simp add: word_less_def unsigned_minus_1_eq_mask mask_eq_exp_minus_1)

lemma cr_invert_builds:
  assumes "holds_set a realloc n S" and "2 \<le> n" and "n < 2 ^ 28" and "points_alloc realloc"
  shows "builds (cr_invert a) realloc (2 * n) (complement S)"
proof -
  note a = assms(1)[unfolded holds_set_def]
  have "cr_size a * 3 < 2 ^ 31" "points_alloc (cr_realloc_func a)" using a assms(3,4) by auto
  from cr_invert_ok [OF _ this(2,1)] a obtain cr' err where
    r: "cr_invert a = Some (cr', err)" "cr_wf cr'" "cr_realloc_func cr' = realloc"
      "cr_size cr' \<le> max (cr_size a) (max (cr_len a + 2) (cr_size a * 3 div 2))" "err \<longrightarrow> \<not> alloc_always realloc"
      "\<not> err \<longrightarrow> canonical (cr_live cr') \<and> cr_len cr' \<le> cr_len a + 2 \<and>
        (\<forall>x. in_points (cr_live cr') x \<longleftrightarrow> x < - 1 \<and> \<not> in_points (cr_live a) x)" by auto
  have "max (cr_size a) (max (cr_len a + 2) (cr_size a * 3 div 2)) \<le> 2 * (2 * n)" using a assms(2) by auto
  with r(4) have sz: "cr_size cr' \<le> 2 * (2 * n)" by (rule order_trans)
  have "\<not> err \<longrightarrow> holds_set cr' realloc (2 * n) (complement S)"
    using r sz a assms(2) canonical_sorted [of "cr_live cr'"] unfolding less_minus_1
    by (auto simp: holds_set_def canonical_def complement_def cr_live_def cr_wf_def)
  then show ?thesis using r by (auto simp: builds_def)
qed

lemma cr_copy_builds:
  assumes "holds_set a realloc n S" and "cr_empty cr" and "points_alloc realloc" and "cr_realloc_func cr = realloc"
  shows "builds (cr_copy cr a) realloc n S"
proof -
  note a = assms(1)[unfolded holds_set_def]
  have "cr_wf cr" "points_alloc (cr_realloc_func cr)" "cr_size cr * 3 < 2 ^ 31" "cr_size cr = 0" using assms(2-4) by (auto simp: cr_empty_def)
  with cr_realloc_ok [OF this(1-3), of "cr_len a"] obtain cr' err where
    r: "cr_realloc cr (cr_len a) = Some (cr', err)" "cr_wf cr'" "cr_realloc_func cr' = realloc" "cr_size cr' \<le> cr_len a"
      "\<not> err \<longrightarrow> cr_len a \<le> cr_size cr'" "alloc_always realloc \<longrightarrow> \<not> err" using assms(4) by auto
  show ?thesis
  proof (cases err)
    case True
    then show ?thesis using r by (auto simp: builds_def cr_copy_def)
  next
    case False
    let ?cr = "cr'\<lparr>cr_points := take (cr_len a) (cr_points a) @ drop (cr_len a) (cr_points cr'), cr_len := cr_len a\<rparr>"
    have le: "cr_len a \<le> length (cr_points cr')" "cr_len a \<le> length (cr_points a)" using False r(2,5) a by (auto simp: cr_wf_def)
    then have "cr_copy cr a = Some (?cr, False)" using False r(1) by (simp add: cr_copy_def)
    moreover have "cr_live ?cr = cr_live a" using le by (simp add: cr_live_def)
    moreover have "cr_wf ?cr" using le r(2) by (simp add: cr_wf_def)
    ultimately show ?thesis using a r(3,4) by (auto simp: builds_def holds_set_def)
  qed
qed

section \<open>Expressions and their programs\<close>

datatype set_expr =
    In_category u32 | Has_property nat | Changed_by u32 | Combined CharRangeOpEnum set_expr set_expr | Complement set_expr

fun pop_of :: "CharRangeOpEnum \<Rightarrow> PropOPEnum" where
  "pop_of CR_OP_UNION = POP_UNION"
| "pop_of CR_OP_INTER = POP_INTER"
| "pop_of CR_OP_XOR = POP_XOR"

fun postfix :: "set_expr \<Rightarrow> PropOPEnum list" where
  "postfix (In_category m) = [POP_GC m]"
| "postfix (Has_property i) = [POP_PROP i]"
| "postfix (Changed_by m) = [POP_CASE m]"
| "postfix (Combined rop a b) = postfix a @ postfix b @ [pop_of rop]"
| "postfix (Complement a) = postfix a @ [POP_INVERT]"

text \<open>The set an expression denotes, given those of its operands.\<close>

primrec denotes :: "(u32 \<Rightarrow> int \<Rightarrow> bool) \<Rightarrow> (nat \<Rightarrow> int \<Rightarrow> bool) \<Rightarrow> (u32 \<Rightarrow> int \<Rightarrow> bool) \<Rightarrow> set_expr \<Rightarrow> int \<Rightarrow> bool" where
  "denotes cs ps hs (In_category m) = cs m"
| "denotes cs ps hs (Has_property i) = ps i"
| "denotes cs ps hs (Changed_by m) = hs m"
| "denotes cs ps hs (Combined rop a b) = (\<lambda>x. cr_is_in rop (denotes cs ps hs a x) (denotes cs ps hs b x))"
| "denotes cs ps hs (Complement a) = complement (denotes cs ps hs a)"

text \<open>The entries of the stack an expression takes; an operation needs one for its result.\<close>

fun stack_need :: "set_expr \<Rightarrow> nat" where
  "stack_need (Combined rop a b) = max (stack_need a) (max (stack_need b + 1) 3)"
| "stack_need (Complement a) = stack_need a"
| "stack_need _ = 1"

fun points_need :: "set_expr \<Rightarrow> nat" where
  "points_need (Combined rop a b) = points_need a + points_need b"
| "points_need (Complement a) = 2 * points_need a"
| "points_need _ = 0x220000"

fun leaves_ok :: "set_expr \<Rightarrow> bool" where
  "leaves_ok (Has_property i) = (i < 50)"
| "leaves_ok (Combined rop a b) = (leaves_ok a \<and> leaves_ok b)"
| "leaves_ok (Complement a) = leaves_ok a"
| "leaves_ok _ = True"

fun pop_steps :: "CharRange \<Rightarrow> PropOPEnum list \<Rightarrow> CharRange list \<Rightarrow> (CharRange list \<times> bool) option" where
  "pop_steps cr [] stack = Some (stack, False)"
| "pop_steps cr (op # ops) stack = do {
     (stack, err) \<leftarrow> pop_step cr op stack;
     if err then Some (stack, True) else pop_steps cr ops stack
   }"

lemma pop_steps_append:
  "pop_steps cr (ops @ ops') stack = do {
     (stack, err) \<leftarrow> pop_steps cr ops stack;
     if err then Some (stack, True) else pop_steps cr ops' stack
   }"
proof (induction cr ops stack rule: pop_steps.induct)
  case (2 cr op ops stack)
  then show ?case by (cases "pop_step cr op stack") auto
qed simp

lemma pop_loop_steps:
  "pop_loop cr ops stack = do {
     (stack, err) \<leftarrow> pop_steps cr ops stack;
     if err then Some (cr, True) else case stack of [x] \<Rightarrow> cr_copy cr x | _ \<Rightarrow> None
   }"
proof (induction cr ops stack rule: pop_loop.induct)
  case (2 cr op ops stack)
  then show ?case by (cases "pop_step cr op stack") auto
qed simp

lemma points_need_ge: "2 \<le> points_need e"
  by (induction e) auto

text \<open>A step that pushes a range with a set, or fails because the allocator does.\<close>

definition pushes :: "(CharRange list \<times> bool) option \<Rightarrow> CharRange list \<Rightarrow> points_realloc \<Rightarrow> nat \<Rightarrow> (int \<Rightarrow> bool) \<Rightarrow> bool" where
  "pushes r stack realloc n S \<longleftrightarrow> (\<exists>stack' err. r = Some (stack', err) \<and>
     (if err then \<not> alloc_always realloc else \<exists>x. stack' = x # stack \<and> holds_set x realloc n S))"

lemma pop_push_pushes:
  "builds (f (cr_fresh cr)) realloc n S \<Longrightarrow> length stack < 4 \<Longrightarrow> pushes (pop_push f cr stack) stack realloc n S"
proof -
  assume b: "builds (f (cr_fresh cr)) realloc n S" and len: "length stack < 4"
  from b obtain x err where "f (cr_fresh cr) = Some (x, err)" "if err then \<not> alloc_always realloc else holds_set x realloc n S"
    unfolding builds_def by blast
  then show ?thesis using len by (cases err) (auto simp: pushes_def pop_push_def POP_STACK_LEN_MAX_def)
qed

lemma pop_steps_single: "pop_steps cr [op] stack = pop_step cr op stack"
  by (cases "pop_step cr op stack") auto

lemma pushes_bind:
  assumes "pushes r stack realloc n S"
    and "\<And>x. holds_set x realloc n S \<Longrightarrow> pushes (k (x # stack)) stack' realloc m T"
  shows "pushes (do { (st, err) \<leftarrow> r; if err then Some (st, True) else k st }) stack' realloc m T"
  using assms by (fastforce simp: pushes_def split: if_splits)

locale leaf_sets =
  fixes category_set :: "u32 \<Rightarrow> int \<Rightarrow> bool" and property_set :: "nat \<Rightarrow> int \<Rightarrow> bool" and changed_set :: "u32 \<Rightarrow> int \<Rightarrow> bool"
  assumes category_builds: "cr_empty cr \<Longrightarrow> points_alloc (cr_realloc_func cr) \<Longrightarrow>
      builds (unicode_general_category1 cr m) (cr_realloc_func cr) 0x220000 (category_set m)"
    and property_builds: "i < 50 \<Longrightarrow> cr_empty cr \<Longrightarrow> points_alloc (cr_realloc_func cr) \<Longrightarrow>
      builds (unicode_prop1 cr i) (cr_realloc_func cr) 0x220000 (property_set i)"
    and changed_builds: "cr_empty cr \<Longrightarrow> points_alloc (cr_realloc_func cr) \<Longrightarrow>
      builds (unicode_case1 cr m) (cr_realloc_func cr) 0x220000 (changed_set m)"
begin

abbreviation denotation :: "set_expr \<Rightarrow> int \<Rightarrow> bool" where
  "denotation \<equiv> denotes category_set property_set changed_set"

lemma postfix_pushes:
  "leaves_ok e \<Longrightarrow> length stack + stack_need e \<le> 4 \<Longrightarrow> points_need e < 2 ^ 28 \<Longrightarrow> points_alloc (cr_realloc_func cr) \<Longrightarrow>
     pushes (pop_steps cr (postfix e) stack) stack (cr_realloc_func cr) (points_need e) (denotation e)"
proof (induction e arbitrary: stack)
  case (In_category m)
  then show ?case using category_builds [of "cr_fresh cr" m] by (simp add: pop_steps_single pop_push_pushes del: pop_steps.simps(2))
next
  case (Has_property i)
  then show ?case using property_builds [of i "cr_fresh cr"] by (simp add: pop_steps_single pop_push_pushes del: pop_steps.simps(2))
next
  case (Changed_by m)
  then show ?case using changed_builds [of "cr_fresh cr" m] by (simp add: pop_steps_single pop_push_pushes del: pop_steps.simps(2))
next
  case (Combined rop a b)
  let ?re = "cr_realloc_func cr"
  have op: "pushes (pop_steps cr [pop_of rop] (y # x # stack)) stack ?re (points_need a + points_need b) (denotation (Combined rop a b))"
    if "holds_set x ?re (points_need a) (denotation a)" "holds_set y ?re (points_need b) (denotation b)" for x y
  proof -
    have "builds (cr_op (cr_fresh cr) (cr_points x) (cr_len x) (cr_points y) (cr_len y) rop) ?re (points_need a + points_need b) (denotation (Combined rop a b))"
      using cr_op_builds [OF that _ Combined.prems(4), of "cr_fresh cr" rop] Combined.prems(3) by simp
    then obtain z err where "cr_op (cr_fresh cr) (cr_points x) (cr_len x) (cr_points y) (cr_len y) rop = Some (z, err)"
      "if err then \<not> alloc_always ?re else holds_set z ?re (points_need a + points_need b) (denotation (Combined rop a b))" unfolding builds_def by blast
    moreover have "pop_step cr (pop_of rop) (y # x # stack) = pop_binary rop cr (y # x # stack)" by (cases rop) auto
    ultimately show ?thesis using Combined.prems(2)
      by (cases err) (auto simp: pop_steps_single pushes_def pop_binary_def POP_STACK_LEN_MAX_def)
  qed
  show ?case unfolding postfix.simps pop_steps_append points_need.simps
    using Combined.prems by (intro pushes_bind [OF Combined.IH(1)] pushes_bind [OF Combined.IH(2)] op) auto
next
  case (Complement a)
  let ?re = "cr_realloc_func cr"
  have "pushes (pop_steps cr [POP_INVERT] (x # stack)) stack ?re (2 * points_need a) (complement (denotation a))"
    if "holds_set x ?re (points_need a) (denotation a)" for x
  proof -
    from cr_invert_builds [OF that points_need_ge _ Complement.prems(4)] Complement.prems(3) obtain z err where
      "cr_invert x = Some (z, err)" "if err then \<not> alloc_always ?re else holds_set z ?re (2 * points_need a) (complement (denotation a))"
      by (auto simp: builds_def)
    then show ?thesis by (cases err) (auto simp: pop_steps_single pushes_def)
  qed
  then show ?case unfolding postfix.simps pop_steps_append points_need.simps denotes.simps
    using Complement.prems by (intro pushes_bind [OF Complement.IH]) auto
qed

theorem unicode_prop_ops_builds:
  assumes "leaves_ok e" and "stack_need e \<le> 4" and "points_need e < 2 ^ 28" and "cr_empty cr" and "points_alloc (cr_realloc_func cr)"
  shows "builds (unicode_prop_ops cr (postfix e)) (cr_realloc_func cr) (points_need e) (denotation e)"
proof -
  from postfix_pushes [OF assms(1) _ assms(3,5), of "[]"] assms(2) obtain stack' err where
    r: "pop_steps cr (postfix e) [] = Some (stack', err)"
      "if err then \<not> alloc_always (cr_realloc_func cr) else \<exists>x. stack' = [x] \<and> holds_set x (cr_realloc_func cr) (points_need e) (denotation e)"
    by (auto simp: pushes_def)
  show ?thesis
  proof (cases err)
    case True
    then show ?thesis using r assms(4) unfolding builds_def
      by (intro exI [of _ cr] exI [of _ True]) (simp add: unicode_prop_ops_def pop_loop_steps cr_empty_def)
  next
    case False
    then show ?thesis using r cr_copy_builds [OF _ assms(4,5) refl] by (auto simp: unicode_prop_ops_def pop_loop_steps)
  qed
qed

end

end
