(* ===== verification/Unicode_Queries.thy ===== *)
theory Unicode_Queries
  imports Unicode_Props Unicode_Names Unicode_Case_Sets Unicode_Expr
begin

unbundle bit_operations_syntax

text \<open>
  The three queries that \<open>\p{...}\<close> makes: general categories, scripts and properties by name.  Each is
  shown to build the set of characters that its table, or the Boolean expression of a derived
  property, stands for.
\<close>

section \<open>The outcome of a query\<close>

text \<open>
  The range holds the set and the result is 0, or the result is -1 and the allocator failed.
\<close>

definition answers :: "(CharRange \<times> int) option \<Rightarrow> points_realloc \<Rightarrow> (int \<Rightarrow> bool) \<Rightarrow> bool" where
  "answers r realloc S \<longleftrightarrow> (\<exists>cr ret. r = Some (cr, ret) \<and> cr_wf cr \<and>
     (ret = - 1 \<and> \<not> alloc_always realloc \<or>
      ret = 0 \<and> cr_realloc_func cr = realloc \<and> cr_size cr < 2 ^ 29 \<and> sorted (cr_live cr) \<and> even (cr_len cr) \<and> (\<forall>x. in_points (cr_live cr) x \<longleftrightarrow> S (uint x))))"

lemma builds_answers: "builds r realloc n S \<Longrightarrow> n < 2 ^ 28 \<Longrightarrow> answers (ret_of r) realloc S"
  by (auto simp: builds_def answers_def ret_of_def holds_set_def split: if_splits)

lemma find_name_range:
  assumes "tab = zero_terminated names" and "entries_ok names n"
  shows "\<exists>i. unicode_find_name tab name = Some i \<and> (i = - 1 \<or> 0 \<le> i \<and> i < int n)"
proof -
  have "\<forall>s \<in> set names. entry_name s" using assms(2) by (auto simp: entries_ok_def entry_name_def list_all_iff)
  from find_entry_loop_entries [OF this, of name 0] name_pos_range [of names name 0] assms show ?thesis
    by (auto simp: unicode_find_name_def entries_ok_def)
qed

section \<open>General categories\<close>

text \<open>The category of a character, and the categories a name stands for.\<close>

definition general_category :: "int \<Rightarrow> nat option" where
  "general_category x = do {
     rs \<leftarrow> decode_runs gc_run unicode_gc_table 0;
     (a, v) \<leftarrow> run_at rs x;
     Some (gc_of_run a v x)
   }"

definition category_group :: "nat \<Rightarrow> nat list" where
  "category_group i = (if i \<le> UNICODE_GC_Co then [i]
     else [[UNICODE_GC_Lu, UNICODE_GC_Ll, UNICODE_GC_Lt],
           [UNICODE_GC_Lu, UNICODE_GC_Ll, UNICODE_GC_Lt, UNICODE_GC_Lm, UNICODE_GC_Lo],
           [UNICODE_GC_Mn, UNICODE_GC_Mc, UNICODE_GC_Me],
           [UNICODE_GC_Nd, UNICODE_GC_Nl, UNICODE_GC_No],
           [UNICODE_GC_Sm, UNICODE_GC_Sc, UNICODE_GC_Sk, UNICODE_GC_So],
           [UNICODE_GC_Pc, UNICODE_GC_Pd, UNICODE_GC_Ps, UNICODE_GC_Pe, UNICODE_GC_Pi, UNICODE_GC_Pf, UNICODE_GC_Po],
           [UNICODE_GC_Zs, UNICODE_GC_Zl, UNICODE_GC_Zp],
           [UNICODE_GC_Cc, UNICODE_GC_Cf, UNICODE_GC_Cs, UNICODE_GC_Co, UNICODE_GC_Cn]] ! (i - UNICODE_GC_LC))"

definition category_set :: "u32 \<Rightarrow> int \<Rightarrow> bool" where
  "category_set m x \<longleftrightarrow> (\<exists>g. general_category x = Some g \<and> bit m g)"

lemma general_category_total: "general_category x \<noteq> None \<longleftrightarrow> 0 \<le> x \<and> x < 0x110000"
proof -
  from gc_table_codes obtain rs where rs: "decode_runs gc_run unicode_gc_table 0 = Some rs" "runs_cover 0 rs 0x110000" by blast
  then show ?thesis using run_at_Some [OF rs(2), of x] by (cases "run_at rs x") (auto simp: general_category_def)
qed

lemma category1_builds:
  assumes "cr_empty cr" and "points_alloc (cr_realloc_func cr)"
  shows "builds (unicode_general_category1 cr m) (cr_realloc_func cr) 0x220000 (category_set m)"
proof -
  from gc_table_codes obtain rs where rs: "decode_runs gc_run unicode_gc_table 0 = Some rs" "runs_cover 0 rs 0x110000" by blast
  have "builds (gc_loop m unicode_gc_table 0 cr) (cr_realloc_func cr) 0x220000
      (\<lambda>x. \<exists>a v. run_at rs x = Some (a, v) \<and> bit m (gc_of_run a v x))"
    by (rule gc_table.loop_builds [OF rs _ assms]) simp_all
  then show ?thesis unfolding unicode_general_category1_def
    by (rule builds_cong) (auto simp: category_set_def general_category_def rs(1) bind_eq_Some_conv)
qed

lemma bit_category_group: "i < 38 \<Longrightarrow> list_all (\<lambda>g. g < 30) (category_group i)"
  by (auto simp: category_group_def less_Suc_eq numeral_eq_Suc)

lemma gc_mask_group:
  assumes "i < 38"
  shows "(if i \<le> UNICODE_GC_Co then Some (push_bit i 1) else rd unicode_gc_mask_table (i - UNICODE_GC_LC)) = Some (M (category_group i))"
  using assms by (auto simp: category_group_def unicode_gc_mask_table_def rd_def M_def less_Suc_eq numeral_eq_Suc)

lemma category_query:
  assumes "cr_empty cr" and "points_alloc (cr_realloc_func cr)"
  shows "\<exists>i. unicode_find_name unicode_gc_name_table gc_name = Some i \<and>
      (if i < 0 then unicode_general_category cr gc_name = Some (cr, - 2)
       else answers (unicode_general_category cr gc_name) (cr_realloc_func cr)
         (\<lambda>x. \<exists>g. general_category x = Some g \<and> g \<in> set (category_group (nat i))))"
proof -
  from gc_names find_name_range obtain i where i: "unicode_find_name unicode_gc_name_table gc_name = Some i" "i = - 1 \<or> 0 \<le> i \<and> i < 38"
    by (metis of_nat_numeral)
  show ?thesis
  proof (intro exI [of _ i] conjI i(1))
    show "if i < 0 then unicode_general_category cr gc_name = Some (cr, - 2)
       else answers (unicode_general_category cr gc_name) (cr_realloc_func cr)
         (\<lambda>x. \<exists>g. general_category x = Some g \<and> g \<in> set (category_group (nat i)))"
    proof (cases "i < 0")
      case True
      then show ?thesis using i by (simp add: unicode_general_category_def)
    next
      case False
      then have n: "nat i < 38" using i(2) by auto
      have "category_set (M (category_group (nat i))) x \<longleftrightarrow> (\<exists>g. general_category x = Some g \<and> g \<in> set (category_group (nat i)))" for x
        using bit_category_group [OF n] by (fastforce simp: category_set_def bit_M list_all_iff)
      with builds_answers [OF category1_builds [OF assms, of "M (category_group (nat i))"]]
      have "answers (ret_of (unicode_general_category1 cr (M (category_group (nat i))))) (cr_realloc_func cr)
         (\<lambda>x. \<exists>g. general_category x = Some g \<and> g \<in> set (category_group (nat i)))" by (simp add: answers_def)
      then show ?thesis using False i(1) gc_mask_group [OF n] by (simp add: unicode_general_category_def)
    qed
  qed
qed

text \<open>
  C26. Asking for a general category by name: an unknown name gives -2 and leaves the range alone.
  For a known name the query never leaves its tables, fails only if the allocator does, and otherwise
  the range holds exactly the characters whose category is the one named, or one of the group named.
  The table gives each of the \<open>0x110000\<close> code points one category and no other code any.
\<close>

theorem general_category_sets:
  assumes "cr_empty cr" and "points_alloc (cr_realloc_func cr)"
  shows "(\<exists>i. unicode_find_name unicode_gc_name_table gc_name = Some i \<and>
      (if i < 0 then unicode_general_category cr gc_name = Some (cr, - 2)
       else answers (unicode_general_category cr gc_name) (cr_realloc_func cr)
         (\<lambda>x. \<exists>g. general_category x = Some g \<and> g \<in> set (category_group (nat i))))) \<and>
    (general_category x \<noteq> None \<longleftrightarrow> 0 \<le> x \<and> x < 0x110000)"
  using category_query [OF assms, of gc_name] general_category_total [of x] by (rule conjI)

lemma empty_init: "cr_empty (cr_init r (Some test_realloc))" "cr_realloc_func (cr_init r (Some test_realloc)) = test_realloc"
  by (simp_all add: cr_empty_def cr_init_def cr_wf_def)

theorem general_category_sets_witness:
  "\<exists>i. unicode_find_name unicode_gc_name_table ''Lu'' = Some i \<and>
     (if i < 0 then unicode_general_category (cr_init test_realloc (Some test_realloc)) ''Lu'' = Some (cr_init test_realloc (Some test_realloc), - 2)
      else answers (unicode_general_category (cr_init test_realloc (Some test_realloc)) ''Lu'') test_realloc
        (\<lambda>x. \<exists>g. general_category x = Some g \<and> g \<in> set (category_group (nat i))))"
  using conjunct1 [OF general_category_sets [of "cr_init test_realloc (Some test_realloc)" "''Lu''" 0]] test_realloc_ok
  by (simp only: empty_init)

section \<open>Scripts\<close>

text \<open>The script of a character and the scripts listed in its script extensions.\<close>

definition script_of :: "int \<Rightarrow> int option" where
  "script_of x = do {
     rs \<leftarrow> decode_runs script_run unicode_script_table 0;
     (a, v) \<leftarrow> run_at rs x;
     Some v
   }"

definition script_extensions :: "int \<Rightarrow> int list" where
  "script_extensions x = (case do { rs \<leftarrow> decode_runs script_ext_run unicode_script_ext_table 0; run_at rs x } of
     None \<Rightarrow> [] | Some (a, vs) \<Rightarrow> vs)"

definition in_script :: "int \<Rightarrow> bool \<Rightarrow> int \<Rightarrow> bool" where
  "in_script idx is_ext x \<longleftrightarrow>
     (if \<not> is_ext then script_of x = Some idx
      else if idx = UNICODE_SCRIPT_Common \<or> idx = UNICODE_SCRIPT_Inherited then script_of x = Some idx \<and> script_extensions x = []
      else script_of x = Some idx \<or> idx \<in> set (script_extensions x))"

lemma script_of_range: "script_of x = Some v \<Longrightarrow> x < 0xe01f0"
proof -
  from script_table_codes obtain rs where rs: "decode_runs script_run unicode_script_table 0 = Some rs" "runs_cover 0 rs 0xe01f0" by blast
  then show "script_of x = Some v \<Longrightarrow> x < 0xe01f0" using run_at_Some [OF rs(2), of x] by (auto simp: script_of_def bind_eq_Some_conv)
qed

lemma script_builds:
  assumes "cr_empty cr" and "points_alloc (cr_realloc_func cr)"
  shows "builds (script_loop idx unicode_script_table 0 cr) (cr_realloc_func cr) 0x220000 (\<lambda>x. script_of x = Some idx)"
proof -
  from script_table_codes obtain rs where rs: "decode_runs script_run unicode_script_table 0 = Some rs" "runs_cover 0 rs 0xe01f0" by blast
  have "builds (script_loop idx unicode_script_table 0 cr) (cr_realloc_func cr) 0x220000 (\<lambda>x. \<exists>a v. run_at rs x = Some (a, v) \<and> v = idx)"
    by (rule script_table.loop_builds [OF rs _ assms]) simp_all
  then show ?thesis by (rule builds_cong) (auto simp: script_of_def rs(1) bind_eq_Some_conv)
qed

lemma script_ext_builds:
  assumes "cr_empty cr" and "points_alloc (cr_realloc_func cr)"
  shows "builds (script_ext_loop idx is_common unicode_script_ext_table 0 cr) (cr_realloc_func cr) 0x220000
    (\<lambda>x. if is_common then script_extensions x \<noteq> [] else idx \<in> set (script_extensions x))"
proof -
  from script_ext_table_codes obtain rs where rs: "decode_runs script_ext_run unicode_script_ext_table 0 = Some rs" "runs_cover 0 rs 0x110000" by blast
  have "builds (script_ext_loop (fst (idx, is_common)) (snd (idx, is_common)) unicode_script_ext_table 0 cr) (cr_realloc_func cr) 0x220000
      (\<lambda>x. \<exists>a vs. run_at rs x = Some (a, vs) \<and> ext_selected (idx, is_common) vs)"
    by (rule script_ext_table.loop_builds [OF rs _ assms]) simp_all
  then have "builds (script_ext_loop idx is_common unicode_script_ext_table 0 cr) (cr_realloc_func cr) 0x220000
      (\<lambda>x. \<exists>a vs. run_at rs x = Some (a, vs) \<and> ext_selected (idx, is_common) vs)" by simp
  then show ?thesis by (rule builds_cong) (auto simp: script_extensions_def ext_selected_def rs(1) split: option.splits)
qed

text \<open>A step of \<open>unicode_script\<close> yields a range with its set, or the function does not return; so does the whole.\<close>

definition yields :: "CharRange option \<Rightarrow> points_realloc \<Rightarrow> nat \<Rightarrow> (int \<Rightarrow> bool) \<Rightarrow> bool" where
  "yields r realloc n S \<longleftrightarrow> (case r of Some cr \<Rightarrow> holds_set cr realloc n S | None \<Rightarrow> \<not> alloc_always realloc)"

definition script_answers :: "(CharRange \<times> int) option \<Rightarrow> points_realloc \<Rightarrow> (int \<Rightarrow> bool) \<Rightarrow> bool" where
  "script_answers r realloc S \<longleftrightarrow> (case r of
      Some (cr, ret) \<Rightarrow> ret = 0 \<and> cr_wf cr \<and> cr_realloc_func cr = realloc \<and> cr_size cr < 2 ^ 29 \<and> sorted (cr_live cr) \<and> even (cr_len cr) \<and> (\<forall>x. in_points (cr_live cr) x \<longleftrightarrow> S (uint x))
    | None \<Rightarrow> \<not> alloc_always realloc)"

lemma script_fail_yields: "builds r realloc n S \<Longrightarrow> yields (script_fail r) realloc n S"
  by (auto simp: builds_def script_fail_def yields_def split: if_splits)

lemma yields_bind:
  "yields r realloc n S \<Longrightarrow> (\<And>cr. holds_set cr realloc n S \<Longrightarrow> script_answers (k cr) realloc T) \<Longrightarrow> script_answers (Option.bind r k) realloc T"
  by (cases r) (auto simp: yields_def script_answers_def)

lemma script_done: "holds_set cr realloc n S \<Longrightarrow> n < 2 ^ 28 \<Longrightarrow> (\<And>x. 0 \<le> x \<Longrightarrow> S x \<longleftrightarrow> T x) \<Longrightarrow> script_answers (Some (cr, 0)) realloc T"
  by (simp add: script_answers_def holds_set_def)

lemma unicode_script_ext:
  assumes "cr_empty cr" and "points_alloc (cr_realloc_func cr)" and "unicode_find_name unicode_script_name_table name = Some i" "0 \<le> i"
  shows "script_answers (unicode_script cr name True) (cr_realloc_func cr) (in_script (i + 1) True)"
proof -
  let ?re = "cr_realloc_func cr" and ?common = "i + 1 = UNICODE_SCRIPT_Common \<or> i + 1 = UNICODE_SCRIPT_Inherited"
  have f: "cr_empty (cr_fresh cr)" "points_alloc (cr_realloc_func (cr_fresh cr))" using assms(2) by simp_all
  have y1: "yields (script_fail (script_loop (i + 1) unicode_script_table 0 (cr_fresh cr))) ?re 0x220000 (\<lambda>x. script_of x = Some (i + 1))"
    using script_fail_yields [OF script_builds [OF f]] by simp
  have y2: "yields (script_fail (script_ext_loop (i + 1) com unicode_script_ext_table 0 (cr_fresh cr))) ?re 0x220000
      (\<lambda>x. if com then script_extensions x \<noteq> [] else i + 1 \<in> set (script_extensions x))" for com
    using script_fail_yields [OF script_ext_builds [OF f]] by simp
  show ?thesis
  proof (cases ?common)
    case True
    have "unicode_script cr name True = do {
       cr1 \<leftarrow> script_fail (script_loop (i + 1) unicode_script_table 0 (cr_fresh cr));
       cr2 \<leftarrow> script_fail (script_ext_loop (i + 1) True unicode_script_ext_table 0 (cr_fresh cr));
       cr2 \<leftarrow> script_fail (cr_invert cr2);
       cr \<leftarrow> script_fail (cr_op cr (cr_points cr1) (cr_len cr1) (cr_points cr2) (cr_len cr2) CR_OP_INTER);
       Some (cr, 0) }" using assms(3,4) True by (auto simp: unicode_script_def Let_def add.commute)
    moreover have "cr_is_in CR_OP_INTER (script_of x = Some (i + 1)) (complement (\<lambda>x. if True then script_extensions x \<noteq> [] else i + 1 \<in> set (script_extensions x)) x) \<longleftrightarrow>
        in_script (i + 1) True x" for x using True script_of_range [of x] by (auto simp: in_script_def complement_def)
    ultimately show ?thesis using assms(1,2)
      by (simp only:) (intro yields_bind [OF y1] yields_bind [OF y2] yields_bind [OF script_fail_yields [OF cr_invert_builds]]
        yields_bind [OF script_fail_yields [OF cr_op_builds]] script_done, assumption | simp)+
  next
    case False
    have "unicode_script cr name True = do {
       cr1 \<leftarrow> script_fail (script_loop (i + 1) unicode_script_table 0 (cr_fresh cr));
       cr2 \<leftarrow> script_fail (script_ext_loop (i + 1) False unicode_script_ext_table 0 (cr_fresh cr));
       cr \<leftarrow> script_fail (cr_op cr (cr_points cr1) (cr_len cr1) (cr_points cr2) (cr_len cr2) CR_OP_UNION);
       Some (cr, 0) }" using assms(3,4) False by (auto simp: unicode_script_def Let_def add.commute)
    moreover have "cr_is_in CR_OP_UNION (script_of x = Some (i + 1)) (if False then script_extensions x \<noteq> [] else i + 1 \<in> set (script_extensions x)) \<longleftrightarrow>
        in_script (i + 1) True x" for x using False by (auto simp: in_script_def)
    ultimately show ?thesis using assms(1,2)
      by (simp only:) (intro yields_bind [OF y1] yields_bind [OF y2] yields_bind [OF script_fail_yields [OF cr_op_builds]] script_done, assumption | simp)+
  qed
qed

lemma script_query:
  assumes "cr_empty cr" and "points_alloc (cr_realloc_func cr)"
  shows "\<exists>i. unicode_find_name unicode_script_name_table script_name = Some i \<and>
    (if i < 0 then unicode_script cr script_name is_ext = Some (cr, - 2)
     else script_answers (unicode_script cr script_name is_ext) (cr_realloc_func cr) (in_script (i + 1) is_ext))"
proof -
  from script_names find_name_range obtain i where i: "unicode_find_name unicode_script_name_table script_name = Some i" "i = - 1 \<or> 0 \<le> i"
    by metis
  have "script_answers (unicode_script cr script_name False) (cr_realloc_func cr) (in_script (i + 1) False)" if "0 \<le> i"
  proof -
    have "unicode_script cr script_name False = do { cr1 \<leftarrow> script_fail (script_loop (i + 1) unicode_script_table 0 cr); Some (cr1, 0) }"
      using i(1) that by (auto simp: unicode_script_def Let_def add.commute)
    then show ?thesis using yields_bind [OF script_fail_yields [OF script_builds [OF assms]] script_done] by (simp add: in_script_def)
  qed
  then show ?thesis using i unicode_script_ext [OF assms i(1)]
    by (intro exI [of _ i]) (cases is_ext; auto simp: unicode_script_def)
qed

text \<open>
  C29. Asking for a script by name: an unknown name gives -2 and leaves the range alone.  For a known
  name the result is 0 whenever the function returns, and the range then holds the characters of the
  script; with script extensions, also the characters that list the script, and for the two scripts of
  shared characters only those that list none.  It returns whenever the allocator does not fail.
\<close>

theorem unicode_script_sets:
  assumes "cr_empty cr" and "points_alloc (cr_realloc_func cr)"
  shows "\<exists>i. unicode_find_name unicode_script_name_table script_name = Some i \<and>
    (if i < 0 then unicode_script cr script_name is_ext = Some (cr, - 2)
     else script_answers (unicode_script cr script_name is_ext) (cr_realloc_func cr) (in_script (i + 1) is_ext))"
  using script_query [OF assms] .

theorem unicode_script_sets_witness:
  "\<exists>i. unicode_find_name unicode_script_name_table ''Latin'' = Some i \<and>
     (if i < 0 then unicode_script (cr_init test_realloc (Some test_realloc)) ''Latin'' True = Some (cr_init test_realloc (Some test_realloc), - 2)
      else script_answers (unicode_script (cr_init test_realloc (Some test_realloc)) ''Latin'' True) test_realloc (in_script (i + 1) True))"
  using unicode_script_sets [of "cr_init test_realloc (Some test_realloc)" "''Latin''" True] test_realloc_ok by (simp only: empty_init)

lemma add_intervals_no_memory:
  assumes "cr_empty cr" and "\<And>p n. cr_realloc_func cr p n = None" and "is \<noteq> []"
  shows "add_intervals cr is = Some (cr, True)"
proof -
  obtain a b js where "is = (a, b) # js" using assms(3) by (cases "is") auto
  then show ?thesis using assms(1,2) by (simp add: cr_add_interval_def cr_realloc_def cr_empty_def Let_def)
qed

text \<open>
  C28. Out of memory, \<open>unicode_script\<close> never returns: with an allocator that has no memory to give, a
  query for a script that some character has reaches the label \<open>fail\<close>, which jumps to itself.  The other
  queries return -1 there.
\<close>

theorem unicode_script_out_of_memory:
  assumes "cr_empty cr" and "\<And>p n. cr_realloc_func cr p n = None"
    and "unicode_find_name unicode_script_name_table script_name = Some i" "0 \<le> i" and "script_of x = Some (i + 1)"
  shows "unicode_script cr script_name is_ext = None"
proof -
  let ?cr = "if is_ext then cr_fresh cr else cr"
  from script_table_codes obtain rs where rs: "decode_runs script_run unicode_script_table 0 = Some rs" "runs_cover 0 rs 0xe01f0" by blast
  have "in_intervals (script_table.all_pieces (i + 1) rs) x"
    using script_table.all_pieces_selected [OF rs(2), of "i + 1" x] assms(5) by (auto simp: script_of_def rs(1) bind_eq_Some_conv)
  then have "script_table.all_pieces (i + 1) rs \<noteq> []" by auto
  then have "script_loop (i + 1) unicode_script_table 0 ?cr = Some (?cr, True)"
    unfolding script_table.loop_add_intervals [OF rs(1)] using assms(1,2) by (intro add_intervals_no_memory) auto
  then show ?thesis using assms(3,4) by (simp add: unicode_script_def script_fail_def Let_def add.commute)
qed

lemma script_of_0: "script_of 0 = Some UNICODE_SCRIPT_Common"
proof -
  from script_table_codes obtain rs where rs: "decode_runs script_run unicode_script_table 0 = Some rs" by blast
  then have "\<exists>n rs'. rs = (0, n, UNICODE_SCRIPT_Common) # rs' \<and> 0 < n"
    by (subst (asm) decode_runs.simps, subst (asm) (1 2) unicode_script_table_def)
      (auto simp: script_run_def script_run_length_def bind_eq_Some_conv)
  then show ?thesis by (auto simp: script_of_def rs)
qed

lemma common_position: "unicode_find_name unicode_script_name_table ''Common'' = Some 24"
  unfolding unicode_script_name_table_def unicode_find_name_def
  by (subst find_entry_loop_entries) (simp_all add: entry_name_def aliases.simps Let_def)

theorem unicode_script_out_of_memory_witness:
  "unicode_script (cr_init (\<lambda>_ _. None) (Some (\<lambda>_ _. None))) ''Common'' True = None"
  by (rule unicode_script_out_of_memory [OF _ _ common_position, where x = 0])
    (simp_all add: cr_empty_def cr_init_def cr_wf_def script_of_0)

section \<open>Properties\<close>

definition property_set :: "nat \<Rightarrow> int \<Rightarrow> bool" where
  "property_set i = in_runs (bounds (unicode_prop_table ! i) 0)"

interpretation derived: leaf_sets category_set property_set changed_set
  using category1_builds unicode_prop1_builds unicode_case1_builds by unfold_locales (auto simp: property_set_def)

abbreviation (input) "Either \<equiv> Combined CR_OP_UNION"
abbreviation (input) "Both \<equiv> Combined CR_OP_INTER"
abbreviation (input) "One_of \<equiv> Combined CR_OP_XOR"
abbreviation (input) "letters \<equiv> [UNICODE_GC_Lu, UNICODE_GC_Ll, UNICODE_GC_Lt, UNICODE_GC_Lm, UNICODE_GC_Lo, UNICODE_GC_Nl]"

text \<open>The derived properties as expressions.\<close>

definition derived_property :: "nat \<Rightarrow> set_expr option" where
  "derived_property i =
     (if i = UNICODE_PROP_Assigned then Some (Complement (In_category (M [UNICODE_GC_Cn])))
      else if i = UNICODE_PROP_Math then Some (Either (In_category (M [UNICODE_GC_Sm])) (Has_property UNICODE_PROP_Other_Math))
      else if i = UNICODE_PROP_Lowercase then Some (Either (In_category (M [UNICODE_GC_Ll])) (Has_property UNICODE_PROP_Other_Lowercase))
      else if i = UNICODE_PROP_Uppercase then Some (Either (In_category (M [UNICODE_GC_Lu])) (Has_property UNICODE_PROP_Other_Uppercase))
      else if i = UNICODE_PROP_Cased
      then Some (Either (Either (In_category (M [UNICODE_GC_Lu, UNICODE_GC_Ll, UNICODE_GC_Lt])) (Has_property UNICODE_PROP_Other_Uppercase))
        (Has_property UNICODE_PROP_Other_Lowercase))
      else if i = UNICODE_PROP_Alphabetic
      then Some (Either (Either (Either (In_category (M letters)) (Has_property UNICODE_PROP_Other_Uppercase))
        (Has_property UNICODE_PROP_Other_Lowercase)) (Has_property UNICODE_PROP_Other_Alphabetic))
      else if i = UNICODE_PROP_Grapheme_Base
      then Some (Complement (Either (In_category (M [UNICODE_GC_Cc, UNICODE_GC_Cf, UNICODE_GC_Cs, UNICODE_GC_Co, UNICODE_GC_Cn,
        UNICODE_GC_Zl, UNICODE_GC_Zp, UNICODE_GC_Me, UNICODE_GC_Mn])) (Has_property UNICODE_PROP_Other_Grapheme_Extend)))
      else if i = UNICODE_PROP_Grapheme_Extend
      then Some (Either (In_category (M [UNICODE_GC_Me, UNICODE_GC_Mn])) (Has_property UNICODE_PROP_Other_Grapheme_Extend))
      else if i = UNICODE_PROP_XID_Start
      then Some (Both (Either (In_category (M letters)) (Has_property UNICODE_PROP_Other_ID_Start))
        (Complement (Either (Either (Has_property UNICODE_PROP_Pattern_Syntax) (Has_property UNICODE_PROP_Pattern_White_Space))
          (Has_property UNICODE_PROP_XID_Start1))))
      else if i = UNICODE_PROP_XID_Continue
      then Some (Both (Either (Either (In_category (M (letters @ [UNICODE_GC_Mn, UNICODE_GC_Mc, UNICODE_GC_Nd, UNICODE_GC_Pc])))
          (Has_property UNICODE_PROP_Other_ID_Start)) (Has_property UNICODE_PROP_Other_ID_Continue))
        (Complement (Either (Either (Has_property UNICODE_PROP_Pattern_Syntax) (Has_property UNICODE_PROP_Pattern_White_Space))
          (Has_property UNICODE_PROP_XID_Continue1))))
      else if i = UNICODE_PROP_Changes_When_Titlecased
      then Some (One_of (Changed_by CASE_U) (Has_property UNICODE_PROP_Changes_When_Titlecased1))
      else if i = UNICODE_PROP_Changes_When_Casefolded
      then Some (One_of (Changed_by CASE_F) (Has_property UNICODE_PROP_Changes_When_Casefolded1))
      else if i = UNICODE_PROP_Changes_When_NFKC_Casefolded
      then Some (One_of (Changed_by CASE_F) (Has_property UNICODE_PROP_Changes_When_NFKC_Casefolded1))
      else if i = UNICODE_PROP_ID_Continue
      then Some (One_of (Has_property UNICODE_PROP_ID_Start) (Has_property UNICODE_PROP_ID_Continue1))
      else None)"

lemma prop_program_postfix: "prop_program i = map_option postfix (derived_property i)"
  by (simp add: prop_program_def derived_property_def)

lemma derived_property_fits: "derived_property i = Some e \<Longrightarrow> leaves_ok e \<and> stack_need e \<le> 4 \<and> points_need e < 2 ^ 28"
  by (auto simp: derived_property_def split: if_splits)

text \<open>The set a property stands for, by its number.\<close>

definition has_property :: "nat \<Rightarrow> int \<Rightarrow> bool" where
  "has_property i x \<longleftrightarrow>
     (if i = UNICODE_PROP_ASCII then x < 0x80
      else if i = UNICODE_PROP_Any then x < 0x110000
      else if i = UNICODE_PROP_Changes_When_Uppercased then lre_case_conv x 0 \<noteq> Some [x]
      else if i = UNICODE_PROP_Changes_When_Lowercased then lre_case_conv x 1 \<noteq> Some [x]
      else if i = UNICODE_PROP_Changes_When_Casemapped then \<exists>k \<in> {0, 1, 2}. lre_case_conv x k \<noteq> Some [x]
      else case derived_property i of
        Some e \<Rightarrow> denotes category_set property_set changed_set e x
      | None \<Rightarrow> property_set i x)"

lemma builds_property:
  "builds r realloc n S \<Longrightarrow> n < 2 ^ 28 \<Longrightarrow> (\<And>x. 0 \<le> x \<Longrightarrow> x < 2 ^ 32 \<Longrightarrow> S x \<longleftrightarrow> has_property i x) \<Longrightarrow> answers (ret_of r) realloc (has_property i)"
  using builds_answers builds_cong by blast

lemma one_interval_builds:
  assumes "0 \<le> a" "a < b" "b \<le> 0x110000" and "cr_empty cr" and "points_alloc (cr_realloc_func cr)"
  shows "builds (cr_add_interval cr (of_int a) (of_int b)) (cr_realloc_func cr) 0x220000 (\<lambda>x. a \<le> x \<and> x < b)"
proof -
  have "builds (add_intervals cr [(a, b)]) (cr_realloc_func cr) 0x220000 (in_intervals [(a, b)])"
    using assms by (intro add_intervals_builds [of a _ b]) auto
  then show ?thesis unfolding add_one_interval by (rule builds_cong) simp
qed

lemma changed_set_single:
  "changed_set CASE_U x \<longleftrightarrow> lre_case_conv x 0 \<noteq> Some [x]" "changed_set CASE_L x \<longleftrightarrow> lre_case_conv x 1 \<noteq> Some [x]"
  "changed_set 7 x \<longleftrightarrow> (\<exists>k \<in> {0, 1, 2}. lre_case_conv x k \<noteq> Some [x])"
  by (auto simp: changed_set_def bit_simps)

lemma derived_answers:
  assumes "derived_property i = Some e" and "i \<notin> {50, 52, 56, 57, 60}" and "cr_empty cr" and "points_alloc (cr_realloc_func cr)"
  shows "answers (ret_of (unicode_prop_ops cr (postfix e))) (cr_realloc_func cr) (has_property i)"
  using derived.unicode_prop_ops_builds [of e cr] derived_property_fits [OF assms(1)] assms
  by (intro builds_property) (auto simp: has_property_def)

lemma table_answers:
  assumes "derived_property i = None" and "i \<notin> {50, 52, 56, 57, 60}" and "i < 50" and "cr_empty cr" and "points_alloc (cr_realloc_func cr)"
  shows "answers (ret_of (unicode_prop1 cr i)) (cr_realloc_func cr) (has_property i)"
  using derived.property_builds [OF assms(3-5)] assms(1,2) by (intro builds_property) (auto simp: has_property_def)

lemma derived_numbers: "50 \<le> i \<Longrightarrow> i < 69 \<Longrightarrow> i \<notin> {50, 52, 56, 57, 60} \<Longrightarrow> derived_property i \<noteq> None"
proof -
  assume "50 \<le> i" "i < 69" and n: "i \<notin> {50, 52, 56, 57, 60}"
  then have "i - 50 < 19" "i = 50 + (i - 50)" by simp_all
  then obtain j where "j < 19" "i = 50 + j" by blast
  then show ?thesis using n by (auto simp: derived_property_def less_Suc_eq numeral_eq_Suc)
qed

lemma property_query:
  assumes "cr_empty cr" and "points_alloc (cr_realloc_func cr)"
  shows "\<exists>i. unicode_find_name unicode_prop_name_table prop_name = Some i \<and>
      (if i < 0 then unicode_prop cr prop_name = Some (cr, - 2)
       else answers (unicode_prop cr prop_name) (cr_realloc_func cr) (has_property (nat i + UNICODE_PROP_ASCII_Hex_Digit)))"
proof -
  from prop_names find_name_range obtain i where i: "unicode_find_name unicode_prop_name_table prop_name = Some i" "i = - 1 \<or> 0 \<le> i \<and> i < 53"
    by (metis of_nat_numeral)
  have "answers (unicode_prop cr prop_name) (cr_realloc_func cr) (has_property (nat i + 16))" if "\<not> i < 0"
  proof -
    define k where "k = nat i + UNICODE_PROP_ASCII_Hex_Digit"
    have k: "k < 69" using that i(2) by (auto simp: k_def)
    have un: "unicode_prop cr prop_name = (
        if k = 50 then ret_of (cr_add_interval cr (of_int 0) (of_int 0x80))
        else if k = 52 then ret_of (cr_add_interval cr (of_int 0) (of_int 0x110000))
        else if k = 60 then ret_of (unicode_case1 cr CASE_U)
        else if k = 57 then ret_of (unicode_case1 cr CASE_L)
        else if k = 56 then ret_of (unicode_case1 cr (CASE_U OR CASE_L OR CASE_F))
        else (case derived_property k of Some e \<Rightarrow> ret_of (unicode_prop_ops cr (postfix e))
          | None \<Rightarrow> if k \<ge> 50 then Some (cr, - 2) else ret_of (unicode_prop1 cr k)))"
      using that i(1) by (simp add: unicode_prop_def k_def Let_def prop_program_postfix length_prop_table split: option.splits)
    note ca = unicode_case1_builds [OF assms] and iv = one_interval_builds [OF _ _ _ assms]
    consider "k = 50" | "k = 52" | "k = 60" | "k = 57" | "k = 56" | "k \<notin> {50, 52, 56, 57, 60}" by blast
    then have "answers (unicode_prop cr prop_name) (cr_realloc_func cr) (has_property k)"
    proof cases
      case 1
      have "answers (ret_of (cr_add_interval cr (of_int 0) (of_int 0x80))) (cr_realloc_func cr) (has_property 50)"
        by (rule builds_property [OF iv]) (auto simp: has_property_def)
      then show ?thesis unfolding un 1 by simp
    next
      case 2
      have "answers (ret_of (cr_add_interval cr (of_int 0) (of_int 0x110000))) (cr_realloc_func cr) (has_property 52)"
        by (rule builds_property [OF iv]) (auto simp: has_property_def)
      then show ?thesis unfolding un 2 by simp
    next
      case 3
      then show ?thesis unfolding un by (simp, intro builds_property [OF ca]) (simp_all add: has_property_def changed_set_single)
    next
      case 4
      then show ?thesis unfolding un by (simp, intro builds_property [OF ca]) (simp_all add: has_property_def changed_set_single)
    next
      case 5
      then show ?thesis unfolding un by (simp, intro builds_property [OF ca]) (simp_all add: has_property_def changed_set_single)
    next
      case 6
      then show ?thesis unfolding un using derived_answers [OF _ 6 assms] table_answers [OF _ 6 _ assms] derived_numbers [OF _ k 6]
        by (auto split: option.splits)
    qed
    then show ?thesis by (simp add: k_def)
  qed
  then show ?thesis using i by (intro exI [of _ i]) (auto simp: unicode_prop_def)
qed

lemma id_start_property: "has_property UNICODE_PROP_ID_Start (uint (x :: u32)) \<longleftrightarrow> lre_is_id_start (uint x) = Some True"
  using is_table_lookup [OF ID_Start_table, of "uint x"]
    by (simp add: lre_is_id_start_def has_property_def derived_property_def property_set_def unicode_prop_table_def)

text \<open>
  C25. Asking for a property by name: an unknown name gives -2 and leaves the range alone.  For a known
  name no table is left, no assertion of the stack machine fails and -2 is not returned; the query
  fails only if the allocator does, and otherwise the range holds exactly the characters with the
  property: those of the runs of its table, those that the case conversion changes, or those that the
  Boolean expression of a derived property describes.  For \<open>ID_Start\<close> these are the characters that the
  lexer's indexed lookup accepts.
\<close>

theorem unicode_prop_sets:
  assumes "cr_empty cr" and "points_alloc (cr_realloc_func cr)"
  shows "(\<exists>i. unicode_find_name unicode_prop_name_table prop_name = Some i \<and>
      (if i < 0 then unicode_prop cr prop_name = Some (cr, - 2)
       else answers (unicode_prop cr prop_name) (cr_realloc_func cr) (has_property (nat i + UNICODE_PROP_ASCII_Hex_Digit)))) \<and>
    (has_property UNICODE_PROP_ID_Start (uint x) \<longleftrightarrow> lre_is_id_start (uint (x :: u32)) = Some True)"
  using property_query [OF assms, of prop_name] id_start_property [of x] by (rule conjI)

theorem unicode_prop_sets_witness:
  "\<exists>i. unicode_find_name unicode_prop_name_table ''XID_Start'' = Some i \<and>
     (if i < 0 then unicode_prop (cr_init test_realloc (Some test_realloc)) ''XID_Start'' = Some (cr_init test_realloc (Some test_realloc), - 2)
      else answers (unicode_prop (cr_init test_realloc (Some test_realloc)) ''XID_Start'') test_realloc (has_property (nat i + 16)))"
  using conjunct1 [OF unicode_prop_sets [of "cr_init test_realloc (Some test_realloc)" "''XID_Start''" 0]] test_realloc_ok
  by (simp only: empty_init)

end
