(* ===== verification/Lre_Unicode.thy ===== *)
theory Lre_Unicode
  imports Lre_Class Unicode_Queries
begin

text \<open>
  The property escapes of regular expressions (\<open>parse_unicode_property\<close> of \<^verbatim>\<open>libregexp.c\<close>) on the queries
  of \<^verbatim>\<open>libunicode.c\<close>: the parameter \<open>unicode_sets\<close> of the regular expression parser is instantiated by
  the three functions themselves.
\<close>

definition c_name :: "byte list \<Rightarrow> string" where
  "c_name bs = map (\<lambda>b. char_of (unat b)) bs"

definition libunicode_sets :: unicode_sets where
  "libunicode_sets =
     \<lparr>us_script = (\<lambda>cr name is_ext. unicode_script cr (c_name name) is_ext),
      us_general_category = (\<lambda>cr name. unicode_general_category cr (c_name name)),
      us_prop = (\<lambda>cr name. unicode_prop cr (c_name name))\<rparr>"

text \<open>The set of characters that \<open>\p{name=value}\<close> and \<open>\p{name}\<close> stand for; \<open>None\<close> when the name is unknown.\<close>

definition known :: "string \<Rightarrow> byte list \<Rightarrow> (nat \<Rightarrow> int \<Rightarrow> bool) \<Rightarrow> (int \<Rightarrow> bool) option" where
  "known tab name S = (case unicode_find_name tab (c_name name) of
      Some i \<Rightarrow> if i < 0 then None else Some (S (nat i)) | None \<Rightarrow> None)"

definition in_group :: "nat \<Rightarrow> int \<Rightarrow> bool" where
  "in_group i x \<longleftrightarrow> (\<exists>g. general_category x = Some g \<and> g \<in> set (category_group i))"

definition property_meaning :: "byte list \<Rightarrow> byte list \<Rightarrow> (int \<Rightarrow> bool) option" where
  "property_meaning name value =
     (if name = str ''Script'' \<or> name = str ''sc'' then known unicode_script_name_table value (\<lambda>i. in_script (int i + 1) False)
      else if name = str ''Script_Extensions'' \<or> name = str ''scx'' then known unicode_script_name_table value (\<lambda>i. in_script (int i + 1) True)
      else if name = str ''General_Category'' \<or> name = str ''gc'' then known unicode_gc_name_table value in_group
      else if value \<noteq> [] then None
      else case known unicode_gc_name_table name in_group of
        Some S \<Rightarrow> Some S
      | None \<Rightarrow> known unicode_prop_name_table name (\<lambda>i. has_property (i + 16)))"

definition special_names :: "string list" where
  "special_names = [''Script'', ''sc'', ''Script_Extensions'', ''scx'', ''General_Category'', ''gc'']"

lemma names_distinct: "distinct (map str special_names)"
  by (simp add: special_names_def str_def)

definition holds :: "CharRange \<Rightarrow> (int \<Rightarrow> bool) \<Rightarrow> bool" where
  "holds cr S \<longleftrightarrow> cr_wf cr \<and> sorted (cr_live cr) \<and> even (cr_len cr) \<and> (\<forall>x. in_points (cr_live cr) x \<longleftrightarrow> S (uint x))"

definition found :: "CharRange \<Rightarrow> points_realloc \<Rightarrow> (int \<Rightarrow> bool) \<Rightarrow> bool" where
  "found cr realloc S \<longleftrightarrow> holds cr S \<and> cr_realloc_func cr = realloc \<and> cr_size cr < 2 ^ 29"

lemma unicode_lookup_set:
  assumes "points_alloc realloc" and "alloc_always realloc"
  shows "case property_meaning name value of
      None \<Rightarrow> \<exists>msg. unicode_lookup libunicode_sets (cr_init realloc (Some realloc)) name value = PErr msg \<and> msg \<noteq> ''out of memory''
    | Some S \<Rightarrow> \<exists>cr. unicode_lookup libunicode_sets (cr_init realloc (Some realloc)) name value = POk cr \<and> found cr realloc S"
proof -
  let ?cr = "cr_init realloc (Some realloc)"
  have e: "cr_empty ?cr" "points_alloc (cr_realloc_func ?cr)" "cr_realloc_func ?cr = realloc" using assms(1) by (simp_all add: cr_empty_def cr_init_def cr_wf_def)
  have sc: "case known unicode_script_name_table v (\<lambda>i. in_script (int i + 1) is_ext) of
      None \<Rightarrow> unicode_script ?cr (c_name v) is_ext = Some (?cr, - 2)
    | Some S \<Rightarrow> \<exists>cr. unicode_script ?cr (c_name v) is_ext = Some (cr, 0) \<and> found cr realloc S" for v is_ext
    using script_query [OF e(1,2), of "c_name v" is_ext] assms(2) e(3)
    by (auto simp: known_def script_answers_def holds_def found_def split: option.splits if_splits)
  have gc: "case known unicode_gc_name_table v in_group of
      None \<Rightarrow> unicode_general_category ?cr (c_name v) = Some (?cr, - 2)
    | Some S \<Rightarrow> \<exists>cr. unicode_general_category ?cr (c_name v) = Some (cr, 0) \<and> found cr realloc S" for v
    using category_query [OF e(1,2), of "c_name v"] assms(2) e(3)
    by (auto simp: known_def answers_def holds_def found_def in_group_def split: option.splits if_splits)
  have pr: "case known unicode_prop_name_table v (\<lambda>i. has_property (i + 16)) of
      None \<Rightarrow> unicode_prop ?cr (c_name v) = Some (?cr, - 2)
    | Some S \<Rightarrow> \<exists>cr. unicode_prop ?cr (c_name v) = Some (cr, 0) \<and> found cr realloc S" for v
    using property_query [OF e(1,2), of "c_name v"] assms(2) e(3)
    by (auto simp: known_def answers_def holds_def found_def split: option.splits if_splits)
  note lib = unicode_lookup_def libunicode_sets_def ub_def property_meaning_def
  consider "name = str ''Script'' \<or> name = str ''sc''" | "name = str ''Script_Extensions'' \<or> name = str ''scx''"
    | "name = str ''General_Category'' \<or> name = str ''gc''" | "\<forall>s \<in> set special_names. name \<noteq> str s" by (auto simp: special_names_def)
  then show ?thesis
  proof cases
    case 1
    then show ?thesis using sc [of "value" False] names_distinct
      by (cases "known unicode_script_name_table value (\<lambda>i. in_script (int i + 1) False)") (auto simp: lib special_names_def)
  next
    case 2
    then show ?thesis using sc [of "value" True] names_distinct
      by (cases "known unicode_script_name_table value (\<lambda>i. in_script (int i + 1) True)") (auto simp: lib special_names_def)
  next
    case 3
    then show ?thesis using gc [of "value"] names_distinct
      by (cases "known unicode_gc_name_table value in_group") (auto simp: lib special_names_def)
  next
    case 4
    show ?thesis
    proof (cases "value = []")
      case True
      then show ?thesis using 4 gc [of name] pr [of name]
        by (cases "known unicode_gc_name_table name in_group"; cases "known unicode_prop_name_table name (\<lambda>i. has_property (i + 16))")
          (auto simp: lib special_names_def)
    next
      case False
      then show ?thesis using 4 by (simp add: lib special_names_def)
    qed
  qed
qed

text \<open>The text of an escape after the backslash and the letter.\<close>

definition escape_text :: "byte list \<Rightarrow> byte list option \<Rightarrow> byte list" where
  "escape_text name val = ch CHR ''{'' # name @ (case val of None \<Rightarrow> [] | Some v \<Rightarrow> ch CHR ''='' # v) @ [ch CHR ''}'']"

lemma copy_unicode_name_run:
  "list_all is_unicode_char xs \<Longrightarrow> \<not> is_unicode_char b \<Longrightarrow> length nm \<le> 63 \<Longrightarrow>
     copy_unicode_name (pre @ xs @ b # post) (length pre) nm =
       Some (if length nm + length xs \<le> 63 then Some (nm @ xs, length pre + length xs) else None)"
proof (induction xs arbitrary: pre nm)
  case Nil
  then show ?case by (simp add: copy_unicode_name.simps)
next
  case (Cons x xs)
  then show ?case using Cons.IH [of "nm @ [x]" "pre @ [x]"] by (subst copy_unicode_name.simps) auto
qed

lemma delimiters: "\<not> is_unicode_char (ch CHR ''='')" "\<not> is_unicode_char (ch CHR ''}'')" "ch CHR ''}'' \<noteq> ch CHR ''=''" by code_simp+

lemma parse_unicode_property_text:
  assumes "list_all is_unicode_char name" and "pred_option (list_all is_unicode_char) val" and "ps_buf s = pre @ escape_text name val @ post"
  shows "parse_unicode_property s (length pre) is_inv =
    (if 63 < length name then PErr ''unknown unicode property name''
     else if 63 < length (case val of None \<Rightarrow> [] | Some v \<Rightarrow> v) then PErr ''unknown unicode property value''
     else pbind (unicode_lookup (ps_unicode s) (cr_init (ps_cr_realloc s) (Some (ps_cr_realloc s))) name (case val of None \<Rightarrow> [] | Some v \<Rightarrow> v)) (\<lambda>cr.
       pbind (if is_inv then pbind (ub (cr_invert cr)) (\<lambda>(cr, err). if err then PErr '''' else POk cr) else POk cr) (\<lambda>cr.
       POk (cr, length pre + length (escape_text name val)))))"
proof -
  let ?buf = "ps_buf s" and ?p = "Suc (length pre)"
  have name: "copy_unicode_name ?buf ?p [] = Some (if length name \<le> 63 then Some (name, ?p + length name) else None)"
    using copy_unicode_name_run [OF assms(1), of _ "[]" "pre @ [ch CHR ''{'']"] delimiters assms(3)
    by (cases val) (simp_all add: escape_text_def)
  have open_brace: "rd ?buf (length pre) = Some (ch CHR ''{'')" using assms(3) by (simp add: escape_text_def)
  show ?thesis
  proof (cases val)
    case None
    have "rd ?buf (?p + length name) = Some (ch CHR ''}'')"
      using rd_append_at [of "pre @ ch CHR ''{'' # name" "ch CHR ''}''" post] assms(3) None by (simp add: escape_text_def)
    then show ?thesis using None name open_brace delimiters by (simp add: parse_unicode_property_def escape_text_def)
  next
    case (Some v)
    have v: "list_all is_unicode_char v" using assms(2) Some by simp
    have eq: "rd ?buf (?p + length name) = Some (ch CHR ''='')"
      using rd_append_at [of "pre @ ch CHR ''{'' # name" "ch CHR ''=''" "v @ ch CHR ''}'' # post"] assms(3) Some by (simp add: escape_text_def)
    have "copy_unicode_name ?buf (Suc (?p + length name)) [] = Some (if length v \<le> 63 then Some (v, Suc (?p + length name) + length v) else None)"
      using copy_unicode_name_run [OF v delimiters(2), of "[]" "pre @ ch CHR ''{'' # name @ [ch CHR ''='']" post] assms(3) Some by (simp add: escape_text_def)
    moreover have "rd ?buf (Suc (?p + length name) + length v) = Some (ch CHR ''}'')"
      using rd_append_at [of "pre @ ch CHR ''{'' # name @ ch CHR ''='' # v" "ch CHR ''}''" post] assms(3) Some by (simp add: escape_text_def add.assoc)
    ultimately show ?thesis using Some name open_brace eq by (simp add: parse_unicode_property_def escape_text_def add.assoc)
  qed
qed

lemma property_invert:
  assumes "found cr realloc S" and "points_alloc realloc" and "alloc_always realloc"
  shows "\<exists>cr'. cr_invert cr = Some (cr', False) \<and> holds cr' (complement S)"
proof -
  note c = assms(1) [unfolded found_def holds_def]
  have "cr_size cr * 3 < 2 ^ 31" using c by simp
  with cr_invert_ok [of cr] c assms(2,3) obtain cr' where
    "cr_invert cr = Some (cr', False)" "cr_wf cr'" "canonical (cr_live cr')" "\<forall>x. in_points (cr_live cr') x \<longleftrightarrow> x < - 1 \<and> \<not> in_points (cr_live cr) x" by auto
  then show ?thesis using c canonical_sorted [of "cr_live cr'"]
    by (auto simp: holds_def less_minus_1 complement_def canonical_def cr_live_def cr_wf_def)
qed

text \<open>
  C39. A property escape in the text of a regular expression in Unicode mode, from the backslash on, read by the parser of class
  atoms with the tables of the program and an allocator that does not fail: no read leaves the pattern
  or a table.  It is a syntax error exactly when the name or the value is longer than 63 bytes, or the
  name, or the name of the value, is unknown; otherwise the parser stops after the
  closing brace with a class that holds exactly the characters the escape stands for, and with the capital
  letter exactly the others.
\<close>

theorem property_escape_set:
  assumes "points_alloc (ps_cr_realloc s)" and "alloc_always (ps_cr_realloc s)" and "ps_unicode s = libunicode_sets" and "ps_is_utf16 s"
    and "list_all is_unicode_char name" and "pred_option (list_all is_unicode_char) val"
    and "ps_buf s = pre @ 0x5c # (if is_inv then ch CHR ''P'' else ch CHR ''p'') # escape_text name val @ post" and "length pre + 1 < ps_buf_end s"
  shows "case (if length name \<le> 63 \<and> length (case val of None \<Rightarrow> [] | Some v \<Rightarrow> v) \<le> 63
        then property_meaning name (case val of None \<Rightarrow> [] | Some v \<Rightarrow> v) else None) of
      None \<Rightarrow> \<exists>msg. get_class_atom s (length pre) inclass = PErr msg \<and> msg \<noteq> ''out of memory''
    | Some S \<Rightarrow> \<exists>cr. get_class_atom s (length pre) inclass = POk (CLASS_RANGE_BASE, Some cr, length pre + 2 + length (escape_text name val)) \<and>
        holds cr (if is_inv then complement S else S)"
proof -
  let ?v = "case val of None \<Rightarrow> [] | Some v \<Rightarrow> v" and ?c = "if is_inv then ch CHR ''P'' else ch CHR ''p''"
  have letters: "class_shorthand ?c = None" "?c \<noteq> ch CHR ''c''" "?c = ch CHR ''p'' \<or> ?c = ch CHR ''P''" "?c = ch CHR ''P'' \<longleftrightarrow> is_inv" by (cases is_inv; simp add: class_shorthand_def)+
  have "rd (ps_buf s) (length pre) = Some 0x5c" "rd (ps_buf s) (Suc (length pre)) = Some ?c"
    using rd_append_at [of "pre @ [0x5c]" ?c "escape_text name val @ post"] assms(7) by simp_all
  then have atom: "get_class_atom s (length pre) inclass =
    pbind (parse_unicode_property s (length pre + 2) is_inv) (\<lambda>(cr, p). POk (CLASS_RANGE_BASE, Some cr, p))"
    using letters assms(4,8) by (simp add: get_class_atom_def escape_atom_def)
  note parsed = parse_unicode_property_text [OF assms(5,6), of s "pre @ [0x5c, ?c]" post is_inv]
  note looked_up = unicode_lookup_set [OF assms(1,2), of name ?v]
  show ?thesis
  proof (cases "length name \<le> 63 \<and> length ?v \<le> 63")
    case False
    then show ?thesis using atom parsed assms(7) by auto
  next
    case True
    show ?thesis
    proof (cases "property_meaning name ?v")
      case None
      then show ?thesis using True atom parsed assms(3,7) looked_up by auto
    next
      case (Some S)
      with looked_up obtain cr where cr: "unicode_lookup libunicode_sets (cr_init (ps_cr_realloc s) (Some (ps_cr_realloc s))) name ?v = POk cr" "found cr (ps_cr_realloc s) S" by auto
      then show ?thesis using True Some atom parsed assms(3,7) property_invert [OF cr(2) assms(1,2)] by (cases is_inv) (auto simp: found_def)
    qed
  qed
qed

text \<open>The witness: \<^verbatim>\<open>\P{Lu}\<close> at the start of a pattern.\<close>

definition sample_state :: REParseState where
  "sample_state = \<lparr>ps_byte_code = dbuf_init small_realloc, ps_buf = 0x5c # ch CHR ''P'' # escape_text (str ''Lu'') None @ [0], ps_buf_ptr = 0, ps_buf_end = 6,
     ps_re_flags = 0, ps_is_utf16 = True, ps_ignore_case = False, ps_dotall = False, ps_capture_count = 1, ps_total_capture_count = 1,
     ps_has_named_captures = 0, ps_group_names = dbuf_init small_realloc, ps_cr_realloc = test_realloc, ps_unicode = libunicode_sets,
     ps_stack_overflow = (\<lambda>_. False)\<rparr>"

lemma Lu_meaning: "property_meaning (str ''Lu'') [] = Some (in_group UNICODE_GC_Lu)"
proof -
  have "unicode_find_name unicode_gc_name_table ''Lu'' = Some 1"
    unfolding unicode_gc_name_table_def unicode_find_name_def
    by (subst find_entry_loop_entries) (simp_all add: entry_name_def aliases.simps Let_def)
  moreover have "c_name (str ''Lu'') = ''Lu''" by code_simp
  moreover have "\<forall>n \<in> set special_names. str ''Lu'' \<noteq> str n" by code_simp
  ultimately show ?thesis by (simp add: property_meaning_def known_def special_names_def)
qed

theorem property_escape_set_witness:
  "\<exists>cr. get_class_atom sample_state 0 False = POk (CLASS_RANGE_BASE, Some cr, 6) \<and> holds cr (complement (in_group UNICODE_GC_Lu))"
proof -
  have "points_alloc (ps_cr_realloc sample_state)" "alloc_always (ps_cr_realloc sample_state)"
    using test_realloc_ok by (simp_all add: sample_state_def alloc_always_def test_realloc_def)
  moreover have "list_all is_unicode_char (str ''Lu'')" "length (str ''Lu'') = 2" by code_simp+
  moreover have "length (escape_text (str ''Lu'') None) = 4" by code_simp
  ultimately show ?thesis
    using property_escape_set [of sample_state "str ''Lu''" None "[]" True "[0]" False] Lu_meaning by (simp add: sample_state_def)
qed

end
