(* ===== verification/Spec2Isabelle.thy ===== *)
theory Spec2Isabelle
  imports Jsmn_Print Jsmn_Count Log_Forwarder Hello_World Lambda_Main Cutils_Str Dyn_Buf Cutils_Num Utf8 Rqsort_Main Exchange
    List_Head Char_Range Unicode_Case Unicode_Case_Sets Unicode_Names Unicode_Decomp Lre_Safe Lre_Corner Lre_Unicode
begin

text \<open>
  Verification development for \<^verbatim>\<open>wgi\<close>, a server that runs WebAssembly guests as CGI scripts and as
  lambda functions, and for the C code of its example guests.

  \<^bold>\<open>The program.\<close>  The host (\<^verbatim>\<open>src/src/\<close>) answers a request either through \<^verbatim>\<open>cgi.rs\<close>, which finds the script
  in the path, sets the meta-variables, runs the guest with the body as its input and parses what it
  printed, or through \<^verbatim>\<open>lambda.rs\<close>, which offers the guest the event and takes its response through
  host functions on guest memory.  What a guest writes to its error stream goes through the
  \<^verbatim>\<open>LogForwarder\<close> of \<^verbatim>\<open>wasm.rs\<close>.  The guests under \<^verbatim>\<open>src/examples/\<close> are a CGI script (\<^verbatim>\<open>hello_world.c\<close>), a
  lambda (\<^verbatim>\<open>lambda.c\<close>) with the tokenizer \<^verbatim>\<open>jsmn.h\<close>, and JavaScript through QuickJS, whose support
  libraries (\<^verbatim>\<open>cutils\<close>, \<^verbatim>\<open>list.h\<close>, \<^verbatim>\<open>libunicode\<close>, \<^verbatim>\<open>libregexp\<close>) are modelled here.

  \<^bold>\<open>Conventions.\<close>  A C object is a list with guarded accesses \<open>rd\<close> and \<open>wr\<close> (theory \<open>Wgi_Prelude\<close>); leaving it, a
  failed assertion or a use of a null pointer is \<open>None\<close> (\<open>PUndefined\<close> in the regular expression
  parser), so every theorem that shows a \<open>Some\<close> or \<open>POk\<close> shows memory safety.  Machine integers are words or
  integers with the wrap-around written out.  A jump that never ends (the label \<open>fail\<close> of \<open>unicode_script\<close>) is \<open>None\<close> too.  Releasing memory is
  not modelled, comparison functions are pure, and the size of the matcher's stack is not wrapped (blocks above 2 GiB).  Allocators and the parts outside the repository (the \<^verbatim>\<open>http\<close> crate, the file
  system, the WebAssembly run, the stack limit) are parameters with named hypotheses, each with a witness.

  \<^bold>\<open>Theories and sources.\<close>
  \<^item> \<open>Jsmn\<close>: \<^verbatim>\<open>examples/lambda/jsmn.h\<close>, every function.  \<open>Jsmn_Safe\<close>: memory safety and well-formed tokens; \<open>Jsmn_Prefix\<close>,
    \<open>Jsmn_Print\<close>: parsing printed JSON; \<open>Jsmn_Count\<close>: the counting mode predicts the parsing mode.
  \<^item> \<open>Log_Forwarder\<close>: \<^verbatim>\<open>wasm.rs\<close>; the logged lines do not depend on how the output was cut.
  \<^item> \<open>Cgi_Host\<close>: \<^verbatim>\<open>cgi.rs\<close> (path splitting, meta-variables, handler, response parsing).  \<open>Hello_World\<close>: the example
    script and the whole way of a request through handler, script and parser.
  \<^item> \<open>Lambda_Host\<close>: the memory functions of \<^verbatim>\<open>lambda.rs\<close>.  \<open>Lambda_Main\<close>: the example lambda over \<open>Jsmn\<close> and \<open>C_Stdio\<close>.
  \<^item> \<open>Cutils_Str\<close>, \<open>Cutils_Num\<close>, \<open>Utf8\<close>, \<open>Dyn_Buf\<close>: \<^verbatim>\<open>cutils.c\<close> and \<^verbatim>\<open>cutils.h\<close>.  The interface \<open>byte_sink\<close> of \<open>Dyn_Buf\<close> is what
    writers rely on.
  \<^item> \<open>Rqsort_Order\<close>, \<open>Rqsort_Part\<close>, \<open>Rqsort_Heap\<close>, \<open>Rqsort_Main\<close>, \<open>Exchange\<close>: \<^verbatim>\<open>rqsort\<close> with its partition, heap sort and insertion
    sort, the comparison functions of typed arrays in \<^verbatim>\<open>quickjs.c\<close>, and the byte level exchange functions.
  \<^item> \<open>List_Head\<close>: \<^verbatim>\<open>list.h\<close> on an explicit store of links, refined to sequences.
  \<^item> \<open>Char_Range\<close>: the \<^verbatim>\<open>CharRange\<close> sets of \<^verbatim>\<open>libunicode\<close>.  \<open>Unicode_Data\<close>, \<open>Unicode_Table\<close>, \<open>Unicode_Case\<close>: its tables, property
    lookups and case conversion.
  \<^item> \<open>Unicode_Set_Data\<close>, \<open>Unicode_Sets\<close>: the queries of \<^verbatim>\<open>libunicode.c\<close> that build the set of a script, a general category or a
    property from its name, with their tables and the stack machine of the derived properties.  \<open>Unicode_Norm_Data\<close>,
    \<open>Unicode_Norm\<close>: normalization, with the tables of decompositions, compositions and combining classes.
  \<^item> \<open>Lre_Exec\<close>: the matcher of \<^verbatim>\<open>libregexp.c\<close>, one definition per opcode.  \<open>Lre_Parse\<close>, \<open>Lre_Class\<close>, \<open>Lre_Compile\<close>: its lexer, character
    classes and compiler, writing into \<open>Dyn_Buf\<close> and \<open>Char_Range\<close>.

  \<^bold>\<open>Regular expressions.\<close>  \<open>Lre_Safe\<close> gives a byte-code verifier (a stack depth and the number of characters before each
  instruction) and shows that accepted code never gets the matcher stuck, in the style of
  progress and preservation.  \<open>Lre_Emit\<close> and \<open>Lre_Range\<close> show that the emitted range opcodes are read back as the
  set they were emitted for; \<open>Lre_Sets\<close> what the class escapes stand for; \<open>Lre_Escape\<close> numbers and escapes.
  \<open>Lre_Total\<close> shows that the compiler ends, through the contract \<open>pattern_parser\<close> between the term parser and
  the disjunction parser; \<open>Lre_Literal\<close> composes compiler and matcher on plain text; \<open>Lre_Header\<close> is about the accessors of
  the header; \<open>Lre_Corner\<close> evaluates corner cases that go wrong.

  \<^bold>\<open>Unicode.\<close>  \<open>Unicode_Names\<close> is about the lookup of names.  \<open>Unicode_Intervals\<close> states what it means to build a set of characters by
  appending intervals; its contracts \<open>run_decoder\<close> and \<open>run_table\<close> are met by the decoders of scripts, script extensions,
  categories and combining classes (\<open>Unicode_Sets_Tables\<close>, \<open>Unicode_Order\<close>), so that each loop over a table builds the set the runs of
  the table describe.  \<open>Unicode_Props\<close> does the same for the property tables and \<open>Unicode_Case_Sets\<close> for the characters that
  case conversion changes, against the conversion routine itself.  \<open>Unicode_Expr\<close> compiles set
  expressions to programs of the stack machine (contract \<open>leaf_sets\<close>) and shows that running them yields the set; \<open>Unicode_Queries\<close>
  puts these together for the three queries, and \<open>Lre_Unicode\<close> instantiates the parameter \<open>unicode_sets\<close> of the class parser with
  them.  \<open>Unicode_Order\<close> shows that the lookup of combining classes is total and that \<open>sort_cc\<close> sorts canonically, \<open>Unicode_Decomp\<close>
  that the search of decompositions agrees with a scan, that \<open>unicode_normalize\<close> is decomposition, ordering and
  composition over its buffer, and that it loses a character after some Hangul syllables.

  \<^bold>\<open>Fuel.\<close>  Loops that end are total functions with a measure.  Fuel bounds the matcher (which may run
  forever on arbitrary code; \<open>literal_search\<close> shows that enough fuel gives the result) and the mutually recursive
  parsers of the compiler, where more fuel than the pattern has bytes is always enough
  (\<open>lre_compile_terminates\<close>).  It also bounds the depth of the recursion of \<open>to_nfd_rec\<close>, which follows the
  decompositions of the table; the lemma on \<open>unicode_normalize\<close> takes a fuel with which the decomposition exists, and that one exists for every
  text is not shown (the depth is that of the Unicode data).

  \<^bold>\<open>Not modelled.\<close>  The JavaScript engine and \<^verbatim>\<open>libbf\<close> (vendored, far larger than the rest), the operating system modules
  (\<^verbatim>\<open>quickjs-libc.c\<close>, \<^verbatim>\<open>quickjs-wasi.c\<close>), the start-up code of the JavaScript guests (\<^verbatim>\<open>js.c\<close>, \<^verbatim>\<open>jsl.c\<close>, \<^verbatim>\<open>quickjs-lambda.c\<close>), which only calls
  the engine, the tools (\<^verbatim>\<open>qjs.c\<close>, \<^verbatim>\<open>qjsc.c\<close>, \<^verbatim>\<open>run-test262.c\<close>, \<^verbatim>\<open>unicode_gen.c\<close>), and the server start-up in \<^verbatim>\<open>main.rs\<close>.
\<close>

end
